(* ===== verification/Prelude.thy ===== *)
theory Prelude
  imports Main
begin

text \<open>
  Shared vocabulary of the development: the type synonyms and result types of the model, the
  Python notions of truthiness and of \<open>a or b\<close> on optional strings, JSON values, association
  lists read as Python dictionaries, and the named collections of facts
  (\<open>model_defs\<close>, \<open>inv_intros\<close>) that the component theories fill and use.

  Text is \<^typ>\<open>string\<close>: every \<^typ>\<open>char\<close> is one Python code point below 256. Instants are
  integers (microseconds since the epoch) and are always passed in, since the code reads them
  from the clock. UUIDs are their 128-bit integer value.
\<close>

named_theorems model_defs \<open>definitions of handlers that case analysis unfolds\<close>
named_theorems inv_intros \<open>preservation lemmas of the component invariants\<close>

type_synonym time = int
type_synonym uuid = int

section \<open>Python values\<close>

text \<open>Decoded JSON. Objects keep the order of their keys; a key occurs once.\<close>

datatype json =
    JNull
  | JBool bool
  | JNum int
  | JStr string
  | JList "json list"
  | JObj "(string \<times> json) list"

text \<open>\<open>d.get(k)\<close>: the value under a key, \<open>None\<close> for a missing key.\<close>

fun dget :: "(string \<times> json) list \<Rightarrow> string \<Rightarrow> json option" where
  "dget [] k = None"
| "dget ((k', v) # d) k = (if k' = k then Some v else dget d k)"

text \<open>\<open>d[k] = v\<close>: in place for a key that is there, at the end otherwise.\<close>

fun dset :: "(string \<times> json) list \<Rightarrow> string \<Rightarrow> json \<Rightarrow> (string \<times> json) list" where
  "dset [] k v = [(k, v)]"
| "dset ((k', v') # d) k v = (if k' = k then (k, v) # d else (k', v') # dset d k v)"

lemma dget_dset [simp]: "dget (dset d k v) j = (if j = k then Some v else dget d j)"
  by (induction d) auto

text \<open>An optional text as JSON.\<close>

definition opt_str :: "string option \<Rightarrow> json" where
  "opt_str x = (case x of None \<Rightarrow> JNull | Some s \<Rightarrow> JStr s)"

text \<open>\<open>isinstance(x, dict)\<close> on a possibly missing value, with the dictionary it is.\<close>

definition as_dict :: "json option \<Rightarrow> (string \<times> json) list option" where
  "as_dict v = (case v of Some (JObj d) \<Rightarrow> Some d | _ \<Rightarrow> None)"

lemma as_dict_Some [simp]: "as_dict (Some (JObj d)) = Some d"
  by (simp add: as_dict_def)

lemma as_dict_None [simp]: "as_dict None = None"
  by (simp add: as_dict_def)

text \<open>An optional string is falsy when it is \<open>None\<close> or empty.\<close>

definition truthy :: "string option \<Rightarrow> bool" where
  "truthy x = (case x of None \<Rightarrow> False | Some s \<Rightarrow> s \<noteq> [])"

definition py_or :: "string option \<Rightarrow> string option \<Rightarrow> string option" where
  "py_or a b = (if truthy a then a else b)"

lemma truthy_simps [simp]:
  "\<not> truthy None" "truthy (Some s) \<longleftrightarrow> s \<noteq> []"
  by (simp_all add: truthy_def)

lemma truthyE: "truthy x \<Longrightarrow> (\<And>s. x = Some s \<Longrightarrow> s \<noteq> [] \<Longrightarrow> thesis) \<Longrightarrow> thesis"
  by (cases x) auto

lemma py_or_simps [simp]:
  "py_or None b = b" "py_or (Some []) b = b"
  "s \<noteq> [] \<Longrightarrow> py_or (Some s) b = Some s"
  by (simp_all add: py_or_def)

text \<open>Truthiness of a decoded value and of a possibly missing one.\<close>

fun jtruthy :: "json \<Rightarrow> bool" where
  "jtruthy JNull = False"
| "jtruthy (JBool b) = b"
| "jtruthy (JNum n) = (n \<noteq> 0)"
| "jtruthy (JStr s) = (s \<noteq> [])"
| "jtruthy (JList xs) = (xs \<noteq> [])"
| "jtruthy (JObj d) = (d \<noteq> [])"

definition ojtruthy :: "json option \<Rightarrow> bool" where
  "ojtruthy v = (case v of None \<Rightarrow> False | Some j \<Rightarrow> jtruthy j)"

section \<open>Association lists as tables\<close>

text \<open>
  A table of rows with a primary key. \<open>upsert\<close> is what flushing an ORM object does: the row
  with the object's key is replaced, or the object is inserted.
\<close>

fun upsert :: "('a \<Rightarrow> 'k) \<Rightarrow> 'a \<Rightarrow> 'a list \<Rightarrow> 'a list" where
  "upsert key r [] = [r]"
| "upsert key r (x # xs) = (if key x = key r then r # xs else x # upsert key r xs)"

definition find_row :: "('a \<Rightarrow> 'k) \<Rightarrow> 'k \<Rightarrow> 'a list \<Rightarrow> 'a option" where
  "find_row key k xs = find (\<lambda>x. key x = k) xs"

lemma find_row_Nil [simp]: "find_row key k [] = None"
  by (simp add: find_row_def)

lemma find_row_Cons [simp]:
  "find_row key k (x # xs) = (if key x = k then Some x else find_row key k xs)"
  by (simp add: find_row_def)

lemma find_row_key: "find_row key k xs = Some r \<Longrightarrow> key r = k"
  by (induction xs) (auto split: if_splits)

lemma find_row_in: "find_row key k xs = Some r \<Longrightarrow> r \<in> set xs"
  by (induction xs) (auto split: if_splits)

lemma find_row_None: "find_row key k xs = None \<longleftrightarrow> k \<notin> key ` set xs"
  by (induction xs) auto

lemma find_row_upsert [simp]:
  "find_row key k (upsert key r xs) = (if key r = k then Some r else find_row key k xs)"
  by (induction xs) auto

lemma keys_upsert: "key ` set (upsert key r xs) = insert (key r) (key ` set xs)"
  by (induction xs) auto

lemma distinct_upsert: "distinct (map key xs) \<Longrightarrow> distinct (map key (upsert key r xs))"
  by (induction xs) (auto simp flip: set_map simp: keys_upsert [unfolded image_set])

lemma set_upsert_subset: "set (upsert key r xs) \<subseteq> insert r (set xs)"
  by (induction xs) auto

lemma in_upsert: "x \<in> set (upsert key r xs) \<Longrightarrow> x = r \<or> x \<in> set xs"
  using set_upsert_subset [of key r xs] by auto

lemma length_upsert:
  "length (upsert key r xs) = (if key r \<in> key ` set xs then length xs else Suc (length xs))"
  by (induction xs) auto

lemma upsert_id: "find_row key (key r) xs = Some r \<Longrightarrow> upsert key r xs = xs"
  by (induction xs) (auto split: if_splits)

lemma upsert_upsert [simp]: "key a = key b \<Longrightarrow> upsert key a (upsert key b xs) = upsert key a xs"
  by (induction xs) auto

lemma upsert_fresh:
  assumes "find_row key (key c) xs = None"
  shows "upsert key c xs = xs @ [c]"
  using assms by (induction xs) (auto split: if_splits)

lemma upsert_replace_last:
  assumes "key a \<notin> key ` set xs" "key b = key a"
  shows "upsert key b (xs @ [a]) = xs @ [b]"
  using assms by (induction xs) auto

section \<open>Values that expire\<close>

definition seconds :: "int \<Rightarrow> time" where
  "seconds n = n * 1000000"

text \<open>The value under a key with its expiry, if it has one; it is gone from that instant on.\<close>

definition live_at :: "(string \<rightharpoonup> 'v \<times> time option) \<Rightarrow> string \<Rightarrow> time \<Rightarrow> ('v \<times> time option) option" where
  "live_at m key now = (case m key of
     None \<Rightarrow> None
   | Some (v, e) \<Rightarrow> (case e of None \<Rightarrow> Some (v, e) | Some t \<Rightarrow> if now < t then Some (v, e) else None))"

lemma live_at_fresh: "live_at (m(key \<mapsto> (v, Some e))) key now = (if now < e then Some (v, Some e) else None)"
  by (simp add: live_at_def)

lemma live_at_other: "j \<noteq> key \<Longrightarrow> live_at (m(key \<mapsto> x)) j now = live_at m j now"
  by (simp add: live_at_def)

lemma live_at_earlier: "live_at m key u = Some (v, e) \<Longrightarrow> t \<le> u \<Longrightarrow> live_at m key t = Some (v, e)"
  by (auto simp: live_at_def split: option.splits if_splits)

section \<open>Result values\<close>

text \<open>An operation's outcome: \<open>Inl\<close> the exception raised, \<open>Inr\<close> the value returned.\<close>

type_synonym ('e, 'a) result = "'e + 'a"

fun is_ok :: "('e, 'a) result \<Rightarrow> bool" where
  "is_ok (Inl _) = False"
| "is_ok (Inr _) = True"

text \<open>
  \<open>scalar_one_or_none\<close> on the rows a query selects: no row, the row, or the documented
  \<open>MultipleResultsFound\<close>.
\<close>

datatype db_error = MultipleResultsFound

fun scalar_one_or_none :: "'a list \<Rightarrow> (db_error, 'a option) result" where
  "scalar_one_or_none [] = Inr None"
| "scalar_one_or_none [x] = Inr (Some x)"
| "scalar_one_or_none (x # y # xs) = Inl MultipleResultsFound"

lemma scalar_one_Some:
  "scalar_one_or_none (filter P xs) = Inr (Some r) \<Longrightarrow> r \<in> set xs \<and> P r"
proof -
  assume a: "scalar_one_or_none (filter P xs) = Inr (Some r)"
  then have "filter P xs = [r]"
    by (cases "filter P xs" rule: scalar_one_or_none.cases) auto
  then have "r \<in> set (filter P xs)" by simp
  then show ?thesis by simp
qed

lemma scalar_one_None:
  "scalar_one_or_none (filter P xs) = Inr None \<longleftrightarrow> (\<forall>x\<in>set xs. \<not> P x)"
proof (cases "filter P xs")
  case Nil
  then show ?thesis by (simp add: filter_empty_conv)
next
  case (Cons r rs)
  then have "r \<in> set (filter P xs)" by simp
  then have "\<not> (\<forall>x\<in>set xs. \<not> P x)" by auto
  with Cons show ?thesis by (cases rs) auto
qed

end
