(* ===== verification/Calls.thy ===== *)
theory Calls
  imports Prelude
begin

text \<open>
  The call entity of \<open>app/models/call.py\<close>: its statuses, the sets of terminal, active and
  transfer statuses, the table \<open>ALLOWED_TRANSITIONS\<close>, the call modes and the ORM row, with
  the exceptions of \<open>app/core/exceptions.py\<close>. The lemmas show that the transition table is
  acyclic, so every lifecycle it admits is finite and bounded.
\<close>

section \<open>Exceptions\<close>

text \<open>
  The exception classes. Messages are elided; of the \<open>detail\<close> dictionaries the model keeps
  the entries that some code reads back (an engine error's \<open>stage\<close> and \<open>call_id\<close>).
  \<open>OtherError\<close> is any exception that is not an \<open>AppError\<close>, with its \<open>str()\<close>.
\<close>

datatype app_error =
    NotFoundError
  | InvalidCallStateError
  | PhoneNormalizationError
  | EngineError (err_message: string) (err_stage: "string option") (err_call_id: "uuid option")
  | TransferError
  | NoManagerAvailableError
  | BlockedPhoneError
  | QuietHoursError
  | RateLimitError
  | InvalidTransitionError
  | TransferTimeoutError
  | CallerDroppedError
  | OtherError string

fun status_code :: "app_error \<Rightarrow> nat" where
  "status_code NotFoundError = 404"
| "status_code InvalidCallStateError = 422"
| "status_code PhoneNormalizationError = 422"
| "status_code (EngineError _ _ _) = 502"
| "status_code TransferError = 502"
| "status_code NoManagerAvailableError = 503"
| "status_code BlockedPhoneError = 422"
| "status_code QuietHoursError = 422"
| "status_code RateLimitError = 429"
| "status_code InvalidTransitionError = 422"
| "status_code TransferTimeoutError = 502"
| "status_code CallerDroppedError = 409"
| "status_code (OtherError _) = 500"

section \<open>Statuses and transitions\<close>

datatype call_status =
    CREATED
  | QUEUED
  | DIALING
  | RINGING
  | IN_PROGRESS
  | NEEDS_TRANSFER
  | TRANSFERRING
  | MANAGER_BRIEFING
  | CONNECTED_TO_MANAGER
  | COMPLETED
  | FAILED
  | STOPPED

definition terminal_statuses :: "call_status set" where
  "terminal_statuses = {COMPLETED, FAILED, STOPPED}"

fun allowed_transitions :: "call_status \<Rightarrow> call_status set" where
  "allowed_transitions CREATED = {QUEUED, IN_PROGRESS, FAILED, STOPPED}"
| "allowed_transitions QUEUED = {DIALING, RINGING, IN_PROGRESS, FAILED, STOPPED}"
| "allowed_transitions DIALING = {RINGING, IN_PROGRESS, FAILED, STOPPED}"
| "allowed_transitions RINGING = {IN_PROGRESS, FAILED, STOPPED}"
| "allowed_transitions IN_PROGRESS = {NEEDS_TRANSFER, COMPLETED, FAILED, STOPPED}"
| "allowed_transitions NEEDS_TRANSFER = {TRANSFERRING, COMPLETED, FAILED, STOPPED}"
| "allowed_transitions TRANSFERRING = {MANAGER_BRIEFING, FAILED, STOPPED}"
| "allowed_transitions MANAGER_BRIEFING = {CONNECTED_TO_MANAGER, FAILED, STOPPED}"
| "allowed_transitions CONNECTED_TO_MANAGER = {COMPLETED, FAILED, STOPPED}"
| "allowed_transitions COMPLETED = {}"
| "allowed_transitions FAILED = {}"
| "allowed_transitions STOPPED = {}"

definition active_statuses :: "call_status set" where
  "active_statuses =
     {QUEUED, DIALING, RINGING, IN_PROGRESS, NEEDS_TRANSFER, TRANSFERRING, MANAGER_BRIEFING,
      CONNECTED_TO_MANAGER}"

definition transfer_statuses :: "call_status set" where
  "transfer_statuses = {TRANSFERRING, MANAGER_BRIEFING, CONNECTED_TO_MANAGER}"

datatype call_mode = AUTO | VAPI | DIRECT | BROWSER

section \<open>The call row\<close>

text \<open>
  \<open>c_runtime_context\<close> is the transient attribute \<open>_runtime_context\<close> that the service sets on
  the object before it hands it to the engine.
\<close>

record call =
  c_id :: uuid
  c_created_at :: time
  c_phone :: string
  c_mode :: call_mode
  c_status :: call_status
  c_agent_profile_id :: "uuid option"
  c_manager_id :: "uuid option"
  c_vapi_call_id :: "string option"
  c_mango_call_id :: "string option"
  c_route_used :: "string option"
  c_telephony_leg_id :: "string option"
  c_transcript :: "json option"
  c_summary :: "string option"
  c_sentiment :: "string option"
  c_completed_at :: "time option"
  c_runtime_context :: "json option"

text \<open>The value of a \<open>CallStatus\<close>, as it is stored in audit payloads.\<close>

fun status_value :: "call_status \<Rightarrow> string" where
  "status_value CREATED = ''CREATED''"
| "status_value QUEUED = ''QUEUED''"
| "status_value DIALING = ''DIALING''"
| "status_value RINGING = ''RINGING''"
| "status_value IN_PROGRESS = ''IN_PROGRESS''"
| "status_value NEEDS_TRANSFER = ''NEEDS_TRANSFER''"
| "status_value TRANSFERRING = ''TRANSFERRING''"
| "status_value MANAGER_BRIEFING = ''MANAGER_BRIEFING''"
| "status_value CONNECTED_TO_MANAGER = ''CONNECTED_TO_MANAGER''"
| "status_value COMPLETED = ''COMPLETED''"
| "status_value FAILED = ''FAILED''"
| "status_value STOPPED = ''STOPPED''"

definition is_terminal :: "call \<Rightarrow> bool" where
  "is_terminal c \<longleftrightarrow> c_status c \<in> terminal_statuses"

definition is_active :: "call \<Rightarrow> bool" where
  "is_active c \<longleftrightarrow> c_status c \<in> active_statuses"

definition is_in_transfer :: "call \<Rightarrow> bool" where
  "is_in_transfer c \<longleftrightarrow> c_status c \<in> transfer_statuses"

section \<open>Lemmas\<close>

lemma terminal_iff: "s \<in> terminal_statuses \<longleftrightarrow> s = COMPLETED \<or> s = FAILED \<or> s = STOPPED"
  by (auto simp: terminal_statuses_def)

lemma terminal_simps [simp]:
  "COMPLETED \<in> terminal_statuses" "FAILED \<in> terminal_statuses" "STOPPED \<in> terminal_statuses"
  "CREATED \<notin> terminal_statuses" "QUEUED \<notin> terminal_statuses" "DIALING \<notin> terminal_statuses"
  "RINGING \<notin> terminal_statuses" "IN_PROGRESS \<notin> terminal_statuses"
  "NEEDS_TRANSFER \<notin> terminal_statuses" "TRANSFERRING \<notin> terminal_statuses"
  "MANAGER_BRIEFING \<notin> terminal_statuses" "CONNECTED_TO_MANAGER \<notin> terminal_statuses"
  by (simp_all add: terminal_statuses_def)

text \<open>The length of the longest way from \<open>CREATED\<close> to a status: every transition raises it.\<close>

fun status_rank :: "call_status \<Rightarrow> nat" where
  "status_rank CREATED = 0"
| "status_rank QUEUED = 1"
| "status_rank DIALING = 2"
| "status_rank RINGING = 3"
| "status_rank IN_PROGRESS = 4"
| "status_rank NEEDS_TRANSFER = 5"
| "status_rank TRANSFERRING = 6"
| "status_rank MANAGER_BRIEFING = 7"
| "status_rank CONNECTED_TO_MANAGER = 8"
| "status_rank COMPLETED = 9"
| "status_rank FAILED = 9"
| "status_rank STOPPED = 9"

lemma transition_raises_rank: "t \<in> allowed_transitions s \<Longrightarrow> status_rank s < status_rank t"
  by (cases s) auto

lemma status_rank_le: "status_rank s \<le> 9"
  by (cases s) auto

lemma terminal_iff_no_successor: "allowed_transitions s = {} \<longleftrightarrow> s \<in> terminal_statuses"
  by (cases s) auto

text \<open>A lifecycle: consecutive statuses are related by the table.\<close>

fun status_path :: "call_status list \<Rightarrow> bool" where
  "status_path [] = True"
| "status_path [s] = True"
| "status_path (s # t # p) = (t \<in> allowed_transitions s \<and> status_path (t # p))"

lemma status_path_ranks: "status_path p \<Longrightarrow> sorted_wrt (<) (map status_rank p)"
proof (induction p rule: status_path.induct)
  case (3 s t p)
  then have "sorted_wrt (<) (map status_rank (t # p))" and "status_rank s < status_rank t"
    by (auto dest: transition_raises_rank)
  then show ?case by (fastforce dest: less_trans)
qed simp_all

lemma sorted_wrt_less_le_length:
  "sorted_wrt (<) ns \<Longrightarrow> \<forall>n\<in>set ns. n \<le> (b::nat) \<Longrightarrow> length ns \<le> Suc b"
proof -
  assume s: "sorted_wrt (<) ns" and b: "\<forall>n\<in>set ns. n \<le> b"
  have "distinct ns" using s by (simp add: strict_sorted_iff)
  then have "length ns = card (set ns)" by (simp add: distinct_card)
  also have "\<dots> \<le> card {..b}" using b by (intro card_mono) auto
  finally show ?thesis by simp
qed

lemma status_path_terminal_last:
  "status_path p \<Longrightarrow> i < length p \<Longrightarrow> p ! i \<in> terminal_statuses \<Longrightarrow> Suc i = length p"
proof (induction p arbitrary: i rule: status_path.induct)
  case (3 s t p)
  show ?case
  proof (cases i)
    case 0
    with "3.prems" have "s \<in> terminal_statuses" and "t \<in> allowed_transitions s" by auto
    then show ?thesis by (auto simp: terminal_iff)
  next
    case (Suc j)
    with "3.prems" "3.IH" [of j] show ?thesis by simp
  qed
qed simp_all

text \<open>
  Lifecycles are finite and end in the terminal statuses: a status sequence that follows
  \<open>ALLOWED_TRANSITIONS\<close> never repeats a status, has at most ten entries, can only have a
  terminal status as its last entry, and can be extended exactly when its last status is not
  terminal.
\<close>

theorem lifecycle_bounded:
  assumes "status_path p"
  shows "distinct p \<and> length p \<le> 10
    \<and> (\<forall>i < length p. p ! i \<in> terminal_statuses \<longrightarrow> Suc i = length p)
    \<and> (p \<noteq> [] \<longrightarrow> (last p \<in> terminal_statuses \<longleftrightarrow> allowed_transitions (last p) = {}))"
proof -
  from assms have ranks: "sorted_wrt (<) (map status_rank p)" by (rule status_path_ranks)
  then have "distinct (map status_rank p)" by (simp add: strict_sorted_iff)
  then have "distinct p" by (simp add: distinct_map)
  moreover have "length p \<le> 10"
    using sorted_wrt_less_le_length [OF ranks, of 9] by (auto simp: status_rank_le)
  ultimately show ?thesis
    using assms status_path_terminal_last terminal_iff_no_successor by blast
qed

theorem lifecycle_bounded_witness:
  "status_path [CREATED, QUEUED, DIALING, RINGING, IN_PROGRESS, COMPLETED]
   \<and> length [CREATED, QUEUED, DIALING, RINGING, IN_PROGRESS, COMPLETED] \<le> 10"
proof -
  have h: "status_path [CREATED, QUEUED, DIALING, RINGING, IN_PROGRESS, COMPLETED]" by simp
  show ?thesis using h lifecycle_bounded [OF h] by blast
qed

text \<open>
  The operator's rules of the transition table: the statuses split into \<open>CREATED\<close>, the
  active and the terminal ones; from every status that is not terminal both \<open>STOPPED\<close> and
  \<open>FAILED\<close> are allowed, and every transfer status is active.
\<close>

theorem status_partition:
  "(s = CREATED \<or> s \<in> active_statuses \<or> s \<in> terminal_statuses)
   \<and> active_statuses \<inter> terminal_statuses = {}
   \<and> transfer_statuses \<subseteq> active_statuses
   \<and> (if s \<in> terminal_statuses then allowed_transitions s = {}
      else {STOPPED, FAILED} \<subseteq> allowed_transitions s)"
  by (cases s) (auto simp: active_statuses_def transfer_statuses_def terminal_statuses_def)

end
