(* ===== verification/PyText.thy ===== *)
theory PyText
  imports Prelude
begin

text \<open>
  The string operations of Python that the code uses, on text whose code points are below 256
  (a \<^typ>\<open>char\<close> is a code point): \<open>strip\<close>, \<open>lower\<close>, \<open>startswith\<close>, \<open>in\<close>, \<open>replace\<close>,
  \<open>isalnum\<close>, \<open>isdigit\<close>; and \<open>uuid.UUID(text)\<close> with \<open>str(uuid)\<close>, including what
  \<open>int(text, 16)\<close> accepts. The lemmas give the algebra of \<open>strip\<close> and \<open>lower\<close> and the round
  trip of UUIDs through their text.
\<close>

section \<open>Character classes\<close>

definition is_space :: "char \<Rightarrow> bool" where
  "is_space c = (let n = (of_char c :: nat) in
     9 \<le> n \<and> n \<le> 13 \<or> 28 \<le> n \<and> n \<le> 32 \<or> n = 133 \<or> n = 160)"

definition is_digit :: "char \<Rightarrow> bool" where
  "is_digit c = (let n = (of_char c :: nat) in
     48 \<le> n \<and> n \<le> 57 \<or> n = 178 \<or> n = 179 \<or> n = 185)"

definition is_alnum :: "char \<Rightarrow> bool" where
  "is_alnum c = (let n = (of_char c :: nat) in
     48 \<le> n \<and> n \<le> 57 \<or> 65 \<le> n \<and> n \<le> 90 \<or> 97 \<le> n \<and> n \<le> 122
     \<or> n \<in> {170, 178, 179, 181, 185, 186, 188, 189, 190}
     \<or> 192 \<le> n \<and> n \<noteq> 215 \<and> n \<noteq> 247)"

definition lower_char :: "char \<Rightarrow> char" where
  "lower_char c = (let n = (of_char c :: nat) in
     if 65 \<le> n \<and> n \<le> 90 \<or> 192 \<le> n \<and> n \<le> 222 \<and> n \<noteq> 215 then char_of (n + 32) else c)"

section \<open>String operations\<close>

definition lstrip :: "string \<Rightarrow> string" where
  "lstrip s = dropWhile is_space s"

definition strip :: "string \<Rightarrow> string" where
  "strip s = rev (dropWhile is_space (rev (dropWhile is_space s)))"

definition strip_chars :: "char set \<Rightarrow> string \<Rightarrow> string" where
  "strip_chars C s = rev (dropWhile (\<lambda>c. c \<in> C) (rev (dropWhile (\<lambda>c. c \<in> C) s)))"

definition lower :: "string \<Rightarrow> string" where
  "lower s = map lower_char s"

definition startswith :: "string \<Rightarrow> string \<Rightarrow> bool" where
  "startswith s p = (take (length p) s = p)"

text \<open>\<open>p in s\<close>: the substring test.\<close>

fun contains :: "string \<Rightarrow> string \<Rightarrow> bool" where
  "contains p [] = (p = [])"
| "contains p (c # s) = (startswith (c # s) p \<or> contains p s)"

text \<open>\<open>s.replace(p, '')\<close> for a nonempty \<open>p\<close>: the leftmost occurrences, without overlap.\<close>

function remove_sub :: "string \<Rightarrow> string \<Rightarrow> string" where
  "remove_sub p [] = []"
| "remove_sub p (c # s) =
     (if p \<noteq> [] \<and> startswith (c # s) p then remove_sub p (drop (length p) (c # s))
      else c # remove_sub p s)"
  by pat_completeness auto
termination
  by (relation "measure (\<lambda>(p, s). length s)") auto

definition join_colon :: "string \<Rightarrow> string \<Rightarrow> string" where
  "join_colon a b = a @ '':'' @ b"

section \<open>Lemmas on strings\<close>

lemma of_char_lower:
  "(of_char (lower_char c) :: nat) =
     (let n = (of_char c :: nat) in
      if 65 \<le> n \<and> n \<le> 90 \<or> 192 \<le> n \<and> n \<le> 222 \<and> n \<noteq> 215 then n + 32 else n)"
proof -
  have "(of_char c :: nat) < 256" by (rule nat_of_char_less_256)
  then show ?thesis by (auto simp: lower_char_def Let_def)
qed

lemma lower_char_idem [simp]: "lower_char (lower_char c) = lower_char c"
proof -
  have "(of_char (lower_char (lower_char c)) :: nat) = of_char (lower_char c)"
    by (simp add: of_char_lower Let_def)
  then show ?thesis by (simp only: of_char_eq_iff)
qed

lemma lower_idem [simp]: "lower (lower s) = lower s"
  by (simp add: lower_def)

lemma lower_append: "lower (a @ b) = lower a @ lower b"
  by (simp add: lower_def)

lemma lower_Nil [simp]: "lower [] = []" and length_lower [simp]: "length (lower s) = length s"
  by (simp_all add: lower_def)

lemma is_space_lower [simp]: "is_space (lower_char c) = is_space c"
proof -
  have "(of_char c :: nat) < 256" by (rule nat_of_char_less_256)
  then show ?thesis by (auto simp: is_space_def of_char_lower Let_def split: if_splits)
qed

lemma strip_no_space_ends:
  "strip s \<noteq> [] \<Longrightarrow> \<not> is_space (hd (strip s)) \<and> \<not> is_space (last (strip s))"
proof -
  assume ne: "strip s \<noteq> []"
  let ?d = "dropWhile is_space s"
  let ?e = "dropWhile is_space (rev ?d)"
  from ne have e: "?e \<noteq> []" by (simp add: strip_def)
  then have l: "\<not> is_space (hd ?e)" by (rule hd_dropWhile)
  have "rev ?d = takeWhile is_space (rev ?d) @ ?e" by simp
  then have "?d = rev ?e @ rev (takeWhile is_space (rev ?d))" by (metis rev_append rev_rev_ident)
  then have "hd ?d = hd (rev ?e)" using e by (metis hd_append2 rev_is_Nil_conv)
  moreover have "?d \<noteq> []" using e by (metis dropWhile.simps(1) rev.simps(1))
  then have "\<not> is_space (hd ?d)" by (rule hd_dropWhile)
  ultimately show ?thesis using l e by (simp add: strip_def last_rev)
qed

lemma dropWhile_hd: "s = [] \<or> \<not> P (hd s) \<Longrightarrow> dropWhile P s = s"
  by (cases s) auto

lemma strip_id: "s = [] \<or> (\<not> is_space (hd s) \<and> \<not> is_space (last s)) \<Longrightarrow> strip s = s"
  by (auto simp: strip_def dropWhile_hd hd_rev)

lemma strip_strip [simp]: "strip (strip s) = strip s"
  using strip_no_space_ends [of s] by (intro strip_id) blast

lemma strip_Nil [simp]: "strip [] = []"
  by (simp add: strip_def)

lemma strip_no_spaces: "\<forall>c\<in>set s. \<not> is_space c \<Longrightarrow> strip s = s"
  by (rule strip_id) (cases s, auto)

lemma startswith_Nil [simp]: "startswith s []"
  by (simp add: startswith_def)

lemma startswith_append: "startswith s p \<longleftrightarrow> (\<exists>r. s = p @ r)"
  unfolding startswith_def by (metis append_eq_conv_conj append_take_drop_id)

lemma startswith_self_append [simp]: "startswith (p @ r) p"
  by (simp add: startswith_def)

lemma startswith_Cons [simp]:
  "startswith (c # s) (d # p) \<longleftrightarrow> c = d \<and> startswith s p"
  "\<not> startswith [] (d # p)"
  by (auto simp: startswith_def)

lemma contains_set: "contains p s \<Longrightarrow> set p \<subseteq> set s"
proof (induction p s rule: contains.induct)
  case (2 p c s)
  then consider "startswith (c # s) p" | "contains p s" by auto
  then show ?case
  proof cases
    case 1
    then obtain r where "c # s = p @ r" by (auto simp: startswith_append)
    then have "set (c # s) = set p \<union> set r" by (metis set_append)
    then show ?thesis by blast
  next
    case 2
    with "2.IH" show ?thesis by auto
  qed
qed simp

lemma contains_iff: "contains p s \<longleftrightarrow> (\<exists>a b. s = a @ p @ b)"
proof (induction p s rule: contains.induct)
  case (1 p)
  then show ?case by auto
next
  case (2 p c s)
  show ?case
  proof
    assume "contains p (c # s)"
    then consider "startswith (c # s) p" | "contains p s" by auto
    then show "\<exists>a b. c # s = a @ p @ b"
    proof cases
      case 1
      then have "\<exists>b. c # s = [] @ p @ b" by (simp add: startswith_append)
      then show ?thesis by blast
    next
      case 2
      with "2.IH" obtain a b where "s = a @ p @ b" by blast
      then have "c # s = (c # a) @ p @ b" by simp
      then show ?thesis by blast
    qed
  next
    assume "\<exists>a b. c # s = a @ p @ b"
    then obtain a b where ab: "c # s = a @ p @ b" by blast
    show "contains p (c # s)"
    proof (cases a)
      case Nil
      with ab have "startswith (c # s) p" by (auto simp: startswith_append)
      then show ?thesis by simp
    next
      case (Cons a0 a')
      with ab have "s = a' @ p @ b" by simp
      with "2.IH" show ?thesis by auto
    qed
  qed
qed

lemma remove_sub_absent: "p = [] \<or> hd p \<notin> set s \<Longrightarrow> remove_sub p s = s"
proof (induction p s rule: remove_sub.induct)
  case (2 p c s)
  then show ?case by (cases p) auto
qed simp

lemma remove_sub_single: "remove_sub [d] s = filter (\<lambda>c. c \<noteq> d) s"
  by (induction "[d]" s rule: remove_sub.induct) auto

section \<open>UUIDs\<close>

definition hex_val :: "char \<Rightarrow> int option" where
  "hex_val c = (let n = (of_char c :: nat) in
     if 48 \<le> n \<and> n \<le> 57 then Some (int n - 48)
     else if 97 \<le> n \<and> n \<le> 102 then Some (int n - 87)
     else if 65 \<le> n \<and> n \<le> 70 then Some (int n - 55)
     else None)"

text \<open>The digits of \<open>int(_, 16)\<close>: single underscores are allowed between two digits.\<close>

fun scan16 :: "bool \<Rightarrow> int \<Rightarrow> string \<Rightarrow> int option" where
  "scan16 prev acc [] = (if prev then None else Some acc)"
| "scan16 prev acc (c # s) =
     (if c = CHR ''_'' then (if prev then None else scan16 True acc s)
      else case hex_val c of None \<Rightarrow> None | Some d \<Rightarrow> scan16 False (acc * 16 + d) s)"

definition drop_hex_prefix :: "string \<Rightarrow> string" where
  "drop_hex_prefix s =
     (if startswith s ''0x'' \<or> startswith s ''0X''
      then (let r = drop 2 s in if startswith r ''_'' then drop 1 r else r)
      else s)"

definition digits16 :: "string \<Rightarrow> int option" where
  "digits16 s =
     (let r = drop_hex_prefix s in
      if r = [] \<or> startswith r ''_'' then None else scan16 False 0 r)"

definition py_int16 :: "string \<Rightarrow> int option" where
  "py_int16 s = (let t = strip s in
     case t of
       [] \<Rightarrow> None
     | c # r \<Rightarrow>
         if c = CHR ''-'' then map_option uminus (digits16 r)
         else if c = CHR ''+'' then digits16 r
         else digits16 t)"

text \<open>\<open>int(text)\<close>; \<open>None\<close> is its \<open>ValueError\<close>.\<close>

fun scan10 :: "bool \<Rightarrow> int \<Rightarrow> string \<Rightarrow> int option" where
  "scan10 prev acc [] = (if prev then None else Some acc)"
| "scan10 prev acc (c # s) =
     (if c = CHR ''_'' then (if prev then None else scan10 True acc s)
      else (let n = (of_char c :: nat) in
            if 48 \<le> n \<and> n \<le> 57 then scan10 False (acc * 10 + (int n - 48)) s else None))"

definition py_int :: "string \<Rightarrow> int option" where
  "py_int s = (let t = strip s in
     case t of
       [] \<Rightarrow> None
     | c # r \<Rightarrow>
         if c = CHR ''-'' then map_option uminus (scan10 True 0 r)
         else if c = CHR ''+'' then scan10 True 0 r
         else scan10 True 0 t)"

definition uuid_of_string :: "string \<Rightarrow> uuid option" where
  "uuid_of_string s =
     (let h = remove_sub ''-'' (strip_chars {CHR ''{'', CHR ''}''}
                (remove_sub ''uuid:'' (remove_sub ''urn:'' s)))
      in if length h \<noteq> 32 then None
         else case py_int16 h of
                None \<Rightarrow> None
              | Some n \<Rightarrow> if 0 \<le> n \<and> n < 2 ^ 128 then Some n else None)"

definition hex_digit :: "int \<Rightarrow> char" where
  "hex_digit d = char_of (nat (if d < 10 then 48 + d else 87 + d))"

text \<open>The last \<open>k\<close> hexadecimal digits of a number; \<open>'%032x'\<close> for \<open>k = 32\<close> and 128 bits.\<close>

fun hex_fixed :: "nat \<Rightarrow> int \<Rightarrow> string" where
  "hex_fixed 0 n = []"
| "hex_fixed (Suc k) n = hex_fixed k (n div 16) @ [hex_digit (n mod 16)]"

definition uuid_str :: "uuid \<Rightarrow> string" where
  "uuid_str u = (let h = hex_fixed 32 u in
     take 8 h @ ''-'' @ take 4 (drop 8 h) @ ''-'' @ take 4 (drop 12 h) @ ''-''
       @ take 4 (drop 16 h) @ ''-'' @ drop 20 h)"

definition valid_uuid :: "uuid \<Rightarrow> bool" where
  "valid_uuid u \<longleftrightarrow> 0 \<le> u \<and> u < 2 ^ 128"

lemma length_hex_fixed [simp]: "length (hex_fixed k n) = k"
  by (induction k arbitrary: n) auto

lemma of_char_hex_digit:
  assumes "0 \<le> d" "d < 16"
  shows "(of_char (hex_digit d) :: nat) = nat (if d < 10 then 48 + d else 87 + d)"
proof -
  have "nat (if d < 10 then 48 + d else 87 + d) < 256" using assms by auto
  then show ?thesis by (simp add: hex_digit_def)
qed

lemma hex_val_hex_digit [simp]: "0 \<le> d \<Longrightarrow> d < 16 \<Longrightarrow> hex_val (hex_digit d) = Some d"
  by (auto simp: hex_val_def of_char_hex_digit Let_def)

lemma hex_digit_range:
  assumes "0 \<le> d" "d < 16"
  shows "let n = (of_char (hex_digit d) :: nat) in 48 \<le> n \<and> n \<le> 57 \<or> 97 \<le> n \<and> n \<le> 102"
  using assms by (auto simp: of_char_hex_digit Let_def)

lemma hex_fixed_range:
  "c \<in> set (hex_fixed k n) \<Longrightarrow>
     (let m = (of_char c :: nat) in 48 \<le> m \<and> m \<le> 57 \<or> 97 \<le> m \<and> m \<le> 102)"
proof (induction k arbitrary: n)
  case (Suc k)
  then show ?case using hex_digit_range [of "n mod 16"] by auto
qed simp

lemma scan16_append:
  "\<forall>c\<in>set a. c \<noteq> CHR ''_'' \<Longrightarrow> scan16 False acc a = Some v \<Longrightarrow>
     scan16 False acc (a @ b) = scan16 False v b"
proof (induction a arbitrary: acc)
  case (Cons c a)
  then show ?case by (auto split: option.splits)
qed simp

lemma not_hex_char:
  assumes "c \<in> set (hex_fixed k n)"
  shows "c \<noteq> CHR ''_'' \<and> c \<noteq> CHR ''-'' \<and> c \<noteq> CHR ''+'' \<and> c \<noteq> CHR ''x'' \<and> c \<noteq> CHR ''X''
     \<and> c \<noteq> CHR ''u'' \<and> c \<noteq> CHR ''{'' \<and> c \<noteq> CHR ''}'' \<and> \<not> is_space c"
  using hex_fixed_range [OF assms] by (auto simp: Let_def is_space_def)

lemma int_div_less_mult: "(n div (16 :: int) < b) = (n < 16 * b)"
proof -
  have "n mod 16 < 16" "0 \<le> n mod 16" by simp_all
  then show ?thesis using div_mult_mod_eq [of n 16] by linarith
qed

lemma scan16_hex_fixed:
  "0 \<le> n \<Longrightarrow> n < 16 ^ k \<Longrightarrow> scan16 False 0 (hex_fixed k n) = Some n"
proof (induction k arbitrary: n)
  case (Suc k)
  have "n div 16 < 16 ^ k" using Suc.prems by (simp add: int_div_less_mult)
  with Suc have ih: "scan16 False 0 (hex_fixed k (n div 16)) = Some (n div 16)" by auto
  have us: "hex_digit (n mod 16) \<noteq> CHR ''_''"
    using hex_digit_range [of "n mod 16"] by (auto simp: Let_def)
  have "\<forall>c\<in>set (hex_fixed k (n div 16)). c \<noteq> CHR ''_''" using not_hex_char by blast
  from scan16_append [OF this ih, of "[hex_digit (n mod 16)]"] us show ?case by simp
qed simp

lemma uuid_str_hex: "remove_sub ''-'' (uuid_str u) = hex_fixed 32 u"
proof -
  let ?h = "hex_fixed 32 u"
  have keep: "filter (\<lambda>c. c \<noteq> CHR ''-'') s = s" if "set s \<subseteq> set ?h" for s
    using that not_hex_char by (intro filter_True) blast
  have sub: "set (take i (drop j ?h)) \<subseteq> set ?h" "set (drop j ?h) \<subseteq> set ?h" "set (take i ?h) \<subseteq> set ?h"
    for i j by (auto dest: in_set_takeD in_set_dropD)
  have chunk: "drop i ?h = take k (drop i ?h) @ drop (k + i) ?h" for i k
    by (simp flip: drop_drop)
  have split: "?h = take 8 ?h @ take 4 (drop 8 ?h) @ take 4 (drop 12 ?h)
                 @ take 4 (drop 16 ?h) @ drop 20 ?h"
    using chunk [of 0 8] chunk [of 8 4] chunk [of 12 4] chunk [of 16 4] by simp
  show ?thesis
    unfolding remove_sub_single uuid_str_def Let_def
    using split by (simp add: keep sub)
qed

lemma py_int16_hex_fixed:
  assumes "valid_uuid u"
  shows "py_int16 (hex_fixed 32 u) = Some u"
proof -
  let ?h = "hex_fixed 32 u"
  obtain c0 c1 r where h: "?h = c0 # c1 # r"
  proof -
    have l: "length ?h = 32" by (rule length_hex_fixed)
    then obtain c0 h' where h': "?h = c0 # h'" by (cases ?h) auto
    with l obtain c1 r where "h' = c1 # r" by (cases h') auto
    with h' that show ?thesis by blast
  qed
  have nohex: "c0 \<noteq> CHR ''_'' \<and> c0 \<noteq> CHR ''-'' \<and> c0 \<noteq> CHR ''+''"
    "c1 \<noteq> CHR ''x'' \<and> c1 \<noteq> CHR ''X''"
    using not_hex_char [of c0 32 u] not_hex_char [of c1 32 u] h by auto
  have "strip ?h = ?h" using not_hex_char by (intro strip_no_spaces) blast
  moreover have "scan16 False 0 ?h = Some u"
    using assms scan16_hex_fixed [of u 32] by (simp add: valid_uuid_def)
  ultimately show ?thesis
    using nohex h by (simp add: py_int16_def digits16_def drop_hex_prefix_def Let_def)
qed

lemma uuid_str_chars: "c \<in> set (uuid_str u) \<Longrightarrow> c = CHR ''-'' \<or> c \<in> set (hex_fixed 32 u)"
  by (auto simp: uuid_str_def Let_def dest: in_set_takeD in_set_dropD)

lemma uuid_roundtrip:
  assumes "valid_uuid u"
  shows "uuid_of_string (uuid_str u) = Some u"
proof -
  have nu: "CHR ''u'' \<notin> set (uuid_str u)" "CHR ''{'' \<notin> set (uuid_str u)" "CHR ''}'' \<notin> set (uuid_str u)"
    using uuid_str_chars [of _ u] not_hex_char [of _ 32 u] by fastforce+
  have "strip_chars {CHR ''{'', CHR ''}''} (uuid_str u) = uuid_str u"
  proof -
    have no: "c \<notin> {CHR ''{'', CHR ''}''}" if "c \<in> set (uuid_str u)" for c
      using that nu by blast
    have "dropWhile (\<lambda>c. c \<in> {CHR ''{'', CHR ''}''}) s = s" if "set s \<subseteq> set (uuid_str u)" for s
      using that no by (cases s) auto
    then show ?thesis by (simp add: strip_chars_def)
  qed
  then show ?thesis
    using assms nu
    by (simp add: uuid_of_string_def remove_sub_absent uuid_str_hex py_int16_hex_fixed valid_uuid_def)
qed

lemma uuid_str_inj: "valid_uuid u \<Longrightarrow> valid_uuid v \<Longrightarrow> uuid_str u = uuid_str v \<Longrightarrow> u = v"
  by (metis option.inject uuid_roundtrip)

lemma uuid_of_string_valid: "uuid_of_string s = Some u \<Longrightarrow> valid_uuid u"
  by (auto simp: uuid_of_string_def valid_uuid_def Let_def split: if_splits option.splits)

lemma uuid_str_nonempty [simp]: "uuid_str u \<noteq> []"
proof
  assume "uuid_str u = []"
  then have "remove_sub ''-'' (uuid_str u) = []" by (simp only: remove_sub.simps)
  then have "hex_fixed 32 u = []" by (simp only: uuid_str_hex)
  then have "length (hex_fixed 32 u) = 0" by (simp only: list.size)
  then show False by (simp only: length_hex_fixed)
qed

section \<open>Decimal rendering\<close>

text \<open>\<open>str(n)\<close> of an integer.\<close>

fun dec_nat :: "nat \<Rightarrow> string" where
  "dec_nat n = (if n < 10 then [char_of (48 + n)] else dec_nat (n div 10) @ [char_of (48 + n mod 10)])"

declare dec_nat.simps [simp del]

definition str_int :: "int \<Rightarrow> string" where
  "str_int n = (if n < 0 then ''-'' @ dec_nat (nat (- n)) else dec_nat (nat n))"

definition str_opt :: "string option \<Rightarrow> string" where
  "str_opt s = (case s of None \<Rightarrow> ''None'' | Some x \<Rightarrow> x)"

text \<open>\<open>str(v)\<close> of a decoded value; that of a list or an object is \<open>repr\<close>.\<close>

definition json_str :: "(json \<Rightarrow> string) \<Rightarrow> json \<Rightarrow> string" where
  "json_str repr v =
     (case v of
        JStr s \<Rightarrow> s
      | JNum n \<Rightarrow> str_int n
      | JBool b \<Rightarrow> if b then ''True'' else ''False''
      | JNull \<Rightarrow> ''None''
      | _ \<Rightarrow> repr v)"

end
