(* ===== verification/Database.thy ===== *)
theory Database
  imports Calls PyText
begin

text \<open>
  The ORM rows of \<open>app/models/\<close> that the modelled services touch, the session-visible tables
  as one record \<open>db\<close>, and the queries of \<open>app/repositories/\<close> for calls, transfers,
  transcripts, the deny list and agents. A table is the list of its rows; \<open>select\<dots>where\<close> is a
  filter, saving an object is \<^const>\<open>upsert\<close> on its primary key, and
  \<open>scalar_one_or_none\<close> raises when a query that expects one row selects several.

  The locale \<open>row_store\<close> states the contract the services rely on (what reading a row gives
  after a save, and that saving keeps primary keys unique); it is interpreted on the call and
  the transfer tables.
\<close>

section \<open>Rows\<close>

datatype transfer_status =
    INITIATED
  | CALLING_MANAGER
  | BRIEFING
  | CONNECTED
  | FAILED_NO_ANSWER
  | FAILED_ALL_UNAVAILABLE
  | CALLER_DROPPED
  | BRIDGE_FAILED
  | TIMED_OUT

definition terminal_transfer_statuses :: "transfer_status set" where
  "terminal_transfer_statuses =
     {CONNECTED, FAILED_NO_ANSWER, FAILED_ALL_UNAVAILABLE, CALLER_DROPPED, BRIDGE_FAILED, TIMED_OUT}"

record transfer_record =
  t_id :: uuid
  t_created_at :: time
  t_call_id :: uuid
  t_manager_id :: "uuid option"
  t_status :: transfer_status
  t_summary :: "string option"
  t_whisper_text :: "string option"
  t_manager_call_id :: "string option"
  t_attempt_count :: nat
  t_department :: "string option"
  t_fallback_message :: "string option"
  t_failure_stage :: "string option"

record manager =
  m_id :: uuid
  m_created_at :: time
  m_name :: string
  m_phone :: string
  m_telegram_id :: int
  m_is_active :: bool
  m_is_available :: bool
  m_available_after :: "time option"
  m_priority :: int
  m_department :: "string option"

datatype transcript_role = ASSISTANT | USER | SYSTEM | TOOL

record transcript_entry =
  e_call_id :: uuid
  e_role :: transcript_role
  e_text :: string
  e_sequence_num :: int
  e_raw_payload :: "json option"

record audit_event =
  a_entity_type :: string
  a_entity_id :: uuid
  a_action :: string
  a_payload :: "json option"
  a_actor :: string

record steering_instruction =
  s_call_id :: uuid
  s_instruction :: string
  s_issued_by :: string

record blocked_phone =
  b_phone :: string
  b_reason :: "string option"
  b_added_by :: string

record telephony_line =
  l_id :: uuid
  l_created_at :: time
  l_provider :: string
  l_provider_resource_id :: string
  l_phone_number :: string
  l_schema_name :: "string option"
  l_display_name :: "string option"
  l_extension :: "string option"
  l_is_active :: bool
  l_is_inbound_enabled :: bool
  l_is_outbound_enabled :: bool
  l_raw_payload :: "(string \<times> json) list"
  l_synced_at :: "time option"

record agent_profile =
  g_id :: uuid
  g_created_at :: time
  g_name :: string
  g_is_active :: bool
  g_system_prompt :: string
  g_tone_rules :: "string option"
  g_business_rules :: "string option"
  g_sales_objectives :: "string option"
  g_greeting_text :: "string option"
  g_transfer_rules :: "string option"
  g_prohibited_promises :: "string option"
  g_voice_strategy :: string
  g_voice_provider :: string
  g_telephony_provider :: "string option"
  g_telephony_line_id :: "uuid option"
  g_telephony_extension :: "string option"
  g_config :: "(string \<times> json) list option"
  g_version :: int

record knowledge_document =
  kd_id :: uuid
  kd_updated_at :: time
  kd_title :: string
  kd_category :: string
  kd_content :: string
  kd_is_active :: bool
  kd_notes :: "string option"
  kd_metadata :: "(string \<times> json) list option"

record knowledge_binding =
  kb_id :: uuid
  kb_created_at :: time
  kb_agent_profile_id :: uuid
  kb_knowledge_document_id :: uuid
  kb_role :: "string option"

record company_profile =
  cp_id :: uuid
  cp_created_at :: time
  cp_updated_at :: time
  cp_name :: string
  cp_legal_name :: "string option"
  cp_description :: "string option"
  cp_value_proposition :: "string option"
  cp_target_audience :: "string option"
  cp_contact_info :: "string option"
  cp_website_url :: "string option"
  cp_working_hours :: "string option"
  cp_compliance_notes :: "string option"
  cp_is_active :: bool
  cp_config :: "(string \<times> json) list option"

datatype processing_status = PENDING | PROCESSED | IGNORED | ERROR

record vapi_event_log =
  v_vapi_event_id :: "string option"
  v_call_id :: "uuid option"
  v_event_type :: string
  v_raw_payload :: json
  v_processing_status :: processing_status
  v_error_message :: "string option"
  v_processed_at :: "time option"

record db =
  calls :: "call list"
  transfers :: "transfer_record list"
  managers :: "manager list"
  transcripts :: "transcript_entry list"
  audits :: "audit_event list"
  steerings :: "steering_instruction list"
  blocked :: "blocked_phone list"
  lines_tbl :: "telephony_line list"
  agents :: "agent_profile list"
  documents :: "knowledge_document list"
  bindings :: "knowledge_binding list"
  companies :: "company_profile list"
  vapi_logs :: "vapi_event_log list"

definition empty_db :: db where
  "empty_db = \<lparr>calls = [], transfers = [], managers = [], transcripts = [], audits = [],
     steerings = [], blocked = [], lines_tbl = [], agents = [], documents = [],
     bindings = [], companies = [], vapi_logs = []\<rparr>"

section \<open>Generic queries\<close>

definition one_or_none :: "'a list \<Rightarrow> (app_error, 'a option) result" where
  "one_or_none rows = (case scalar_one_or_none rows of
     Inl MultipleResultsFound \<Rightarrow>
       Inl (OtherError ''Multiple rows were found when one or none was required'')
   | Inr r \<Rightarrow> Inr r)"

text \<open>
  \<open>order_by(created_at.desc(), id.desc()).limit(1)\<close>: the row that no selected row exceeds in
  creation time, then in primary key.
\<close>

definition newer :: "time \<times> uuid \<Rightarrow> time \<times> uuid \<Rightarrow> bool" where
  "newer a b \<longleftrightarrow> fst b < fst a \<or> fst b = fst a \<and> snd b < snd a"

fun latest :: "('a \<Rightarrow> time \<times> uuid) \<Rightarrow> 'a list \<Rightarrow> 'a option" where
  "latest key [] = None"
| "latest key (x # xs) = (case latest key xs of
     None \<Rightarrow> Some x
   | Some y \<Rightarrow> if newer (key y) (key x) then Some y else Some x)"

section \<open>Call repository\<close>

definition get_call_row :: "uuid \<Rightarrow> db \<Rightarrow> call option" where
  "get_call_row i d = find_row c_id i (calls d)"

definition save_call :: "call \<Rightarrow> db \<Rightarrow> db" where
  "save_call c d = d\<lparr>calls := upsert c_id c (calls d)\<rparr>"

definition get_active_call_rows :: "db \<Rightarrow> call list" where
  "get_active_call_rows d =
     sort_key (\<lambda>c. - c_created_at c) (filter (\<lambda>c. c_status c \<in> active_statuses) (calls d))"

definition get_by_vapi_id :: "string \<Rightarrow> db \<Rightarrow> (app_error, call option) result" where
  "get_by_vapi_id v d = one_or_none (filter (\<lambda>c. c_vapi_call_id c = Some v) (calls d))"

definition get_by_mango_call_id :: "string \<Rightarrow> db \<Rightarrow> (app_error, call option) result" where
  "get_by_mango_call_id v d = one_or_none (filter (\<lambda>c. c_mango_call_id c = Some v) (calls d))"

definition get_by_telephony_leg_id :: "string \<Rightarrow> db \<Rightarrow> (app_error, call option) result" where
  "get_by_telephony_leg_id v d =
     one_or_none (filter (\<lambda>c. c_telephony_leg_id c = Some v) (calls d))"

definition get_recent_outbound_call_by_phone :: "time \<Rightarrow> string \<Rightarrow> int \<Rightarrow> db \<Rightarrow> call option" where
  "get_recent_outbound_call_by_phone now phone within_seconds d =
     (let threshold = now - max 1 within_seconds * 1000000 in
      latest (\<lambda>c. (c_created_at c, c_id c))
        (filter (\<lambda>c. c_phone c = phone \<and> threshold \<le> c_created_at c
                   \<and> c_status c \<in> insert CREATED active_statuses) (calls d)))"

section \<open>Transfer repository\<close>

definition get_transfer_row :: "uuid \<Rightarrow> db \<Rightarrow> transfer_record option" where
  "get_transfer_row i d = find_row t_id i (transfers d)"

definition save_transfer :: "transfer_record \<Rightarrow> db \<Rightarrow> db" where
  "save_transfer r d = d\<lparr>transfers := upsert t_id r (transfers d)\<rparr>"

definition get_latest_for_call :: "uuid \<Rightarrow> db \<Rightarrow> transfer_record option" where
  "get_latest_for_call cid d =
     latest (\<lambda>r. (t_created_at r, t_id r)) (filter (\<lambda>r. t_call_id r = cid) (transfers d))"

definition get_active_for_call :: "uuid \<Rightarrow> db \<Rightarrow> transfer_record option" where
  "get_active_for_call cid d =
     latest (\<lambda>r. (t_created_at r, t_id r))
       (filter (\<lambda>r. t_call_id r = cid \<and> t_status r \<notin> terminal_transfer_statuses) (transfers d))"

section \<open>Transcript repository\<close>

definition get_transcript :: "uuid \<Rightarrow> db \<Rightarrow> transcript_entry list" where
  "get_transcript cid d =
     sort_key e_sequence_num (filter (\<lambda>e. e_call_id e = cid) (transcripts d))"

definition get_after_sequence :: "uuid \<Rightarrow> int \<Rightarrow> db \<Rightarrow> transcript_entry list" where
  "get_after_sequence cid n d =
     sort_key e_sequence_num
       (filter (\<lambda>e. e_call_id e = cid \<and> n < e_sequence_num e) (transcripts d))"

text \<open>
  \<open>func.max\<close> of the committed rows and the maximum over the session's identity map; both see
  the flushed rows here. No row: \<open>-1\<close>.
\<close>

definition next_sequence_num :: "uuid \<Rightarrow> db \<Rightarrow> int" where
  "next_sequence_num cid d =
     fold max (map e_sequence_num (filter (\<lambda>e. e_call_id e = cid) (transcripts d))) (- 1) + 1"

definition append_transcript ::
    "uuid \<Rightarrow> transcript_role \<Rightarrow> string \<Rightarrow> json option \<Rightarrow> db \<Rightarrow> db" where
  "append_transcript cid role txt raw d =
     d\<lparr>transcripts := transcripts d @
        [\<lparr>e_call_id = cid, e_role = role, e_text = txt,
          e_sequence_num = next_sequence_num cid d, e_raw_payload = raw\<rparr>]\<rparr>"

fun number_entries ::
    "uuid \<Rightarrow> int \<Rightarrow> (transcript_role \<times> string \<times> json option) list \<Rightarrow> transcript_entry list" where
  "number_entries cid n [] = []"
| "number_entries cid n ((role, txt, raw) # es) =
     \<lparr>e_call_id = cid, e_role = role, e_text = txt, e_sequence_num = n, e_raw_payload = raw\<rparr>
     # number_entries cid (n + 1) es"

definition bulk_append ::
    "uuid \<Rightarrow> (transcript_role \<times> string \<times> json option) list \<Rightarrow> db \<Rightarrow> db" where
  "bulk_append cid es d =
     d\<lparr>transcripts := transcripts d @ number_entries cid (next_sequence_num cid d) es\<rparr>"

section \<open>Deny list, agents, audit\<close>

definition is_blocked :: "string \<Rightarrow> db \<Rightarrow> bool" where
  "is_blocked phone d = list_ex (\<lambda>b. b_phone b = phone) (blocked d)"

definition block_phone :: "string \<Rightarrow> string option \<Rightarrow> string \<Rightarrow> db \<Rightarrow> blocked_phone \<times> db" where
  "block_phone phone reason added_by d =
     (case find_row b_phone phone (blocked d) of
        Some b \<Rightarrow> (b, d)
      | None \<Rightarrow> let b = \<lparr>b_phone = phone, b_reason = reason, b_added_by = added_by\<rparr>
                in (b, d\<lparr>blocked := blocked d @ [b]\<rparr>))"

definition unblock_phone :: "string \<Rightarrow> db \<Rightarrow> bool \<times> db" where
  "unblock_phone phone d =
     (case find_row b_phone phone (blocked d) of
        None \<Rightarrow> (False, d)
      | Some b \<Rightarrow> (True, d\<lparr>blocked := filter (\<lambda>x. b_phone x \<noteq> phone) (blocked d)\<rparr>))"

definition get_agent :: "uuid \<Rightarrow> db \<Rightarrow> agent_profile option" where
  "get_agent i d = find_row g_id i (agents d)"

definition audit_call :: "uuid \<Rightarrow> string \<Rightarrow> string \<Rightarrow> json option \<Rightarrow> db \<Rightarrow> db" where
  "audit_call cid action actor payload d =
     d\<lparr>audits := audits d @ [\<lparr>a_entity_type = ''call'', a_entity_id = cid, a_action = action,
        a_payload = payload, a_actor = actor\<rparr>]\<rparr>"

section \<open>Lemmas on queries\<close>

lemma latest_None [simp]: "latest key xs = None \<longleftrightarrow> xs = []"
  by (cases xs) (auto split: option.splits)

lemma latest_in: "latest key xs = Some r \<Longrightarrow> r \<in> set xs"
proof (induction xs arbitrary: r)
  case (Cons x xs)
  then show ?case by (cases "latest key xs") (auto split: if_splits)
qed simp

lemma newer_trans: "newer a b \<Longrightarrow> \<not> newer c b \<Longrightarrow> \<not> newer c a"
  by (auto simp: newer_def)

lemma newer_trans2: "\<not> newer a b \<Longrightarrow> \<not> newer c a \<Longrightarrow> \<not> newer c b"
  by (auto simp: newer_def)

lemma newer_irrefl [simp]: "\<not> newer a a"
  by (simp add: newer_def)

lemma latest_max: "latest key xs = Some r \<Longrightarrow> \<forall>x\<in>set xs. \<not> newer (key x) (key r)"
proof (induction xs arbitrary: r)
  case (Cons y ys)
  show ?case
  proof (cases "latest key ys")
    case None
    with Cons.prems show ?thesis by simp
  next
    case (Some z)
    with Cons.IH have z: "\<forall>x\<in>set ys. \<not> newer (key x) (key z)" by blast
    show ?thesis
    proof (cases "newer (key z) (key y)")
      case True
      then have "\<not> newer (key y) (key z)" by (auto simp: newer_def)
      with True Some Cons.prems z show ?thesis by simp
    next
      case False
      with Some Cons.prems have "r = y" by simp
      with False z show ?thesis using newer_trans2 by auto
    qed
  qed
qed simp

lemma one_or_none_Some: "one_or_none (filter P xs) = Inr (Some r) \<Longrightarrow> r \<in> set xs \<and> P r"
proof -
  assume "one_or_none (filter P xs) = Inr (Some r)"
  then have "scalar_one_or_none (filter P xs) = Inr (Some r)"
    by (simp add: one_or_none_def split: sum.splits db_error.splits)
  then show ?thesis by (rule scalar_one_Some)
qed

lemma one_or_none_None: "one_or_none (filter P xs) = Inr None \<longleftrightarrow> (\<forall>x\<in>set xs. \<not> P x)"
  unfolding scalar_one_None [of P xs, symmetric]
  by (simp add: one_or_none_def split: sum.splits db_error.splits)

lemma get_active_call_rows_set:
  "set (get_active_call_rows d) = {c \<in> set (calls d). c_status c \<in> active_statuses}"
  by (auto simp: get_active_call_rows_def)

section \<open>The contract of a table\<close>

locale row_store =
  fixes get :: "uuid \<Rightarrow> 's \<Rightarrow> 'r option"
    and save :: "'r \<Rightarrow> 's \<Rightarrow> 's"
    and key :: "'r \<Rightarrow> uuid"
    and wf :: "'s \<Rightarrow> bool"
  assumes get_save: "get k (save r s) = (if key r = k then Some r else get k s)"
    and get_key: "get k s = Some r \<Longrightarrow> key r = k"
    and wf_save: "wf s \<Longrightarrow> wf (save r s)"
    and save_again: "key a = key b \<Longrightarrow> save a (save b s) = save a s"
    and save_same: "get (key r) s = Some r \<Longrightarrow> save r s = s"
begin

lemma get_save_same [simp]: "get (key r) (save r s) = Some r"
  by (simp add: get_save)

lemma get_save_other: "key r \<noteq> k \<Longrightarrow> get k (save r s) = get k s"
  by (simp add: get_save)

text \<open>Saving back what was read, changed or not, is a local update of that row.\<close>

lemma save_read:
  assumes "get k s = Some r" "key (f r) = key r"
  shows "get k (save (f r) s) = Some (f r)" and "j \<noteq> k \<Longrightarrow> get j (save (f r) s) = get j s"
  using assms by (auto simp: get_save dest: get_key)

lemma save_idem: "save r (save r s) = save r s"
  by (simp add: save_again)

lemma save_comm_read:
  assumes "get k s = Some r"
  shows "save r s = s"
  using assms by (auto dest: get_key intro: save_same)

end

definition calls_wf :: "db \<Rightarrow> bool" where
  "calls_wf d \<longleftrightarrow> distinct (map c_id (calls d))"

definition transfers_wf :: "db \<Rightarrow> bool" where
  "transfers_wf d \<longleftrightarrow> distinct (map t_id (transfers d))"

interpretation call_rows: row_store get_call_row save_call c_id calls_wf
  by unfold_locales
    (auto simp: get_call_row_def save_call_def calls_wf_def distinct_upsert upsert_id
      dest: find_row_key)

interpretation transfer_rows: row_store get_transfer_row save_transfer t_id transfers_wf
  by unfold_locales
    (auto simp: get_transfer_row_def save_transfer_def transfers_wf_def distinct_upsert upsert_id
      dest: find_row_key)

text \<open>The rows of an id after a save.\<close>

lemma row_after_save [simp]:
  "get_call_row i (save_call c d) = (if c_id c = i then Some c else get_call_row i d)"
  by (rule call_rows.get_save)

lemma transfer_row_after_save [simp]:
  "get_transfer_row i (save_transfer r d) = (if t_id r = i then Some r else get_transfer_row i d)"
  by (rule transfer_rows.get_save)

lemma find_row_distinct:
  "distinct (map key xs) \<Longrightarrow> r \<in> set xs \<Longrightarrow> find_row key (key r) xs = Some r"
proof (induction xs)
  case (Cons x xs)
  then show ?case by (cases "r = x") (auto simp: image_iff)
qed simp

lemma calls_wf_row: "calls_wf d \<Longrightarrow> c \<in> set (calls d) \<Longrightarrow> get_call_row (c_id c) d = Some c"
  by (simp add: calls_wf_def get_call_row_def find_row_distinct)

lemma save_call_frame [simp]:
  "transfers (save_call c d) = transfers d" "managers (save_call c d) = managers d"
  "transcripts (save_call c d) = transcripts d" "audits (save_call c d) = audits d"
  "blocked (save_call c d) = blocked d" "agents (save_call c d) = agents d"
  "vapi_logs (save_call c d) = vapi_logs d" "steerings (save_call c d) = steerings d"
  "lines_tbl (save_call c d) = lines_tbl d"
  by (simp_all add: save_call_def)

lemma save_transfer_frame [simp]:
  "calls (save_transfer r d) = calls d" "managers (save_transfer r d) = managers d"
  "transcripts (save_transfer r d) = transcripts d" "audits (save_transfer r d) = audits d"
  "get_call_row i (save_transfer r d) = get_call_row i d"
  "get_transfer_row i (save_call c d) = get_transfer_row i d"
  by (simp_all add: save_transfer_def get_call_row_def save_call_def get_transfer_row_def)

lemma audit_call_frame [simp]:
  "calls (audit_call cid a ac p d) = calls d" "transfers (audit_call cid a ac p d) = transfers d"
  "managers (audit_call cid a ac p d) = managers d"
  "transcripts (audit_call cid a ac p d) = transcripts d"
  "blocked (audit_call cid a ac p d) = blocked d" "agents (audit_call cid a ac p d) = agents d"
  "steerings (audit_call cid a ac p d) = steerings d"
  "vapi_logs (audit_call cid a ac p d) = vapi_logs d"
  "lines_tbl (audit_call cid a ac p d) = lines_tbl d"
  "get_call_row i (audit_call cid a ac p d) = get_call_row i d"
  "get_transfer_row i (audit_call cid a ac p d) = get_transfer_row i d"
  "calls_wf (audit_call cid a ac p d) = calls_wf d"
  by (simp_all add: audit_call_def get_call_row_def get_transfer_row_def calls_wf_def)

section \<open>Transcript sequence numbers\<close>

definition seqs :: "uuid \<Rightarrow> db \<Rightarrow> int list" where
  "seqs cid d = map e_sequence_num (filter (\<lambda>e. e_call_id e = cid) (transcripts d))"

definition transcript_ok :: "db \<Rightarrow> bool" where
  "transcript_ok d \<longleftrightarrow>
     (\<forall>cid. sorted_wrt (<) (seqs cid d) \<and> (\<forall>n\<in>set (seqs cid d). 0 \<le> n))"

lemma fold_max_ge: "a \<le> fold max xs (a :: int) \<and> (\<forall>x\<in>set xs. x \<le> fold max xs a)"
proof (induction xs arbitrary: a)
  case (Cons x xs)
  from Cons.IH [of "max x a"] show ?case by auto
qed simp

lemma next_sequence_num_gt:
  "n \<in> set (seqs cid d) \<Longrightarrow> n < next_sequence_num cid d"
  using fold_max_ge [of "- 1" "seqs cid d"]
  by (auto simp: next_sequence_num_def seqs_def)

lemma next_sequence_num_nonneg: "0 \<le> next_sequence_num cid d"
  using fold_max_ge [of "- 1" "seqs cid d"] by (simp add: next_sequence_num_def seqs_def)

lemma number_entries_seqs:
  "map e_sequence_num (number_entries cid n es) = map (\<lambda>i. n + int i) [0..<length es]"
proof (induction es arbitrary: n)
  case (Cons e es)
  have "map (\<lambda>i. n + int i) [0..<Suc (length es)]
      = n # map (\<lambda>i. n + 1 + int i) [0..<length es]"
    by (simp add: upt_conv_Cons map_Suc_upt [symmetric] del: upt_Suc)
  with Cons [of "n + 1"] show ?case by (cases e) (simp del: upt_Suc)
qed simp

lemma number_entries_call: "\<forall>e\<in>set (number_entries cid n es). e_call_id e = cid"
  by (induction cid n es rule: number_entries.induct) auto

lemma number_entries_content:
  "map (\<lambda>e. (e_role e, e_text e, e_raw_payload e)) (number_entries cid n es) = es"
  by (induction cid n es rule: number_entries.induct) auto

lemma seqs_bulk_append:
  "seqs c (bulk_append cid es d) =
     seqs c d @ (if c = cid then map (\<lambda>i. next_sequence_num cid d + int i) [0..<length es] else [])"
proof -
  have "filter (\<lambda>e. e_call_id e = c) (number_entries cid n es)
      = (if c = cid then number_entries cid n es else [])" for n
    using number_entries_call [of cid n es] by (auto simp: filter_id_conv filter_empty_conv)
  then show ?thesis
    by (auto simp: seqs_def bulk_append_def number_entries_seqs)
qed

lemma sorted_wrt_upt_shift: "sorted_wrt (<) (map (\<lambda>i. n + int i) [0..<k])"
  by (simp add: sorted_wrt_map strict_sorted_iff)

lemma bulk_append_ok: "transcript_ok d \<Longrightarrow> transcript_ok (bulk_append cid es d)"
  using next_sequence_num_gt [of _ cid d] next_sequence_num_nonneg [of cid d]
  by (fastforce simp: transcript_ok_def seqs_bulk_append sorted_wrt_append sorted_wrt_upt_shift)

lemma append_transcript_bulk:
  "append_transcript cid role txt raw d = bulk_append cid [(role, txt, raw)] d"
  by (simp add: append_transcript_def bulk_append_def)

lemma append_transcript_ok: "transcript_ok d \<Longrightarrow> transcript_ok (append_transcript cid role txt raw d)"
  by (simp add: append_transcript_bulk bulk_append_ok)

lemma sort_key_strict: "sorted_wrt (<) (map f xs) \<Longrightarrow> sort_key f xs = xs"
  by (intro sort_key_id_if_sorted) (simp add: strict_sorted_iff)

text \<open>
  C26. Live transcript streaming loses and repeats nothing. If the numbering invariant holds
  (strictly increasing, non-negative sequence numbers per call), then after any batch of
  utterances is appended the invariant still holds, a reader that polls from the last number it
  could have seen gets exactly the new utterances in their order, and the full transcript is the
  old one followed by them.
\<close>

theorem transcript_poll_complete:
  assumes "transcript_ok d"
  shows "transcript_ok (bulk_append cid es d)
    \<and> map (\<lambda>e. (e_role e, e_text e, e_raw_payload e))
          (get_after_sequence cid (next_sequence_num cid d - 1) (bulk_append cid es d)) = es
    \<and> get_transcript cid (bulk_append cid es d) =
        get_transcript cid d @
        get_after_sequence cid (next_sequence_num cid d - 1) (bulk_append cid es d)"
proof -
  define d' where "d' = bulk_append cid es d"
  let ?n = "next_sequence_num cid d"
  let ?new = "number_entries cid ?n es"
  have ok': "transcript_ok d'" using assms by (simp add: bulk_append_ok d'_def)
  have old: "filter (\<lambda>e. e_call_id e = cid \<and> ?n - 1 < e_sequence_num e) (transcripts d) = []"
    using next_sequence_num_gt [of _ cid d] by (fastforce simp: seqs_def filter_empty_conv)
  have "\<forall>m\<in>set (map e_sequence_num ?new). ?n \<le> m" by (auto simp: number_entries_seqs)
  then have new: "filter (\<lambda>e. e_call_id e = cid \<and> ?n - 1 < e_sequence_num e) ?new = ?new"
    using number_entries_call [of cid ?n es] by (auto simp: filter_id_conv)
  have newall: "filter (\<lambda>e. e_call_id e = cid) ?new = ?new"
    using number_entries_call [of cid ?n es] by (auto simp: filter_id_conv)
  have after: "get_after_sequence cid (?n - 1) d' = ?new"
    using old new sorted_wrt_upt_shift [of ?n "length es"]
    by (simp add: get_after_sequence_def d'_def bulk_append_def sort_key_strict number_entries_seqs)
  have "get_transcript cid d = filter (\<lambda>e. e_call_id e = cid) (transcripts d)"
    using assms(1) by (simp add: get_transcript_def sort_key_strict transcript_ok_def seqs_def)
  moreover have "get_transcript cid d' = filter (\<lambda>e. e_call_id e = cid) (transcripts d')"
    using ok' by (simp add: get_transcript_def sort_key_strict transcript_ok_def seqs_def)
  ultimately show ?thesis
    using ok' after newall by (simp add: number_entries_content d'_def bulk_append_def)
qed

theorem transcript_poll_complete_witness:
  "transcript_ok (append_transcript 7 USER ''hello'' None empty_db)
   \<and> map (\<lambda>e. (e_role e, e_text e, e_raw_payload e)) (get_after_sequence 7 0
       (bulk_append 7 [(ASSISTANT, ''hi'', None), (USER, ''price?'', None)]
         (append_transcript 7 USER ''hello'' None empty_db)))
     = [(ASSISTANT, ''hi'', None), (USER, ''price?'', None)]"
proof -
  let ?d = "append_transcript 7 USER ''hello'' None empty_db"
  let ?es = "[(ASSISTANT, ''hi'', None), (USER, ''price?'', None)]"
  have h: "transcript_ok ?d"
    by (intro append_transcript_ok) (simp add: transcript_ok_def seqs_def empty_db_def)
  have n: "next_sequence_num 7 ?d - 1 = 0"
    by (simp add: next_sequence_num_def append_transcript_def empty_db_def)
  have "map (\<lambda>e. (e_role e, e_text e, e_raw_payload e))
          (get_after_sequence 7 (next_sequence_num 7 ?d - 1) (bulk_append 7 ?es ?d)) = ?es"
    using transcript_poll_complete [OF h, of 7 ?es] by blast
  then show ?thesis using h by (simp only: n simp_thms)
qed

section \<open>Deny list\<close>

lemma is_blocked_find: "is_blocked phone d \<longleftrightarrow> find_row b_phone phone (blocked d) \<noteq> None"
  unfolding find_row_None by (auto simp: is_blocked_def list_ex_iff)

lemma block_then_blocked:
  "is_blocked phone (snd (block_phone phone reason by d))"
  "q \<noteq> phone \<Longrightarrow> is_blocked q (snd (block_phone phone reason by d)) = is_blocked q d"
proof -
  show "is_blocked phone (snd (block_phone phone reason by d))"
  proof (cases "find_row b_phone phone (blocked d)")
    case None
    then show ?thesis by (simp add: block_phone_def is_blocked_def Let_def)
  next
    case (Some b)
    then have "is_blocked phone d" by (simp add: is_blocked_find)
    with Some show ?thesis by (simp add: block_phone_def)
  qed
  show "is_blocked q (snd (block_phone phone reason by d)) = is_blocked q d" if "q \<noteq> phone"
    using that by (simp add: block_phone_def is_blocked_def Let_def split: option.split)
qed

lemma unblock_then_free:
  "\<not> is_blocked phone (snd (unblock_phone phone d))"
  "q \<noteq> phone \<Longrightarrow> is_blocked q (snd (unblock_phone phone d)) = is_blocked q d"
  "fst (unblock_phone phone d) = is_blocked phone d"
proof -
  show "fst (unblock_phone phone d) = is_blocked phone d"
    by (simp add: unblock_phone_def is_blocked_find split: option.split)
  show "\<not> is_blocked phone (snd (unblock_phone phone d))"
    by (cases "find_row b_phone phone (blocked d)")
      (simp_all add: unblock_phone_def is_blocked_find [of phone d], simp add: is_blocked_def list_ex_iff)
  show "is_blocked q (snd (unblock_phone phone d)) = is_blocked q d" if "q \<noteq> phone"
    using that by (auto simp: unblock_phone_def is_blocked_def list_ex_iff split: option.split)
qed

end
