(* ===== verification/Phone.thy ===== *)
theory Phone
  imports PyText Calls
begin

text \<open>
  Phone numbers: \<open>normalize_phone\<close> of \<open>app/services/phone_service.py\<close> over the third-party
  library \<open>phonenumbers\<close> (a parameter: its parser, validator and formatter), the label that
  replaces the phone of a browser sandbox call (\<open>_normalize_browser_label\<close> of
  \<open>app/services/call_service.py\<close>), and the Mango number format of
  \<open>app/integrations/telephony/mango_client.py\<close> with the single-number policy built on it.
\<close>

section \<open>normalize_phone\<close>

record 'n phone_lib =
  pl_parse :: "string \<Rightarrow> string \<Rightarrow> 'n option"  \<comment> \<open>\<open>None\<close>: \<open>NumberParseException\<close>\<close>
  pl_is_valid :: "'n \<Rightarrow> bool"
  pl_format_e164 :: "'n \<Rightarrow> string"

definition normalize_phone ::
    "'n phone_lib \<Rightarrow> string \<Rightarrow> string \<Rightarrow> string option \<Rightarrow> (app_error, string) result" where
  "normalize_phone lib default_country raw country =
     (let code = (if truthy country then the country else default_country) in
      case pl_parse lib raw code of
        None \<Rightarrow> Inl PhoneNormalizationError
      | Some parsed \<Rightarrow>
          if \<not> pl_is_valid lib parsed then Inl PhoneNormalizationError
          else Inr (pl_format_e164 lib parsed))"

section \<open>Browser labels\<close>

definition label_char :: "char \<Rightarrow> bool" where
  "label_char ch \<longleftrightarrow> is_alnum ch \<or> ch \<in> {CHR ''-'', CHR ''_'', CHR '':''}"

definition normalize_browser_label :: "string \<Rightarrow> string" where
  "normalize_browser_label raw =
     (let label = lower (strip (if raw = [] then ''sandbox'' else raw));
          sanitized = filter label_char label;
          sanitized = (if sanitized = [] then ''sandbox'' else take 20 sanitized);
          sanitized = (if startswith sanitized ''browser:'' then sanitized else ''browser:'' @ sanitized)
      in take 20 sanitized)"

section \<open>Mango numbers\<close>

definition normalize_mango_phone :: "string option \<Rightarrow> string" where
  "normalize_mango_phone number =
     (if \<not> truthy number then []
      else (let cleaned = strip (the number) in
        if startswith cleaned ''+'' then cleaned
        else (let digits_only = filter is_digit cleaned in
          if length digits_only = 11 \<and> startswith digits_only ''8'' then ''+7'' @ drop 1 digits_only
          else if length digits_only = 11 \<and> startswith digits_only ''7'' then ''+'' @ digits_only
          else if length digits_only = 10 then ''+7'' @ digits_only
          else cleaned)))"

text \<open>\<open>primary\<close> is \<open>settings.mango_primary_phone_e164 or settings.mango_primary_phone_number\<close>.\<close>

definition is_allowed_mango_phone_number ::
    "string option \<Rightarrow> string option \<Rightarrow> string option \<Rightarrow> bool" where
  "is_allowed_mango_phone_number primary_e164 primary_number number =
     (let primary = normalize_mango_phone (py_or primary_e164 primary_number);
          normalized = normalize_mango_phone number
      in if primary = [] then True else normalized = primary)"

section \<open>Lemmas\<close>

lemma label_char_lower: "label_char c \<Longrightarrow> \<not> is_space c"
proof -
  assume "label_char c"
  then show ?thesis by (auto simp: label_char_def is_alnum_def is_space_def Let_def)
qed

definition browser_label :: "string \<Rightarrow> bool" where
  "browser_label s \<longleftrightarrow> startswith s ''browser:'' \<and> length s \<le> 20 \<and> (\<forall>c\<in>set s. label_char c)
     \<and> lower s = s"

lemma lower_take: "lower (take n s) = take n (lower s)"
  by (simp add: lower_def take_map)

lemma lower_id_iff: "lower s = s \<longleftrightarrow> (\<forall>c\<in>set s. lower_char c = c)"
  by (induction s) (auto simp: lower_def)

lemma browser_prefix_facts:
  "lower ''browser:'' = ''browser:''" "\<forall>c\<in>set ''browser:''. label_char c"
  "lower ''sandbox'' = ''sandbox''" "\<forall>c\<in>set ''sandbox''. label_char c"
  by (simp_all add: lower_def lower_char_def label_char_def is_alnum_def Let_def)

lemma normalize_browser_label_shape: "browser_label (normalize_browser_label raw)"
proof -
  define s1 where "s1 = filter label_char (lower (strip (if raw = [] then ''sandbox'' else raw)))"
  define s2 where "s2 = (if s1 = [] then ''sandbox'' else take 20 s1)"
  define s3 where "s3 = (if startswith s2 ''browser:'' then s2 else ''browser:'' @ s2)"
  have "\<forall>c\<in>set s1. label_char c \<and> lower_char c = c"
    by (auto simp: s1_def lower_def)
  then have "\<forall>c\<in>set s2. label_char c \<and> lower_char c = c"
    using browser_prefix_facts(3,4) by (auto simp: s2_def lower_id_iff dest: in_set_takeD)
  then have "\<forall>c\<in>set s3. label_char c \<and> lower_char c = c"
    using browser_prefix_facts(1,2) by (auto simp: s3_def lower_id_iff)
  then have "\<forall>c\<in>set (take 20 s3). label_char c \<and> lower_char c = c"
    by (auto dest: in_set_takeD)
  moreover have "\<exists>r. s3 = ''browser:'' @ r"
    by (auto simp: s3_def startswith_append)
  then have "startswith (take 20 s3) ''browser:''" by (auto simp: startswith_append)
  moreover have "normalize_browser_label raw = take 20 s3"
    by (simp only: normalize_browser_label_def Let_def s1_def s2_def s3_def)
  moreover have "length (take 20 s3) \<le> 20" by simp
  ultimately show ?thesis
    unfolding browser_label_def lower_id_iff by metis
qed

lemma normalize_browser_label_id: "browser_label s \<Longrightarrow> normalize_browser_label s = s"
proof -
  assume s: "browser_label s"
  then have "s \<noteq> []" by (auto simp: browser_label_def)
  moreover have "strip s = s"
    using s label_char_lower by (intro strip_no_spaces) (auto simp: browser_label_def)
  moreover have "filter label_char s = s" using s by (simp add: browser_label_def)
  ultimately show ?thesis using s by (simp add: normalize_browser_label_def browser_label_def Let_def)
qed

text \<open>
  The pseudo phone of a browser sandbox call is canonical whatever the caller sent: it
  begins with \<open>browser:\<close>, fits the 20 characters of the phone column, consists of lower-case
  label characters only, and normalising it again changes nothing.
\<close>

theorem browser_label_canonical:
  "startswith (normalize_browser_label raw) ''browser:''
   \<and> length (normalize_browser_label raw) \<le> 20
   \<and> list_all label_char (normalize_browser_label raw)
   \<and> lower (normalize_browser_label raw) = normalize_browser_label raw
   \<and> normalize_browser_label (normalize_browser_label raw) = normalize_browser_label raw"
  using normalize_browser_label_shape [of raw]
  by (simp add: browser_label_def normalize_browser_label_id normalize_browser_label_shape
      list_all_iff)

lemma normalize_mango_phone_plus:
  "startswith s ''+'' \<Longrightarrow> strip s = s \<Longrightarrow> normalize_mango_phone (Some s) = s"
  by (auto simp: normalize_mango_phone_def)

lemma digit_not_space: "is_digit c \<Longrightarrow> \<not> is_space c"
  by (auto simp: is_digit_def is_space_def Let_def)

lemma strip_plus_digits:
  "\<forall>c\<in>set d. is_digit c \<or> c \<in> {CHR ''+'', CHR ''7''} \<Longrightarrow> strip d = d"
proof (rule strip_no_spaces)
  assume "\<forall>c\<in>set d. is_digit c \<or> c \<in> {CHR ''+'', CHR ''7''}"
  moreover have "\<not> is_space CHR ''+''" "\<not> is_space CHR ''7''" by (simp_all add: is_space_def)
  ultimately show "\<forall>c\<in>set d. \<not> is_space c" using digit_not_space by blast
qed

text \<open>
  Mango number normalisation is idempotent: what it returns, looked up again, is the same
  key. Lines are stored and looked up under this key.
\<close>

theorem mango_phone_idempotent:
  "normalize_mango_phone (Some (normalize_mango_phone number)) = normalize_mango_phone number"
proof (cases "truthy number")
  case True
  define cleaned where "cleaned = strip (the number)"
  define d where "d = filter is_digit cleaned"
  have digits: "\<forall>c\<in>set d. is_digit c" by (simp add: d_def)
  consider "startswith cleaned ''+''"
    | "\<not> startswith cleaned ''+''" "length d = 11" "startswith d ''8''"
    | "\<not> startswith cleaned ''+''" "length d = 11" "startswith d ''7''" "\<not> startswith d ''8''"
    | "\<not> startswith cleaned ''+''" "length d = 10"
    | "\<not> startswith cleaned ''+''" "\<not> (length d = 11 \<and> startswith d ''8'')"
      "\<not> (length d = 11 \<and> startswith d ''7'')" "length d \<noteq> 10"
    by blast
  then show ?thesis
  proof cases
    case 5
    then have "normalize_mango_phone number = cleaned"
      using True by (auto simp: normalize_mango_phone_def d_def cleaned_def Let_def)
    moreover have "normalize_mango_phone (Some cleaned) = cleaned"
      using 5 by (auto simp: normalize_mango_phone_def d_def cleaned_def Let_def)
    ultimately show ?thesis by simp
  next
    case 1
    then have "normalize_mango_phone number = cleaned"
      using True by (simp add: normalize_mango_phone_def cleaned_def)
    then show ?thesis using 1 by (simp add: normalize_mango_phone_plus cleaned_def)
  next
    case 2
    then have "normalize_mango_phone number = ''+7'' @ drop 1 d"
      using True by (simp add: normalize_mango_phone_def cleaned_def d_def Let_def)
    moreover have "strip (''+7'' @ drop 1 d) = ''+7'' @ drop 1 d"
      using digits by (intro strip_plus_digits) (auto dest: in_set_dropD)
    ultimately show ?thesis by (simp add: normalize_mango_phone_plus)
  next
    case 3
    then have "normalize_mango_phone number = ''+'' @ d"
      using True by (simp add: normalize_mango_phone_def cleaned_def d_def Let_def)
    moreover have "strip (''+'' @ d) = ''+'' @ d"
      using digits by (intro strip_plus_digits) auto
    ultimately show ?thesis by (simp add: normalize_mango_phone_plus)
  next
    case 4
    then have "normalize_mango_phone number = ''+7'' @ d"
      using True by (simp add: normalize_mango_phone_def cleaned_def d_def Let_def)
    moreover have "strip (''+7'' @ d) = ''+7'' @ d"
      using digits by (intro strip_plus_digits) auto
    ultimately show ?thesis by (simp add: normalize_mango_phone_plus)
  qed
next
  case False
  then show ?thesis by (simp add: normalize_mango_phone_def)
qed

lemma mango_phone_forms:
  assumes "length d = 10" "\<forall>c\<in>set d. is_digit c"
  shows "normalize_mango_phone (Some d) = ''+7'' @ d"
    and "normalize_mango_phone (Some (CHR ''8'' # d)) = ''+7'' @ d"
    and "normalize_mango_phone (Some (CHR ''7'' # d)) = ''+7'' @ d"
    and "normalize_mango_phone (Some (''+7'' @ d)) = ''+7'' @ d"
proof -
  have ds: "is_digit CHR ''8''" "is_digit CHR ''7''" "\<not> is_digit CHR ''+''"
    by (simp_all add: is_digit_def)
  have f: "filter is_digit d = d" using assms by simp
  have st: "strip d = d" "strip (CHR ''8'' # d) = CHR ''8'' # d" "strip (CHR ''7'' # d) = CHR ''7'' # d"
    using assms ds digit_not_space by (auto intro!: strip_no_spaces)
  from assms ds(3) have np: "\<not> startswith d ''+''" by (cases d) auto
  from assms have ne: "d \<noteq> []" by auto
  show "normalize_mango_phone (Some d) = ''+7'' @ d"
    using assms f st np ne by (simp add: normalize_mango_phone_def)
  show "normalize_mango_phone (Some (CHR ''8'' # d)) = ''+7'' @ d"
    using assms f st ds by (simp add: normalize_mango_phone_def)
  show "normalize_mango_phone (Some (CHR ''7'' # d)) = ''+7'' @ d"
    using assms f st ds by (simp add: normalize_mango_phone_def)
  have "strip (''+7'' @ d) = ''+7'' @ d"
    using assms by (intro strip_plus_digits) auto
  then show "normalize_mango_phone (Some (''+7'' @ d)) = ''+7'' @ d"
    by (simp add: normalize_mango_phone_plus)
qed

end
