(* ===== verification/Settings.thy ===== *)
theory Settings
  imports PyText
begin

text \<open>
  The settings of \<open>app/core/config.py\<close> that the modelled code reads, with the defaults of the
  class and the derived properties (\<open>is_production\<close>, the \<open>*_configured\<close> flags,
  \<open>freeswitch_local_media_supported\<close>, \<open>mango_primary_phone_e164\<close>).
  Whether FreeSWITCH shares the backend's host (\<open>freeswitch_backend_media_colocated\<close>) depends on
  name resolution and is the field \<open>st_media_colocated\<close>. The response timeout of a direct session is
  in microseconds; its greeting, Cyrillic in the source, is transliterated.
\<close>

record settings =
  st_environment :: string
  st_enforce_quiet_hours :: bool
  st_calling_timezone :: string
  st_calling_hour_start :: int
  st_calling_hour_end :: int
  st_rate_limit_enabled :: bool
  st_rate_limit_global_per_ip_per_minute :: int
  st_rate_limit_calls_per_minute :: int
  st_rate_limit_steer_per_call_per_minute :: int
  st_rate_limit_transfer_cooldown_seconds :: int
  st_rate_limit_calls_per_phone_per_day :: int
  st_rate_limit_max_concurrent_calls :: int
  st_rate_limit_phone_repeat_cooldown_seconds :: int
  st_transfer_manager_answer_timeout :: int
  st_transfer_briefing_timeout :: int
  st_transfer_bridge_timeout :: int
  st_transfer_max_manager_attempts :: nat
  st_transfer_manager_cooldown_seconds :: int
  st_gemini_api_key :: string
  st_gemini_audio_output_enabled :: bool
  st_direct_voice_strategy :: string
  st_direct_voice_allow_tts_fallback :: bool
  st_elevenlabs_enabled :: bool
  st_elevenlabs_api_key :: string
  st_elevenlabs_voice_id :: string
  st_cartesia_enabled :: bool
  st_cartesia_api_key :: string
  st_cartesia_voice_id :: string
  st_media_gateway_enabled :: bool
  st_media_gateway_provider :: string
  st_media_gateway_mode :: string
  st_media_colocated :: bool
  st_mango_primary_phone_number :: string
  st_gemini_audio_input_enabled :: bool
  st_direct_max_sessions :: nat
  st_direct_initial_greeting_enabled :: bool
  st_direct_initial_greeting_text :: string
  st_direct_model_response_timeout :: time

definition is_production :: "settings \<Rightarrow> bool" where
  "is_production cfg = (st_environment cfg = ''production'')"

definition gemini_configured :: "settings \<Rightarrow> bool" where
  "gemini_configured cfg = (st_gemini_api_key cfg \<noteq> [])"

definition elevenlabs_configured :: "settings \<Rightarrow> bool" where
  "elevenlabs_configured cfg =
     (st_elevenlabs_enabled cfg \<and> st_elevenlabs_api_key cfg \<noteq> [] \<and> st_elevenlabs_voice_id cfg \<noteq> [])"

definition cartesia_configured :: "settings \<Rightarrow> bool" where
  "cartesia_configured cfg =
     (st_cartesia_enabled cfg \<and> st_cartesia_api_key cfg \<noteq> [] \<and> st_cartesia_voice_id cfg \<noteq> [])"

definition freeswitch_local_media_supported :: "settings \<Rightarrow> bool" where
  "freeswitch_local_media_supported cfg =
     (if st_media_gateway_mode cfg \<noteq> ''esl_rtp'' then True else st_media_colocated cfg)"

definition normalize_ru_phone :: "string \<Rightarrow> string" where
  "normalize_ru_phone value =
     (let cleaned = strip value in
      if cleaned = [] then []
      else if startswith cleaned ''+'' then ''+'' @ filter is_digit (drop 1 cleaned)
      else (let digits = filter is_digit cleaned in
        if length digits = 11 \<and> startswith digits ''8'' then ''+7'' @ drop 1 digits
        else if length digits = 11 \<and> startswith digits ''7'' then ''+'' @ digits
        else if length digits = 10 then ''+7'' @ digits
        else if digits \<noteq> [] then ''+'' @ digits else cleaned))"

definition mango_primary_phone_e164 :: "settings \<Rightarrow> string" where
  "mango_primary_phone_e164 cfg = normalize_ru_phone (st_mango_primary_phone_number cfg)"

text \<open>The class defaults, used for concrete runs.\<close>

definition default_settings :: settings where
  "default_settings = \<lparr>
     st_environment = ''development'',
     st_enforce_quiet_hours = False,
     st_calling_timezone = ''Europe/Moscow'',
     st_calling_hour_start = 9,
     st_calling_hour_end = 21,
     st_rate_limit_enabled = True,
     st_rate_limit_global_per_ip_per_minute = 60,
     st_rate_limit_calls_per_minute = 10,
     st_rate_limit_steer_per_call_per_minute = 20,
     st_rate_limit_transfer_cooldown_seconds = 60,
     st_rate_limit_calls_per_phone_per_day = 5,
     st_rate_limit_max_concurrent_calls = 50,
     st_rate_limit_phone_repeat_cooldown_seconds = 300,
     st_transfer_manager_answer_timeout = 30,
     st_transfer_briefing_timeout = 15,
     st_transfer_bridge_timeout = 10,
     st_transfer_max_manager_attempts = 3,
     st_transfer_manager_cooldown_seconds = 300,
     st_gemini_api_key = [],
     st_gemini_audio_output_enabled = False,
     st_direct_voice_strategy = ''disabled'',
     st_direct_voice_allow_tts_fallback = True,
     st_elevenlabs_enabled = False,
     st_elevenlabs_api_key = [],
     st_elevenlabs_voice_id = [],
     st_cartesia_enabled = False,
     st_cartesia_api_key = [],
     st_cartesia_voice_id = [],
     st_media_gateway_enabled = False,
     st_media_gateway_provider = ''freeswitch'',
     st_media_gateway_mode = ''disabled'',
     st_media_colocated = False,
     st_mango_primary_phone_number = ''89300350609'',
     st_gemini_audio_input_enabled = True,
     st_direct_max_sessions = 10,
     st_direct_initial_greeting_enabled = True,
     st_direct_initial_greeting_text = ''Zdravstvuyte!'',
     st_direct_model_response_timeout = 8000000\<rparr>"

end
