(* ===== verification/CallService.thy ===== *)
theory CallService
  imports Database Phone Settings
begin

text \<open>
  \<open>CallService\<close> of \<open>app/services/call_service.py\<close>: creating, refreshing, steering and stopping
  a call. The telephony engine is an interface (\<open>engine_if\<close>): each of its four operations gives
  the outcome of one call, and the world records which operations were invoked, in order.
  Phone normalisation, the local hour of a time zone, the generated identifier and the clock
  are arguments (\<open>call_env\<close>). What the service leaves in the session when an exception leaves
  it is the second component of the result.

  The lemmas classify every outcome of \<open>create_call\<close>, show that stopping is idempotent and that
  \<open>completed_at\<close> is kept in step with the terminal statuses.
\<close>

section \<open>The engine interface\<close>

record engine_result =
  r_external_id :: "string option"
  r_initial_status :: call_status
  r_route_used :: string
  r_telephony_leg_id :: "string option"
  r_metadata :: "(string \<times> json) list option"

record engine_if =
  en_initiate :: "call \<Rightarrow> (app_error, engine_result) result"
  en_stop :: "call \<Rightarrow> (app_error, unit) result"
  en_instruct :: "call \<Rightarrow> string \<Rightarrow> (app_error, unit) result"
  en_status :: "call \<Rightarrow> (app_error, call_status) result"

datatype engine_op =
    OpInitiate uuid
  | OpStop uuid
  | OpInstruct uuid string
  | OpStatus uuid

record world =
  w_db :: db
  w_ops :: "engine_op list"

record call_env =
  ce_normalize :: "string \<Rightarrow> (app_error, string) result"
  ce_local_hour :: "string \<Rightarrow> int option"  \<comment> \<open>\<open>None\<close>: the zone is unknown\<close>
  ce_new_id :: uuid
  ce_created_at :: time
  ce_now :: time

definition w_save :: "call \<Rightarrow> world \<Rightarrow> world" where
  "w_save c w = w\<lparr>w_db := save_call c (w_db w)\<rparr>"

definition w_op :: "engine_op \<Rightarrow> world \<Rightarrow> world" where
  "w_op x w = w\<lparr>w_ops := w_ops w @ [x]\<rparr>"

definition w_audit :: "uuid \<Rightarrow> string \<Rightarrow> string \<Rightarrow> json option \<Rightarrow> world \<Rightarrow> world" where
  "w_audit cid action actor payload w = w\<lparr>w_db := audit_call cid action actor payload (w_db w)\<rparr>"

definition status_change :: "call_status \<Rightarrow> call_status \<Rightarrow> json option" where
  "status_change a b = Some (JObj [(''from'', JStr (status_value a)), (''to'', JStr (status_value b))])"

section \<open>Quiet hours\<close>

definition check_quiet_hours :: "settings \<Rightarrow> (string \<Rightarrow> int option) \<Rightarrow> (app_error, unit) result" where
  "check_quiet_hours cfg local_hour =
     (if \<not> st_enforce_quiet_hours cfg then Inr ()
      else case local_hour (st_calling_timezone cfg) of
             None \<Rightarrow> Inr ()
           | Some hour \<Rightarrow>
               if \<not> (st_calling_hour_start cfg \<le> hour \<and> hour < st_calling_hour_end cfg)
               then Inl QuietHoursError else Inr ())"

section \<open>create_call\<close>

text \<open>The checks before anything is stored: phone, deny list, quiet hours, agent profile.\<close>

definition precheck ::
    "settings \<Rightarrow> call_env \<Rightarrow> string \<Rightarrow> call_mode \<Rightarrow> uuid option \<Rightarrow> bool \<Rightarrow> db
     \<Rightarrow> (app_error, string) result" where
  "precheck cfg env raw_phone mode agent_profile_id skip_policy_checks d =
     (let is_browser_call = (mode = BROWSER) in
      case (if is_browser_call then Inr (normalize_browser_label raw_phone)
            else ce_normalize env raw_phone) of
        Inl e \<Rightarrow> Inl e
      | Inr phone \<Rightarrow>
          if \<not> skip_policy_checks \<and> \<not> is_browser_call \<and> is_blocked phone d then Inl BlockedPhoneError
          else case (if \<not> skip_policy_checks \<and> \<not> is_browser_call
                     then check_quiet_hours cfg (ce_local_hour env) else Inr ()) of
                 Inl e \<Rightarrow> Inl e
               | Inr _ \<Rightarrow>
                   (case agent_profile_id of
                      None \<Rightarrow> Inr phone
                    | Some gid \<Rightarrow>
                        (case get_agent gid d of
                           None \<Rightarrow> Inl NotFoundError
                         | Some g \<Rightarrow> if \<not> g_is_active g then Inl InvalidCallStateError else Inr phone)))"

text \<open>An empty runtime context is falsy and is not attached.\<close>

definition truthy_context :: "json option \<Rightarrow> bool" where
  "truthy_context ctx = (case ctx of Some (JObj (_ # _)) \<Rightarrow> True | _ \<Rightarrow> False)"

definition new_call :: "call_env \<Rightarrow> string \<Rightarrow> call_mode \<Rightarrow> uuid option \<Rightarrow> json option \<Rightarrow> call" where
  "new_call env phone mode agent_profile_id ctx =
     \<lparr>c_id = ce_new_id env, c_created_at = ce_created_at env, c_phone = phone, c_mode = mode,
      c_status = CREATED, c_agent_profile_id = agent_profile_id, c_manager_id = None,
      c_vapi_call_id = None, c_mango_call_id = None, c_route_used = None,
      c_telephony_leg_id = None, c_transcript = None, c_summary = None, c_sentiment = None,
      c_completed_at = None,
      c_runtime_context = (if truthy_context ctx then ctx else None)\<rparr>"

text \<open>Wrapping the exception of a failed engine: the call id and a stage are always added.\<close>

definition wrap_engine_error :: "uuid \<Rightarrow> app_error \<Rightarrow> app_error" where
  "wrap_engine_error cid exc = (case exc of
     EngineError msg stage _ \<Rightarrow> EngineError msg (py_or stage (Some ''engine_initiate'')) (Some cid)
   | _ \<Rightarrow> EngineError ''Call initiation failed'' (Some ''engine_initiate'') (Some cid))"

definition fail_created :: "call_env \<Rightarrow> call \<Rightarrow> world \<Rightarrow> world" where
  "fail_created env call w =
     w_audit (c_id call) ''status_changed'' ''engine'' (status_change CREATED FAILED)
       (w_save (call\<lparr>c_status := FAILED, c_completed_at := Some (ce_now env)\<rparr>) w)"

text \<open>Storing the engine's answer: status, route, leg and the external id by actual route.\<close>

definition apply_engine_result :: "engine_result \<Rightarrow> call \<Rightarrow> call" where
  "apply_engine_result res call0 =
     (let call1 = call0\<lparr>c_status := r_initial_status res,
                        c_route_used := (if r_route_used res = [] then None else Some (r_route_used res))\<rparr>;
          call2 = (if truthy (r_telephony_leg_id res)
                   then call1\<lparr>c_telephony_leg_id := r_telephony_leg_id res\<rparr> else call1)
      in if r_route_used res \<in> {''direct'', ''browser''}
         then call2\<lparr>c_mango_call_id := r_external_id res, c_vapi_call_id := None\<rparr>
         else call2\<lparr>c_vapi_call_id := r_external_id res, c_mango_call_id := None\<rparr>)"

definition create_call ::
    "settings \<Rightarrow> call_env \<Rightarrow> engine_if \<Rightarrow> string \<Rightarrow> call_mode \<Rightarrow> string \<Rightarrow> uuid option
     \<Rightarrow> json option \<Rightarrow> bool \<Rightarrow> world \<Rightarrow> (app_error, call) result \<times> world" where
  "create_call cfg env eng raw_phone mode actor agent_profile_id ctx skip w =
     (case precheck cfg env raw_phone mode agent_profile_id skip (w_db w) of
        Inl e \<Rightarrow> (Inl e, w)
      | Inr phone \<Rightarrow>
          (let call = new_call env phone mode agent_profile_id ctx;
               w1 = w_op (OpInitiate (c_id call))
                      (w_audit (c_id call) ''created'' actor None (w_save call w))
           in case en_initiate eng call of
                Inl exc \<Rightarrow> (Inl (wrap_engine_error (c_id call) exc), fail_created env call w1)
              | Inr res \<Rightarrow>
                  (let call' = apply_engine_result res call
                   in (Inr call',
                       w_audit (c_id call) ''status_changed'' ''engine''
                         (status_change CREATED (r_initial_status res)) (w_save call' w1)))))"

section \<open>Reading\<close>

text \<open>Adopting the live status; a call that becomes terminal gets its completion time.\<close>

definition adopt_status :: "time \<Rightarrow> call_status \<Rightarrow> call \<Rightarrow> call" where
  "adopt_status now live call =
     (let call' = call\<lparr>c_status := live\<rparr> in
      if live \<in> terminal_statuses \<and> c_completed_at call' = None
      then call'\<lparr>c_completed_at := Some now\<rparr> else call')"

definition get_call ::
    "time \<Rightarrow> engine_if \<Rightarrow> uuid \<Rightarrow> world \<Rightarrow> (app_error, call) result \<times> world" where
  "get_call now eng cid w =
     (case get_call_row cid (w_db w) of
        None \<Rightarrow> (Inl NotFoundError, w)
      | Some call \<Rightarrow>
          if is_terminal call then (Inr call, w)
          else (let w1 = w_op (OpStatus (c_id call)) w in
                case en_status eng call of
                  Inl _ \<Rightarrow> (Inr call, w1)
                | Inr live \<Rightarrow>
                    if live \<noteq> c_status call
                    then (let call' = adopt_status now live call in (Inr call', w_save call' w1))
                    else (Inr call, w1)))"

fun refresh_calls :: "time \<Rightarrow> engine_if \<Rightarrow> call list \<Rightarrow> world \<Rightarrow> call list \<times> world" where
  "refresh_calls now eng [] w = ([], w)"
| "refresh_calls now eng (call # cs) w =
     (let w1 = w_op (OpStatus (c_id call)) w in
      case en_status eng call of
        Inl _ \<Rightarrow> refresh_calls now eng cs w1
      | Inr live \<Rightarrow>
          (let call' = (if live \<noteq> c_status call then adopt_status now live call else call);
               w2 = (if live \<noteq> c_status call then w_save call' w1 else w1);
               (rest, w3) = refresh_calls now eng cs w2
           in if c_status call' \<in> terminal_statuses then (rest, w3) else (call' # rest, w3)))"

definition get_active_calls :: "time \<Rightarrow> engine_if \<Rightarrow> world \<Rightarrow> call list \<times> world" where
  "get_active_calls now eng w = refresh_calls now eng (get_active_call_rows (w_db w)) w"

section \<open>Steering and stopping\<close>

definition add_steering :: "steering_instruction \<Rightarrow> world \<Rightarrow> world" where
  "add_steering s w = w\<lparr>w_db := (w_db w)\<lparr>steerings := steerings (w_db w) @ [s]\<rparr>\<rparr>"

definition steer_call ::
    "time \<Rightarrow> engine_if \<Rightarrow> uuid \<Rightarrow> string \<Rightarrow> string \<Rightarrow> world
     \<Rightarrow> (app_error, steering_instruction) result \<times> world" where
  "steer_call now eng cid instruction issued_by w =
     (case get_call now eng cid w of
        (Inl e, w1) \<Rightarrow> (Inl e, w1)
      | (Inr call, w1) \<Rightarrow>
          if is_terminal call then (Inl InvalidCallStateError, w1)
          else (let s = \<lparr>s_call_id = c_id call, s_instruction = instruction, s_issued_by = issued_by\<rparr>;
                    w2 = w_op (OpInstruct (c_id call) instruction) (add_steering s w1)
                in case en_instruct eng call instruction of
                     Inl e \<Rightarrow> (Inl e, w2)
                   | Inr _ \<Rightarrow>
                       (Inr s, w_audit (c_id call) ''steered'' issued_by
                          (Some (JObj [(''instruction'', JStr (take 200 instruction))])) w2)))"

definition stop_call ::
    "time \<Rightarrow> engine_if \<Rightarrow> uuid \<Rightarrow> string \<Rightarrow> world \<Rightarrow> (app_error, call) result \<times> world" where
  "stop_call now eng cid actor w =
     (case get_call now eng cid w of
        (Inl e, w1) \<Rightarrow> (Inl e, w1)
      | (Inr call, w1) \<Rightarrow>
          if c_status call \<in> terminal_statuses then (Inr call, w1)
          else (let previous_status = c_status call; w2 = w_op (OpStop (c_id call)) w1
                in case en_stop eng call of
                     Inl e \<Rightarrow> (Inl e, w2)
                   | Inr _ \<Rightarrow>
                       (let call' = call\<lparr>c_status := STOPPED, c_completed_at := Some now\<rparr>
                        in (Inr call',
                            w_audit (c_id call) ''stopped'' actor (status_change previous_status STOPPED)
                              (w_save call' w2)))))"

section \<open>Lemmas\<close>

lemma w_simps [simp]:
  "w_db (w_save c w) = save_call c (w_db w)" "w_ops (w_save c w) = w_ops w"
  "w_db (w_op x w) = w_db w" "w_ops (w_op x w) = w_ops w @ [x]"
  "w_db (w_audit i a ac p w) = audit_call i a ac p (w_db w)" "w_ops (w_audit i a ac p w) = w_ops w"
  by (simp_all add: w_save_def w_op_def w_audit_def)

lemma apply_engine_result_simps [simp]:
  "c_id (apply_engine_result res c) = c_id c"
  "c_status (apply_engine_result res c) = r_initial_status res"
  "c_phone (apply_engine_result res c) = c_phone c"
  "c_completed_at (apply_engine_result res c) = c_completed_at c"
  by (simp_all add: apply_engine_result_def Let_def)

lemma adopt_status_simps [simp]:
  "c_id (adopt_status now s c) = c_id c" "c_status (adopt_status now s c) = s"
  by (simp_all add: adopt_status_def Let_def)

lemma new_call_simps [simp]:
  "c_id (new_call env p m g x) = ce_new_id env" "c_status (new_call env p m g x) = CREATED"
  "c_phone (new_call env p m g x) = p" "c_completed_at (new_call env p m g x) = None"
  "c_mode (new_call env p m g x) = m"
  by (simp_all add: new_call_def)

lemma precheck_skip:
  "precheck cfg env raw mode g skip d = Inr phone \<Longrightarrow>
     mode \<noteq> BROWSER \<Longrightarrow> \<not> skip \<Longrightarrow> \<not> is_blocked phone d"
  by (auto simp: precheck_def Let_def split: sum.splits if_splits option.splits)

text \<open>
  C7. The engine is only ever asked to dial an admissible number. If \<open>create_call\<close> (with the
  policy checks on, and not for the browser sandbox) makes any engine operation, then the phone
  number normalised, is not on the deny list, the local hour lies in the calling window when
  quiet hours are enforced, and the agent profile asked for exists and is active. If it makes
  none, it raised an exception and left no row and no audit event behind.
\<close>

theorem engine_asked_only_when_admissible:
  assumes "create_call cfg env eng raw mode actor g ctx False w = (r, w')" and "mode \<noteq> BROWSER"
  shows "if w_ops w' = w_ops w then \<not> is_ok r \<and> w' = w
    else \<exists>phone. ce_normalize env raw = Inr phone \<and> \<not> is_blocked phone (w_db w)
      \<and> (\<forall>hour. st_enforce_quiet_hours cfg \<longrightarrow> ce_local_hour env (st_calling_timezone cfg) = Some hour
           \<longrightarrow> st_calling_hour_start cfg \<le> hour \<and> hour < st_calling_hour_end cfg)
      \<and> (\<forall>gid. g = Some gid \<longrightarrow> (\<exists>a. get_agent gid (w_db w) = Some a \<and> g_is_active a))"
proof (cases "precheck cfg env raw mode g False (w_db w)")
  case (Inl e)
  with assms show ?thesis by (auto simp: create_call_def)
next
  case (Inr phone)
  then have "w_ops w' = w_ops w @ [OpInitiate (ce_new_id env)]"
    using assms by (auto simp: create_call_def fail_created_def Let_def split: sum.splits)
  moreover have "ce_normalize env raw = Inr phone \<and> \<not> is_blocked phone (w_db w)
      \<and> check_quiet_hours cfg (ce_local_hour env) = Inr ()
      \<and> (\<forall>gid. g = Some gid \<longrightarrow> (\<exists>a. get_agent gid (w_db w) = Some a \<and> g_is_active a))"
    using Inr assms(2) by (auto simp: precheck_def Let_def split: sum.splits if_splits option.splits)
  ultimately show ?thesis
    by (auto simp: check_quiet_hours_def split: if_splits)
qed

text \<open>An engine that queues every call, and the arguments of a run at noon, for concrete runs.\<close>

definition demo_engine :: engine_if where
  "demo_engine = \<lparr>en_initiate = (\<lambda>c. Inr \<lparr>r_external_id = Some ''x1'', r_initial_status = QUEUED,
       r_route_used = ''vapi'', r_telephony_leg_id = None, r_metadata = None\<rparr>),
     en_stop = (\<lambda>_. Inr ()), en_instruct = (\<lambda>_ _. Inr ()), en_status = (\<lambda>c. Inr IN_PROGRESS)\<rparr>"

definition demo_env :: call_env where
  "demo_env = \<lparr>ce_normalize = Inr, ce_local_hour = (\<lambda>_. Some 12), ce_new_id = 5,
     ce_created_at = 0, ce_now = 1\<rparr>"

theorem engine_asked_only_when_admissible_witness:
  "\<exists>r w'. create_call (default_settings\<lparr>st_enforce_quiet_hours := True\<rparr>)
       (demo_env\<lparr>ce_local_hour := (\<lambda>_. Some 22)\<rparr>) demo_engine ''+7999'' AUTO ''bot'' None None False
       \<lparr>w_db = empty_db, w_ops = []\<rparr> = (r, w')
     \<and> w_ops w' = [] \<and> w' = \<lparr>w_db = empty_db, w_ops = []\<rparr>"
proof -
  let ?cfg = "default_settings\<lparr>st_enforce_quiet_hours := True\<rparr>"
  let ?env = "demo_env\<lparr>ce_local_hour := (\<lambda>_. Some 22)\<rparr>"
  let ?w = "\<lparr>w_db = empty_db, w_ops = []\<rparr>"
  obtain r w' where h: "create_call ?cfg ?env demo_engine ''+7999'' AUTO ''bot'' None None False ?w = (r, w')"
    by (cases "create_call ?cfg ?env demo_engine ''+7999'' AUTO ''bot'' None None False ?w")
  show ?thesis
    using engine_asked_only_when_admissible [OF h] h
    by (auto simp: default_settings_def split: if_splits)
qed

lemma create_call_cases:
  assumes "precheck cfg env raw mode g skip (w_db w) = Inr phone"
  shows "(\<exists>exc. en_initiate eng (new_call env phone mode g ctx) = Inl exc
            \<and> fst (create_call cfg env eng raw mode actor g ctx skip w)
                = Inl (wrap_engine_error (ce_new_id env) exc))
       \<or> (\<exists>res. en_initiate eng (new_call env phone mode g ctx) = Inr res
            \<and> fst (create_call cfg env eng raw mode actor g ctx skip w)
                = Inr (apply_engine_result res (new_call env phone mode g ctx)))"
  using assms
  by (cases "en_initiate eng (new_call env phone mode g ctx)") (auto simp: create_call_def Let_def)

text \<open>
  C4. Every accepted call is accounted for. If the checks pass, then exactly one engine
  initiation is made, and either the engine failed and the stored call is \<open>FAILED\<close> with a
  completion time, the caller gets an \<open>EngineError\<close> (502) carrying the call's id and a
  non-empty stage; or the engine answered and the returned call is the stored one, in the
  engine's initial status, with the external id in exactly the column its route uses. In both
  cases the audit trail gains a \<open>created\<close> and a \<open>status_changed\<close> event, and no other call's
  row changes.
\<close>

theorem create_call_accounted:
  assumes "precheck cfg env raw mode g skip (w_db w) = Inr phone"
  shows "let (r, w') = create_call cfg env eng raw mode actor g ctx skip w;
             i = ce_new_id env
         in w_ops w' = w_ops w @ [OpInitiate i]
          \<and> map a_action (audits (w_db w')) = map a_action (audits (w_db w)) @ [''created'', ''status_changed'']
          \<and> (\<forall>j. j \<noteq> i \<longrightarrow> get_call_row j (w_db w') = get_call_row j (w_db w))
          \<and> (case r of
               Inl e \<Rightarrow> (\<exists>msg stage. e = EngineError msg (Some stage) (Some i) \<and> stage \<noteq> [])
                 \<and> (\<exists>c. get_call_row i (w_db w') = Some c \<and> c_status c = FAILED
                       \<and> c_completed_at c = Some (ce_now env))
             | Inr c \<Rightarrow> get_call_row i (w_db w') = Some c
                 \<and> (\<exists>res. en_initiate eng (new_call env phone mode g ctx) = Inr res
                     \<and> c_status c = r_initial_status res
                     \<and> (if r_route_used res \<in> {''direct'', ''browser''}
                        then c_mango_call_id c = r_external_id res \<and> c_vapi_call_id c = None
                        else c_vapi_call_id c = r_external_id res \<and> c_mango_call_id c = None)))"
proof (cases "en_initiate eng (new_call env phone mode g ctx)")
  case (Inl exc)
  have "\<exists>msg stage. wrap_engine_error (ce_new_id env) exc
          = EngineError msg (Some stage) (Some (ce_new_id env)) \<and> stage \<noteq> []"
    by (cases exc) (auto simp: wrap_engine_error_def py_or_def truthy_def split: option.split)
  with Inl assms show ?thesis
    by (simp add: create_call_def fail_created_def Let_def audit_call_def save_call_def
        get_call_row_def)
next
  case (Inr res)
  with assms show ?thesis
    by (simp add: create_call_def Let_def audit_call_def save_call_def get_call_row_def)
      (simp add: apply_engine_result_def Let_def)
qed

theorem create_call_accounted_witness:
  "let env = \<lparr>ce_normalize = Inr, ce_local_hour = (\<lambda>_. Some 12), ce_new_id = 5,
              ce_created_at = 0, ce_now = 1\<rparr>;
       eng = \<lparr>en_initiate = (\<lambda>_. Inl (EngineError ''no key'' None None)), en_stop = (\<lambda>_. Inr ()),
              en_instruct = (\<lambda>_ _. Inr ()), en_status = (\<lambda>c. Inr (c_status c))\<rparr>;
       w = \<lparr>w_db = empty_db, w_ops = []\<rparr>
   in precheck default_settings env ''+7999'' DIRECT None False (w_db w) = Inr ''+7999''
    \<and> w_ops (snd (create_call default_settings env eng ''+7999'' DIRECT ''bot'' None None False w))
        = [OpInitiate 5]"
proof -
  let ?env = "\<lparr>ce_normalize = Inr, ce_local_hour = (\<lambda>_. Some 12), ce_new_id = 5,
              ce_created_at = 0, ce_now = 1\<rparr>"
  let ?eng = "\<lparr>en_initiate = (\<lambda>_. Inl (EngineError ''no key'' None None)), en_stop = (\<lambda>_. Inr ()),
              en_instruct = (\<lambda>_ _. Inr ()), en_status = (\<lambda>c. Inr (c_status c))\<rparr>"
  let ?w = "\<lparr>w_db = empty_db, w_ops = []\<rparr>"
  have h: "precheck default_settings ?env ''+7999'' DIRECT None False (w_db ?w) = Inr ''+7999''"
    by (simp add: precheck_def check_quiet_hours_def default_settings_def is_blocked_def empty_db_def)
  show ?thesis
    using create_call_accounted [OF h, of ?eng "''bot''" None] h
    by (simp add: Let_def case_prod_beta)
qed

section \<open>Refreshing and stopping\<close>

lemma create_call_calls:
  assumes "create_call cfg env eng raw mode actor g ctx skip w = (Inr c, w')"
    and "get_call_row (ce_new_id env) (w_db w) = None"
  shows "calls (w_db w') = calls (w_db w) @ [c]"
proof -
  obtain phone where pre: "precheck cfg env raw mode g skip (w_db w) = Inr phone"
    using assms(1) by (auto simp: create_call_def split: sum.splits)
  let ?new = "new_call env phone mode g ctx"
  obtain res where res: "en_initiate eng ?new = Inr res"
    using assms(1) pre by (auto simp: create_call_def Let_def split: sum.splits)
  have fresh: "ce_new_id env \<notin> c_id ` set (calls (w_db w))"
    using assms(2) by (simp add: get_call_row_def find_row_None)
  have "upsert c_id ?new (calls (w_db w)) = calls (w_db w) @ [?new]"
    using assms(2) by (intro upsert_fresh) (simp add: get_call_row_def)
  moreover have "upsert c_id (apply_engine_result res ?new) (calls (w_db w) @ [?new])
      = calls (w_db w) @ [apply_engine_result res ?new]"
    using fresh by (intro upsert_replace_last) simp_all
  moreover have "c = apply_engine_result res ?new"
    and "calls (w_db w') = upsert c_id (apply_engine_result res ?new) (upsert c_id ?new (calls (w_db w)))"
    using assms(1) pre res by (auto simp: create_call_def save_call_def Let_def)
  ultimately show ?thesis by simp
qed

lemma get_call_NotFound:
  "get_call_row cid (w_db w) = None \<Longrightarrow> get_call now eng cid w = (Inl NotFoundError, w)"
  by (simp add: get_call_def)

lemma get_call_row_id: "get_call_row i d = Some c \<Longrightarrow> c_id c = i"
  by (rule call_rows.get_key)

text \<open>What \<open>get_call\<close> returns is what is stored afterwards, under the same id.\<close>

lemma get_call_stored:
  assumes "get_call now eng cid w = (Inr c, w')"
  shows "get_call_row cid (w_db w') = Some c \<and> c_id c = cid"
  using assms
  by (auto simp: get_call_def Let_def get_call_row_id split: option.splits if_splits sum.splits)

lemma get_call_terminal_fixed:
  "get_call_row cid (w_db w) = Some c \<Longrightarrow> is_terminal c \<Longrightarrow> get_call now eng cid w = (Inr c, w)"
  by (simp add: get_call_def)

lemma get_call_frame:
  assumes "get_call now eng cid w = (r, w')"
  shows "j \<noteq> cid \<Longrightarrow> get_call_row j (w_db w') = get_call_row j (w_db w)"
    and "OpStop i \<in> set (w_ops w') \<longleftrightarrow> OpStop i \<in> set (w_ops w)"
    and "audits (w_db w') = audits (w_db w)"
  using assms
  by (auto simp: get_call_def Let_def get_call_row_id split: option.splits if_splits sum.splits)

text \<open>
  C9. Stopping a call is terminal and idempotent. When \<open>stop_call\<close> returns a call, that call is
  stored, is in a terminal status, and stopping it again returns it unchanged without any
  further engine operation, row change or audit event. A call the engine was asked to stop is
  \<open>STOPPED\<close> with a completion time.
\<close>

theorem stop_call_idempotent:
  assumes "stop_call now eng cid actor w = (Inr c, w')"
  shows "get_call_row cid (w_db w') = Some c \<and> c_status c \<in> terminal_statuses
    \<and> stop_call now2 eng2 cid actor2 w' = (Inr c, w')
    \<and> (OpStop cid \<in> set (w_ops w') - set (w_ops w)
        \<longrightarrow> c_status c = STOPPED \<and> c_completed_at c = Some now)"
proof -
  obtain c1 w1 where g: "get_call now eng cid w = (Inr c1, w1)"
    using assms by (auto simp: stop_call_def split: prod.splits sum.splits)
  then have st: "get_call_row cid (w_db w1) = Some c1" "c_id c1 = cid" by (auto dest: get_call_stored)
  have row: "get_call_row cid (w_db w') = Some c \<and> c_status c \<in> terminal_statuses"
  proof (cases "c_status c1 \<in> terminal_statuses")
    case True
    with assms g st show ?thesis by (simp add: stop_call_def)
  next
    case False
    with assms g st show ?thesis
      by (auto simp: stop_call_def Let_def split: sum.splits)
  qed
  moreover from row have "stop_call now2 eng2 cid actor2 w' = (Inr c, w')"
    by (simp add: stop_call_def get_call_def is_terminal_def)
  moreover have "OpStop cid \<in> set (w_ops w') - set (w_ops w)
        \<longrightarrow> c_status c = STOPPED \<and> c_completed_at c = Some now"
    using assms g get_call_frame(2) [OF g, of cid]
    by (auto simp: stop_call_def Let_def split: if_splits sum.splits)
  ultimately show ?thesis by blast
qed

definition demo_world :: world where
  "demo_world = snd (create_call default_settings demo_env demo_engine ''+7999'' VAPI ''bot'' None None
     True \<lparr>w_db = empty_db, w_ops = []\<rparr>)"

lemmas demo_run = demo_world_def create_call_def precheck_def check_quiet_hours_def
  default_settings_def demo_env_def demo_engine_def empty_db_def save_call_def audit_call_def
  w_save_def w_op_def w_audit_def apply_engine_result_def new_call_def get_call_row_def Let_def

theorem stop_call_idempotent_witness:
  "\<exists>c w'. stop_call 9 demo_engine 5 ''bot'' demo_world = (Inr c, w') \<and> c_status c = STOPPED
     \<and> stop_call 10 demo_engine 5 ''bot'' w' = (Inr c, w')"
proof -
  obtain c w' where h: "stop_call 9 demo_engine 5 ''bot'' demo_world = (Inr c, w')"
    and s: "c_status c = STOPPED"
    by (simp add: stop_call_def get_call_def adopt_status_def is_terminal_def demo_run)
  from stop_call_idempotent [OF h, of 10 demo_engine "''bot''"] s h show ?thesis by blast
qed

section \<open>Completion times\<close>

text \<open>The invariant: a terminal call carries its completion time.\<close>

definition completed_inv :: "db \<Rightarrow> bool" where
  "completed_inv d \<longleftrightarrow> (\<forall>c\<in>set (calls d). is_terminal c \<longrightarrow> c_completed_at c \<noteq> None)"

lemma completed_inv_save [inv_intros]:
  "completed_inv d \<Longrightarrow> (is_terminal c \<Longrightarrow> c_completed_at c \<noteq> None) \<Longrightarrow> completed_inv (save_call c d)"
  by (auto simp: completed_inv_def save_call_def dest: in_upsert)

lemma completed_inv_audit [simp]: "completed_inv (audit_call i a ac p d) = completed_inv d"
  by (simp add: completed_inv_def)

lemma completed_inv_row:
  "completed_inv d \<Longrightarrow> get_call_row i d = Some c \<Longrightarrow> is_terminal c \<Longrightarrow> c_completed_at c \<noteq> None"
  by (auto simp: completed_inv_def get_call_row_def dest: find_row_in)

lemma adopt_status_completed: "is_terminal (adopt_status now s c) \<Longrightarrow> c_completed_at (adopt_status now s c) \<noteq> None"
  by (auto simp: adopt_status_def is_terminal_def Let_def)

lemma get_call_completed [inv_intros]:
  "completed_inv (w_db w) \<Longrightarrow> get_call now eng cid w = (r, w') \<Longrightarrow> completed_inv (w_db w')"
  using adopt_status_completed
  by (auto simp: get_call_def Let_def split: option.splits if_splits sum.splits
      intro!: completed_inv_save)

lemma refresh_calls_completed [inv_intros]:
  "completed_inv (w_db w) \<Longrightarrow> refresh_calls now eng cs w = (rs, w') \<Longrightarrow> completed_inv (w_db w')"
proof (induction cs arbitrary: w rs w')
  case (Cons c cs)
  let ?w1 = "w_op (OpStatus (c_id c)) w"
  show ?case
  proof (cases "en_status eng c")
    case (Inl e)
    obtain rest w3 where r: "refresh_calls now eng cs ?w1 = (rest, w3)"
      by (cases "refresh_calls now eng cs ?w1")
    have "completed_inv (w_db ?w1)" using Cons.prems(1) by simp
    then have "completed_inv (w_db w3)" using Cons.IH r by blast
    with Cons.prems(2) Inl r show ?thesis by (simp add: Let_def)
  next
    case (Inr live)
    define w2 where
      "w2 = (if live \<noteq> c_status c then w_save (adopt_status now live c) ?w1 else ?w1)"
    obtain rest w3 where r: "refresh_calls now eng cs w2 = (rest, w3)"
      by (cases "refresh_calls now eng cs w2")
    have "completed_inv (w_db w2)"
      using Cons.prems(1) adopt_status_completed by (auto simp: w2_def intro: completed_inv_save)
    then have "completed_inv (w_db w3)" using Cons.IH r by blast
    moreover have "w' = w3"
      using Cons.prems(2) Inr r w2_def
      by (cases "live = c_status c") (auto simp: Let_def split: if_splits)
    ultimately show ?thesis by simp
  qed
qed simp

lemma stop_call_completed [inv_intros]:
  "completed_inv (w_db w) \<Longrightarrow> stop_call now eng cid actor w = (r, w') \<Longrightarrow> completed_inv (w_db w')"
  by (auto simp: stop_call_def Let_def split: prod.splits sum.splits if_splits
      intro!: completed_inv_save dest: get_call_completed)

lemma steer_call_completed [inv_intros]:
  "completed_inv (w_db w) \<Longrightarrow> steer_call now eng cid txt actor w = (r, w') \<Longrightarrow> completed_inv (w_db w')"
  by (auto simp: steer_call_def Let_def add_steering_def completed_inv_def
      split: prod.splits sum.splits if_splits
      dest!: get_call_completed [unfolded completed_inv_def, rotated])

lemma create_call_completed [inv_intros]:
  assumes "completed_inv (w_db w)"
    and "\<And>c res. en_initiate eng c = Inr res \<Longrightarrow> r_initial_status res \<notin> terminal_statuses"
    and "create_call cfg env eng raw mode actor g ctx skip w = (r, w')"
  shows "completed_inv (w_db w')"
  using assms
  by (auto simp: create_call_def fail_created_def Let_def is_terminal_def split: sum.splits
      intro!: completed_inv_save)

text \<open>
  The operations the API can invoke, as one step relation over the world. A step is a whole operation:
  two operations on one call that overlap are not modelled.
\<close>

inductive service_step :: "engine_if \<Rightarrow> world \<Rightarrow> world \<Rightarrow> bool" for eng where
  create: "create_call cfg env eng raw mode actor g ctx skip w = (r, w') \<Longrightarrow> service_step eng w w'"
| read: "get_call now eng cid w = (rr, w') \<Longrightarrow> service_step eng w w'"
| list: "get_active_calls now eng w = (cs, w') \<Longrightarrow> service_step eng w w'"
| steer: "steer_call now eng cid txt actor w = (rs, w') \<Longrightarrow> service_step eng w w'"
| stop: "stop_call now eng cid actor w = (rt, w') \<Longrightarrow> service_step eng w w'"

text \<open>
  C10. Completion times. Starting from a database in which every terminal call has its completion time,
  any sequence of service operations, one after the other, keeps it so, whatever the engine answers to
  each poll, stop and failure (every operation of the run may meet other answers), provided that it never
  reports a terminal status as the initial one.
\<close>

theorem service_keeps_completion_times:
  assumes "(\<lambda>w w'. \<exists>eng. (\<forall>c res. en_initiate eng c = Inr res \<longrightarrow> r_initial_status res \<notin> terminal_statuses)
      \<and> service_step eng w w')\<^sup>*\<^sup>* w w'"
    and "completed_inv (w_db w)"
  shows "completed_inv (w_db w')"
  using assms(1)
proof (induction rule: rtranclp_induct)
  case base
  show ?case by (rule assms(2))
next
  case (step y z)
  then obtain eng where "\<And>c res. en_initiate eng c = Inr res \<Longrightarrow> r_initial_status res \<notin> terminal_statuses"
    "service_step eng y z" by blast
  from this(2) step.IH this(1) show ?case
    by cases (auto simp: get_active_calls_def intro: inv_intros)
qed

text \<open>A call that is under way when it is polled first, and ended when it is polled again.\<close>

definition demo_ended :: engine_if where
  "demo_ended = demo_engine\<lparr>en_status := (\<lambda>c. Inr COMPLETED)\<rparr>"

theorem service_keeps_completion_times_witness:
  "let w = snd (get_call 9 demo_ended 5 (snd (get_call 8 demo_engine 5 demo_world)))
   in completed_inv (w_db w) \<and> map c_status (calls (w_db w)) = [COMPLETED]"
proof -
  let ?w0 = "\<lparr>w_db = empty_db, w_ops = []\<rparr>"
  let ?w1 = "snd (get_call 8 demo_engine 5 demo_world)"
  let ?w2 = "snd (get_call 9 demo_ended 5 ?w1)"
  let ?R = "\<lambda>w w'. \<exists>eng. (\<forall>c res. en_initiate eng c = Inr res \<longrightarrow> r_initial_status res \<notin> terminal_statuses)
      \<and> service_step eng w w'"
  have quiet: "\<forall>c res. en_initiate eng c = Inr res \<longrightarrow> r_initial_status res \<notin> terminal_statuses"
    if "eng = demo_engine \<or> eng = demo_ended" for eng
    using that by (auto simp: demo_engine_def demo_ended_def)
  have "service_step demo_engine ?w0 demo_world"
    unfolding demo_world_def
    by (rule service_step.create [where r = "fst (create_call default_settings demo_env demo_engine
        ''+7999'' VAPI ''bot'' None None True ?w0)"]) simp
  with quiet have s1: "?R ?w0 demo_world" by blast
  have "service_step demo_engine demo_world ?w1"
    by (rule service_step.read [where rr = "fst (get_call 8 demo_engine 5 demo_world)"]) simp
  with quiet have s2: "?R demo_world ?w1" by blast
  have "service_step demo_ended ?w1 ?w2"
    by (rule service_step.read [where rr = "fst (get_call 9 demo_ended 5 ?w1)"]) simp
  with quiet have s3: "?R ?w1 ?w2" by blast
  have "?R\<^sup>*\<^sup>* ?w0 demo_world" using s1 by (rule r_into_rtranclp [where r = ?R])
  from this s2 have "?R\<^sup>*\<^sup>* ?w0 ?w1" by (rule rtranclp.rtrancl_into_rtrancl [where r = ?R])
  from this s3 have run: "?R\<^sup>*\<^sup>* ?w0 ?w2" by (rule rtranclp.rtrancl_into_rtrancl [where r = ?R])
  have "completed_inv (w_db ?w0)" by (simp add: completed_inv_def empty_db_def)
  with run have "completed_inv (w_db ?w2)" by (rule service_keeps_completion_times)
  moreover have "map c_status (calls (w_db ?w2)) = [COMPLETED]" by code_simp
  ultimately show ?thesis by (simp add: Let_def)
qed

end
