(* ===== verification/Managers.thy ===== *)
theory Managers
  imports Database
begin

text \<open>
  \<open>ManagerRepository\<close> of \<open>app/repositories/manager_repo.py\<close> and the availability job of
  \<open>app/services/manager_availability.py\<close>. Every statement is one \<open>UPDATE \<dots> WHERE\<close>, atomic
  in the database, modelled by \<open>update_managers\<close>, which gives the row count with the new table.

  The lemmas give the candidate order for a transfer and the exclusion that the reservation
  guarantees between concurrent transfer flows: \<open>mgr_run\<close> runs any interleaving of the
  repository's operations.
\<close>

section \<open>Operations\<close>

definition candidate :: "string option \<Rightarrow> manager \<Rightarrow> bool" where
  "candidate department m \<longleftrightarrow> m_is_active m \<and> m_is_available m
     \<and> (case department of None \<Rightarrow> True | Some dep \<Rightarrow> m_department m = Some dep)"

text \<open>\<open>ORDER BY priority, created_at\<close>: the two stable sorts, the minor key first.\<close>

definition find_available_managers :: "string option \<Rightarrow> db \<Rightarrow> manager list" where
  "find_available_managers department d =
     sort_key m_priority (sort_key m_created_at (filter (candidate department) (managers d)))"

definition update_managers :: "(manager \<Rightarrow> bool) \<Rightarrow> (manager \<Rightarrow> manager) \<Rightarrow> db \<Rightarrow> nat \<times> db" where
  "update_managers p f d =
     (length (filter p (managers d)),
      d\<lparr>managers := map (\<lambda>m. if p m then f m else m) (managers d)\<rparr>)"

definition set_availability :: "uuid \<Rightarrow> bool \<Rightarrow> db \<Rightarrow> db" where
  "set_availability i available d =
     snd (update_managers (\<lambda>m. m_id m = i)
       (\<lambda>m. m\<lparr>m_is_available := available,
              m_available_after := (if available then None else m_available_after m)\<rparr>) d)"

definition set_temporarily_unavailable :: "uuid \<Rightarrow> time \<Rightarrow> db \<Rightarrow> db" where
  "set_temporarily_unavailable i available_after d =
     snd (update_managers (\<lambda>m. m_id m = i)
       (\<lambda>m. m\<lparr>m_is_available := False, m_available_after := Some available_after\<rparr>) d)"

definition try_reserve_available :: "uuid \<Rightarrow> db \<Rightarrow> bool \<times> db" where
  "try_reserve_available i d =
     (let (n, d') = update_managers (\<lambda>m. m_id m = i \<and> m_is_active m \<and> m_is_available m)
                      (\<lambda>m. m\<lparr>m_is_available := False, m_available_after := None\<rparr>) d
      in (0 < n, d'))"

definition restore_due :: "time \<Rightarrow> manager \<Rightarrow> bool" where
  "restore_due now m \<longleftrightarrow> \<not> m_is_available m
     \<and> (case m_available_after m of None \<Rightarrow> False | Some ts \<Rightarrow> ts \<le> now)"

definition restore_due_managers :: "time \<Rightarrow> db \<Rightarrow> nat \<times> db" where
  "restore_due_managers now d =
     update_managers (restore_due now)
       (\<lambda>m. m\<lparr>m_is_available := True, m_available_after := None\<rparr>) d"

definition restore_manager_if_due :: "uuid \<Rightarrow> time \<Rightarrow> db \<Rightarrow> bool \<times> db" where
  "restore_manager_if_due i now d =
     (let (n, d') = update_managers (\<lambda>m. m_id m = i \<and> restore_due now m)
                      (\<lambda>m. m\<lparr>m_is_available := True, m_available_after := None\<rparr>) d
      in (0 < n, d'))"

text \<open>The startup and periodic job.\<close>

definition reconcile_manager_availability :: "time \<Rightarrow> db \<Rightarrow> nat \<times> db" where
  "reconcile_manager_availability now d = restore_due_managers now d"

section \<open>Interleavings\<close>

datatype mgr_op =
    Reserve uuid
  | MarkUnavailable uuid time
  | SetAvailability uuid bool
  | RestoreDue time
  | RestoreIfDue uuid time

fun mgr_step :: "mgr_op \<Rightarrow> db \<Rightarrow> bool \<times> db" where
  "mgr_step (Reserve i) d = try_reserve_available i d"
| "mgr_step (MarkUnavailable i ts) d = (False, set_temporarily_unavailable i ts d)"
| "mgr_step (SetAvailability i b) d = (False, set_availability i b d)"
| "mgr_step (RestoreDue now) d = (False, snd (reconcile_manager_availability now d))"
| "mgr_step (RestoreIfDue i now) d = (False, snd (restore_manager_if_due i now d))"

text \<open>The final state of a run and the managers whose reservation succeeded, in order.\<close>

fun mgr_run :: "mgr_op list \<Rightarrow> db \<Rightarrow> uuid list \<times> db" where
  "mgr_run [] d = ([], d)"
| "mgr_run (x # ops) d =
     (let (won, d1) = mgr_step x d; (wins, d2) = mgr_run ops d1
      in ((case x of Reserve i \<Rightarrow> if won then i # wins else wins | _ \<Rightarrow> wins), d2))"

section \<open>Lemmas\<close>

lemma update_managers_id:
  "(\<And>m. m_id (f m) = m_id m) \<Longrightarrow> map m_id (managers (snd (update_managers p f d))) = map m_id (managers d)"
  by (simp add: update_managers_def)

lemma update_managers_frame [simp]:
  "calls (snd (update_managers p f d)) = calls d"
  "transfers (snd (update_managers p f d)) = transfers d"
  "audits (snd (update_managers p f d)) = audits d"
  by (simp_all add: update_managers_def)

lemma manager_ops_rows [simp]:
  "get_call_row i (set_temporarily_unavailable j ts d) = get_call_row i d"
  "get_transfer_row i (set_temporarily_unavailable j ts d) = get_transfer_row i d"
  "get_call_row i (snd (try_reserve_available j d)) = get_call_row i d"
  "get_transfer_row i (snd (try_reserve_available j d)) = get_transfer_row i d"
  by (simp_all add: set_temporarily_unavailable_def try_reserve_available_def get_call_row_def
      get_transfer_row_def Let_def case_prod_beta)

lemma update_managers_elem:
  "k \<in> set (managers (snd (update_managers p f d)))
    \<Longrightarrow> \<exists>n\<in>set (managers d). k = (if p n then f n else n)"
  by (auto simp: update_managers_def)

lemmas mgr_op_defs = set_availability_def set_temporarily_unavailable_def try_reserve_available_def
  restore_due_managers_def restore_manager_if_due_def reconcile_manager_availability_def

lemma mgr_step_ids: "map m_id (managers (snd (mgr_step x d))) = map m_id (managers d)"
  by (cases x) (simp_all add: mgr_op_defs Let_def case_prod_beta update_managers_id)

lemma mgr_step_frame:
  "calls (snd (mgr_step x d)) = calls d" "transfers (snd (mgr_step x d)) = transfers d"
  "audits (snd (mgr_step x d)) = audits d"
  by (cases x; simp add: mgr_op_defs Let_def case_prod_beta)+

lemma sorted_sort_key: "sorted (map f (sort_key f xs))"
  by simp

text \<open>
  Transfer candidates are exactly the active, available managers (of the department asked
  for, when there is one), each as often as it is stored, in ascending priority; managers of
  equal priority come in the order of their creation.
\<close>

theorem candidates_in_order:
  "set (find_available_managers dep d) = {m \<in> set (managers d). m_is_active m \<and> m_is_available m
       \<and> (dep = None \<or> m_department m = dep)}
   \<and> length (find_available_managers dep d) = length (filter (candidate dep) (managers d))
   \<and> sorted (map m_priority (find_available_managers dep d))
   \<and> (\<forall>p. sorted (map m_created_at (filter (\<lambda>m. m_priority m = p) (find_available_managers dep d))))"
proof -
  have mem: "set (find_available_managers dep d) = {m \<in> set (managers d). candidate dep m}"
    by (simp add: find_available_managers_def)
  have cand: "candidate dep m \<longleftrightarrow> m_is_active m \<and> m_is_available m \<and> (dep = None \<or> m_department m = dep)"
    for m by (auto simp: candidate_def split: option.split)
  have same_prio: "filter (\<lambda>m. m_priority m = p) (find_available_managers dep d)
      = filter (\<lambda>m. m_priority m = p) (sort_key m_created_at (filter (candidate dep) (managers d)))"
    for p unfolding find_available_managers_def by (simp add: sort_key_stable [where f = m_priority])
  have "sorted (map m_created_at (filter Q (sort_key m_created_at xs)))"
    for Q and xs :: "manager list"
    using sorted_filter [of m_created_at] sorted_sort_key by blast
  then have "\<forall>p. sorted (map m_created_at (filter (\<lambda>m. m_priority m = p) (find_available_managers dep d)))"
    using same_prio by simp
  moreover have "length (find_available_managers dep d) = length (filter (candidate dep) (managers d))"
    "sorted (map m_priority (find_available_managers dep d))"
    by (simp_all add: find_available_managers_def)
  ultimately show ?thesis using mem cand by simp
qed

text \<open>A reserved manager: marked unavailable, with no deadline for its return.\<close>

definition held :: "uuid \<Rightarrow> db \<Rightarrow> bool" where
  "held i d \<longleftrightarrow> (\<forall>m\<in>set (managers d). m_id m = i \<longrightarrow>
     \<not> m_is_available m \<and> m_available_after m = None)"

text \<open>The operations that end a reservation of \<open>i\<close>.\<close>

fun releases :: "uuid \<Rightarrow> mgr_op \<Rightarrow> bool" where
  "releases i (MarkUnavailable j ts) = (j = i)"
| "releases i (SetAvailability j b) = (j = i \<and> b)"
| "releases i _ = False"

lemma held_step: "held i d \<Longrightarrow> \<not> releases i x \<Longrightarrow> held i (snd (mgr_step x d))"
  by (cases x)
    (auto simp: held_def mgr_op_defs update_managers_def restore_due_def Let_def split: if_splits)

lemma held_not_won: "held i d \<Longrightarrow> \<not> fst (mgr_step (Reserve i) d)"
  by (auto simp: held_def try_reserve_available_def update_managers_def filter_empty_conv)

lemma held_no_wins: "held i d \<Longrightarrow> \<forall>x\<in>set ops. \<not> releases i x \<Longrightarrow> i \<notin> set (fst (mgr_run ops d))"
proof (induction ops arbitrary: d)
  case (Cons x ops)
  have "held i (snd (mgr_step x d))" using Cons.prems held_step by auto
  then have "i \<notin> set (fst (mgr_run ops (snd (mgr_step x d))))" using Cons by auto
  moreover have "x = Reserve i \<Longrightarrow> \<not> fst (mgr_step x d)" using Cons.prems held_not_won by blast
  ultimately show ?case by (cases x) (auto simp: Let_def case_prod_beta)
qed simp

lemma held_run: "held i d \<Longrightarrow> \<forall>x\<in>set ops. \<not> releases i x \<Longrightarrow> held i (snd (mgr_run ops d))"
proof (induction ops arbitrary: d)
  case (Cons x ops)
  then show ?case using held_step [of i d x] by (simp add: Let_def case_prod_beta)
qed simp

lemma distinct_same_key:
  "distinct (map f xs) \<Longrightarrow> x \<in> set xs \<Longrightarrow> y \<in> set xs \<Longrightarrow> f x = f y \<Longrightarrow> x = y"
  by (simp add: distinct_map inj_on_def)

lemma won_then_held:
  assumes "distinct (map m_id (managers d))" "fst (mgr_step (Reserve i) d)"
  shows "held i (snd (mgr_step (Reserve i) d))"
proof -
  obtain m where m: "m \<in> set (managers d)" "m_id m = i" "m_is_active m" "m_is_available m"
    using assms(2) by (auto simp: try_reserve_available_def update_managers_def filter_empty_conv)
  have "n = m" if "n \<in> set (managers d)" "m_id n = i" for n
    using distinct_same_key [OF assms(1)] m that by metis
  then have all: "m_is_active n \<and> m_is_available n" if "n \<in> set (managers d)" "m_id n = i" for n
    using m that by blast
  show ?thesis unfolding held_def
  proof (intro ballI impI)
    fix k assume "k \<in> set (managers (snd (mgr_step (Reserve i) d)))" and k: "m_id k = i"
    then have "k \<in> set (managers (snd (update_managers (\<lambda>m. m_id m = i \<and> m_is_active m \<and> m_is_available m)
                      (\<lambda>m. m\<lparr>m_is_available := False, m_available_after := None\<rparr>) d)))"
      by (simp only: mgr_step.simps try_reserve_available_def Let_def case_prod_beta snd_conv)
    then obtain n where n: "n \<in> set (managers d)"
      and kn: "k = (if m_id n = i \<and> m_is_active n \<and> m_is_available n
                   then n\<lparr>m_is_available := False, m_available_after := None\<rparr> else n)"
      using update_managers_elem by blast
    have "m_id k = m_id n" by (simp add: kn)
    with k all [OF n] have "m_id n = i \<and> m_is_active n \<and> m_is_available n" by metis
    then have "k = n\<lparr>m_is_available := False, m_available_after := None\<rparr>" using kn by presburger
    then show "\<not> m_is_available k \<and> m_available_after k = None" by simp
  qed
qed

text \<open>
  C15. Reservations exclude each other. In any interleaving of the repository's operations by
  any number of transfer flows, restore jobs and timers, a manager is reserved at most once
  unless some operation in between ends the reservation; the only ones that can are marking the
  manager temporarily unavailable and explicitly setting it available. In particular the
  periodic restore never hands out a reserved manager, and never frees it either.
\<close>

theorem reservation_exclusive:
  assumes "distinct (map m_id (managers d))"
    and "\<forall>x\<in>set ops. \<not> releases i x"
    and "mgr_run ops d = (wins, d')"
  shows "count_list wins i \<le> 1 \<and> (i \<in> set wins \<longrightarrow> held i d')"
  using assms
proof (induction ops arbitrary: d wins)
  case (Cons x ops)
  obtain won d1 where x: "mgr_step x d = (won, d1)" by (cases "mgr_step x d")
  obtain rest d2 where r: "mgr_run ops d1 = (rest, d2)" by (cases "mgr_run ops d1")
  have d': "d' = d2" and wins: "wins = (case x of Reserve j \<Rightarrow> if won then j # rest else rest | _ \<Rightarrow> rest)"
    using Cons.prems(3) x r by auto
  have "distinct (map m_id (managers d1))"
    using mgr_step_ids [of x d] x Cons.prems(1) by simp
  then have IH: "count_list rest i \<le> 1 \<and> (i \<in> set rest \<longrightarrow> held i d2)"
    using Cons.IH [of d1 rest] r Cons.prems(2) d' by simp
  show ?case
  proof (cases "x = Reserve i \<and> won")
    case True
    then have h: "held i d1" using won_then_held [of d i] Cons.prems(1) x by simp
    then have "i \<notin> set rest" using held_no_wins [of i d1 ops] r Cons.prems(2) by simp
    moreover have "held i d2" using held_run [OF h, of ops] r Cons.prems(2) by simp
    ultimately show ?thesis using True wins d' by simp
  next
    case False
    then show ?thesis using IH wins d' by (cases x) auto
  qed
qed simp

definition demo_manager :: "uuid \<Rightarrow> int \<Rightarrow> time option \<Rightarrow> manager" where
  "demo_manager i prio after = \<lparr>m_id = i, m_created_at = i, m_name = ''Anna'', m_phone = ''+7999'',
     m_telegram_id = 0, m_is_active = True, m_is_available = (after = None),
     m_available_after = after, m_priority = prio, m_department = None\<rparr>"

theorem reservation_exclusive_witness:
  "let d = empty_db\<lparr>managers := [demo_manager 1 1 None, demo_manager 2 1 (Some 50)]\<rparr>;
       ops = [Reserve 1, Reserve 1, RestoreDue 60, Reserve 1, Reserve 2]
   in fst (mgr_run ops d) = [1, 2] \<and> count_list (fst (mgr_run ops d)) 1 \<le> 1
    \<and> held 1 (snd (mgr_run ops d))"
proof -
  let ?d = "empty_db\<lparr>managers := [demo_manager 1 1 None, demo_manager 2 1 (Some 50)]\<rparr>"
  let ?ops = "[Reserve 1, Reserve 1, RestoreDue 60, Reserve 1, Reserve 2]"
  have w: "fst (mgr_run ?ops ?d) = [1, 2]"
    by (simp add: mgr_op_defs update_managers_def restore_due_def demo_manager_def empty_db_def)
  have "count_list (fst (mgr_run ?ops ?d)) 1 \<le> 1
      \<and> (1 \<in> set (fst (mgr_run ?ops ?d)) \<longrightarrow> held 1 (snd (mgr_run ?ops ?d)))"
    by (rule reservation_exclusive [of ?d ?ops]) (simp_all add: demo_manager_def)
  with w show ?thesis by (simp add: Let_def)
qed

end
