(* ===== verification/Transfers.thy ===== *)
theory Transfers
  imports CallService Managers
begin

text \<open>
  \<open>TransferService\<close> of \<open>app/services/transfer_service.py\<close>: the warm transfer of a call to a
  manager, from the guarded entry to the bridge.

  The transfer engine is the interface \<open>transfer_engine\<close>. Its operations run under
  \<open>asyncio.wait_for\<close>, so each ends in an answer, a timeout or an exception; it may write the
  database through sessions of its own, so each also gives the database that the service's session
  sees afterwards. \<open>te_others\<close> is what other transactions made visible before an attempt. The
  call object of the service is the one row of the session, so it is read again after every
  operation that may have changed it. The list \<open>tw_ops\<close> records the operations the service
  invoked, with the outcome of a dial. Exceptions of the cleanup operations are swallowed by the
  code; only the invocation is recorded. Summary and whisper text come from
  \<open>summary_service.py\<close> and are arguments (\<open>tv_summary\<close>, \<open>tv_whisper\<close>).

  The lemmas relate the result of a transfer to what is stored, show that no manager leg is
  orphaned, and that attempts go through the candidates in order, each failed dial marking its
  manager unavailable.
\<close>

section \<open>The engine interface\<close>

datatype dial_outcome = DialAnswered "string option" | DialTimeout | DialError string

datatype op_outcome = OpOk | OpTimeout | OpError string

datatype transfer_op =
    TrDial uuid dial_outcome
  | TrWhisper "string option" string
  | TrBridge "string option" string
  | TrTerminateManager string
  | TrTerminateCustomer string
  | TrMarkUnavailable uuid

record transfer_engine =
  te_dial :: "manager \<Rightarrow> call \<Rightarrow> string \<Rightarrow> db \<Rightarrow> dial_outcome \<times> db"
  te_whisper :: "string option \<Rightarrow> string \<Rightarrow> db \<Rightarrow> op_outcome \<times> db"
  te_bridge :: "string option \<Rightarrow> string \<Rightarrow> db \<Rightarrow> op_outcome \<times> db"
  te_mark_unavailable :: "uuid \<Rightarrow> db \<Rightarrow> db"
  te_others :: "nat \<Rightarrow> db \<Rightarrow> db"

record transfer_env =
  tv_summary :: "transcript_entry list \<Rightarrow> string"
  tv_whisper :: "transcript_entry list \<Rightarrow> string"
  tv_new_id :: uuid
  tv_now :: time

record tworld =
  tw_db :: db
  tw_ops :: "transfer_op list"

definition on_db :: "(db \<Rightarrow> db) \<Rightarrow> tworld \<Rightarrow> tworld" where
  "on_db f w = w\<lparr>tw_db := f (tw_db w)\<rparr>"

definition log_op :: "transfer_op \<Rightarrow> tworld \<Rightarrow> tworld" where
  "log_op x w = w\<lparr>tw_ops := tw_ops w @ [x]\<rparr>"

definition taudit :: "call \<Rightarrow> string \<Rightarrow> string \<Rightarrow> (string \<times> json) list \<Rightarrow> tworld \<Rightarrow> tworld" where
  "taudit call action actor payload w =
     on_db (audit_call (c_id call) action actor (Some (JObj payload))) w"

definition jopt :: "string option \<Rightarrow> json" where
  "jopt s = (case s of None \<Rightarrow> JNull | Some x \<Rightarrow> JStr x)"

section \<open>Entry guard and candidates\<close>

definition get_transferable_call :: "uuid \<Rightarrow> db \<Rightarrow> (app_error, call) result" where
  "get_transferable_call cid d =
     (case get_call_row cid d of
        None \<Rightarrow> Inl NotFoundError
      | Some call \<Rightarrow>
          if c_status call \<in> terminal_statuses then Inl InvalidCallStateError
          else if is_in_transfer call then Inl InvalidCallStateError
          else Inr call)"

definition find_managers :: "string option \<Rightarrow> db \<Rightarrow> (app_error, manager list) result" where
  "find_managers department d =
     (let preferred = (case department of
                         None \<Rightarrow> []
                       | Some _ \<Rightarrow> find_available_managers department d)
      in if preferred \<noteq> [] then Inr preferred
         else let ms = find_available_managers None d
              in if ms = [] then Inl NoManagerAvailableError else Inr ms)"

definition call_is_terminal :: "uuid \<Rightarrow> db \<Rightarrow> bool" where
  "call_is_terminal cid d =
     (case get_call_row cid d of
        None \<Rightarrow> True
      | Some call \<Rightarrow> c_status call \<in> terminal_statuses)"

text \<open>The session's call object after a re-read.\<close>

definition current :: "call \<Rightarrow> tworld \<Rightarrow> call" where
  "current call w = (case get_call_row (c_id call) (tw_db w) of None \<Rightarrow> call | Some c \<Rightarrow> c)"

section \<open>Helpers\<close>

definition mark_caller_dropped ::
    "call \<Rightarrow> transfer_record \<Rightarrow> string \<Rightarrow> string \<Rightarrow> string \<Rightarrow> tworld \<Rightarrow> tworld" where
  "mark_caller_dropped call rec stage reason actor w =
     taudit call ''transfer_caller_dropped'' actor
       [(''stage'', JStr stage), (''reason'', JStr reason)]
       (on_db (save_transfer (rec\<lparr>t_status := CALLER_DROPPED, t_failure_stage := Some stage,
                                  t_fallback_message := Some reason\<rparr>)) w)"

definition safe_mark_unavailable :: "transfer_engine \<Rightarrow> manager \<Rightarrow> tworld \<Rightarrow> tworld" where
  "safe_mark_unavailable eng m w =
     on_db (te_mark_unavailable eng (m_id m)) (log_op (TrMarkUnavailable (m_id m)) w)"

definition safe_terminate_manager_call :: "string option \<Rightarrow> tworld \<Rightarrow> tworld" where
  "safe_terminate_manager_call leg w =
     (if truthy leg then log_op (TrTerminateManager (the leg)) w else w)"

definition safe_terminate_customer_leg :: "call \<Rightarrow> tworld \<Rightarrow> tworld" where
  "safe_terminate_customer_leg call w =
     (if truthy (c_telephony_leg_id call)
      then log_op (TrTerminateCustomer (the (c_telephony_leg_id call))) w else w)"

text \<open>The common part of every branch that gives the call up.\<close>

definition fail_transfer ::
    "call \<Rightarrow> transfer_record \<Rightarrow> transfer_status \<Rightarrow> string \<Rightarrow> string \<Rightarrow> tworld \<Rightarrow> tworld" where
  "fail_transfer call rec status stage msg w =
     (let call' = call\<lparr>c_status := STOPPED\<rparr>;
          rec' = rec\<lparr>t_status := status, t_failure_stage := Some stage, t_fallback_message := Some msg\<rparr>
      in on_db (save_call call') (on_db (save_transfer rec') (safe_terminate_customer_leg call' w)))"

definition customer_leg :: "call \<Rightarrow> string" where
  "customer_leg call =
     (case py_or (c_telephony_leg_id call) (c_vapi_call_id call) of
        None \<Rightarrow> uuid_str (c_id call)
      | Some s \<Rightarrow> if s = [] then uuid_str (c_id call) else s)"

section \<open>One attempt\<close>

text \<open>How an attempt ends: with the next candidate and the last dial error, or for good.\<close>

datatype attempt =
    NextManager transfer_record string
  | Finished "(app_error, transfer_record) result"

definition select_manager ::
    "call \<Rightarrow> transfer_record \<Rightarrow> nat \<Rightarrow> manager \<Rightarrow> tworld \<Rightarrow> transfer_record \<times> tworld" where
  "select_manager call rec0 attempt m w =
     (let rec = rec0\<lparr>t_attempt_count := attempt, t_manager_id := Some (m_id m)\<rparr>
      in (rec, taudit call ''transfer_manager_selected'' ''engine''
                 [(''manager_id'', JStr (uuid_str (m_id m))), (''manager_name'', JStr (m_name m)),
                  (''attempt'', JNum (int attempt))]
                 (on_db (save_transfer rec) w)))"

definition dial_manager ::
    "settings \<Rightarrow> transfer_engine \<Rightarrow> string \<Rightarrow> call \<Rightarrow> nat \<Rightarrow> manager \<Rightarrow> tworld
     \<Rightarrow> (string, string option) result \<times> tworld" where
  "dial_manager cfg eng whisper call attempt m w0 =
     (let w1 = taudit call ''transfer_calling_manager'' ''engine''
                 [(''manager_id'', JStr (uuid_str (m_id m))), (''manager_name'', JStr (m_name m)),
                  (''attempt'', JNum (int attempt))] w0;
          (out, d2) = te_dial eng m call whisper (tw_db w1);
          w2 = on_db (\<lambda>_. d2) (log_op (TrDial (m_id m) out) w1)
      in case out of
           DialAnswered leg \<Rightarrow> (Inr leg, w2)
         | DialTimeout \<Rightarrow>
             (let w3 = safe_mark_unavailable eng m w2;
                  err = ''manager '' @ uuid_str (m_id m) @ '' dial timed out after ''
                        @ str_int (st_transfer_manager_answer_timeout cfg) @ ''s''
              in (Inl err, taudit call ''transfer_dial_timeout'' ''engine''
                             [(''manager_id'', JStr (uuid_str (m_id m))),
                              (''attempt'', JNum (int attempt)),
                              (''timeout'', JNum (st_transfer_manager_answer_timeout cfg))] w3))
         | DialError exc \<Rightarrow>
             (let w3 = safe_mark_unavailable eng m w2;
                  err = ''manager '' @ uuid_str (m_id m) @ '' dial failed: '' @ exc
              in (Inl err, taudit call ''transfer_dial_failed'' ''engine''
                             [(''manager_id'', JStr (uuid_str (m_id m))),
                              (''attempt'', JNum (int attempt)), (''error'', JStr exc)] w3)))"

definition begin_briefing ::
    "call \<Rightarrow> transfer_record \<Rightarrow> nat \<Rightarrow> manager \<Rightarrow> string option \<Rightarrow> tworld
     \<Rightarrow> call \<times> transfer_record \<times> tworld" where
  "begin_briefing call0 rec0 attempt m leg w =
     (let rec = rec0\<lparr>t_manager_call_id := leg, t_status := BRIEFING\<rparr>;
          call = call0\<lparr>c_status := MANAGER_BRIEFING, c_manager_id := Some (m_id m)\<rparr>;
          mid = (''manager_id'', JStr (uuid_str (m_id m)));
          mleg = (''manager_call_id'', jopt leg);
          att = (''attempt'', JNum (int attempt));
          w1 = on_db (save_call call) (on_db (save_transfer rec) w);
          w2 = taudit call ''transfer_manager_answered'' ''engine'' [mid, mleg, att] w1;
          w3 = taudit call ''transfer_briefing'' ''engine'' [mid, mleg] w2
      in (call, rec, taudit call ''transfer_whispering'' ''engine'' [mid, mleg, att] w3))"

definition whisper_phase ::
    "settings \<Rightarrow> transfer_engine \<Rightarrow> string \<Rightarrow> call \<Rightarrow> transfer_record \<Rightarrow> manager \<Rightarrow> string option
     \<Rightarrow> tworld \<Rightarrow> app_error option \<times> tworld" where
  "whisper_phase cfg eng whisper call0 rec m leg w0 =
     (let (out, d1) = te_whisper eng leg whisper (tw_db w0);
          w1 = on_db (\<lambda>_. d1) (log_op (TrWhisper leg whisper) w0);
          call = current call0 w1;
          mid = (''manager_id'', JStr (uuid_str (m_id m)))
      in case out of
           OpOk \<Rightarrow> (None, w1)
         | OpTimeout \<Rightarrow>
             (Some TransferTimeoutError,
              taudit call ''transfer_timed_out'' ''engine''
                [mid, (''stage'', JStr ''briefing''), (''timeout'', JNum (st_transfer_briefing_timeout cfg))]
                (fail_transfer call rec TIMED_OUT ''briefing''
                   (''Whisper timed out after '' @ str_int (st_transfer_briefing_timeout cfg) @ ''s'')
                   (safe_terminate_manager_call leg w1)))
         | OpError exc \<Rightarrow>
             (Some TransferError,
              taudit call ''transfer_bridge_failed'' ''engine''
                [mid, (''stage'', JStr ''briefing''), (''error'', JStr exc)]
                (fail_transfer call rec BRIDGE_FAILED ''briefing'' (''Whisper failed: '' @ exc)
                   (safe_terminate_manager_call leg w1))))"

definition bridge_phase ::
    "settings \<Rightarrow> transfer_engine \<Rightarrow> call \<Rightarrow> transfer_record \<Rightarrow> manager \<Rightarrow> string option
     \<Rightarrow> tworld \<Rightarrow> app_error option \<times> tworld" where
  "bridge_phase cfg eng call0 rec m leg w0 =
     (let cust = customer_leg call0;
          (out, d1) = te_bridge eng leg cust (tw_db w0);
          w1 = on_db (\<lambda>_. d1) (log_op (TrBridge leg cust) w0);
          call = current call0 w1;
          mid = (''manager_id'', JStr (uuid_str (m_id m)))
      in case out of
           OpOk \<Rightarrow> (None, w1)
         | OpTimeout \<Rightarrow>
             (Some TransferTimeoutError,
              taudit call ''transfer_timed_out'' ''engine''
                [mid, (''stage'', JStr ''bridge''), (''timeout'', JNum (st_transfer_bridge_timeout cfg))]
                (fail_transfer call rec TIMED_OUT ''bridge_timeout''
                   (''Bridge timed out after '' @ str_int (st_transfer_bridge_timeout cfg) @ ''s'')
                   (safe_terminate_manager_call leg w1)))
         | OpError exc \<Rightarrow>
             (Some TransferError,
              taudit call ''transfer_bridge_failed'' ''engine'' [mid, (''error'', JStr exc)]
                (fail_transfer call rec BRIDGE_FAILED ''bridge'' (''Bridge failed: '' @ exc)
                   (safe_terminate_manager_call leg w1))))"

definition complete_transfer ::
    "call \<Rightarrow> transfer_record \<Rightarrow> nat \<Rightarrow> manager \<Rightarrow> string option \<Rightarrow> string \<Rightarrow> tworld
     \<Rightarrow> transfer_record \<times> tworld" where
  "complete_transfer call0 rec0 attempt m leg actor w =
     (let rec = rec0\<lparr>t_status := CONNECTED\<rparr>;
          call = call0\<lparr>c_status := CONNECTED_TO_MANAGER\<rparr>;
          mid = (''manager_id'', JStr (uuid_str (m_id m)));
          att = (''attempt'', JNum (int attempt));
          w1 = on_db (save_call call) (on_db (save_transfer rec) w);
          w2 = taudit call ''transfer_bridged'' ''engine'' [mid, (''manager_call_id'', jopt leg), att] w1
      in (rec, taudit call ''transfer_connected'' actor
                 [mid, (''manager_name'', JStr (m_name m)),
                  (''transfer_record_id'', JStr (uuid_str (t_id rec))), att] w2))"

text \<open>The loop body, with its three checks that the caller is still on the line.\<close>

definition answered_attempt ::
    "settings \<Rightarrow> transfer_engine \<Rightarrow> string \<Rightarrow> string \<Rightarrow> call \<Rightarrow> transfer_record \<Rightarrow> nat \<Rightarrow> manager
     \<Rightarrow> string option \<Rightarrow> tworld \<Rightarrow> (app_error, transfer_record) result \<times> tworld" where
  "answered_attempt cfg eng whisper actor call0 rec0 attempt m leg w0 =
     (let call1 = current call0 w0 in
      if call_is_terminal (c_id call0) (tw_db w0) then
        (Inl CallerDroppedError,
         mark_caller_dropped call1 rec0 ''caller_dropped''
           (''Client dropped after manager '' @ uuid_str (m_id m) @ '' answered'') actor
           (safe_terminate_manager_call leg w0))
      else
        (let (call2, rec2, w2) = begin_briefing call1 rec0 attempt m leg w0;
             (err, w3) = whisper_phase cfg eng whisper call2 rec2 m leg w2;
             call3 = current call2 w3
         in case err of
              Some e \<Rightarrow> (Inl e, w3)
            | None \<Rightarrow>
                if call_is_terminal (c_id call0) (tw_db w3) then
                  (Inl CallerDroppedError,
                   mark_caller_dropped call3 rec2 ''caller_dropped''
                     ''Client dropped during briefing phase'' actor
                     (safe_terminate_manager_call leg w3))
                else
                  (let (err', w4) = bridge_phase cfg eng call3 rec2 m leg w3 in
                   case err' of
                     Some e \<Rightarrow> (Inl e, w4)
                   | None \<Rightarrow>
                       (let (rec5, w5) =
                              complete_transfer (current call3 w4) rec2 attempt m leg actor w4
                        in (Inr rec5, w5)))))"

definition try_manager ::
    "settings \<Rightarrow> transfer_engine \<Rightarrow> string \<Rightarrow> string \<Rightarrow> call \<Rightarrow> transfer_record \<Rightarrow> nat \<Rightarrow> manager
     \<Rightarrow> tworld \<Rightarrow> attempt \<times> tworld" where
  "try_manager cfg eng whisper actor call rec0 attempt m w0 =
     (let (rec, w1) = select_manager call rec0 attempt m w0;
          w2 = on_db (te_others eng attempt) w1;
          call2 = current call w2
      in if call_is_terminal (c_id call) (tw_db w2) then
           (Finished (Inl CallerDroppedError),
            mark_caller_dropped call2 rec ''caller_dropped''
              (''Client dropped before attempt '' @ str_int (int attempt)) actor w2)
         else
           (case dial_manager cfg eng whisper call2 attempt m w2 of
              (Inl err, w3) \<Rightarrow> (NextManager rec err, w3)
            | (Inr leg, w3) \<Rightarrow>
                (let (r, w4) = answered_attempt cfg eng whisper actor call2 rec attempt m leg w3
                 in (Finished r, w4))))"

section \<open>initiate_transfer\<close>

definition all_failed ::
    "call \<Rightarrow> transfer_record \<Rightarrow> string option \<Rightarrow> string \<Rightarrow> tworld
     \<Rightarrow> (app_error, transfer_record) result \<times> tworld" where
  "all_failed call0 rec last_error actor w =
     (let call = current call0 w;
          n = int (t_attempt_count rec)
      in (Inl TransferError,
          taudit call ''transfer_all_failed'' actor
            [(''attempts'', JNum n), (''last_error'', jopt last_error)]
            (fail_transfer call rec FAILED_NO_ANSWER ''dial''
               (''All '' @ str_int n @ '' manager attempt(s) failed. Last error: '' @ str_opt last_error)
               w)))"

fun try_managers ::
    "settings \<Rightarrow> transfer_engine \<Rightarrow> string \<Rightarrow> string \<Rightarrow> call \<Rightarrow> transfer_record \<Rightarrow> nat
     \<Rightarrow> string option \<Rightarrow> manager list \<Rightarrow> tworld \<Rightarrow> (app_error, transfer_record) result \<times> tworld" where
  "try_managers cfg eng whisper actor call rec attempt last_error [] w =
     all_failed call rec last_error actor w"
| "try_managers cfg eng whisper actor call rec attempt last_error (m # ms) w =
     (case try_manager cfg eng whisper actor call rec attempt m w of
        (Finished r, w') \<Rightarrow> (r, w')
      | (NextManager rec' err, w') \<Rightarrow>
          try_managers cfg eng whisper actor call rec' (Suc attempt) (Some err) ms w')"

definition new_record :: "transfer_env \<Rightarrow> call \<Rightarrow> string option \<Rightarrow> string \<Rightarrow> string \<Rightarrow> transfer_record" where
  "new_record env call department summary whisper =
     \<lparr>t_id = tv_new_id env, t_created_at = tv_now env, t_call_id = c_id call, t_manager_id = None,
      t_status = INITIATED, t_summary = Some summary, t_whisper_text = Some whisper,
      t_manager_call_id = None, t_attempt_count = 0, t_department = department,
      t_fallback_message = None, t_failure_stage = None\<rparr>"

text \<open>Steps 4 and 5: the record, and the call through \<open>NEEDS_TRANSFER\<close> to \<open>TRANSFERRING\<close>.\<close>

definition start_transfer ::
    "transfer_env \<Rightarrow> call \<Rightarrow> string option \<Rightarrow> string \<Rightarrow> string \<Rightarrow> string \<Rightarrow> manager list \<Rightarrow> tworld
     \<Rightarrow> call \<times> transfer_record \<times> tworld" where
  "start_transfer env call department summary whisper actor ms w =
     (let rec0 = new_record env call department summary whisper;
          w1 = on_db (save_transfer rec0) w;
          w2 = on_db (save_call (call\<lparr>c_status := NEEDS_TRANSFER\<rparr>)) w1;
          call' = call\<lparr>c_status := TRANSFERRING\<rparr>;
          rec = rec0\<lparr>t_status := CALLING_MANAGER\<rparr>;
          w3 = on_db (save_transfer rec) (on_db (save_call call') w2)
      in (call', rec,
          taudit call' ''transfer_initiated'' actor
            [(''department'', jopt department), (''transfer_record_id'', JStr (uuid_str (t_id rec))),
             (''manager_count'', JNum (int (length ms)))] w3))"

definition initiate_transfer ::
    "settings \<Rightarrow> transfer_env \<Rightarrow> transfer_engine \<Rightarrow> uuid \<Rightarrow> string option \<Rightarrow> string \<Rightarrow> tworld
     \<Rightarrow> (app_error, transfer_record) result \<times> tworld" where
  "initiate_transfer cfg env eng cid department actor w =
     (case get_transferable_call cid (tw_db w) of
        Inl e \<Rightarrow> (Inl e, w)
      | Inr call \<Rightarrow>
          (let entries = get_transcript cid (tw_db w);
               whisper = tv_whisper env entries;
               summary = tv_summary env entries
           in case find_managers department (tw_db w) of
                Inl e \<Rightarrow> (Inl e, w)
              | Inr ms \<Rightarrow>
                  (let (call', rec, w1) = start_transfer env call department summary whisper actor ms w;
                       max_attempts = (if st_transfer_max_manager_attempts cfg \<noteq> 0
                                       then st_transfer_max_manager_attempts cfg else length ms)
                   in try_managers cfg eng whisper actor call' rec 1 None (take max_attempts ms) w1)))"

section \<open>What is stored\<close>

lemma tw_simps [simp]:
  "tw_db (on_db f w) = f (tw_db w)" "tw_ops (on_db f w) = tw_ops w"
  "tw_db (log_op x w) = tw_db w" "tw_ops (log_op x w) = tw_ops w @ [x]"
  "tw_ops (taudit c a ac p w) = tw_ops w"
  "get_call_row i (tw_db (taudit c a ac p w)) = get_call_row i (tw_db w)"
  "get_transfer_row i (tw_db (taudit c a ac p w)) = get_transfer_row i (tw_db w)"
  "call_is_terminal i (tw_db (taudit c a ac p w)) = call_is_terminal i (tw_db w)"
  by (simp_all add: on_db_def log_op_def taudit_def call_is_terminal_def)

lemma safe_simps [simp]:
  "tw_db (safe_terminate_manager_call leg w) = tw_db w"
  "tw_db (safe_terminate_customer_leg c w) = tw_db w"
  by (simp_all add: safe_terminate_manager_call_def safe_terminate_customer_leg_def)

lemma current_id [simp]: "c_id (current c w) = c_id c"
  by (auto simp: current_def split: option.split dest: call_rows.get_key)

lemma fail_transfer_simps [simp]:
  "get_transfer_row (t_id r) (tw_db (fail_transfer c r st stage msg w))
     = Some (r\<lparr>t_status := st, t_failure_stage := Some stage, t_fallback_message := Some msg\<rparr>)"
  "get_call_row (c_id c) (tw_db (fail_transfer c r st stage msg w)) = Some (c\<lparr>c_status := STOPPED\<rparr>)"
  by (simp_all add: fail_transfer_def Let_def)

lemma call_is_terminal_save_transfer [simp]:
  "call_is_terminal i (save_transfer r d) = call_is_terminal i d"
  by (simp add: call_is_terminal_def)

lemma mark_caller_dropped_simps [simp]:
  "get_transfer_row (t_id r) (tw_db (mark_caller_dropped c r stage reason actor w))
     = Some (r\<lparr>t_status := CALLER_DROPPED, t_failure_stage := Some stage, t_fallback_message := Some reason\<rparr>)"
  "call_is_terminal i (tw_db (mark_caller_dropped c r stage reason actor w))
     = call_is_terminal i (tw_db w)"
  "tw_ops (mark_caller_dropped c r stage reason actor w) = tw_ops w"
  by (simp_all add: mark_caller_dropped_def)

text \<open>The result of a transfer that got past the guard, against the rows of the call and of its record.\<close>

definition stored_outcome :: "uuid \<Rightarrow> uuid \<Rightarrow> (app_error, transfer_record) result \<Rightarrow> db \<Rightarrow> bool" where
  "stored_outcome cid tid r d =
     (let status_is = (\<lambda>s. \<exists>c. get_call_row cid d = Some c \<and> c_status c = s);
          record_is = (\<lambda>st stages. \<exists>x. get_transfer_row tid d = Some x \<and> t_status x = st
                                  \<and> (\<exists>g\<in>stages. t_failure_stage x = Some g))
      in case r of
           Inr x \<Rightarrow> get_transfer_row tid d = Some x \<and> t_status x = CONNECTED
                    \<and> status_is CONNECTED_TO_MANAGER
         | Inl CallerDroppedError \<Rightarrow> record_is CALLER_DROPPED {''caller_dropped''} \<and> call_is_terminal cid d
         | Inl TransferTimeoutError \<Rightarrow>
             record_is TIMED_OUT {''briefing'', ''bridge_timeout''} \<and> status_is STOPPED
         | Inl TransferError \<Rightarrow>
             (record_is BRIDGE_FAILED {''briefing'', ''bridge''} \<or> record_is FAILED_NO_ANSWER {''dial''})
             \<and> status_is STOPPED
         | Inl _ \<Rightarrow> False)"

lemma stored_outcome_fail:
  assumes "c_id c = cid" "t_id r = tid"
    and "(e, st, stage) \<in> {(TransferTimeoutError, TIMED_OUT, ''briefing''),
       (TransferTimeoutError, TIMED_OUT, ''bridge_timeout''), (TransferError, BRIDGE_FAILED, ''briefing''),
       (TransferError, BRIDGE_FAILED, ''bridge''), (TransferError, FAILED_NO_ANSWER, ''dial'')}"
  shows "stored_outcome cid tid (Inl e) (tw_db (taudit c' a ac p (fail_transfer c r st stage msg w)))"
  using assms by (auto simp: stored_outcome_def)

lemma stored_outcome_dropped:
  assumes "t_id r = tid" "call_is_terminal cid (tw_db w)"
  shows "stored_outcome cid tid (Inl CallerDroppedError)
    (tw_db (mark_caller_dropped c r ''caller_dropped'' reason actor w))"
  using assms by (auto simp: stored_outcome_def)

lemma whisper_phase_outcome:
  assumes "whisper_phase cfg eng whisper c r m leg w = (Some e, w')"
  shows "stored_outcome (c_id c) (t_id r) (Inl e) (tw_db w')"
  using assms
  by (auto simp: whisper_phase_def Let_def split: prod.splits op_outcome.splits
      intro!: stored_outcome_fail)

lemma bridge_phase_outcome:
  assumes "bridge_phase cfg eng c r m leg w = (Some e, w')"
  shows "stored_outcome (c_id c) (t_id r) (Inl e) (tw_db w')"
  using assms
  by (auto simp: bridge_phase_def Let_def split: prod.splits op_outcome.splits
      intro!: stored_outcome_fail)

lemma begin_briefing_ids:
  assumes "begin_briefing c r n m leg w = (c', r', w')"
  shows "c_id c' = c_id c" "t_id r' = t_id r" "t_manager_id r' = t_manager_id r"
    "t_attempt_count r' = t_attempt_count r" "tw_ops w' = tw_ops w"
  using assms by (auto simp: begin_briefing_def Let_def)

lemma complete_transfer_outcome:
  assumes "complete_transfer c r n m leg actor w = (r', w')"
  shows "stored_outcome (c_id c) (t_id r) (Inr r') (tw_db w')" "t_manager_id r' = t_manager_id r"
    "t_attempt_count r' = t_attempt_count r" "tw_ops w' = tw_ops w"
  using assms by (auto simp: complete_transfer_def stored_outcome_def Let_def)

lemma answered_attempt_cases:
  assumes "answered_attempt cfg eng whisper actor c r n m leg w = (res, w')"
  obtains (dropped) "res = Inl CallerDroppedError" "call_is_terminal (c_id c) (tw_db w)"
      "\<exists>c1 reason. w' = mark_caller_dropped c1 r ''caller_dropped'' reason actor (safe_terminate_manager_call leg w)"
  | (whisper) c2 r2 w2 e where "begin_briefing (current c w) r n m leg w = (c2, r2, w2)"
      "whisper_phase cfg eng whisper c2 r2 m leg w2 = (Some e, w')" "res = Inl e"
  | (briefed) c2 r2 w2 w3 where "begin_briefing (current c w) r n m leg w = (c2, r2, w2)"
      "whisper_phase cfg eng whisper c2 r2 m leg w2 = (None, w3)" "res = Inl CallerDroppedError"
      "call_is_terminal (c_id c) (tw_db w3)"
      "w' = mark_caller_dropped (current c2 w3) r2 ''caller_dropped''
         ''Client dropped during briefing phase'' actor (safe_terminate_manager_call leg w3)"
  | (bridge) c2 r2 w2 w3 e where "begin_briefing (current c w) r n m leg w = (c2, r2, w2)"
      "whisper_phase cfg eng whisper c2 r2 m leg w2 = (None, w3)"
      "bridge_phase cfg eng (current c2 w3) r2 m leg w3 = (Some e, w')" "res = Inl e"
  | (connected) c2 r2 w2 w3 w4 r5 where "begin_briefing (current c w) r n m leg w = (c2, r2, w2)"
      "whisper_phase cfg eng whisper c2 r2 m leg w2 = (None, w3)"
      "bridge_phase cfg eng (current c2 w3) r2 m leg w3 = (None, w4)"
      "complete_transfer (current (current c2 w3) w4) r2 n m leg actor w4 = (r5, w')" "res = Inr r5"
  using assms unfolding answered_attempt_def Let_def
  by (auto split: prod.splits if_splits option.splits)

lemma answered_attempt_outcome:
  assumes "answered_attempt cfg eng whisper actor c r n m leg w = (res, w')"
  shows "stored_outcome (c_id c) (t_id r) res (tw_db w')
    \<and> (case res of Inr x \<Rightarrow> t_manager_id x = t_manager_id r \<and> t_attempt_count x = t_attempt_count r
         | Inl _ \<Rightarrow> True)"
  using assms
proof (cases rule: answered_attempt_cases)
  case dropped
  then show ?thesis by (auto intro!: stored_outcome_dropped)
next
  case (whisper c2 r2 w2 e)
  with begin_briefing_ids [OF whisper(1)] whisper_phase_outcome [OF whisper(2)] show ?thesis by simp
next
  case (briefed c2 r2 w2 w3)
  with begin_briefing_ids [OF briefed(1)] show ?thesis by (simp add: stored_outcome_dropped)
next
  case (bridge c2 r2 w2 w3 e)
  with begin_briefing_ids [OF bridge(1)] bridge_phase_outcome [OF bridge(3)] show ?thesis by simp
next
  case (connected c2 r2 w2 w3 w4 r5)
  with begin_briefing_ids [OF connected(1)] complete_transfer_outcome [OF connected(4)]
  show ?thesis by simp
qed

lemma select_manager_ids:
  assumes "select_manager c r n m w = (r', w')"
  shows "t_id r' = t_id r" "t_attempt_count r' = n" "t_manager_id r' = Some (m_id m)"
    "tw_ops w' = tw_ops w"
  using assms by (auto simp: select_manager_def Let_def)

lemma try_manager_cases:
  assumes "try_manager cfg eng whisper actor c r n m w = (a, w')"
  obtains (gone) r1 w1 reason where "select_manager c r n m w = (r1, w1)"
      "call_is_terminal (c_id c) (te_others eng n (tw_db w1))" "a = Finished (Inl CallerDroppedError)"
      "w' = mark_caller_dropped (current c (on_db (te_others eng n) w1)) r1 ''caller_dropped'' reason actor
              (on_db (te_others eng n) w1)"
  | (failed) r1 w1 err where "select_manager c r n m w = (r1, w1)"
      "dial_manager cfg eng whisper (current c (on_db (te_others eng n) w1)) n m
         (on_db (te_others eng n) w1) = (Inl err, w')" "a = NextManager r1 err"
  | (answered) r1 w1 leg w3 res where "select_manager c r n m w = (r1, w1)"
      "dial_manager cfg eng whisper (current c (on_db (te_others eng n) w1)) n m
         (on_db (te_others eng n) w1) = (Inr leg, w3)"
      "answered_attempt cfg eng whisper actor (current c (on_db (te_others eng n) w1)) r1 n m leg w3
         = (res, w')" "a = Finished res"
  using assms unfolding try_manager_def Let_def
  by (auto split: prod.splits if_splits sum.splits)

lemma try_manager_outcome:
  assumes "try_manager cfg eng whisper actor c r n m w = (a, w')"
  shows "case a of Finished res \<Rightarrow> stored_outcome (c_id c) (t_id r) res (tw_db w')
           \<and> (case res of Inr x \<Rightarrow> t_manager_id x = Some (m_id m) \<and> t_attempt_count x = n | Inl _ \<Rightarrow> True)
         | NextManager r' err \<Rightarrow> t_id r' = t_id r \<and> t_attempt_count r' = n"
  using assms
proof (cases rule: try_manager_cases)
  case (gone r1 w1 reason)
  with select_manager_ids [OF gone(1)] show ?thesis by (simp add: stored_outcome_dropped)
next
  case (failed r1 w1 err)
  with select_manager_ids [OF failed(1)] show ?thesis by simp
next
  case (answered r1 w1 leg w3 res)
  with select_manager_ids [OF answered(1)] answered_attempt_outcome [OF answered(3)]
  show ?thesis by (simp split: sum.splits)
qed

lemma all_failed_outcome:
  assumes "all_failed c r last_error actor w = (res, w')"
  shows "stored_outcome (c_id c) (t_id r) res (tw_db w')" and "\<exists>e. res = Inl e"
  using assms by (auto simp: all_failed_def Let_def intro!: stored_outcome_fail)

lemma try_managers_outcome:
  assumes "try_managers cfg eng whisper actor c r n le ms w = (res, w')"
  shows "stored_outcome (c_id c) (t_id r) res (tw_db w')"
  using assms
proof (induction ms arbitrary: r n le w)
  case Nil
  then show ?case by (simp add: all_failed_outcome)
next
  case (Cons m ms)
  obtain a w1 where a: "try_manager cfg eng whisper actor c r n m w = (a, w1)"
    by (cases "try_manager cfg eng whisper actor c r n m w")
  show ?case
  proof (cases a)
    case (Finished r')
    with Cons.prems try_manager_outcome [OF a] a show ?thesis by simp
  next
    case (NextManager r' err)
    then have "try_managers cfg eng whisper actor c r' (Suc n) (Some err) ms w1 = (res, w')"
      using Cons.prems a by simp
    with Cons.IH try_manager_outcome [OF a] NextManager show ?thesis by fastforce
  qed
qed

lemma find_managers_NoManager:
  "(\<exists>ms. find_managers dep d = Inr ms) \<longleftrightarrow> (\<exists>m\<in>set (managers d). m_is_active m \<and> m_is_available m)"
  "find_managers dep d = Inl e \<Longrightarrow> e = NoManagerAvailableError"
proof -
  have s: "set (find_available_managers p d) = {m \<in> set (managers d). candidate p m}" for p
    by (simp add: find_available_managers_def)
  have ne: "find_available_managers p d = [] \<longleftrightarrow> (\<forall>m\<in>set (managers d). \<not> candidate p m)" for p
    using s [of p] by (metis (mono_tags, lifting) empty_Collect_eq set_empty)
  have up: "candidate p m \<Longrightarrow> candidate None m" for p m by (simp add: candidate_def)
  have "(\<exists>ms. find_managers dep d = Inr ms) \<longleftrightarrow> (\<exists>m\<in>set (managers d). candidate None m)"
    using up by (cases dep) (auto simp: find_managers_def Let_def ne)
  then show "(\<exists>ms. find_managers dep d = Inr ms)
      \<longleftrightarrow> (\<exists>m\<in>set (managers d). m_is_active m \<and> m_is_available m)"
    by (simp add: candidate_def)
  show "find_managers dep d = Inl e \<Longrightarrow> e = NoManagerAvailableError"
    by (auto simp: find_managers_def Let_def split: if_splits option.splits)
qed

lemma get_transferable_call_Inr:
  "get_transferable_call cid d = Inr c \<longleftrightarrow> get_call_row cid d = Some c
     \<and> c_status c \<in> {CREATED, QUEUED, DIALING, RINGING, IN_PROGRESS, NEEDS_TRANSFER}"
  by (cases "get_call_row cid d"; cases "c_status c")
    (auto simp: get_transferable_call_def is_in_transfer_def transfer_statuses_def)

lemma get_transferable_call_Inl:
  "get_transferable_call cid d = Inl e \<Longrightarrow> e \<in> {NotFoundError, InvalidCallStateError}"
  by (auto simp: get_transferable_call_def split: option.splits if_splits)

lemma start_transfer_ids:
  assumes "start_transfer env c dep summary whisper actor ms w = (c', r, w')"
  shows "c_id c' = c_id c" "t_id r = tv_new_id env" "tw_ops w' = tw_ops w"
  using assms by (auto simp: start_transfer_def new_record_def Let_def)

text \<open>
  C5. A transfer's result says what is stored. The transfer is attempted exactly when the call
  exists in a status before any transfer and some manager is active and available; otherwise an
  error is raised and nothing at all changes. When it is attempted: a returned record is stored
  as \<open>CONNECTED\<close> and the call as \<open>CONNECTED_TO_MANAGER\<close>; \<open>CallerDroppedError\<close> comes with a
  \<open>CALLER_DROPPED\<close> record and a call that is terminal or gone; \<open>TransferTimeoutError\<close> with
  \<open>TIMED_OUT\<close>, \<open>TransferError\<close> with \<open>BRIDGE_FAILED\<close> or \<open>FAILED_NO_ANSWER\<close>, each with its
  failure stage and the call \<open>STOPPED\<close>. No other exception leaves it, whatever the engine
  does and whatever other transactions write.
\<close>

theorem transfer_result_stored:
  "case initiate_transfer cfg env eng cid dep actor w of (res, w') \<Rightarrow>
     (if (\<exists>c. get_call_row cid (tw_db w) = Some c
              \<and> c_status c \<in> {CREATED, QUEUED, DIALING, RINGING, IN_PROGRESS, NEEDS_TRANSFER})
         \<and> (\<exists>m\<in>set (managers (tw_db w)). m_is_active m \<and> m_is_available m)
      then stored_outcome cid (tv_new_id env) res (tw_db w')
      else w' = w \<and> res \<in> Inl ` {NotFoundError, InvalidCallStateError, NoManagerAvailableError})"
proof (cases "get_transferable_call cid (tw_db w)")
  case (Inl e)
  then have "\<not> (\<exists>c. get_call_row cid (tw_db w) = Some c
              \<and> c_status c \<in> {CREATED, QUEUED, DIALING, RINGING, IN_PROGRESS, NEEDS_TRANSFER})"
    using get_transferable_call_Inr [of cid "tw_db w"] by simp
  with Inl get_transferable_call_Inl [OF Inl] show ?thesis by (auto simp: initiate_transfer_def)
next
  case (Inr c)
  note row = Inr [unfolded get_transferable_call_Inr]
  show ?thesis
  proof (cases "find_managers dep (tw_db w)")
    case (Inl e)
    then have "\<not> (\<exists>m\<in>set (managers (tw_db w)). m_is_active m \<and> m_is_available m)"
      using find_managers_NoManager(1) [of dep "tw_db w"] by simp
    with Inl Inr find_managers_NoManager(2) [OF Inl] show ?thesis
      by (auto simp: initiate_transfer_def Let_def)
  next
    case (Inr ms)
    then have avail: "\<exists>m\<in>set (managers (tw_db w)). m_is_active m \<and> m_is_available m"
      using find_managers_NoManager(1) by blast
    obtain res w' where run: "initiate_transfer cfg env eng cid dep actor w = (res, w')"
      by (cases "initiate_transfer cfg env eng cid dep actor w")
    obtain c' r w1 where st: "start_transfer env c dep (tv_summary env (get_transcript cid (tw_db w)))
        (tv_whisper env (get_transcript cid (tw_db w))) actor ms w = (c', r, w1)"
      by (cases "start_transfer env c dep (tv_summary env (get_transcript cid (tw_db w)))
        (tv_whisper env (get_transcript cid (tw_db w))) actor ms w")
    have "stored_outcome (c_id c') (t_id r) res (tw_db w')"
      by (rule try_managers_outcome)
        (use run \<open>get_transferable_call cid (tw_db w) = Inr c\<close> Inr st in
          \<open>simp add: initiate_transfer_def Let_def\<close>)
    moreover have "c_id c = cid" using row call_rows.get_key by blast
    ultimately show ?thesis using run row avail start_transfer_ids [OF st] by auto
  qed
qed

section \<open>The operations of a transfer\<close>

fun dials :: "transfer_op list \<Rightarrow> (uuid \<times> dial_outcome) list" where
  "dials [] = []"
| "dials (TrDial i out # xs) = (i, out) # dials xs"
| "dials (_ # xs) = dials xs"

fun marks :: "transfer_op list \<Rightarrow> uuid list" where
  "marks [] = []"
| "marks (TrMarkUnavailable i # xs) = i # marks xs"
| "marks (_ # xs) = marks xs"

definition answered :: "dial_outcome \<Rightarrow> bool" where
  "answered out = (case out of DialAnswered _ \<Rightarrow> True | _ \<Rightarrow> False)"

lemma answered_simps [simp]:
  "answered (DialAnswered leg)" "\<not> answered DialTimeout" "\<not> answered (DialError x)"
  by (simp_all add: answered_def)

lemma dials_append [simp]: "dials (xs @ ys) = dials xs @ dials ys"
  by (induction xs rule: dials.induct) auto

lemma marks_append [simp]: "marks (xs @ ys) = marks xs @ marks ys"
  by (induction xs rule: marks.induct) auto

text \<open>Every leg that a transfer is responsible for, given its result and its operations.\<close>

definition manager_legs_released :: "bool \<Rightarrow> string option \<Rightarrow> transfer_op list \<Rightarrow> bool" where
  "manager_legs_released ok leg xs \<longleftrightarrow>
     (truthy leg \<longrightarrow>
       (if ok then \<exists>cust. TrBridge leg cust \<in> set xs else TrTerminateManager (the leg) \<in> set xs))
     \<and> (ok \<longrightarrow> (\<forall>l. TrTerminateManager l \<notin> set xs \<and> TrTerminateCustomer l \<notin> set xs))"

lemma whisper_phase_ops:
  assumes "whisper_phase cfg eng whisper c r m leg w = (err, w')"
  shows "\<exists>ys. tw_ops w' = tw_ops w @ ys \<and> dials ys = [] \<and> marks ys = []
    \<and> (truthy leg \<and> err \<noteq> None \<longrightarrow> TrTerminateManager (the leg) \<in> set ys)
    \<and> (err = None \<longrightarrow> ys = [TrWhisper leg whisper])"
  using assms
  by (auto simp: whisper_phase_def Let_def fail_transfer_def safe_terminate_manager_call_def
      safe_terminate_customer_leg_def split: prod.splits op_outcome.splits)

lemma bridge_phase_ops:
  assumes "bridge_phase cfg eng c r m leg w = (err, w')"
  shows "\<exists>ys. tw_ops w' = tw_ops w @ ys \<and> dials ys = [] \<and> marks ys = []
    \<and> (truthy leg \<and> err \<noteq> None \<longrightarrow> TrTerminateManager (the leg) \<in> set ys)
    \<and> (err = None \<longrightarrow> ys = [TrBridge leg (customer_leg c)])"
  using assms
  by (auto simp: bridge_phase_def Let_def fail_transfer_def safe_terminate_manager_call_def
      safe_terminate_customer_leg_def split: prod.splits op_outcome.splits)

lemma safe_terminate_manager_ops:
  "\<exists>ys. tw_ops (safe_terminate_manager_call leg w) = tw_ops w @ ys \<and> dials ys = [] \<and> marks ys = []
    \<and> (truthy leg \<longrightarrow> TrTerminateManager (the leg) \<in> set ys)"
  by (simp add: safe_terminate_manager_call_def)

lemma answered_attempt_ops:
  assumes "answered_attempt cfg eng whisper actor c r n m leg w = (res, w')"
  shows "\<exists>ys. tw_ops w' = tw_ops w @ ys \<and> dials ys = [] \<and> marks ys = []
    \<and> manager_legs_released (is_ok res) leg ys"
  using assms
proof (cases rule: answered_attempt_cases)
  case dropped
  with safe_terminate_manager_ops [of leg w] show ?thesis
    by (auto simp: manager_legs_released_def)
next
  case (whisper c2 r2 w2 e)
  with begin_briefing_ids [OF whisper(1)] whisper_phase_ops [OF whisper(2)] show ?thesis
    by (auto simp: manager_legs_released_def)
next
  case (briefed c2 r2 w2 w3)
  obtain ys where "tw_ops (safe_terminate_manager_call leg w3) = tw_ops w3 @ ys" "dials ys = []"
      "marks ys = []" "truthy leg \<longrightarrow> TrTerminateManager (the leg) \<in> set ys"
    using safe_terminate_manager_ops by blast
  with briefed begin_briefing_ids [OF briefed(1)] whisper_phase_ops [OF briefed(2)] show ?thesis
    by (intro exI [of _ "TrWhisper leg whisper # ys"]) (simp add: manager_legs_released_def)
next
  case (bridge c2 r2 w2 w3 e)
  obtain ys where "tw_ops w' = tw_ops w3 @ ys" "dials ys = []" "marks ys = []"
      "truthy leg \<longrightarrow> TrTerminateManager (the leg) \<in> set ys"
    using bridge_phase_ops [OF bridge(3)] by auto
  with bridge begin_briefing_ids [OF bridge(1)] whisper_phase_ops [OF bridge(2)] show ?thesis
    by (intro exI [of _ "TrWhisper leg whisper # ys"]) (simp add: manager_legs_released_def)
next
  case (connected c2 r2 w2 w3 w4 r5)
  with begin_briefing_ids [OF connected(1)] whisper_phase_ops [OF connected(2)]
    bridge_phase_ops [OF connected(3)] complete_transfer_outcome [OF connected(4)]
  show ?thesis
    by (intro exI [of _ "[TrWhisper leg whisper, TrBridge leg (customer_leg (current c2 w3))]"])
      (simp add: manager_legs_released_def)
qed

lemma dial_manager_ops:
  assumes "dial_manager cfg eng whisper c n m w = (res, w')"
  obtains out where "tw_ops w' = tw_ops w @ TrDial (m_id m) out #
             (if answered out then [] else [TrMarkUnavailable (m_id m)])"
    "case res of Inl _ \<Rightarrow> \<not> answered out | Inr leg \<Rightarrow> out = DialAnswered leg"
proof -
  let ?w1 = "taudit c ''transfer_calling_manager'' ''engine''
     [(''manager_id'', JStr (uuid_str (m_id m))), (''manager_name'', JStr (m_name m)),
      (''attempt'', JNum (int n))] w"
  obtain out d2 where out: "te_dial eng m c whisper (tw_db ?w1) = (out, d2)"
    by (cases "te_dial eng m c whisper (tw_db ?w1)")
  show thesis
    using assms out
    by (intro that [of out]; cases out)
      (auto simp: dial_manager_def Let_def safe_mark_unavailable_def)
qed

text \<open>The candidates dialled so far, the managers marked, and the legs, for the rest of a transfer.\<close>

definition trace_ok :: "bool \<Rightarrow> manager list \<Rightarrow> transfer_op list \<Rightarrow> bool" where
  "trace_ok ok ms xs \<longleftrightarrow>
     map fst (dials xs) = take (length (dials xs)) (map m_id ms)
     \<and> marks xs = map fst (filter (\<lambda>x. \<not> answered (snd x)) (dials xs))
     \<and> (\<forall>x\<in>set (butlast (dials xs)). \<not> answered (snd x))
     \<and> (ok \<longrightarrow> dials xs \<noteq> [] \<and> answered (snd (last (dials xs))))
     \<and> (\<forall>i leg. (i, DialAnswered leg) \<in> set (dials xs) \<longrightarrow> manager_legs_released ok leg xs)"

lemma manager_legs_released_cons:
  "manager_legs_released ok leg xs \<Longrightarrow> (\<And>l. y \<noteq> TrTerminateManager l \<and> y \<noteq> TrTerminateCustomer l)
    \<Longrightarrow> manager_legs_released ok leg (y # xs)"
  by (auto simp: manager_legs_released_def)

lemma try_manager_ops:
  assumes "try_manager cfg eng whisper actor c r n m w = (a, w')"
  shows "\<exists>xs. tw_ops w' = tw_ops w @ xs \<and>
    (case a of Finished res \<Rightarrow> (\<forall>ms. trace_ok (is_ok res) (m # ms) xs)
     | NextManager _ _ \<Rightarrow> (\<exists>out. xs = [TrDial (m_id m) out, TrMarkUnavailable (m_id m)] \<and> \<not> answered out))"
  using assms
proof (cases rule: try_manager_cases)
  case (gone r1 w1 reason)
  with select_manager_ids [OF gone(1)] show ?thesis
    by (intro exI [of _ "[]"]) (simp add: trace_ok_def)
next
  case (failed r1 w1 err)
  obtain out where "tw_ops w' = tw_ops w1 @ TrDial (m_id m) out #
       (if answered out then [] else [TrMarkUnavailable (m_id m)])" "\<not> answered out"
    using dial_manager_ops [OF failed(2)] by auto
  with failed select_manager_ids [OF failed(1)] show ?thesis by auto
next
  case (answered r1 w1 leg w3 res)
  have d: "tw_ops w3 = tw_ops w1 @ [TrDial (m_id m) (DialAnswered leg)]"
    using dial_manager_ops [OF answered(2)] by auto
  obtain ys where ys: "tw_ops w' = tw_ops w3 @ ys" "dials ys = []" "marks ys = []"
      "manager_legs_released (is_ok res) leg ys"
    using answered_attempt_ops [OF answered(3)] by blast
  have "trace_ok (is_ok res) (m # ms) (TrDial (m_id m) (DialAnswered leg) # ys)" for ms
    using ys by (simp add: trace_ok_def manager_legs_released_cons)
  with d ys answered select_manager_ids [OF answered(1)] show ?thesis by auto
qed

lemma trace_ok_next:
  assumes "trace_ok ok ms xs" "\<not> answered out"
  shows "trace_ok ok (m # ms) (TrDial (m_id m) out # TrMarkUnavailable (m_id m) # xs)"
  using assms by (auto simp: trace_ok_def intro!: manager_legs_released_cons)

lemma try_managers_ops:
  assumes "try_managers cfg eng whisper actor c r n le ms w = (res, w')"
  shows "\<exists>xs. tw_ops w' = tw_ops w @ xs \<and> trace_ok (is_ok res) ms xs"
  using assms
proof (induction ms arbitrary: r n le w)
  case Nil
  then show ?case
    by (auto simp: all_failed_def fail_transfer_def safe_terminate_customer_leg_def Let_def
        trace_ok_def)
next
  case (Cons m ms)
  obtain a w1 where a: "try_manager cfg eng whisper actor c r n m w = (a, w1)"
    by (cases "try_manager cfg eng whisper actor c r n m w")
  show ?case
  proof (cases a)
    case (Finished r')
    with Cons.prems a have "res = r'" "w' = w1" by auto
    then show ?thesis using try_manager_ops [OF a] Finished by auto
  next
    case (NextManager r' err)
    then have "try_managers cfg eng whisper actor c r' (Suc n) (Some err) ms w1 = (res, w')"
      using Cons.prems a by simp
    then obtain xs where "tw_ops w' = tw_ops w1 @ xs" "trace_ok (is_ok res) ms xs"
      using Cons.IH by blast
    then show ?thesis using try_manager_ops [OF a] NextManager trace_ok_next [of "is_ok res" ms xs]
      by fastforce
  qed
qed

text \<open>The candidates that a transfer may try.\<close>

definition transfer_candidates :: "settings \<Rightarrow> string option \<Rightarrow> db \<Rightarrow> manager list" where
  "transfer_candidates cfg dep d =
     (case find_managers dep d of
        Inl _ \<Rightarrow> []
      | Inr ms \<Rightarrow> take (if st_transfer_max_manager_attempts cfg \<noteq> 0
                         then st_transfer_max_manager_attempts cfg else length ms) ms)"

lemma initiate_transfer_ops:
  assumes "initiate_transfer cfg env eng cid dep actor w = (res, w')"
  shows "\<exists>xs. tw_ops w' = tw_ops w @ xs \<and> trace_ok (is_ok res) (transfer_candidates cfg dep (tw_db w)) xs"
proof (cases "get_transferable_call cid (tw_db w)")
  case (Inl e)
  with assms show ?thesis by (auto simp: initiate_transfer_def trace_ok_def)
next
  case (Inr c)
  show ?thesis
  proof (cases "find_managers dep (tw_db w)")
    case (Inl e)
    with assms Inr show ?thesis by (auto simp: initiate_transfer_def trace_ok_def Let_def)
  next
    case ms: (Inr ms)
    obtain c' r w1 where st: "start_transfer env c dep (tv_summary env (get_transcript cid (tw_db w)))
        (tv_whisper env (get_transcript cid (tw_db w))) actor ms w = (c', r, w1)"
      by (cases "start_transfer env c dep (tv_summary env (get_transcript cid (tw_db w)))
        (tv_whisper env (get_transcript cid (tw_db w))) actor ms w")
    have "\<exists>xs. tw_ops w' = tw_ops w1 @ xs \<and> trace_ok (is_ok res) (transfer_candidates cfg dep (tw_db w)) xs"
      by (rule try_managers_ops)
        (use assms Inr ms st in \<open>simp add: initiate_transfer_def transfer_candidates_def Let_def\<close>)
    then show ?thesis using start_transfer_ids [OF st] by simp
  qed
qed

section \<open>Properties of a transfer's operations\<close>

definition demo_transfer_world :: tworld where
  "demo_transfer_world =
     \<lparr>tw_db = empty_db\<lparr>
        calls := [(new_call demo_env ''+7999'' DIRECT None None)\<lparr>c_status := IN_PROGRESS\<rparr>],
        managers := [demo_manager 1 5 None, demo_manager 2 1 None]\<rparr>,
      tw_ops = []\<rparr>"

text \<open>The first manager (by priority) does not answer; the second does, and the bridge fails.\<close>

definition demo_transfer_engine :: transfer_engine where
  "demo_transfer_engine =
     \<lparr>te_dial = (\<lambda>m c s d. (if m_id m = 2 then DialTimeout else DialAnswered (Some ''leg1''), d)),
      te_whisper = (\<lambda>leg s d. (OpOk, d)), te_bridge = (\<lambda>leg cust d. (OpError ''busy'', d)),
      te_mark_unavailable = (\<lambda>i d. set_temporarily_unavailable i 300 d), te_others = (\<lambda>n d. d)\<rparr>"

definition demo_transfer_env :: transfer_env where
  "demo_transfer_env =
     \<lparr>tv_summary = (\<lambda>_. ''s''), tv_whisper = (\<lambda>_. ''w''), tv_new_id = 9, tv_now = 0\<rparr>"

lemma demo_candidates:
  "find_managers None (tw_db demo_transfer_world) = Inr [demo_manager 2 1 None, demo_manager 1 5 None]"
  by (simp add: find_managers_def find_available_managers_def demo_transfer_world_def
      candidate_def demo_manager_def)

lemma demo_call_row:
  "get_call_row 5 (tw_db demo_transfer_world)
     = Some ((new_call demo_env ''+7999'' DIRECT None None)\<lparr>c_status := IN_PROGRESS\<rparr>)"
  by (simp add: demo_transfer_world_def get_call_row_def demo_env_def)

lemmas attempt_defs = start_transfer_def new_record_def try_manager_def select_manager_def
  dial_manager_def safe_mark_unavailable_def answered_attempt_def begin_briefing_def
  whisper_phase_def bridge_phase_def fail_transfer_def safe_terminate_manager_call_def
  safe_terminate_customer_leg_def current_def call_is_terminal_def customer_leg_def

lemma demo_transfer_run:
  "tw_ops (snd (initiate_transfer default_settings demo_transfer_env demo_transfer_engine 5 None
      ''bot'' demo_transfer_world))
   = [TrDial 2 DialTimeout, TrMarkUnavailable 2, TrDial 1 (DialAnswered (Some ''leg1'')),
      TrWhisper (Some ''leg1'') ''w'', TrBridge (Some ''leg1'') (uuid_str 5), TrTerminateManager ''leg1'']"
  "is_ok (fst (initiate_transfer default_settings demo_transfer_env demo_transfer_engine 5 None
      ''bot'' demo_transfer_world)) = False"
  unfolding initiate_transfer_def demo_candidates get_transferable_call_def demo_call_row
  by (simp_all add: attempt_defs demo_transfer_engine_def demo_transfer_env_def default_settings_def
      is_in_transfer_def transfer_statuses_def demo_call_row demo_manager_def py_or_def
      demo_env_def new_call_def demo_transfer_world_def Let_def)

text \<open>
  Whom a transfer may dial, and in which order, said of the stored managers: the active and available ones
  of the department, or all of them when the department has none.
\<close>

definition eligible :: "string option \<Rightarrow> db \<Rightarrow> manager set" where
  "eligible dep d =
     (let up = {m \<in> set (managers d). m_is_active m \<and> m_is_available m};
          own = {m \<in> up. dep \<noteq> None \<and> m_department m = dep}
      in if own \<noteq> {} then own else up)"

definition not_after :: "manager \<Rightarrow> manager \<Rightarrow> bool" where
  "not_after a b \<longleftrightarrow> m_priority a < m_priority b
     \<or> m_priority a = m_priority b \<and> m_created_at a \<le> m_created_at b"

lemma sorted_by_two_keys:
  assumes "sorted (map f xs)" "\<forall>p. sorted (map g (filter (\<lambda>x. f x = p) xs))"
  shows "sorted_wrt (\<lambda>a b. f a < f b \<or> f a = f b \<and> g a \<le> g b) xs"
  using assms
proof (induction xs)
  case (Cons x xs)
  have "sorted (map g (filter (\<lambda>y. f y = p) xs))" for p
    using Cons.prems(2) [rule_format, of p] by (auto split: if_splits)
  with Cons have "sorted_wrt (\<lambda>a b. f a < f b \<or> f a = f b \<and> g a \<le> g b) xs" by simp
  moreover have "f x < f y \<or> f x = f y \<and> g x \<le> g y" if y: "y \<in> set xs" for y
  proof (cases "f x = f y")
    case True
    have "sorted (map g (x # filter (\<lambda>z. f z = f x) xs))"
      using Cons.prems(2) [rule_format, of "f x"] by simp
    with y True show ?thesis by auto
  next
    case False
    with y Cons.prems(1) show ?thesis by (auto simp: less_le)
  qed
  ultimately show ?case by simp
qed simp

lemma found_managers:
  assumes "find_managers dep d = Inr ms"
  shows "set ms = eligible dep d \<and> sorted_wrt not_after ms \<and> length ms \<le> length (managers d)
    \<and> (distinct (map m_id (managers d)) \<longrightarrow> distinct (map m_id ms))"
proof -
  have found: "set (find_available_managers p d) = {m \<in> set (managers d). m_is_active m \<and> m_is_available m
      \<and> (p = None \<or> m_department m = p)}" for p
    using candidates_in_order [of p d] by (rule conjunct1)
  let ?own = "dep \<noteq> None \<and> find_available_managers dep d \<noteq> []"
  obtain dep' where ms: "ms = find_available_managers dep' d" and dep': "dep' = (if ?own then dep else None)"
    using assms by (cases ?own) (auto simp: find_managers_def Let_def split: if_splits option.splits)
  note order = candidates_in_order [of dep' d]
  have "sorted_wrt not_after ms"
    unfolding not_after_def ms using order by (intro sorted_by_two_keys) simp_all
  moreover have "set ms = eligible dep d"
  proof (cases ?own)
    case True
    then have "set ms \<noteq> {}" "set ms = set (find_available_managers dep d)" using dep' ms by simp_all
    with True show ?thesis unfolding eligible_def Let_def found by auto
  next
    case False
    then have "set (find_available_managers dep d) = {} \<or> dep = None" "set ms = set (find_available_managers None d)"
      using dep' ms by auto
    then show ?thesis unfolding eligible_def Let_def found by auto
  qed
  moreover have "length ms \<le> length (managers d)" using order by (simp add: ms)
  moreover have "distinct (map m_id ms)" if "distinct (map m_id (managers d))"
    unfolding ms find_available_managers_def using that
    by (simp add: distinct_map inj_on_def)
  ultimately show ?thesis by blast
qed

text \<open>
  C6. Attempts go through the eligible managers in order, each at most once. The managers a transfer dials
  are active and available, of the department asked for when it has such; they are dialled in ascending
  priority, among equals in the order of their creation, and no one who is passed over comes before one
  who is dialled. There are at most \<open>transfer_max_manager_attempts\<close> of them, unless that is zero, which is
  no limit. The managers marked unavailable are exactly those whose dial timed out or failed, in the same
  order; no one is dialled after an answer, and a successful transfer ends with an answered dial.
\<close>

theorem transfer_attempts_in_order:
  assumes "initiate_transfer cfg env eng cid dep actor w = (res, w')"
    and "distinct (map m_id (managers (tw_db w)))"
  shows "\<exists>xs tried. tw_ops w' = tw_ops w @ xs
    \<and> map fst (dials xs) = map m_id tried \<and> distinct (map m_id tried)
    \<and> set tried \<subseteq> eligible dep (tw_db w) \<and> sorted_wrt not_after tried
    \<and> (\<forall>m\<in>eligible dep (tw_db w) - set tried. \<forall>t\<in>set tried. not_after t m)
    \<and> (st_transfer_max_manager_attempts cfg \<noteq> 0 \<longrightarrow> length tried \<le> st_transfer_max_manager_attempts cfg)
    \<and> marks xs = map fst (filter (\<lambda>x. \<not> answered (snd x)) (dials xs))
    \<and> (\<forall>x\<in>set (butlast (dials xs)). \<not> answered (snd x))
    \<and> (is_ok res \<longrightarrow> dials xs \<noteq> [] \<and> answered (snd (last (dials xs))))"
proof -
  obtain xs where xs: "tw_ops w' = tw_ops w @ xs"
    and trace: "trace_ok (is_ok res) (transfer_candidates cfg dep (tw_db w)) xs"
    using initiate_transfer_ops [OF assms(1)] by blast
  obtain ms where ms: "set ms \<subseteq> eligible dep (tw_db w)" "sorted_wrt not_after ms" "distinct (map m_id ms)"
    and all: "ms \<noteq> [] \<longrightarrow> set ms = eligible dep (tw_db w)"
    and n: "transfer_candidates cfg dep (tw_db w) = take (if st_transfer_max_manager_attempts cfg \<noteq> 0
         then st_transfer_max_manager_attempts cfg else length ms) ms"
  proof (cases "find_managers dep (tw_db w)")
    case (Inl e)
    then show ?thesis by (intro that [of "[]"]) (simp_all add: transfer_candidates_def)
  next
    case (Inr ms)
    with found_managers [OF Inr] assms(2) show ?thesis
      by (intro that [of ms]) (simp_all add: transfer_candidates_def)
  qed
  define tried where "tried = take (length (dials xs)) (transfer_candidates cfg dep (tw_db w))"
  obtain k where k: "tried = take k ms" by (auto simp: tried_def n)
  have split: "take k ms @ drop k ms = ms" by simp
  have "sorted_wrt not_after (take k ms @ drop k ms)" unfolding split by (rule ms(2))
  then have sorted: "sorted_wrt not_after tried" "\<forall>t\<in>set tried. \<forall>m\<in>set (drop k ms). not_after t m"
    unfolding sorted_wrt_append k by blast+
  have "set tried \<subseteq> set ms" by (simp add: k set_take_subset)
  moreover have "\<forall>m\<in>eligible dep (tw_db w) - set tried. \<forall>t\<in>set tried. not_after t m"
  proof (intro ballI)
    fix m t assume m: "m \<in> eligible dep (tw_db w) - set tried" and t: "t \<in> set tried"
    from t have "ms \<noteq> []" by (auto simp: k)
    with all m have "m \<in> set (take k ms @ drop k ms)" unfolding split by simp
    with m have "m \<in> set (drop k ms)" unfolding k set_append by blast
    with sorted(2) t show "not_after t m" by blast
  qed
  moreover have "distinct (map m_id tried)" using ms(3) by (simp add: k take_map [symmetric])
  moreover have "map fst (dials xs) = map m_id tried" using trace by (simp add: trace_ok_def tried_def take_map)
  moreover have "st_transfer_max_manager_attempts cfg \<noteq> 0 \<longrightarrow> length tried \<le> st_transfer_max_manager_attempts cfg"
    by (simp add: tried_def n min_le_iff_disj)
  ultimately show ?thesis
    using xs trace ms(1) sorted(1) by (intro exI [of _ xs] exI [of _ tried]) (auto simp: trace_ok_def)
qed

theorem transfer_attempts_in_order_witness:
  "\<exists>res w' tried. initiate_transfer default_settings demo_transfer_env demo_transfer_engine 5 None ''bot''
       demo_transfer_world = (res, w') \<and> marks (tw_ops w') = [2]
     \<and> map m_id tried = [2, 1] \<and> set tried \<subseteq> eligible None (tw_db demo_transfer_world) \<and> sorted_wrt not_after tried"
proof -
  obtain res w' where h: "initiate_transfer default_settings demo_transfer_env demo_transfer_engine 5
      None ''bot'' demo_transfer_world = (res, w')"
    by (cases "initiate_transfer default_settings demo_transfer_env demo_transfer_engine 5
      None ''bot'' demo_transfer_world")
  have ops: "tw_ops w' = [TrDial 2 DialTimeout, TrMarkUnavailable 2, TrDial 1 (DialAnswered (Some ''leg1'')),
      TrWhisper (Some ''leg1'') ''w'', TrBridge (Some ''leg1'') (uuid_str 5), TrTerminateManager ''leg1'']"
    using demo_transfer_run(1) h by simp
  have none: "tw_ops demo_transfer_world = []" and ids: "distinct (map m_id (managers (tw_db demo_transfer_world)))"
    by (simp_all add: demo_transfer_world_def demo_manager_def)
  from transfer_attempts_in_order [OF h ids] obtain xs tried where
    "tw_ops w' = tw_ops demo_transfer_world @ xs" "map fst (dials xs) = map m_id tried"
    "set tried \<subseteq> eligible None (tw_db demo_transfer_world)" "sorted_wrt not_after tried" by blast
  with ops none h show ?thesis by (intro exI [of _ res] exI [of _ w'] exI [of _ tried]) auto
qed

text \<open>
  C1. No manager is left on an orphaned line. If a manager answered on some leg during a
  transfer, then that leg is terminated when the transfer raises any exception; when it
  succeeds, that leg was bridged and neither a manager leg nor the customer's leg was terminated.
\<close>

theorem no_orphan_manager_leg:
  assumes "initiate_transfer cfg env eng cid dep actor w = (res, w')"
    and "tw_ops w' = tw_ops w @ xs"
    and "(i, DialAnswered (Some leg)) \<in> set (dials xs)" and "leg \<noteq> []"
  shows "if is_ok res
    then (\<exists>cust. TrBridge (Some leg) cust \<in> set xs)
       \<and> (\<forall>l. TrTerminateManager l \<notin> set xs \<and> TrTerminateCustomer l \<notin> set xs)
    else TrTerminateManager leg \<in> set xs"
proof -
  have "trace_ok (is_ok res) (transfer_candidates cfg dep (tw_db w)) xs"
    using initiate_transfer_ops [OF assms(1)] assms(2) by auto
  then have "manager_legs_released (is_ok res) (Some leg) xs"
    using assms(3) by (auto simp: trace_ok_def)
  then show ?thesis using assms(4) by (auto simp: manager_legs_released_def)
qed

theorem no_orphan_manager_leg_witness:
  "\<exists>res w'. initiate_transfer default_settings demo_transfer_env demo_transfer_engine 5 None ''bot''
       demo_transfer_world = (res, w') \<and> TrTerminateManager ''leg1'' \<in> set (tw_ops w')"
proof -
  obtain res w' where h: "initiate_transfer default_settings demo_transfer_env demo_transfer_engine 5
      None ''bot'' demo_transfer_world = (res, w')"
    by (cases "initiate_transfer default_settings demo_transfer_env demo_transfer_engine 5
      None ''bot'' demo_transfer_world")
  have ops: "tw_ops w' = [TrDial 2 DialTimeout, TrMarkUnavailable 2, TrDial 1 (DialAnswered (Some ''leg1'')),
      TrWhisper (Some ''leg1'') ''w'', TrBridge (Some ''leg1'') (uuid_str 5), TrTerminateManager ''leg1'']"
    and bad: "is_ok res = False"
    using demo_transfer_run h by simp_all
  have "if is_ok res
    then (\<exists>cust. TrBridge (Some ''leg1'') cust \<in> set (tw_ops w'))
       \<and> (\<forall>l. TrTerminateManager l \<notin> set (tw_ops w') \<and> TrTerminateCustomer l \<notin> set (tw_ops w'))
    else TrTerminateManager ''leg1'' \<in> set (tw_ops w')"
    by (rule no_orphan_manager_leg [OF h, of _ 1]) (simp_all add: ops demo_transfer_world_def)
  with bad h show ?thesis by simp
qed

end
