(* ===== verification/RateLimit.thy ===== *)
theory RateLimit
  imports CallService
begin

text \<open>
  Rate limiting: \<open>RateLimiter\<close> and \<open>AbusePolicy\<close> of \<open>app/core/rate_limit.py\<close>. Redis is a
  service: its commands are the arguments \<open>redis_if\<close> over an abstract state, with \<open>rd_up\<close> saying
  at which instants a command reaches it (otherwise the client raises, and the code goes on). What
  the theorems need of it is \<open>redis_laws\<close>, the documented meaning of \<open>INCR\<close>, \<open>EXPIRE\<close>,
  \<open>EXISTS\<close> and \<open>SETEX\<close> on a map from keys to values with an expiry. The script that the code
  sends, \<open>INCR\<close> then \<open>EXPIRE\<close> on the first hit, is \<open>incr_expire\<close>. Instants are microseconds.

  The lemmas show that a fixed window admits exactly its limit, that the caps counted in the
  database hold whatever Redis does, and that the cooldown of a phone is enforced.
\<close>

section \<open>Redis\<close>

record 's redis_if =
  rd_up :: "time \<Rightarrow> bool"
  rd_incr :: "string \<Rightarrow> time \<Rightarrow> 's \<Rightarrow> int \<times> 's"
  rd_expire :: "string \<Rightarrow> int \<Rightarrow> time \<Rightarrow> 's \<Rightarrow> 's"
  rd_exists :: "string \<Rightarrow> time \<Rightarrow> 's \<Rightarrow> bool"
  rd_setex :: "string \<Rightarrow> int \<Rightarrow> time \<Rightarrow> 's \<Rightarrow> 's"

definition redis_laws :: "'s redis_if \<Rightarrow> ('s \<Rightarrow> string \<rightharpoonup> int \<times> time option) \<Rightarrow> bool" where
  "redis_laws rd look \<longleftrightarrow>
     (\<forall>key now s. case live_at (look s) key now of
        None \<Rightarrow> fst (rd_incr rd key now s) = 1
                \<and> look (snd (rd_incr rd key now s)) = (look s)(key \<mapsto> (1, None))
      | Some (v, e) \<Rightarrow> fst (rd_incr rd key now s) = v + 1
                \<and> look (snd (rd_incr rd key now s)) = (look s)(key \<mapsto> (v + 1, e)))
     \<and> (\<forall>key n now s v e. live_at (look s) key now = Some (v, e) \<longrightarrow>
          look (rd_expire rd key n now s) = (look s)(key \<mapsto> (v, Some (now + seconds n))))
     \<and> (\<forall>key now s. rd_exists rd key now s \<longleftrightarrow> live_at (look s) key now \<noteq> None)
     \<and> (\<forall>key n now s. \<exists>v. look (rd_setex rd key n now s) = (look s)(key \<mapsto> (v, Some (now + seconds n))))"

section \<open>RateLimiter\<close>

definition incr_expire :: "'s redis_if \<Rightarrow> string \<Rightarrow> int \<Rightarrow> time \<Rightarrow> 's \<Rightarrow> int \<times> 's" where
  "incr_expire rd key window now s =
     (let (count, s') = rd_incr rd key now s
      in (count, if count = 1 then rd_expire rd key window now s' else s'))"

definition check_fixed_window ::
    "'s redis_if option \<Rightarrow> string \<Rightarrow> int \<Rightarrow> int \<Rightarrow> time \<Rightarrow> 's \<Rightarrow> (app_error, unit) result \<times> 's" where
  "check_fixed_window redis key limit window now s =
     (case redis of
        None \<Rightarrow> (Inr (), s)
      | Some rd \<Rightarrow>
          if \<not> rd_up rd now then (Inr (), s)
          else (let (count, s') = incr_expire rd key window now s
                in (if limit < count then Inl RateLimitError else Inr (), s')))"

section \<open>AbusePolicy\<close>

definition day_start :: "time \<Rightarrow> time" where
  "day_start now = now - now mod seconds 86400"

definition phone_calls_today :: "time \<Rightarrow> string \<Rightarrow> db \<Rightarrow> int" where
  "phone_calls_today now phone d =
     int (length (filter (\<lambda>c. c_phone c = phone \<and> day_start now \<le> c_created_at c) (calls d)))"

definition check_phone_daily_cap :: "settings \<Rightarrow> time \<Rightarrow> string \<Rightarrow> db \<Rightarrow> (app_error, unit) result" where
  "check_phone_daily_cap cfg now phone d =
     (if st_rate_limit_calls_per_phone_per_day cfg \<le> phone_calls_today now phone d
      then Inl RateLimitError else Inr ())"

definition concurrent_calls :: "db \<Rightarrow> int" where
  "concurrent_calls d = int (length (filter (\<lambda>c. c_status c \<notin> terminal_statuses) (calls d)))"

definition check_max_concurrent_calls :: "settings \<Rightarrow> db \<Rightarrow> (app_error, unit) result" where
  "check_max_concurrent_calls cfg d =
     (if st_rate_limit_max_concurrent_calls cfg \<le> concurrent_calls d
      then Inl RateLimitError else Inr ())"

text \<open>\<open>EXISTS\<close> on a cooldown key; an error of Redis lets the request pass.\<close>

definition check_cooldown :: "'s redis_if option \<Rightarrow> string \<Rightarrow> time \<Rightarrow> 's \<Rightarrow> (app_error, unit) result" where
  "check_cooldown redis key now s =
     (case redis of
        None \<Rightarrow> Inr ()
      | Some rd \<Rightarrow> if rd_up rd now \<and> rd_exists rd key now s then Inl RateLimitError else Inr ())"

definition set_cooldown :: "'s redis_if option \<Rightarrow> string \<Rightarrow> int \<Rightarrow> time \<Rightarrow> 's \<Rightarrow> 's" where
  "set_cooldown redis key ttl now s =
     (case redis of None \<Rightarrow> s | Some rd \<Rightarrow> if rd_up rd now then rd_setex rd key ttl now s else s)"

definition phone_cooldown_key :: "string \<Rightarrow> string" where
  "phone_cooldown_key phone = ''rl:phone_cd:'' @ phone"

definition check_call_create ::
    "settings \<Rightarrow> 's redis_if option \<Rightarrow> time \<Rightarrow> string \<Rightarrow> string \<Rightarrow> string \<Rightarrow> db \<Rightarrow> 's
     \<Rightarrow> (app_error, unit) result \<times> 's" where
  "check_call_create cfg redis now api_key phone ip d s0 =
     (if \<not> st_rate_limit_enabled cfg then (Inr (), s0)
      else
        (let (r1, s1) =
               (if api_key \<noteq> []
                then check_fixed_window redis (''rl:calls:key:'' @ api_key)
                       (st_rate_limit_calls_per_minute cfg) 60 now s0
                else (Inr (), s0))
         in case r1 of Inl e \<Rightarrow> (Inl e, s1) | Inr _ \<Rightarrow>
        (let (r2, s2) = check_fixed_window redis (''rl:calls:ip:'' @ ip)
                          (st_rate_limit_global_per_ip_per_minute cfg) 60 now s1
         in case r2 of Inl e \<Rightarrow> (Inl e, s2) | Inr _ \<Rightarrow>
        (case check_cooldown redis (phone_cooldown_key phone) now s2 of Inl e \<Rightarrow> (Inl e, s2) | Inr _ \<Rightarrow>
        (case check_phone_daily_cap cfg now phone d of Inl e \<Rightarrow> (Inl e, s2) | Inr _ \<Rightarrow>
        (case check_max_concurrent_calls cfg d of Inl e \<Rightarrow> (Inl e, s2) | Inr _ \<Rightarrow>
           (Inr (), set_cooldown redis (phone_cooldown_key phone)
                      (st_rate_limit_phone_repeat_cooldown_seconds cfg) now s2)))))))"

definition check_steer ::
    "settings \<Rightarrow> 's redis_if option \<Rightarrow> time \<Rightarrow> string \<Rightarrow> 's \<Rightarrow> (app_error, unit) result \<times> 's" where
  "check_steer cfg redis now call_id s =
     (if \<not> st_rate_limit_enabled cfg then (Inr (), s)
      else check_fixed_window redis (''rl:steer:'' @ call_id)
             (st_rate_limit_steer_per_call_per_minute cfg) 60 now s)"

definition check_transfer ::
    "settings \<Rightarrow> 's redis_if option \<Rightarrow> time \<Rightarrow> string \<Rightarrow> 's \<Rightarrow> (app_error, unit) result \<times> 's" where
  "check_transfer cfg redis now phone s =
     (if \<not> st_rate_limit_enabled cfg then (Inr (), s)
      else (let key = ''rl:transfer_cd:'' @ phone in
        case check_cooldown redis key now s of
          Inl e \<Rightarrow> (Inl e, s)
        | Inr _ \<Rightarrow>
            (Inr (), set_cooldown redis key (st_rate_limit_transfer_cooldown_seconds cfg) now s)))"

section \<open>The fixed window\<close>

text \<open>The outcomes of requests on one key, at the given instants.\<close>

fun window_run ::
    "'s redis_if \<Rightarrow> string \<Rightarrow> int \<Rightarrow> int \<Rightarrow> time list \<Rightarrow> 's \<Rightarrow> bool list" where
  "window_run rd key limit window [] s = []"
| "window_run rd key limit window (t # ts) s =
     (let (r, s') = check_fixed_window (Some rd) key limit window t s
      in is_ok r # window_run rd key limit window ts s')"

lemma redis_setex:
  "redis_laws rd look \<Longrightarrow> \<exists>v. look (rd_setex rd key n now s) = (look s)(key \<mapsto> (v, Some (now + seconds n)))"
  unfolding redis_laws_def by blast

lemma redis_exists:
  "redis_laws rd look \<Longrightarrow> rd_exists rd key now s \<longleftrightarrow> live_at (look s) key now \<noteq> None"
  unfolding redis_laws_def by blast

lemma redis_expire:
  "redis_laws rd look \<Longrightarrow> live_at (look s) key now = Some (v, e) \<Longrightarrow>
     look (rd_expire rd key n now s) = (look s)(key \<mapsto> (v, Some (now + seconds n)))"
  unfolding redis_laws_def by blast

lemma incr_expire_first:
  assumes "redis_laws rd look" "live_at (look s) key now = None" "incr_expire rd key window now s = (n, s')"
  shows "n = 1 \<and> look s' = (look s)(key \<mapsto> (1, Some (now + seconds window)))"
proof -
  obtain c s1 where c: "rd_incr rd key now s = (c, s1)" by (cases "rd_incr rd key now s")
  have laws: "c = 1" "look s1 = (look s)(key \<mapsto> (1, None))"
    using assms(1,2) c unfolding redis_laws_def by (metis (mono_tags, lifting) fst_conv option.simps(4) snd_conv)+
  have "live_at (look s1) key now = Some (1, None)" using laws by (simp add: live_at_def)
  then have "look (rd_expire rd key window now s1) = (look s1)(key \<mapsto> (1, Some (now + seconds window)))"
    using assms(1) unfolding redis_laws_def by blast
  then show ?thesis using assms(3) c laws by (simp add: incr_expire_def)
qed

lemma incr_expire_next:
  assumes "redis_laws rd look" "live_at (look s) key now = Some (v, Some e)" "0 < v"
    "incr_expire rd key window now s = (n, s')"
  shows "n = v + 1 \<and> look s' = (look s)(key \<mapsto> (v + 1, Some e))"
proof -
  obtain c s1 where c: "rd_incr rd key now s = (c, s1)" by (cases "rd_incr rd key now s")
  have "case live_at (look s) key now of
        None \<Rightarrow> fst (rd_incr rd key now s) = 1
                \<and> look (snd (rd_incr rd key now s)) = (look s)(key \<mapsto> (1, None))
      | Some (v, e) \<Rightarrow> fst (rd_incr rd key now s) = v + 1
                \<and> look (snd (rd_incr rd key now s)) = (look s)(key \<mapsto> (v + 1, e))"
    using assms(1) unfolding redis_laws_def by blast
  then show ?thesis using assms(2,3,4) c by (auto simp: incr_expire_def)
qed

lemma window_run_rest:
  assumes "redis_laws rd look" "look s key = Some (v, Some e)" "0 < v"
    "\<forall>t\<in>set ts. t < e \<and> rd_up rd t"
  shows "window_run rd key limit window ts s = map (\<lambda>i. v + int i < limit) [0..<length ts]"
  using assms(2-4)
proof (induction ts arbitrary: s v)
  case (Cons t ts)
  obtain n s' where n: "incr_expire rd key window t s = (n, s')"
    by (cases "incr_expire rd key window t s")
  have "live_at (look s) key t = Some (v, Some e)" using Cons.prems by (simp add: live_at_def)
  then have next_state: "n = v + 1" "look s' key = Some (v + 1, Some e)"
    using incr_expire_next [OF assms(1) _ _ n] Cons.prems(2) by auto
  then have "window_run rd key limit window ts s' = map (\<lambda>i. v + 1 + int i < limit) [0..<length ts]"
    using Cons.IH [of s' "v + 1"] Cons.prems by simp
  moreover have "map (\<lambda>i. v + int i < limit) [0..<length (t # ts)]
      = (v < limit) # map (\<lambda>i. v + 1 + int i < limit) [0..<length ts]"
    by (simp add: upt_conv_Cons map_Suc_upt [symmetric] del: upt_Suc) (simp add: algebra_simps)
  ultimately show ?case
    using n next_state Cons.prems(3) by (auto simp: check_fixed_window_def)
qed simp

text \<open>
  C25. A fixed window admits exactly its limit. Take any requests on one key, the first at an
  instant where no live counter exists and all within the window that it opens, while Redis is
  reachable and follows its documentation: exactly the first \<open>limit\<close> requests pass (none when
  the limit is not positive), whatever their spacing.
\<close>

theorem fixed_window_exact:
  assumes "redis_laws rd look"
    and "live_at (look s) key t = None"
    and "\<forall>u\<in>set (t # ts). u < t + seconds window \<and> rd_up rd u"
  shows "window_run rd key limit window (t # ts) s
           = map (\<lambda>i. int i < limit) [0..<Suc (length ts)]
    \<and> length (filter id (window_run rd key limit window (t # ts) s))
        = min (nat limit) (Suc (length ts))"
proof -
  obtain n s' where n: "incr_expire rd key window t s = (n, s')"
    by (cases "incr_expire rd key window t s")
  have s': "n = 1" "look s' key = Some (1, Some (t + seconds window))"
    using incr_expire_first [OF assms(1,2) n] by auto
  have rest: "window_run rd key limit window ts s' = map (\<lambda>i. 1 + int i < limit) [0..<length ts]"
    by (rule window_run_rest [OF assms(1) s'(2)]) (use assms(3) in auto)
  have "map (\<lambda>i. int i < limit) [0..<Suc (length ts)]
      = (0 < limit) # map (\<lambda>i. 1 + int i < limit) [0..<length ts]"
    by (simp add: upt_conv_Cons map_Suc_upt [symmetric] del: upt_Suc)
  then have run: "window_run rd key limit window (t # ts) s = map (\<lambda>i. int i < limit) [0..<Suc (length ts)]"
    using n s' rest assms(3) by (auto simp: check_fixed_window_def)
  have "length (filter id (map (\<lambda>i. int i < limit) [0..<k])) = min (nat limit) k" for k
    by (induction k) auto
  with run show ?thesis by metis
qed

text \<open>A map that follows the laws, for concrete runs.\<close>

definition map_redis :: "(string \<rightharpoonup> int \<times> time option) redis_if" where
  "map_redis =
     \<lparr>rd_up = (\<lambda>_. True),
      rd_incr = (\<lambda>key now m. case live_at m key now of
                   None \<Rightarrow> (1, m(key \<mapsto> (1, None))) | Some (v, e) \<Rightarrow> (v + 1, m(key \<mapsto> (v + 1, e)))),
      rd_expire = (\<lambda>key n now m. case live_at m key now of
                   None \<Rightarrow> m | Some (v, e) \<Rightarrow> m(key \<mapsto> (v, Some (now + seconds n)))),
      rd_exists = (\<lambda>key now m. live_at m key now \<noteq> None),
      rd_setex = (\<lambda>key n now m. m(key \<mapsto> (1, Some (now + seconds n))))\<rparr>"

lemma map_redis_laws: "redis_laws map_redis (\<lambda>m. m)"
  by (auto simp: redis_laws_def map_redis_def split: option.split)

theorem fixed_window_exact_witness:
  "window_run map_redis ''k'' 2 60 [0, 5, 9] Map.empty = [True, True, False]"
proof -
  have "window_run map_redis ''k'' 2 60 [0, 5, 9] Map.empty
      = map (\<lambda>i. int i < 2) [0..<Suc (length [5, 9 :: time])]
    \<and> length (filter id (window_run map_redis ''k'' 2 60 [0, 5, 9] Map.empty))
        = min (nat 2) (Suc (length [5, 9 :: time]))"
    by (rule fixed_window_exact [OF map_redis_laws])
      (simp_all add: live_at_def map_redis_def seconds_def)
  then show ?thesis by (simp add: upt_conv_Cons)
qed

section \<open>Caps and cooldowns\<close>

lemma check_fixed_window_error:
  "check_fixed_window redis key limit window now s = (Inl e, s') \<Longrightarrow> e = RateLimitError"
  by (auto simp: check_fixed_window_def split: option.splits if_splits prod.splits)

text \<open>
  The caps of the database do not depend on Redis. With rate limiting on, a request is
  admitted only if the phone has had fewer calls today than its cap and fewer calls than the
  maximum are under way, whether Redis works, fails or is absent; without Redis these two
  conditions are exactly what admits a request. Every refusal is a \<open>RateLimitError\<close>.
\<close>

theorem database_caps_always_hold:
  assumes "st_rate_limit_enabled cfg"
  shows "case check_call_create cfg redis now api_key phone ip d s of
     (Inr _, s') \<Rightarrow> phone_calls_today now phone d < st_rate_limit_calls_per_phone_per_day cfg
        \<and> concurrent_calls d < st_rate_limit_max_concurrent_calls cfg
   | (Inl e, s') \<Rightarrow> e = RateLimitError \<and> \<not> (redis = None
        \<and> phone_calls_today now phone d < st_rate_limit_calls_per_phone_per_day cfg
        \<and> concurrent_calls d < st_rate_limit_max_concurrent_calls cfg)"
  using assms
  by (auto simp: check_call_create_def check_cooldown_def check_phone_daily_cap_def
      check_max_concurrent_calls_def check_fixed_window_def Let_def
      split: if_splits sum.splits option.splits prod.splits)

theorem database_caps_always_hold_witness:
  "fst (check_call_create default_settings (None :: unit redis_if option) 0 ''key'' ''+7999'' ''ip''
     empty_db ()) = Inr ()"
proof -
  have "st_rate_limit_enabled default_settings" by (simp add: default_settings_def)
  from database_caps_always_hold [OF this, where redis = "None :: unit redis_if option" and now = 0
      and api_key = "''key''" and phone = "''+7999''" and ip = "''ip''" and d = empty_db and s = "()"]
  show ?thesis
    by (auto simp: default_settings_def empty_db_def phone_calls_today_def concurrent_calls_def
        split: prod.splits sum.splits)
qed

lemma check_fixed_window_other_key:
  assumes "redis_laws rd look" "check_fixed_window (Some rd) key limit window now s = (r, s')"
    "key' \<noteq> key"
  shows "look s' key' = look s key'"
proof (cases "rd_up rd now")
  case True
  obtain c s1 where c: "rd_incr rd key now s = (c, s1)" by (cases "rd_incr rd key now s")
  have incr: "case live_at (look s) key now of
        None \<Rightarrow> fst (rd_incr rd key now s) = 1
                \<and> look (snd (rd_incr rd key now s)) = (look s)(key \<mapsto> (1, None))
      | Some (v, e) \<Rightarrow> fst (rd_incr rd key now s) = v + 1
                \<and> look (snd (rd_incr rd key now s)) = (look s)(key \<mapsto> (v + 1, e))"
    using assms(1) unfolding redis_laws_def by blast
  then have other: "look s1 key' = look s key'"
    using c assms(3) by (auto split: option.splits prod.splits)
  obtain v e where "live_at (look s1) key now = Some (v, e)"
    using incr c by (auto simp: live_at_def split: option.splits prod.splits if_splits)
  then have "look (rd_expire rd key window now s1) key' = look s1 key'"
    using redis_expire [OF assms(1)] assms(3) by simp
  with other assms(2) c True show ?thesis
    by (auto simp: check_fixed_window_def incr_expire_def Let_def split: if_splits)
next
  case False
  with assms(2) show ?thesis by (simp add: check_fixed_window_def)
qed

text \<open>
  A phone is not called twice within its cooldown. Once a request for a phone was admitted,
  every request for the same phone before the cooldown has passed is refused with a
  \<open>RateLimitError\<close>, whatever its API key, address and the calls then under way, as long as Redis
  is reachable for both, follows its documentation and keeps the phone's entry.
\<close>

theorem phone_cooldown_enforced:
  assumes "redis_laws rd look" and "st_rate_limit_enabled cfg"
    and "check_call_create cfg (Some rd) t api_key phone ip d s = (Inr (), s')"
    and "rd_up rd t" and "rd_up rd t'"
    and "t' < t + seconds (st_rate_limit_phone_repeat_cooldown_seconds cfg)"
    and "look s'' (phone_cooldown_key phone) = look s' (phone_cooldown_key phone)"
  shows "fst (check_call_create cfg (Some rd) t' api_key' phone ip' d' s'') = Inl RateLimitError"
proof -
  let ?k = "phone_cooldown_key phone"
  obtain s2 where "s' = rd_setex rd ?k (st_rate_limit_phone_repeat_cooldown_seconds cfg) t s2"
    using assms(2,3,4)
    by (auto simp: check_call_create_def set_cooldown_def Let_def split: if_splits sum.splits prod.splits)
  then obtain v where v: "look s' ?k = Some (v, Some (t + seconds (st_rate_limit_phone_repeat_cooldown_seconds cfg)))"
    using redis_setex [OF assms(1), of ?k "st_rate_limit_phone_repeat_cooldown_seconds cfg" t s2] by auto
  obtain r1 s1 where 1: "(if api_key' \<noteq> []
                then check_fixed_window (Some rd) (''rl:calls:key:'' @ api_key')
                       (st_rate_limit_calls_per_minute cfg) 60 t' s''
                else (Inr (), s'')) = (r1, s1)" by fastforce
  obtain r2 s3 where 2: "check_fixed_window (Some rd) (''rl:calls:ip:'' @ ip')
      (st_rate_limit_global_per_ip_per_minute cfg) 60 t' s1 = (r2, s3)" by fastforce
  have k1: "look s1 ?k = look s'' ?k"
    using 1 check_fixed_window_other_key [OF assms(1), of "''rl:calls:key:'' @ api_key'" _ _ t' s'' r1 s1 ?k]
    by (auto simp: phone_cooldown_key_def split: if_splits)
  have k2: "look s3 ?k = look s1 ?k"
    using 2 check_fixed_window_other_key [OF assms(1), of "''rl:calls:ip:'' @ ip'" _ _ t' s1 r2 s3 ?k]
    by (auto simp: phone_cooldown_key_def)
  have "live_at (look s3) ?k t' \<noteq> None" using k1 k2 v assms(6,7) by (simp add: live_at_def)
  then have "rd_exists rd ?k t' s3" using redis_exists [OF assms(1)] by blast
  then have cd: "check_cooldown (Some rd) ?k t' s3 = Inl RateLimitError"
    using assms(5) by (simp add: check_cooldown_def)
  have e1: "r1 = Inl e \<Longrightarrow> e = RateLimitError" for e
    using 1 check_fixed_window_error by (auto split: if_splits)
  have e2: "r2 = Inl e \<Longrightarrow> e = RateLimitError" for e
    using 2 check_fixed_window_error by auto
  have "fst (check_call_create cfg (Some rd) t' api_key' phone ip' d' s'')
      = (case r1 of Inl e \<Rightarrow> Inl e | Inr _ \<Rightarrow> (case r2 of Inl e \<Rightarrow> Inl e | Inr _ \<Rightarrow> Inl RateLimitError))"
    unfolding check_call_create_def 1 using assms(2) 2 cd
    by (simp add: Let_def split: sum.split)
  then show ?thesis using e1 e2 by (auto split: sum.split)
qed

theorem phone_cooldown_enforced_witness:
  "\<exists>s'. check_call_create default_settings (Some map_redis) 0 ''k'' ''+7999'' ''ip'' empty_db Map.empty
          = (Inr (), s')
     \<and> fst (check_call_create default_settings (Some map_redis) (seconds 10) [] ''+7999'' ''ip2'' empty_db s')
          = Inl RateLimitError"
proof -
  have en: "st_rate_limit_enabled default_settings" by (simp add: default_settings_def)
  obtain s' where h: "check_call_create default_settings (Some map_redis) 0 ''k'' ''+7999'' ''ip''
      empty_db Map.empty = (Inr (), s')"
    by (simp add: check_call_create_def check_fixed_window_def incr_expire_def check_cooldown_def
        check_phone_daily_cap_def check_max_concurrent_calls_def phone_calls_today_def concurrent_calls_def
        map_redis_def live_at_def default_settings_def empty_db_def phone_cooldown_key_def Let_def)
  have "fst (check_call_create default_settings (Some map_redis) (seconds 10) [] ''+7999'' ''ip2'' empty_db s')
          = Inl RateLimitError"
    by (rule phone_cooldown_enforced [OF map_redis_laws en h])
      (simp_all add: map_redis_def seconds_def default_settings_def)
  with h show ?thesis by blast
qed

end
