(* ===== verification/Routing.thy ===== *)
theory Routing
  imports CallService
begin

text \<open>
  Engine routing: \<open>CallRoutePolicy\<close> of \<open>app/integrations/call_engine/route_policy.py\<close>, the
  dispatcher \<open>RoutingCallEngine\<close> of \<open>router_engine.py\<close> and the no-op \<open>StubEngine\<close> of
  \<open>stub.py\<close>. The dispatcher is itself an engine (\<open>routing_engine\<close> gives an \<^typ>\<open>engine_if\<close>),
  so the call service runs on it; the sub-engines are arguments.

  The lemmas show that a call is afterwards steered and stopped by the engine that placed it,
  that production never places a call through the stub, and where stopping is lost.
\<close>

section \<open>Policy\<close>

record route_policy =
  rp_vapi_available :: bool
  rp_direct_available :: bool
  rp_browser_available :: bool
  rp_allow_vapi_to_direct_fallback :: bool

definition policy_error :: "string \<Rightarrow> app_error" where
  "policy_error msg = EngineError msg None None"

definition select_mode :: "settings \<Rightarrow> route_policy \<Rightarrow> call_mode \<Rightarrow> (app_error, string) result" where
  "select_mode cfg rp mode =
     (if mode = VAPI then
        (if \<not> rp_vapi_available rp
         then Inl (policy_error ''VAPI mode requested but Vapi is not configured.'') else Inr ''vapi'')
      else if mode = DIRECT then
        (if \<not> rp_direct_available rp
         then Inl (policy_error ''DIRECT mode requested but Gemini is not configured.'') else Inr ''direct'')
      else if mode = BROWSER then
        (if \<not> rp_browser_available rp
         then Inl (policy_error ''BROWSER mode requested but browser sandbox is not configured.'')
         else Inr ''browser'')
      else if rp_vapi_available rp then Inr ''vapi''
      else if rp_direct_available rp then Inr ''direct''
      else if is_production cfg
        then Inl (policy_error ''Production mode: no real call engine configured.'')
      else Inr ''stub'')"

definition select_route :: "settings \<Rightarrow> route_policy \<Rightarrow> call \<Rightarrow> (app_error, string) result" where
  "select_route cfg rp call = select_mode cfg rp (c_mode call)"

definition allows_fallback :: "route_policy \<Rightarrow> call \<Rightarrow> string \<Rightarrow> string option" where
  "allows_fallback rp call from_route =
     (if from_route = ''vapi'' \<and> rp_direct_available rp
         \<and> (c_mode call = AUTO \<or> rp_allow_vapi_to_direct_fallback rp)
      then Some ''direct'' else None)"

definition resolve_for_existing_call ::
    "settings \<Rightarrow> route_policy \<Rightarrow> call \<Rightarrow> (app_error, string) result" where
  "resolve_for_existing_call cfg rp call =
     (if truthy (c_route_used call) then Inr (the (c_route_used call))
      else if truthy (c_vapi_call_id call) then Inr ''vapi''
      else if c_mode call = BROWSER \<and> truthy (c_mango_call_id call) then Inr ''browser''
      else if truthy (c_mango_call_id call) then Inr ''direct''
      else select_mode cfg rp (c_mode call))"

section \<open>The dispatcher\<close>

record router =
  ro_vapi :: "engine_if option"
  ro_direct :: "engine_if option"
  ro_browser :: "engine_if option"
  ro_fallback :: engine_if
  ro_policy :: route_policy

text \<open>The policy that the constructor makes when it is given none.\<close>

definition default_policy :: "engine_if option \<Rightarrow> engine_if option \<Rightarrow> engine_if option \<Rightarrow> route_policy" where
  "default_policy vapi direct browser =
     \<lparr>rp_vapi_available = (vapi \<noteq> None), rp_direct_available = (direct \<noteq> None),
      rp_browser_available = (browser \<noteq> None), rp_allow_vapi_to_direct_fallback = True\<rparr>"

definition engine_or :: "engine_if option \<Rightarrow> engine_if \<Rightarrow> engine_if" where
  "engine_or e f = (case e of None \<Rightarrow> f | Some x \<Rightarrow> x)"

definition engine_by_name :: "router \<Rightarrow> string \<Rightarrow> engine_if" where
  "engine_by_name ro route =
     (if route = ''vapi'' then engine_or (ro_vapi ro) (ro_fallback ro)
      else if route = ''direct'' then engine_or (ro_direct ro) (ro_fallback ro)
      else if route = ''browser'' then engine_or (ro_browser ro) (ro_fallback ro)
      else ro_fallback ro)"

definition resolve_new :: "settings \<Rightarrow> router \<Rightarrow> call \<Rightarrow> (app_error, engine_if \<times> string) result" where
  "resolve_new cfg ro call =
     (case select_route cfg (ro_policy ro) call of
        Inl e \<Rightarrow> Inl e
      | Inr route \<Rightarrow> Inr (engine_by_name ro route, route))"

definition resolve_existing :: "settings \<Rightarrow> router \<Rightarrow> call \<Rightarrow> (app_error, engine_if) result" where
  "resolve_existing cfg ro call =
     (case resolve_for_existing_call cfg (ro_policy ro) call of
        Inl e \<Rightarrow> Inl e
      | Inr route \<Rightarrow> Inr (engine_by_name ro route))"

definition guarantee_route :: "string \<Rightarrow> engine_result \<Rightarrow> engine_result" where
  "guarantee_route route res =
     (if r_route_used res = [] \<or> r_route_used res = ''stub''
      then res\<lparr>r_route_used := route\<rparr> else res)"

definition mark_fallback :: "string \<Rightarrow> string \<Rightarrow> string \<Rightarrow> engine_result \<Rightarrow> engine_result" where
  "mark_fallback from_route to_route reason res =
     (let md = (case r_metadata res of None \<Rightarrow> [] | Some d \<Rightarrow> d)
      in res\<lparr>r_route_used := to_route,
             r_metadata := Some (dset md ''fallback''
               (JObj [(''from_route'', JStr from_route), (''reason'', JStr reason)]))\<rparr>)"

text \<open>
  Only an \<open>EngineError\<close> of the primary engine leads to the fallback. Next to the result stand the routes
  whose engines were asked to place the call, in order.
\<close>

definition router_run :: "settings \<Rightarrow> router \<Rightarrow> call \<Rightarrow> (app_error, engine_result) result \<times> string list" where
  "router_run cfg ro call =
     (case resolve_new cfg ro call of
        Inl e \<Rightarrow> (Inl e, [])
      | Inr (primary, route) \<Rightarrow>
          (case en_initiate primary call of
             Inr res \<Rightarrow> (Inr (guarantee_route route res), [route])
           | Inl (EngineError msg stage cid) \<Rightarrow>
               (case allows_fallback (ro_policy ro) call route of
                  None \<Rightarrow> (Inl (EngineError msg stage cid), [route])
                | Some fb \<Rightarrow>
                    (case en_initiate (engine_by_name ro fb) call of
                       Inr res \<Rightarrow> (Inr (mark_fallback route fb msg res), [route, fb])
                     | Inl e \<Rightarrow> (Inl e, [route, fb])))
           | Inl e \<Rightarrow> (Inl e, [route])))"

definition router_initiate :: "settings \<Rightarrow> router \<Rightarrow> call \<Rightarrow> (app_error, engine_result) result" where
  "router_initiate cfg ro call = fst (router_run cfg ro call)"

definition forward_existing ::
    "settings \<Rightarrow> router \<Rightarrow> (engine_if \<Rightarrow> (app_error, 'a) result) \<Rightarrow> call \<Rightarrow> (app_error, 'a) result" where
  "forward_existing cfg ro f call =
     (case resolve_existing cfg ro call of Inl e \<Rightarrow> Inl e | Inr eng \<Rightarrow> f eng)"

definition routing_engine :: "settings \<Rightarrow> router \<Rightarrow> engine_if" where
  "routing_engine cfg ro =
     \<lparr>en_initiate = router_initiate cfg ro,
      en_stop = (\<lambda>call. forward_existing cfg ro (\<lambda>eng. en_stop eng call) call),
      en_instruct = (\<lambda>call txt. forward_existing cfg ro (\<lambda>eng. en_instruct eng call txt) call),
      en_status = (\<lambda>call. forward_existing cfg ro (\<lambda>eng. en_status eng call) call)\<rparr>"

definition stub_engine :: engine_if where
  "stub_engine =
     \<lparr>en_initiate = (\<lambda>call. Inr \<lparr>r_external_id = Some (''stub-'' @ uuid_str (c_id call)),
          r_initial_status = QUEUED, r_route_used = ''stub'', r_telephony_leg_id = None,
          r_metadata = Some [(''engine'', JStr ''stub'')]\<rparr>),
      en_stop = (\<lambda>_. Inr ()), en_instruct = (\<lambda>_ _. Inr ()), en_status = (\<lambda>call. Inr (c_status call))\<rparr>"

definition make_router :: "engine_if option \<Rightarrow> engine_if option \<Rightarrow> engine_if option \<Rightarrow> engine_if \<Rightarrow> router" where
  "make_router vapi direct browser fallback =
     \<lparr>ro_vapi = vapi, ro_direct = direct, ro_browser = browser, ro_fallback = fallback,
      ro_policy = default_policy vapi direct browser\<rparr>"

section \<open>Lemmas\<close>

lemma select_mode_routes:
  "select_mode cfg rp mode = Inr route \<Longrightarrow> route \<in> {''vapi'', ''direct'', ''browser'', ''stub''}"
  by (auto simp: select_mode_def split: if_splits)

lemma apply_engine_result_route:
  "r_route_used res \<noteq> [] \<Longrightarrow> c_route_used (apply_engine_result res call) = Some (r_route_used res)"
  by (simp add: apply_engine_result_def Let_def)

lemma resolve_after_route:
  "r_route_used res \<noteq> [] \<Longrightarrow>
     resolve_existing cfg ro (apply_engine_result res call) = Inr (engine_by_name ro (r_route_used res))"
  by (simp add: resolve_existing_def resolve_for_existing_call_def apply_engine_result_route)

text \<open>What the dispatcher asked: the selected engine, and after its \<open>EngineError\<close> the fallback.\<close>

lemma router_run_cases:
  obtains (refused) e where "select_route cfg (ro_policy ro) call = Inl e" "router_run cfg ro call = (Inl e, [])"
  | (answered) route res0 where "select_route cfg (ro_policy ro) call = Inr route"
      "en_initiate (engine_by_name ro route) call = Inr res0"
      "router_run cfg ro call = (Inr (guarantee_route route res0), [route])"
  | (failed) route e where "select_route cfg (ro_policy ro) call = Inr route"
      "en_initiate (engine_by_name ro route) call = Inl e" "router_run cfg ro call = (Inl e, [route])"
  | (fallback) msg stage cid r where "select_route cfg (ro_policy ro) call = Inr ''vapi''"
      "en_initiate (engine_by_name ro ''vapi'') call = Inl (EngineError msg stage cid)"
      "rp_direct_available (ro_policy ro)" "en_initiate (engine_by_name ro ''direct'') call = r"
      "router_run cfg ro call
        = (case r of Inr res \<Rightarrow> Inr (mark_fallback ''vapi'' ''direct'' msg res) | Inl e \<Rightarrow> Inl e, [''vapi'', ''direct''])"
proof (cases "select_route cfg (ro_policy ro) call")
  case (Inl e)
  then show ?thesis using refused by (simp add: router_run_def resolve_new_def)
next
  case sel: (Inr route)
  show ?thesis
  proof (cases "en_initiate (engine_by_name ro route) call")
    case (Inr res0)
    with sel answered show ?thesis by (simp add: router_run_def resolve_new_def)
  next
    case (Inl e)
    show ?thesis
    proof (cases "(\<exists>msg stage cid. e = EngineError msg stage cid) \<and> allows_fallback (ro_policy ro) call route \<noteq> None")
      case True
      then obtain msg stage cid where e: "e = EngineError msg stage cid" by blast
      from True have "route = ''vapi''" "allows_fallback (ro_policy ro) call route = Some ''direct''"
        "rp_direct_available (ro_policy ro)"
        by (auto simp: allows_fallback_def split: if_splits)
      with sel Inl e fallback show ?thesis by (auto simp: router_run_def resolve_new_def split: sum.splits)
    next
      case False
      with sel Inl failed show ?thesis
        by (cases e) (auto simp: router_run_def resolve_new_def)
    qed
  qed
qed

text \<open>
  C16. A call stays with the engine that placed it. If the dispatcher places a call and each engine
  reports its own route (or none), then the last engine it asked answered, and once the answer is stored
  on the call, stopping, steering and polling it go to exactly that engine, under any settings and
  whatever the mode of the call. It asked the engine that the policy selects and no other, or, after an
  \<open>EngineError\<close> of Vapi, Vapi and then the direct one.
\<close>

theorem call_stays_with_its_engine:
  assumes "router_run cfg ro call = (Inr res, asked)"
    and "\<And>route res0. en_initiate (engine_by_name ro route) call = Inr res0
           \<Longrightarrow> r_route_used res0 \<in> {[], ''stub'', route}"
  shows "\<exists>route eng. route \<in> {''vapi'', ''direct'', ''browser'', ''stub''}
    \<and> eng = engine_by_name ro route \<and> is_ok (en_initiate eng call) \<and> r_route_used res = route
    \<and> resolve_existing cfg' ro (apply_engine_result res call) = Inr eng
    \<and> (select_route cfg (ro_policy ro) call = Inr route \<and> asked = [route]
       \<or> select_route cfg (ro_policy ro) call = Inr ''vapi'' \<and> route = ''direct'' \<and> asked = [''vapi'', ''direct'']
         \<and> (\<exists>msg stage cid. en_initiate (engine_by_name ro ''vapi'') call = Inl (EngineError msg stage cid)))"
proof (cases rule: router_run_cases [of cfg ro call])
  case (answered route res0)
  then have known: "route \<in> {''vapi'', ''direct'', ''browser'', ''stub''}"
    using select_mode_routes by (auto simp: select_route_def)
  have "r_route_used res0 \<in> {[], ''stub'', route}" using assms(2) answered(2) by blast
  then have "r_route_used res = route" using known answered(3) assms(1) by (auto simp: guarantee_route_def)
  moreover have "resolve_existing cfg' ro (apply_engine_result res call) = Inr (engine_by_name ro route)"
    using calculation known resolve_after_route [of res cfg' ro call] by auto
  ultimately show ?thesis using known answered assms(1) by (intro exI [of _ route]) auto
next
  case (fallback msg stage cid r)
  then obtain res1 where r: "r = Inr res1" "res = mark_fallback ''vapi'' ''direct'' msg res1" "asked = [''vapi'', ''direct'']"
    using assms(1) by (cases r) auto
  then have "r_route_used res = ''direct''" by (simp add: mark_fallback_def Let_def)
  with fallback r resolve_after_route [of res cfg' ro call] show ?thesis
    by (intro exI [of _ "''direct''"]) auto
qed (use assms(1) in simp_all)

text \<open>An engine that fails to dial and one that answers, for concrete runs.\<close>

definition demo_failing :: engine_if where
  "demo_failing = demo_engine\<lparr>en_initiate := (\<lambda>_. Inl (EngineError ''402'' None None))\<rparr>"

definition demo_direct :: engine_if where
  "demo_direct = demo_engine\<lparr>en_initiate := (\<lambda>_. Inr \<lparr>r_external_id = Some ''d1'',
     r_initial_status = QUEUED, r_route_used = ''direct'', r_telephony_leg_id = None,
     r_metadata = None\<rparr>)\<rparr>"

definition demo_call :: call where
  "demo_call = new_call demo_env ''+7999'' AUTO None None"

theorem call_stays_with_its_engine_witness:
  "\<exists>res route. router_run default_settings
       (make_router (Some demo_failing) (Some demo_direct) None demo_failing) demo_call = (Inr res, [''vapi'', ''direct''])
     \<and> resolve_existing default_settings
       (make_router (Some demo_failing) (Some demo_direct) None demo_failing)
       (apply_engine_result res demo_call)
       = Inr (engine_by_name (make_router (Some demo_failing) (Some demo_direct) None demo_failing) route)"
proof -
  let ?ro = "make_router (Some demo_failing) (Some demo_direct) None demo_failing"
  obtain res where r: "router_run default_settings ?ro demo_call = (Inr res, [''vapi'', ''direct''])"
    by (simp add: router_run_def resolve_new_def select_route_def select_mode_def
        make_router_def default_policy_def engine_by_name_def engine_or_def allows_fallback_def
        demo_failing_def demo_direct_def demo_call_def)
  have h: "r_route_used res0 \<in> {[], ''stub'', route}"
    if "en_initiate (engine_by_name ?ro route) demo_call = Inr res0" for route res0
    using that
    by (auto simp: engine_by_name_def engine_or_def make_router_def demo_failing_def demo_direct_def
        split: if_splits)
  from call_stays_with_its_engine [OF r h, of default_settings] r show ?thesis by blast
qed

text \<open>
  C17. Production never places a call through the stub. With the default policy and the production
  environment, every engine that the dispatcher asks to place a call, the fallback included, is a
  configured one, under the route name of its kind, whatever the engine for the rest is. When there is
  none for the mode asked for, no engine is asked and the call is refused with an \<open>EngineError\<close>.
\<close>

theorem production_uses_real_engine:
  assumes "is_production cfg"
  shows "let ro = make_router vapi direct browser fallback; (r, asked) = router_run cfg ro call in
     (\<forall>route\<in>set asked. (route, Some (engine_by_name ro route))
        \<in> {(''vapi'', vapi), (''direct'', direct), (''browser'', browser)})
     \<and> ((case c_mode call of VAPI \<Rightarrow> vapi = None | DIRECT \<Rightarrow> direct = None | BROWSER \<Rightarrow> browser = None
         | AUTO \<Rightarrow> vapi = None \<and> direct = None)
        \<longleftrightarrow> asked = [])
     \<and> (asked = [] \<longrightarrow> (\<exists>msg. r = Inl (EngineError msg None None)))"
proof -
  let ?ro = "make_router vapi direct browser fallback"
  let ?none = "case c_mode call of VAPI \<Rightarrow> vapi = None | DIRECT \<Rightarrow> direct = None | BROWSER \<Rightarrow> browser = None
     | AUTO \<Rightarrow> vapi = None \<and> direct = None"
  have sel: "case select_route cfg (ro_policy ?ro) call of
       Inr route \<Rightarrow> \<not> ?none \<and> (route, Some (engine_by_name ?ro route))
         \<in> {(''vapi'', vapi), (''direct'', direct), (''browser'', browser)}
     | Inl e \<Rightarrow> ?none \<and> (\<exists>msg. e = EngineError msg None None)"
    using assms
    by (cases "c_mode call") (auto simp: select_route_def select_mode_def make_router_def default_policy_def
        engine_by_name_def engine_or_def policy_error_def)
  have fb: "rp_direct_available (ro_policy ?ro) \<Longrightarrow> Some (engine_by_name ?ro ''direct'') = direct"
    by (auto simp: make_router_def default_policy_def engine_by_name_def engine_or_def)
  show ?thesis
    by (cases rule: router_run_cases [of cfg ?ro call]) (use sel fb in \<open>auto simp: Let_def\<close>)
qed

theorem production_uses_real_engine_witness:
  "snd (router_run (default_settings\<lparr>st_environment := ''production''\<rparr>)
       (make_router None None (Some demo_direct) stub_engine) demo_call) = []"
proof -
  have p: "is_production (default_settings\<lparr>st_environment := ''production''\<rparr>)"
    by (simp add: is_production_def)
  have "c_mode demo_call = AUTO" by (simp add: demo_call_def)
  with production_uses_real_engine [OF p, of None None "Some demo_direct" stub_engine demo_call]
  show ?thesis by (auto simp: Let_def)
qed

text \<open>
  A production system without any engine refuses the calls that are left to the policy, although the
  comment of the policy lists the stub as its last choice, always available, also in a system that is
  not configured at all.
\<close>

lemma production_has_no_last_choice:
  assumes "is_production cfg" "c_mode call = AUTO"
  shows "\<exists>msg. router_run cfg (make_router None None browser stub_engine) call = (Inl (EngineError msg None None), [])"
  using assms
  by (simp add: router_run_def resolve_new_def select_route_def select_mode_def make_router_def default_policy_def
      policy_error_def)

text \<open>
  Stopping through an engine that is no longer configured: the dispatcher falls back to the stub,
  whose stop succeeds, so the service records the call as stopped although no engine was told.
\<close>

lemma stop_lost_in_stub:
  assumes "get_call_row cid (w_db w) = Some c" "c_route_used c = Some ''vapi''" "\<not> is_terminal c"
  shows "\<exists>c' w'. stop_call now (routing_engine cfg (make_router None direct browser stub_engine)) cid actor w
           = (Inr c', w') \<and> c_status c' = STOPPED \<and> get_call_row cid (w_db w') = Some c'"
proof -
  have "c_id c = cid" using assms(1) by (rule call_rows.get_key)
  then show ?thesis
    using assms
    by (simp add: stop_call_def get_call_def routing_engine_def forward_existing_def
        resolve_existing_def resolve_for_existing_call_def engine_by_name_def engine_or_def
        make_router_def stub_engine_def is_terminal_def Let_def)
qed

end
