(* ===== verification/Requests.thy ===== *)
theory Requests
  imports Transfers RateLimit Routing
begin

text \<open>
  The unit of work of an API request: \<open>get_db\<close> of \<open>app/db/session.py\<close>, the dependency that
  opens the session a handler's services share. It commits when the handler returns and rolls
  back when an exception leaves it. What a service wrote before raising is therefore not stored
  by a request that fails; what it asked of an engine has happened all the same.

  A request to place a call is admitted by the abuse policy and placed later, after the engine has
  answered and the transaction is committed; other requests run in between. \<open>api_create_call\<close> is the
  request that runs alone, \<open>api_step\<close> the interleaving of many, at these two points.
\<close>

definition db_session ::
    "('w \<Rightarrow> db) \<Rightarrow> (db \<Rightarrow> 'w \<Rightarrow> 'w) \<Rightarrow> ('w \<Rightarrow> (app_error, 'a) result \<times> 'w)
     \<Rightarrow> 'w \<Rightarrow> (app_error, 'a) result \<times> 'w" where
  "db_session get_db set_db handler w =
     (case handler w of
        (Inr x, w') \<Rightarrow> (Inr x, w')
      | (Inl e, w') \<Rightarrow> (Inl e, set_db (get_db w) w'))"

definition create_call_request ::
    "settings \<Rightarrow> call_env \<Rightarrow> engine_if \<Rightarrow> string \<Rightarrow> call_mode \<Rightarrow> string \<Rightarrow> uuid option
     \<Rightarrow> json option \<Rightarrow> bool \<Rightarrow> world \<Rightarrow> (app_error, call) result \<times> world" where
  "create_call_request cfg env eng raw mode actor g ctx skip =
     db_session w_db (\<lambda>d w. w\<lparr>w_db := d\<rparr>) (create_call cfg env eng raw mode actor g ctx skip)"

text \<open>
  What a request to place a call leaves behind. If it succeeds, the returned call is stored
  in the engine's initial status. If it fails, the database is as before, also when the engine
  was asked to dial: the \<open>FAILED\<close> row and its audit events, which the service writes, do not
  outlive the rollback, although the error that the client gets names the call's id.
\<close>

theorem create_call_request_outcome:
  "case create_call_request cfg env eng raw mode actor g ctx skip w of
     (Inr c, w') \<Rightarrow> get_call_row (ce_new_id env) (w_db w') = Some c
   | (Inl e, w') \<Rightarrow> w_db w' = w_db w
       \<and> (if is_ok (precheck cfg env raw mode g skip (w_db w))
          then w_ops w' = w_ops w @ [OpInitiate (ce_new_id env)]
             \<and> (\<exists>msg stage. e = EngineError msg stage (Some (ce_new_id env)))
          else w_ops w' = w_ops w)"
proof (cases "precheck cfg env raw mode g skip (w_db w)")
  case (Inl e)
  then show ?thesis by (simp add: create_call_request_def db_session_def create_call_def)
next
  case (Inr phone)
  show ?thesis
  proof (cases "en_initiate eng (new_call env phone mode g ctx)")
    case (Inl exc)
    have "\<exists>msg stage. wrap_engine_error (ce_new_id env) exc = EngineError msg stage (Some (ce_new_id env))"
      by (cases exc) (auto simp: wrap_engine_error_def)
    with Inl Inr show ?thesis
      by (simp add: create_call_request_def db_session_def create_call_def fail_created_def Let_def)
  next
    case (Inr res)
    with \<open>precheck cfg env raw mode g skip (w_db w) = Inr phone\<close> show ?thesis
      by (simp add: create_call_request_def db_session_def create_call_def Let_def)
  qed
qed

text \<open>
  The handler \<open>create_call\<close> of \<open>app/api/v1/calls.py\<close>, after authentication: an agent given by
  name is looked up among the active ones, the abuse policy sees the phone as it was sent, then the
  service runs. Redis keeps what the policy wrote also when the request fails.
\<close>

definition find_agent_by_name :: "string \<Rightarrow> db \<Rightarrow> agent_profile option" where
  "find_agent_by_name name d = find (\<lambda>a. g_name a = name \<and> g_is_active a) (agents d)"

definition request_agent :: "uuid option \<Rightarrow> string option \<Rightarrow> db \<Rightarrow> (app_error, uuid option) result" where
  "request_agent agent_profile_id agent_name d =
     (if truthy agent_name
      then (case find_agent_by_name (the agent_name) d of
              None \<Rightarrow> Inl (OtherError ''agent_not_found'')
            | Some agent \<Rightarrow> Inr (Some (g_id agent)))
      else Inr agent_profile_id)"

definition request_context :: "string option \<Rightarrow> json option" where
  "request_context voice_strategy_override =
     (if truthy voice_strategy_override
      then Some (JObj [(''voice_strategy_override'', JStr (the voice_strategy_override))]) else None)"

record create_body =
  b_phone :: string
  b_mode :: call_mode
  b_agent_profile_id :: "uuid option"
  b_agent_name :: "string option"
  b_voice_strategy_override :: "string option"

text \<open>What runs before the service, and the request as a whole.\<close>

definition api_admit ::
    "settings \<Rightarrow> 's redis_if option \<Rightarrow> string \<Rightarrow> string \<Rightarrow> time \<Rightarrow> create_body \<Rightarrow> db \<Rightarrow> 's
     \<Rightarrow> (app_error, uuid option) result \<times> 's" where
  "api_admit cfg redis api_key ip now body d s =
     (case request_agent (b_agent_profile_id body) (b_agent_name body) d of
        Inl e \<Rightarrow> (Inl e, s)
      | Inr g \<Rightarrow>
          (let (r, s') = check_call_create cfg redis now api_key (b_phone body) ip d s
           in (case r of Inl e \<Rightarrow> Inl e | Inr _ \<Rightarrow> Inr g, s')))"

definition api_place ::
    "settings \<Rightarrow> call_env \<Rightarrow> engine_if \<Rightarrow> create_body \<Rightarrow> uuid option \<Rightarrow> world \<Rightarrow> (app_error, call) result \<times> world" where
  "api_place cfg env eng body g w =
     create_call_request cfg env eng (b_phone body) (b_mode body) ''system'' g
       (request_context (b_voice_strategy_override body)) False w"

definition api_create_call ::
    "settings \<Rightarrow> 's redis_if option \<Rightarrow> string \<Rightarrow> string \<Rightarrow> call_env \<Rightarrow> engine_if \<Rightarrow> create_body
     \<Rightarrow> world \<times> 's \<Rightarrow> (app_error, call) result \<times> world \<times> 's" where
  "api_create_call cfg redis api_key ip env eng body ws =
     (let (w, s) = ws in
      case api_admit cfg redis api_key ip (ce_now env) body (w_db w) s of
        (Inl e, s') \<Rightarrow> (Inl e, w, s')
      | (Inr g, s') \<Rightarrow> (let (res, w') = api_place cfg env eng body g w in (res, w', s')))"

section \<open>Concurrent requests\<close>

text \<open>
  The commit of a request that read the world \<open>w0\<close> and left \<open>w0'\<close>: its rows are added to what is
  stored by then. The requests in flight that were admitted are waiting for their engine or commit.
\<close>

definition commit_rows :: "world \<Rightarrow> world \<Rightarrow> world \<Rightarrow> world" where
  "commit_rows w0 w0' w =
     w\<lparr>w_db := (w_db w)\<lparr>calls := calls (w_db w) @ drop (length (calls (w_db w0))) (calls (w_db w0')),
                        audits := audits (w_db w) @ drop (length (audits (w_db w0))) (audits (w_db w0'))\<rparr>,
       w_ops := w_ops w @ drop (length (w_ops w0)) (w_ops w0')\<rparr>"

record 's api_state =
  ap_world :: world
  ap_redis :: 's
  ap_admitted :: "(create_body \<times> uuid option) list"

text \<open>
  At most \<open>n\<close> requests are in flight at once. What a request reads after its admission is arbitrary
  (\<open>seen\<close>, without its own new id), and other operations may do anything but add calls under way.
\<close>

inductive api_step :: "settings \<Rightarrow> 's redis_if option \<Rightarrow> nat \<Rightarrow> 's api_state \<Rightarrow> 's api_state \<Rightarrow> bool"
  for cfg :: settings and redis :: "'s redis_if option" and n :: nat where
  as_admit: "api_admit cfg redis api_key ip now body (w_db (ap_world x)) (ap_redis x) = (Inr g, s')
    \<Longrightarrow> length (ap_admitted x) < n
    \<Longrightarrow> api_step cfg redis n x (x\<lparr>ap_redis := s', ap_admitted := ap_admitted x @ [(body, g)]\<rparr>)"
| as_refuse: "api_admit cfg redis api_key ip now body (w_db (ap_world x)) (ap_redis x) = (Inl e, s')
    \<Longrightarrow> api_step cfg redis n x (x\<lparr>ap_redis := s'\<rparr>)"
| as_place: "ap_admitted x = before @ (body, g) # after
    \<Longrightarrow> get_call_row (ce_new_id env) (w_db seen) = None
    \<Longrightarrow> api_place cfg env eng body g seen = (r, left)
    \<Longrightarrow> api_step cfg redis n x (x\<lparr>ap_world := commit_rows seen left (ap_world x), ap_admitted := before @ after\<rparr>)"
| as_other: "concurrent_calls (w_db w') \<le> concurrent_calls (w_db (ap_world x))
    \<Longrightarrow> api_step cfg redis n x (x\<lparr>ap_world := w', ap_redis := s'\<rparr>)"

lemma api_admit_below:
  assumes "st_rate_limit_enabled cfg" "api_admit cfg redis api_key ip now body d s = (Inr g, s')"
  shows "concurrent_calls d < st_rate_limit_max_concurrent_calls cfg"
  using assms database_caps_always_hold [OF assms(1), where redis = redis and now = now and api_key = api_key
      and phone = "b_phone body" and ip = ip and d = d and s = s]
  by (auto simp: api_admit_def split: sum.splits prod.splits)

lemma api_place_calls:
  assumes "api_place cfg env eng body g w = (r, w')" "get_call_row (ce_new_id env) (w_db w) = None"
  shows "calls (w_db w') = calls (w_db w) @ (case r of Inl e \<Rightarrow> [] | Inr c \<Rightarrow> [c])"
proof (cases r)
  case (Inl e)
  with assms(1) create_call_request_outcome [where cfg = cfg and env = env and eng = eng
      and raw = "b_phone body" and mode = "b_mode body" and actor = "''system''" and g = g
      and ctx = "request_context (b_voice_strategy_override body)" and skip = False and w = w]
  show ?thesis by (simp add: api_place_def)
next
  case (Inr c)
  with assms(1) have "create_call cfg env eng (b_phone body) (b_mode body) ''system'' g
      (request_context (b_voice_strategy_override body)) False w = (Inr c, w')"
    by (auto simp: api_place_def create_call_request_def db_session_def split: prod.splits sum.splits)
  from create_call_calls [OF this assms(2)] Inr show ?thesis by simp
qed

text \<open>A request adds at most one call under way, whatever it read.\<close>

lemma commit_adds_one:
  assumes "api_place cfg env eng body g w0 = (r, w0')" "get_call_row (ce_new_id env) (w_db w0) = None"
  shows "concurrent_calls (w_db (commit_rows w0 w0' w)) \<le> concurrent_calls (w_db w) + 1"
  using api_place_calls [OF assms]
  by (cases r) (simp_all add: commit_rows_def concurrent_calls_def)

definition places_taken :: "'s api_state \<Rightarrow> int" where
  "places_taken x = concurrent_calls (w_db (ap_world x)) + int (length (ap_admitted x))"

lemma api_step_bounded:
  assumes "api_step cfg redis n x x'" "st_rate_limit_enabled cfg"
    and "places_taken x \<le> st_rate_limit_max_concurrent_calls cfg + int (n - 1)"
  shows "places_taken x' \<le> st_rate_limit_max_concurrent_calls cfg + int (n - 1)"
  using assms(1)
proof cases
  case (as_admit api_key ip now body g s')
  with api_admit_below [OF assms(2) as_admit(2)] show ?thesis by (simp add: places_taken_def)
next
  case (as_place before body g after env w0 eng r w0')
  with commit_adds_one [OF as_place(4,3), of "ap_world x"] assms(3) show ?thesis
    by (simp add: places_taken_def)
qed (use assms(3) in \<open>simp_all add: places_taken_def\<close>)

text \<open>
  C8. Admission bounds the calls under way, also between concurrent requests. With rate limiting on and
  Redis in any condition, let requests to place calls be admitted and placed in any interleaving, at most
  \<open>n\<close> of them between admission and commit at once, with anything else going on that adds no calls. The
  calls under way, together with those already admitted, never exceed the configured maximum by more
  than \<open>n - 1\<close>: requests served one at a time keep the maximum, concurrent ones that all saw a free place
  may pass it by as many as they are, less one.
\<close>

theorem api_keeps_capacity:
  assumes "(api_step cfg redis n)\<^sup>*\<^sup>* x x'" "st_rate_limit_enabled cfg"
    and "ap_admitted x = []" "concurrent_calls (w_db (ap_world x)) \<le> st_rate_limit_max_concurrent_calls cfg"
  shows "concurrent_calls (w_db (ap_world x')) + int (length (ap_admitted x'))
    \<le> st_rate_limit_max_concurrent_calls cfg + int (n - 1)"
proof -
  have "places_taken x' \<le> st_rate_limit_max_concurrent_calls cfg + int (n - 1)"
    using assms(1)
  proof (induction rule: rtranclp_induct)
    case base
    with assms(3,4) show ?case by (simp add: places_taken_def)
  next
    case (step y z)
    with api_step_bounded [OF step.hyps(2) assms(2)] show ?case by simp
  qed
  then show ?thesis by (simp add: places_taken_def)
qed

definition demo_body :: create_body where
  "demo_body = \<lparr>b_phone = ''+79991234567'', b_mode = VAPI, b_agent_profile_id = None,
     b_agent_name = None, b_voice_strategy_override = Some ''gemini_primary''\<rparr>"

text \<open>Two requests with room for one call: both are admitted, and both calls are placed.\<close>

definition one_call_settings :: settings where
  "one_call_settings = default_settings\<lparr>st_rate_limit_max_concurrent_calls := 1\<rparr>"

definition demo_api_state :: "unit api_state" where
  "demo_api_state = \<lparr>ap_world = \<lparr>w_db = empty_db, w_ops = []\<rparr>, ap_redis = (), ap_admitted = []\<rparr>"

definition other_body :: create_body where
  "other_body = demo_body\<lparr>b_phone := ''+79997654321''\<rparr>"

definition other_env :: call_env where
  "other_env = demo_env\<lparr>ce_new_id := 6\<rparr>"

definition demo_overshoot :: world where
  "demo_overshoot =
     (let w = \<lparr>w_db = empty_db, w_ops = []\<rparr>;
          w1 = snd (api_place one_call_settings demo_env demo_engine demo_body None w);
          w2 = snd (api_place one_call_settings other_env demo_engine other_body None w)
      in commit_rows w w2 (commit_rows w w1 w))"

lemma concurrent_requests_overshoot:
  shows "(api_step one_call_settings None 2)\<^sup>*\<^sup>* demo_api_state (demo_api_state\<lparr>ap_world := demo_overshoot\<rparr>)"
    and "concurrent_calls (w_db demo_overshoot) = 2"
proof -
  let ?cfg = one_call_settings and ?x = demo_api_state
  let ?w = "\<lparr>w_db = empty_db, w_ops = []\<rparr>"
  let ?w1 = "snd (api_place ?cfg demo_env demo_engine demo_body None ?w)"
  let ?w2 = "snd (api_place ?cfg other_env demo_engine other_body None ?w)"
  let ?x1 = "?x\<lparr>ap_redis := (), ap_admitted := ap_admitted ?x @ [(demo_body, None)]\<rparr>"
  let ?x2 = "?x1\<lparr>ap_redis := (), ap_admitted := ap_admitted ?x1 @ [(other_body, None)]\<rparr>"
  let ?x3 = "?x2\<lparr>ap_world := commit_rows ?w ?w1 (ap_world ?x2), ap_admitted := [] @ [(other_body, None)]\<rparr>"
  let ?x4 = "?x3\<lparr>ap_world := commit_rows ?w ?w2 (ap_world ?x3), ap_admitted := [] @ []\<rparr>"
  have admitted: "api_admit ?cfg None ''key'' ''ip'' 0 body empty_db () = (Inr None, ())"
    if "body = demo_body \<or> body = other_body" for body
    using that by (elim disjE) (simp_all, code_simp+)
  have fresh: "get_call_row i empty_db = None" for i by (simp add: get_call_row_def empty_db_def)
  have s1: "api_step ?cfg None 2 ?x ?x1"
    by (rule api_step.as_admit [where api_key = "''key''" and ip = "''ip''" and now = 0])
       (simp_all add: admitted demo_api_state_def)
  have s2: "api_step ?cfg None 2 ?x1 ?x2"
    by (rule api_step.as_admit [where api_key = "''key''" and ip = "''ip''" and now = 0])
       (simp_all add: admitted demo_api_state_def)
  have s3: "api_step ?cfg None 2 ?x2 ?x3"
    by (rule api_step.as_place [where before = "[]" and after = "[(other_body, None)]" and g = None and body = demo_body
          and seen = "?w" and env = demo_env and eng = demo_engine and r = "fst (api_place ?cfg demo_env demo_engine demo_body None ?w)"])
       (simp_all add: demo_api_state_def fresh)
  have s4: "api_step ?cfg None 2 ?x3 ?x4"
    by (rule api_step.as_place [where before = "[]" and after = "[]" and g = None and body = other_body
          and seen = "?w" and env = other_env and eng = demo_engine and r = "fst (api_place ?cfg other_env demo_engine other_body None ?w)"])
       (simp_all add: demo_api_state_def fresh)
  have "(api_step ?cfg None 2)\<^sup>*\<^sup>* ?x ?x1" using s1 by (rule r_into_rtranclp [where r = "api_step ?cfg None 2"])
  from this s2 have "(api_step ?cfg None 2)\<^sup>*\<^sup>* ?x ?x2" by (rule rtranclp.rtrancl_into_rtrancl [where r = "api_step ?cfg None 2"])
  from this s3 have "(api_step ?cfg None 2)\<^sup>*\<^sup>* ?x ?x3" by (rule rtranclp.rtrancl_into_rtrancl [where r = "api_step ?cfg None 2"])
  from this s4 have "(api_step ?cfg None 2)\<^sup>*\<^sup>* ?x ?x4" by (rule rtranclp.rtrancl_into_rtrancl [where r = "api_step ?cfg None 2"])
  moreover have "?x4 = ?x\<lparr>ap_world := demo_overshoot\<rparr>"
    by (simp add: demo_api_state_def demo_overshoot_def Let_def)
  ultimately show "(api_step ?cfg None 2)\<^sup>*\<^sup>* ?x (?x\<lparr>ap_world := demo_overshoot\<rparr>)"
    by (simp only:)
  show "concurrent_calls (w_db demo_overshoot) = 2" by code_simp
qed

theorem api_keeps_capacity_witness:
  "concurrent_calls (w_db demo_overshoot) \<le> 2 \<and> concurrent_calls (w_db demo_overshoot) = 2"
proof -
  have "st_rate_limit_enabled one_call_settings" by (simp add: one_call_settings_def default_settings_def)
  moreover have "ap_admitted demo_api_state = []"
    "concurrent_calls (w_db (ap_world demo_api_state)) \<le> st_rate_limit_max_concurrent_calls one_call_settings"
    by (simp_all add: demo_api_state_def concurrent_calls_def empty_db_def one_call_settings_def default_settings_def)
  ultimately have "concurrent_calls (w_db (ap_world (demo_api_state\<lparr>ap_world := demo_overshoot\<rparr>)))
      + int (length (ap_admitted (demo_api_state\<lparr>ap_world := demo_overshoot\<rparr>)))
      \<le> st_rate_limit_max_concurrent_calls one_call_settings + int (2 - 1)"
    by (rule api_keeps_capacity [OF concurrent_requests_overshoot(1)])
  then have "concurrent_calls (w_db demo_overshoot) \<le> 2"
    by (simp add: demo_api_state_def one_call_settings_def default_settings_def)
  with concurrent_requests_overshoot(2) show ?thesis by simp
qed

text \<open>
  The daily cap counts the phone as the client wrote it, while stored calls carry the normalised
  number: written in another form, a number that reached its cap is admitted.
\<close>

lemma daily_cap_missed_for_local_format:
  "let d = empty_db\<lparr>calls := map (\<lambda>i. demo_call\<lparr>c_id := i, c_phone := ''+79991234567'', c_status := COMPLETED\<rparr>)
                                 [1, 2, 3, 4, 5]\<rparr>
   in check_phone_daily_cap default_settings 0 ''+79991234567'' d = Inl RateLimitError
    \<and> check_phone_daily_cap default_settings 0 ''89991234567'' d = Inr ()"
  by (simp add: check_phone_daily_cap_def phone_calls_today_def default_settings_def empty_db_def
      day_start_def seconds_def demo_call_def new_call_def demo_env_def)

end
