(* ===== verification/LegStore.thy ===== *)
theory LegStore
  imports PyText
begin

text \<open>
  Telephony legs: \<open>TelephonyLegState\<close> of \<open>app/integrations/telephony/base.py\<close> and the leg
  state store of \<open>app/integrations/telephony/mango_state_store.py\<close> with its in-memory
  implementation. A leg's entry keeps the state as the string value that is stored, as the code
  does; timestamps are instants.

  The three \<open>wait_for_*\<close> loops of the abstract store are written over the store's operations,
  so they are parametric in them here too (\<open>rd\<close>, \<open>wr\<close>). A loop runs over a list of ticks,
  one per iteration: the clock at the loop test, what other tasks did to the store since the
  last tick, and the polling fallback, which may itself write to the store. \<open>Pending\<close> means that the list ended before
  the loop did; a bound on the number of ticks is a theorem.

  The locale \<open>leg_state_store\<close> is the contract of a store; \<open>memory_legs\<close> interprets it.
\<close>

section \<open>Leg states\<close>

datatype leg_state =
    Leg_INITIATING
  | Leg_RINGING
  | Leg_ANSWERED
  | Leg_BRIDGED
  | Leg_TERMINATING
  | Leg_TERMINATED
  | Leg_FAILED

fun leg_value :: "leg_state \<Rightarrow> string" where
  "leg_value Leg_INITIATING = ''initiating''"
| "leg_value Leg_RINGING = ''ringing''"
| "leg_value Leg_ANSWERED = ''answered''"
| "leg_value Leg_BRIDGED = ''bridged''"
| "leg_value Leg_TERMINATING = ''terminating''"
| "leg_value Leg_TERMINATED = ''terminated''"
| "leg_value Leg_FAILED = ''failed''"

definition all_leg_states :: "leg_state list" where
  "all_leg_states = [Leg_INITIATING, Leg_RINGING, Leg_ANSWERED, Leg_BRIDGED, Leg_TERMINATING,
     Leg_TERMINATED, Leg_FAILED]"

text \<open>\<open>TelephonyLegState(raw)\<close>; \<open>None\<close> is its \<open>ValueError\<close>.\<close>

definition leg_state_of :: "string \<Rightarrow> leg_state option" where
  "leg_state_of raw = find (\<lambda>s. leg_value s = raw) all_leg_states"

lemma leg_state_of_value [simp]: "leg_state_of (leg_value s) = Some s"
  by (cases s) (simp_all add: leg_state_of_def all_leg_states_def)

section \<open>The in-memory store\<close>

record leg_entry =
  le_state :: string
  le_updated_at :: time
  le_call_id :: "string option"
  le_transfer_id :: "string option"
  le_role :: "string option"
  le_raw_event :: "json option"

record leg_snapshot =
  ls_leg_id :: string
  ls_state :: leg_state
  ls_updated_at :: time
  ls_call_id :: "string option"
  ls_transfer_id :: "string option"
  ls_role :: "string option"
  ls_raw_event :: "json option"

record leg_store =
  legs :: "string \<rightharpoonup> leg_entry"
  bridge_ops :: "string \<rightharpoonup> string"
  whisper_ops :: "string \<rightharpoonup> string"
  seen_events :: "string set"

definition empty_leg_store :: leg_store where
  "empty_leg_store =
     \<lparr>legs = Map.empty, bridge_ops = Map.empty, whisper_ops = Map.empty, seen_events = {}\<rparr>"

definition snapshot_from_dict :: "string \<Rightarrow> leg_entry \<Rightarrow> leg_snapshot" where
  "snapshot_from_dict leg e =
     \<lparr>ls_leg_id = leg,
      ls_state = (case leg_state_of (le_state e) of Some s \<Rightarrow> s | None \<Rightarrow> Leg_FAILED),
      ls_updated_at = le_updated_at e, ls_call_id = le_call_id e,
      ls_transfer_id = le_transfer_id e, ls_role = le_role e,
      ls_raw_event = (case le_raw_event e of Some (JObj d) \<Rightarrow> Some (JObj d) | _ \<Rightarrow> None)\<rparr>"

text \<open>\<open>x if x is not None else current\<close>\<close>

definition keep :: "'a option \<Rightarrow> 'a option \<Rightarrow> 'a option" where
  "keep new old = (case new of None \<Rightarrow> old | Some _ \<Rightarrow> new)"

definition set_leg_state ::
    "time \<Rightarrow> string \<Rightarrow> leg_state \<Rightarrow> string option \<Rightarrow> string option \<Rightarrow> string option \<Rightarrow> json option
     \<Rightarrow> leg_store \<Rightarrow> leg_snapshot \<times> leg_store" where
  "set_leg_state now leg state call_id transfer_id role raw_event s =
     (let old = (\<lambda>f. case legs s leg of None \<Rightarrow> None | Some e \<Rightarrow> f e);
          e = \<lparr>le_state = leg_value state, le_updated_at = now,
               le_call_id = keep call_id (old le_call_id),
               le_transfer_id = keep transfer_id (old le_transfer_id),
               le_role = keep role (old le_role),
               le_raw_event = (case raw_event of
                                 Some r \<Rightarrow> Some r
                               | None \<Rightarrow> (case legs s leg of None \<Rightarrow> None | Some e \<Rightarrow> le_raw_event e))\<rparr>
      in (snapshot_from_dict leg e, s\<lparr>legs := (legs s)(leg \<mapsto> e)\<rparr>))"

definition get_leg_state :: "string \<Rightarrow> leg_store \<Rightarrow> leg_snapshot option" where
  "get_leg_state leg s =
     (case legs s leg of None \<Rightarrow> None | Some e \<Rightarrow> Some (snapshot_from_dict leg e))"

definition set_leg_context ::
    "time \<Rightarrow> string \<Rightarrow> string option \<Rightarrow> string option \<Rightarrow> string option \<Rightarrow> leg_store \<Rightarrow> leg_store" where
  "set_leg_context now leg call_id transfer_id role s =
     (let current = (case legs s leg of
                       Some e \<Rightarrow> e
                     | None \<Rightarrow> \<lparr>le_state = leg_value Leg_INITIATING, le_updated_at = now,
                                le_call_id = None, le_transfer_id = None, le_role = None,
                                le_raw_event = None\<rparr>)
      in s\<lparr>legs := (legs s)(leg \<mapsto> current\<lparr>
            le_call_id := keep call_id (le_call_id current),
            le_transfer_id := keep transfer_id (le_transfer_id current),
            le_role := keep role (le_role current)\<rparr>)\<rparr>)"

definition set_bridge_status :: "string \<Rightarrow> string \<Rightarrow> leg_store \<Rightarrow> leg_store" where
  "set_bridge_status key status s = s\<lparr>bridge_ops := (bridge_ops s)(key \<mapsto> status)\<rparr>"

definition get_bridge_status :: "string \<Rightarrow> leg_store \<Rightarrow> string option" where
  "get_bridge_status key s = bridge_ops s key"

definition set_whisper_status :: "string \<Rightarrow> string \<Rightarrow> leg_store \<Rightarrow> leg_store" where
  "set_whisper_status leg status s = s\<lparr>whisper_ops := (whisper_ops s)(leg \<mapsto> status)\<rparr>"

definition get_whisper_status :: "string \<Rightarrow> leg_store \<Rightarrow> string option" where
  "get_whisper_status leg s = whisper_ops s leg"

definition mark_event_seen :: "string \<Rightarrow> leg_store \<Rightarrow> bool \<times> leg_store" where
  "mark_event_seen key s =
     (if key \<in> seen_events s then (False, s)
      else (True, s\<lparr>seen_events := insert key (seen_events s)\<rparr>))"

section \<open>Waiting\<close>

datatype poll_answer = PollNothing | PollException | PollState leg_state

record 's tick =
  k_now :: time
  k_others :: "'s \<Rightarrow> 's"
  k_poll :: "'s \<Rightarrow> poll_answer \<times> 's"

datatype 'a waiting = Pending | Returned 'a

fun wait_for_leg_state ::
    "(string \<Rightarrow> 's \<Rightarrow> leg_state option) \<Rightarrow> (string \<Rightarrow> leg_state \<Rightarrow> 's \<Rightarrow> 's)
     \<Rightarrow> string \<Rightarrow> leg_state set \<Rightarrow> leg_state set \<Rightarrow> time \<Rightarrow> 's tick list \<Rightarrow> 's
     \<Rightarrow> leg_state option waiting \<times> 's" where
  "wait_for_leg_state rd wr leg accepted failed deadline [] s = (Pending, s)"
| "wait_for_leg_state rd wr leg accepted failed deadline (k # ks) s =
     (if \<not> k_now k < deadline then (Returned None, s)
      else (let s1 = k_others k s in
        case rd leg s1 of
          Some st \<Rightarrow>
            if st \<in> accepted \<or> st \<in> failed then (Returned (Some st), s1)
            else (case k_poll k s1 of
                    (PollState p, s2) \<Rightarrow>
                      if p \<in> accepted \<or> p \<in> failed then (Returned (Some p), wr leg p s2)
                      else wait_for_leg_state rd wr leg accepted failed deadline ks (wr leg p s2)
                  | (_, s2) \<Rightarrow> wait_for_leg_state rd wr leg accepted failed deadline ks s2)
        | None \<Rightarrow>
            (case k_poll k s1 of
               (PollState p, s2) \<Rightarrow>
                 if p \<in> accepted \<or> p \<in> failed then (Returned (Some p), wr leg p s2)
                 else wait_for_leg_state rd wr leg accepted failed deadline ks (wr leg p s2)
             | (_, s2) \<Rightarrow> wait_for_leg_state rd wr leg accepted failed deadline ks s2)))"

text \<open>The loops on bridge and whisper statuses are the same but for what they read.\<close>

fun wait_for_status ::
    "(string \<Rightarrow> 's \<Rightarrow> string option) \<Rightarrow> string \<Rightarrow> string set \<Rightarrow> string set \<Rightarrow> time \<Rightarrow> 's tick list
     \<Rightarrow> 's \<Rightarrow> string option waiting \<times> 's" where
  "wait_for_status rd key accepted failed deadline [] s = (Pending, s)"
| "wait_for_status rd key accepted failed deadline (k # ks) s =
     (if \<not> k_now k < deadline then (Returned None, s)
      else (let s1 = k_others k s in
        case rd key s1 of
          Some st \<Rightarrow>
            if st \<in> accepted \<or> st \<in> failed then (Returned (Some st), s1)
            else wait_for_status rd key accepted failed deadline ks s1
        | None \<Rightarrow> wait_for_status rd key accepted failed deadline ks s1))"

definition leg_state_in :: "string \<Rightarrow> leg_store \<Rightarrow> leg_state option" where
  "leg_state_in leg s = map_option ls_state (get_leg_state leg s)"

definition record_leg_state :: "time \<Rightarrow> string \<Rightarrow> leg_state \<Rightarrow> leg_store \<Rightarrow> leg_store" where
  "record_leg_state now leg st s = snd (set_leg_state now leg st None None None None s)"

section \<open>The contract of a leg state store\<close>

lemma keep_simps [simp]: "keep None x = x" "keep (Some y) x = Some y"
  by (simp_all add: keep_def)

text \<open>Clock readings of a loop that sleeps at least \<open>step\<close> between its tests.\<close>

fun ticks_from :: "time \<Rightarrow> int \<Rightarrow> 's tick list \<Rightarrow> bool" where
  "ticks_from t step [] = True"
| "ticks_from t step (k # ks) = (t \<le> k_now k \<and> ticks_from (k_now k + step) step ks)"

lemma ticks_from_mono: "ticks_from t step ks \<Longrightarrow> t' \<le> t \<Longrightarrow> ticks_from t' step ks"
  by (cases ks) auto

locale leg_state_store =
  fixes read_leg :: "string \<Rightarrow> 's \<Rightarrow> leg_state option"
    and write_leg :: "string \<Rightarrow> leg_state \<Rightarrow> 's \<Rightarrow> 's"
    and mark :: "string \<Rightarrow> 's \<Rightarrow> bool \<times> 's"
    and seen :: "string \<Rightarrow> 's \<Rightarrow> bool"
  assumes get_set: "read_leg leg (write_leg leg' st s) = (if leg = leg' then Some st else read_leg leg s)"
    and mark_new: "fst (mark key s) \<longleftrightarrow> \<not> seen key s"
    and seen_mark: "seen key' (snd (mark key s)) \<longleftrightarrow> key' = key \<or> seen key' s"
    and get_mark: "read_leg leg (snd (mark key s)) = read_leg leg s"
    and seen_set: "seen key (write_leg leg st s) = seen key s"
begin

text \<open>A key is accepted once: marking it again, in whatever state it left, is refused.\<close>

lemma mark_twice: "\<not> fst (mark key (snd (mark key s)))"
  by (simp add: mark_new seen_mark)

lemma mark_after_set: "\<not> fst (mark key (write_leg leg st (snd (mark key s))))"
  by (simp add: mark_new seen_mark seen_set)

lemma wait_returns_stored:
  assumes "wait_for_leg_state read_leg write_leg leg accepted failed deadline ks s = (Returned (Some st), s')"
  shows "(st \<in> accepted \<or> st \<in> failed) \<and> read_leg leg s' = Some st"
  using assms
proof (induction ks arbitrary: s)
  case (Cons k ks)
  then show ?case
    by (auto simp: Let_def get_set split: if_splits option.splits prod.splits poll_answer.splits)
qed simp

lemma wait_ends:
  assumes "ticks_from t step ks" "0 < step" "deadline \<le> t + step * (int (length ks) - 1)" "ks \<noteq> []"
  shows "fst (wait_for_leg_state read_leg write_leg leg accepted failed deadline ks s) \<noteq> Pending"
  using assms
proof (induction ks arbitrary: s t)
  case (Cons k ks)
  show ?case
  proof (cases "k_now k < deadline")
    case False
    then show ?thesis by simp
  next
    case True
    have "ks \<noteq> []" using Cons.prems True by auto
    moreover have "deadline \<le> (k_now k + step) + step * (int (length ks) - 1)"
    proof -
      have "deadline \<le> t + step * int (length ks)" using Cons.prems(3) by simp
      also have "\<dots> \<le> k_now k + step * int (length ks)" using Cons.prems(1) by simp
      also have "\<dots> = (k_now k + step) + step * (int (length ks) - 1)" by (simp add: algebra_simps)
      finally show ?thesis .
    qed
    ultimately have "fst (wait_for_leg_state read_leg write_leg leg accepted failed deadline ks s2) \<noteq> Pending"
      for s2
      using Cons.IH [of "k_now k + step" s2] Cons.prems(1,2) by simp
    then show ?thesis using True
      by (simp add: Let_def split: option.split prod.split poll_answer.split)
  qed
qed simp

end

lemma leg_state_in_set:
  "leg_state_in leg (record_leg_state now leg' st s) = (if leg = leg' then Some st else leg_state_in leg s)"
  by (simp add: leg_state_in_def record_leg_state_def get_leg_state_def set_leg_state_def Let_def
      snapshot_from_dict_def)

interpretation memory_legs: leg_state_store leg_state_in "record_leg_state now" mark_event_seen
    "\<lambda>key s. key \<in> seen_events s" for now
proof
  show "leg_state_in leg (record_leg_state now leg' st s) = (if leg = leg' then Some st else leg_state_in leg s)"
    for leg leg' st s by (rule leg_state_in_set)
qed (auto simp: mark_event_seen_def leg_state_in_def get_leg_state_def record_leg_state_def
      set_leg_state_def Let_def)

text \<open>
  Waiting on a leg is sound and ends. A state that \<open>wait_for_leg_state\<close> returns is one of
  the accepted or failed states and is what the store holds for the leg when it returns; and
  when the clock advances by at least the poll interval between two loop tests, the loop is over
  after at most \<open>timeout / poll_interval + 1\<close> tests, whatever other tasks and the polling
  fallback do.
\<close>

theorem wait_for_leg_state_correct:
  assumes "wait_for_leg_state leg_state_in (record_leg_state now) leg accepted failed deadline ks s
             = (r, s')"
    and "ticks_from t step ks" and "0 < step"
  shows "(deadline \<le> t + step * (int (length ks) - 1) \<and> ks \<noteq> [] \<longrightarrow> r \<noteq> Pending)
    \<and> (\<forall>st. r = Returned (Some st) \<longrightarrow>
         (st \<in> accepted \<or> st \<in> failed) \<and> leg_state_in leg s' = Some st)"
  using memory_legs.wait_returns_stored [of now leg accepted failed deadline ks s _ s']
    memory_legs.wait_ends [OF assms(2,3), of deadline now leg accepted failed s] assms(1)
  by auto

theorem wait_for_leg_state_correct_witness:
  "let ks = [\<lparr>k_now = 0, k_others = (\<lambda>s. s), k_poll = Pair PollNothing\<rparr>,
             \<lparr>k_now = 4, k_others = record_leg_state 4 ''L'' Leg_RINGING, k_poll = Pair PollNothing\<rparr>,
             \<lparr>k_now = 8, k_others = record_leg_state 8 ''L'' Leg_ANSWERED, k_poll = Pair PollNothing\<rparr>];
       (r, s') = wait_for_leg_state leg_state_in (record_leg_state 8) ''L'' {Leg_ANSWERED} {Leg_FAILED}
                   100 ks empty_leg_store
   in r = Returned (Some Leg_ANSWERED) \<and> leg_state_in ''L'' s' = Some Leg_ANSWERED"
proof -
  let ?ks = "[\<lparr>k_now = 0, k_others = (\<lambda>s. s), k_poll = Pair PollNothing\<rparr>,
             \<lparr>k_now = 4, k_others = record_leg_state 4 ''L'' Leg_RINGING, k_poll = Pair PollNothing\<rparr>,
             \<lparr>k_now = 8, k_others = record_leg_state 8 ''L'' Leg_ANSWERED, k_poll = Pair PollNothing\<rparr>]"
  obtain r s' where w: "wait_for_leg_state leg_state_in (record_leg_state 8) ''L'' {Leg_ANSWERED}
      {Leg_FAILED} 100 ?ks empty_leg_store = (r, s')"
    by (cases "wait_for_leg_state leg_state_in (record_leg_state 8) ''L'' {Leg_ANSWERED}
      {Leg_FAILED} 100 ?ks empty_leg_store")
  have "leg_state_in ''L'' empty_leg_store = None"
    by (simp add: leg_state_in_def get_leg_state_def empty_leg_store_def)
  then have r: "r = Returned (Some Leg_ANSWERED)" using w by (simp add: leg_state_in_set Let_def)
  have "ticks_from 0 1 ?ks" by simp
  from wait_for_leg_state_correct [OF w this] r have "leg_state_in ''L'' s' = Some Leg_ANSWERED"
    by simp
  with w r show ?thesis by (simp add: Let_def)
qed

section \<open>Order of leg states\<close>

text \<open>
  The order in which two sources of a leg's state override each other (see \<open>_effective_state\<close>):
  the later in this order wins.
\<close>

fun leg_priority :: "leg_state \<Rightarrow> nat" where
  "leg_priority Leg_TERMINATING = 0"
| "leg_priority Leg_INITIATING = 1"
| "leg_priority Leg_RINGING = 2"
| "leg_priority Leg_ANSWERED = 3"
| "leg_priority Leg_BRIDGED = 4"
| "leg_priority Leg_FAILED = 5"
| "leg_priority Leg_TERMINATED = 6"

instantiation leg_state :: linorder
begin

definition less_eq_leg_state :: "leg_state \<Rightarrow> leg_state \<Rightarrow> bool" where
  "less_eq_leg_state a b = (leg_priority a \<le> leg_priority b)"

definition less_leg_state :: "leg_state \<Rightarrow> leg_state \<Rightarrow> bool" where
  "less_leg_state a b = (leg_priority a < leg_priority b)"

instance
proof
  fix a b :: leg_state
  show "a \<le> b \<Longrightarrow> b \<le> a \<Longrightarrow> a = b"
    by (cases a; cases b) (simp_all add: less_eq_leg_state_def)
qed (auto simp: less_eq_leg_state_def less_leg_state_def)

end

end
