(* ===== verification/CorrStore.thy ===== *)
theory CorrStore
  imports LegStore
begin

text \<open>
  Correlation of a Mango leg with its FreeSWITCH channel:
  \<open>app/integrations/telephony/mango_freeswitch_correlation.py\<close>, the in-memory store and the
  helpers \<open>_effective_state\<close>, \<open>_state_implies_*\<close> and \<open>_state_or_none\<close>. Two event sources
  report the state of one leg, in any order; the store keeps both, an effective state, and whether
  the leg was ever answered or bridged.

  The lemmas characterise the effective state as a maximum, and the flags by the history of
  operations (\<open>corr_run\<close>), and show that the two indexes lead to existing snapshots.
\<close>

section \<open>Helpers\<close>

text \<open>The cascade of tests, on the set of the states that are known.\<close>

definition effective_state :: "leg_state option \<Rightarrow> leg_state option \<Rightarrow> leg_state option" where
  "effective_state mango fs =
     (let states = Option.these {mango, fs} in
      if states = {} then None
      else if Leg_TERMINATED \<in> states then Some Leg_TERMINATED
      else if Leg_FAILED \<in> states then Some Leg_FAILED
      else if Leg_BRIDGED \<in> states then Some Leg_BRIDGED
      else if Leg_ANSWERED \<in> states then Some Leg_ANSWERED
      else if Leg_RINGING \<in> states then Some Leg_RINGING
      else if Leg_INITIATING \<in> states then Some Leg_INITIATING
      else if Leg_TERMINATING \<in> states then Some Leg_TERMINATING
      else None)"

definition state_implies_answered :: "leg_state option \<Rightarrow> bool" where
  "state_implies_answered s \<longleftrightarrow> s \<in> {Some Leg_ANSWERED, Some Leg_BRIDGED}"

definition state_implies_bridged :: "leg_state option \<Rightarrow> bool" where
  "state_implies_bridged s \<longleftrightarrow> s = Some Leg_BRIDGED"

definition state_or_none :: "string option \<Rightarrow> leg_state option" where
  "state_or_none raw = (if \<not> truthy raw then None else leg_state_of (the raw))"

section \<open>The store\<close>

record corr_snapshot =
  cs_mango_leg_id :: string
  cs_call_id :: "string option"
  cs_freeswitch_uuid :: "string option"
  cs_freeswitch_session_id :: "string option"
  cs_mango_state :: "leg_state option"
  cs_freeswitch_state :: "leg_state option"
  cs_effective_state :: "leg_state option"
  cs_answered_seen :: bool
  cs_bridged_seen :: bool
  cs_updated_at :: time
  cs_raw_mango_event :: "json option"
  cs_raw_freeswitch_event :: "json option"

record corr_store =
  corr_data :: "string \<rightharpoonup> corr_snapshot"
  call_to_leg :: "string \<rightharpoonup> string"
  freeswitch_to_leg :: "string \<rightharpoonup> string"

definition empty_corr_store :: corr_store where
  "empty_corr_store =
     \<lparr>corr_data = Map.empty, call_to_leg = Map.empty, freeswitch_to_leg = Map.empty\<rparr>"

definition fresh_snapshot :: "string \<Rightarrow> time \<Rightarrow> corr_snapshot" where
  "fresh_snapshot leg now =
     \<lparr>cs_mango_leg_id = leg, cs_call_id = None, cs_freeswitch_uuid = None,
      cs_freeswitch_session_id = None, cs_mango_state = None, cs_freeswitch_state = None,
      cs_effective_state = None, cs_answered_seen = False, cs_bridged_seen = False,
      cs_updated_at = now, cs_raw_mango_event = None, cs_raw_freeswitch_event = None\<rparr>"

definition current_snapshot :: "string \<Rightarrow> time \<Rightarrow> corr_store \<Rightarrow> corr_snapshot" where
  "current_snapshot leg now s =
     (case corr_data s leg of None \<Rightarrow> fresh_snapshot leg now | Some c \<Rightarrow> c)"

text \<open>\<open>if key is not None: index[key] = leg\<close>\<close>

definition index_opt :: "string option \<Rightarrow> string \<Rightarrow> (string \<rightharpoonup> string) \<Rightarrow> (string \<rightharpoonup> string)" where
  "index_opt key leg m = (case key of None \<Rightarrow> m | Some k \<Rightarrow> m(k \<mapsto> leg))"

text \<open>The flags and the effective state, recomputed at the end of every operation.\<close>

definition upsert_mapping ::
    "time \<Rightarrow> string \<Rightarrow> string option \<Rightarrow> string option \<Rightarrow> string option \<Rightarrow> corr_store
     \<Rightarrow> corr_snapshot \<times> corr_store" where
  "upsert_mapping now leg call_id fs_uuid fs_session s =
     (let c = current_snapshot leg now s;
          c' = c\<lparr>cs_call_id := keep call_id (cs_call_id c),
                 cs_freeswitch_uuid := keep fs_uuid (cs_freeswitch_uuid c),
                 cs_freeswitch_session_id := keep fs_session (cs_freeswitch_session_id c),
                 cs_answered_seen := cs_answered_seen c
                   \<or> state_implies_answered (cs_mango_state c)
                   \<or> state_implies_answered (cs_freeswitch_state c),
                 cs_bridged_seen := cs_bridged_seen c
                   \<or> state_implies_bridged (cs_mango_state c)
                   \<or> state_implies_bridged (cs_freeswitch_state c),
                 cs_effective_state := effective_state (cs_mango_state c) (cs_freeswitch_state c),
                 cs_updated_at := now\<rparr>
      in (c', s\<lparr>corr_data := (corr_data s)(leg \<mapsto> c'),
                call_to_leg := index_opt call_id leg (call_to_leg s),
                freeswitch_to_leg := index_opt fs_uuid leg (freeswitch_to_leg s)\<rparr>))"

definition set_mango_state ::
    "time \<Rightarrow> string \<Rightarrow> leg_state \<Rightarrow> string option \<Rightarrow> json option \<Rightarrow> corr_store
     \<Rightarrow> corr_snapshot \<times> corr_store" where
  "set_mango_state now leg state call_id raw s =
     (let c = current_snapshot leg now s;
          c' = c\<lparr>cs_mango_state := Some state,
                 cs_call_id := keep call_id (cs_call_id c),
                 cs_raw_mango_event := keep raw (cs_raw_mango_event c),
                 cs_answered_seen := cs_answered_seen c \<or> state_implies_answered (Some state),
                 cs_bridged_seen := cs_bridged_seen c \<or> state_implies_bridged (Some state),
                 cs_effective_state := effective_state (Some state) (cs_freeswitch_state c),
                 cs_updated_at := now\<rparr>
      in (c', s\<lparr>corr_data := (corr_data s)(leg \<mapsto> c')\<rparr>))"

definition set_freeswitch_state ::
    "time \<Rightarrow> string \<Rightarrow> leg_state \<Rightarrow> string option \<Rightarrow> string option \<Rightarrow> json option \<Rightarrow> corr_store
     \<Rightarrow> corr_snapshot \<times> corr_store" where
  "set_freeswitch_state now leg state fs_uuid fs_session raw s =
     (let c = current_snapshot leg now s;
          c' = c\<lparr>cs_freeswitch_state := Some state,
                 cs_freeswitch_uuid := keep fs_uuid (cs_freeswitch_uuid c),
                 cs_freeswitch_session_id := keep fs_session (cs_freeswitch_session_id c),
                 cs_raw_freeswitch_event := keep raw (cs_raw_freeswitch_event c),
                 cs_answered_seen := cs_answered_seen c \<or> state_implies_answered (Some state),
                 cs_bridged_seen := cs_bridged_seen c \<or> state_implies_bridged (Some state),
                 cs_effective_state := effective_state (cs_mango_state c) (Some state),
                 cs_updated_at := now\<rparr>
      in (c', s\<lparr>corr_data := (corr_data s)(leg \<mapsto> c'),
                freeswitch_to_leg := index_opt fs_uuid leg (freeswitch_to_leg s)\<rparr>))"

definition corr_get :: "string \<Rightarrow> corr_store \<Rightarrow> corr_snapshot option" where
  "corr_get leg s = corr_data s leg"

definition find_mango_leg_id_by_call_id :: "string \<Rightarrow> corr_store \<Rightarrow> string option" where
  "find_mango_leg_id_by_call_id call_id s = call_to_leg s call_id"

definition find_mango_leg_id_by_freeswitch_uuid :: "string \<Rightarrow> corr_store \<Rightarrow> string option" where
  "find_mango_leg_id_by_freeswitch_uuid u s = freeswitch_to_leg s u"

definition get_effective_state :: "string \<Rightarrow> corr_store \<Rightarrow> leg_state option" where
  "get_effective_state leg s =
     (case corr_get leg s of None \<Rightarrow> None | Some c \<Rightarrow> cs_effective_state c)"

section \<open>Histories\<close>

datatype corr_op =
    UpsertMapping time string "string option" "string option" "string option"
  | SetMango time string leg_state "string option" "json option"
  | SetFreeswitch time string leg_state "string option" "string option" "json option"

fun corr_step :: "corr_op \<Rightarrow> corr_store \<Rightarrow> corr_store" where
  "corr_step (UpsertMapping now leg cid u se) s = snd (upsert_mapping now leg cid u se s)"
| "corr_step (SetMango now leg st cid raw) s = snd (set_mango_state now leg st cid raw s)"
| "corr_step (SetFreeswitch now leg st u se raw) s = snd (set_freeswitch_state now leg st u se raw s)"

definition corr_run :: "corr_op list \<Rightarrow> corr_store" where
  "corr_run ops = fold corr_step ops empty_corr_store"

text \<open>The states that a history reported for a leg, by source.\<close>

fun mango_report :: "string \<Rightarrow> corr_op \<Rightarrow> leg_state option" where
  "mango_report leg (SetMango _ leg' st _ _) = (if leg' = leg then Some st else None)"
| "mango_report leg _ = None"

fun fs_report :: "string \<Rightarrow> corr_op \<Rightarrow> leg_state option" where
  "fs_report leg (SetFreeswitch _ leg' st _ _ _) = (if leg' = leg then Some st else None)"
| "fs_report leg _ = None"

definition reports :: "(corr_op \<Rightarrow> leg_state option) \<Rightarrow> corr_op list \<Rightarrow> leg_state list" where
  "reports f ops = List.map_filter f ops"

definition last_report :: "leg_state list \<Rightarrow> leg_state option" where
  "last_report xs = (if xs = [] then None else Some (last xs))"

section \<open>Lemmas\<close>

text \<open>
  The effective state is a maximum: with \<open>TERMINATING < INITIATING < RINGING < ANSWERED <
  BRIDGED < FAILED < TERMINATED\<close>, it is the greater of the states that the two sources
  reported, and there is none exactly when neither reported one. So it does not depend on which
  source said what, and a later report of a weaker state by one source never hides the other's.
\<close>

theorem effective_state_is_max:
  "effective_state a b = (if a = None then b else if b = None then a else Some (max (the a) (the b)))
   \<and> effective_state a b = effective_state b a"
proof -
  have one: "effective_state (Some x) None = Some x" "effective_state None (Some x) = Some x" for x
    by (cases x; simp add: effective_state_def these_insert_Some)+
  have two: "effective_state (Some x) (Some y) = Some (max x y)" for x y
    by (cases x; cases y)
      (simp_all add: effective_state_def these_insert_Some max_def less_eq_leg_state_def)
  have "effective_state None None = None" by (simp add: effective_state_def)
  with one two show ?thesis
    by (cases a; cases b) (simp_all add: max.commute)
qed

lemma index_opt_apply [simp]:
  "index_opt key leg m k = (if key = Some k then Some leg else m k)"
  by (simp add: index_opt_def split: option.split)

definition snapshot_ok :: "string \<Rightarrow> corr_snapshot \<Rightarrow> bool" where
  "snapshot_ok leg c \<longleftrightarrow> cs_mango_leg_id c = leg
     \<and> cs_effective_state c = effective_state (cs_mango_state c) (cs_freeswitch_state c)
     \<and> (state_implies_answered (cs_mango_state c) \<longrightarrow> cs_answered_seen c)
     \<and> (state_implies_answered (cs_freeswitch_state c) \<longrightarrow> cs_answered_seen c)
     \<and> (state_implies_bridged (cs_mango_state c) \<longrightarrow> cs_bridged_seen c)
     \<and> (state_implies_bridged (cs_freeswitch_state c) \<longrightarrow> cs_bridged_seen c)"

definition corr_ok :: "corr_store \<Rightarrow> bool" where
  "corr_ok s \<longleftrightarrow> (\<forall>leg c. corr_data s leg = Some c \<longrightarrow> snapshot_ok leg c)
     \<and> ran (call_to_leg s) \<subseteq> dom (corr_data s) \<and> ran (freeswitch_to_leg s) \<subseteq> dom (corr_data s)"

lemma effective_None [simp]: "effective_state None None = None"
  by (simp add: effective_state_def)

lemma snapshot_ok_current: "corr_ok s \<Longrightarrow> snapshot_ok leg (current_snapshot leg now s)"
  by (auto simp: corr_ok_def current_snapshot_def snapshot_ok_def fresh_snapshot_def
      state_implies_answered_def state_implies_bridged_def split: option.split)

lemmas corr_op_defs = upsert_mapping_def set_mango_state_def set_freeswitch_state_def

lemma corr_step_ok: "corr_ok s \<Longrightarrow> corr_ok (corr_step x s)"
proof -
  assume ok: "corr_ok s"
  have cur: "snapshot_ok leg (current_snapshot leg now s)" for leg now
    using ok by (rule snapshot_ok_current)
  have idx: "ran (call_to_leg (corr_step x s)) \<subseteq> dom (corr_data (corr_step x s))"
    "ran (freeswitch_to_leg (corr_step x s)) \<subseteq> dom (corr_data (corr_step x s))"
    using ok by (cases x; auto simp: corr_ok_def corr_op_defs Let_def ran_def split: if_splits)+
  have "snapshot_ok leg c" if "corr_data (corr_step x s) leg = Some c" for leg c
    using that cur ok
    by (cases x) (auto simp: corr_op_defs Let_def snapshot_ok_def corr_ok_def split: if_splits)
  with idx show ?thesis by (simp add: corr_ok_def)
qed

lemma corr_run_snoc: "corr_run (ops @ [x]) = corr_step x (corr_run ops)"
  by (simp add: corr_run_def)

lemma corr_run_ok: "corr_ok (corr_run ops)"
  by (induction ops rule: rev_induct)
    (simp_all add: corr_run_snoc corr_step_ok, simp add: corr_run_def corr_ok_def empty_corr_store_def)

text \<open>
  Both indexes lead to a stored snapshot: after any history, a leg found by call id or by
  FreeSWITCH channel exists in the store, under its own id, with the effective state of the two
  states stored for it.
\<close>

theorem correlation_lookup_sound:
  assumes "find_mango_leg_id_by_call_id k (corr_run ops) = Some leg
     \<or> find_mango_leg_id_by_freeswitch_uuid k (corr_run ops) = Some leg"
  shows "\<exists>c. corr_get leg (corr_run ops) = Some c \<and> cs_mango_leg_id c = leg
    \<and> get_effective_state leg (corr_run ops)
        = effective_state (cs_mango_state c) (cs_freeswitch_state c)"
proof -
  have ok: "corr_ok (corr_run ops)" by (rule corr_run_ok)
  then have "leg \<in> dom (corr_data (corr_run ops))"
    using assms by (auto simp: corr_ok_def find_mango_leg_id_by_call_id_def
        find_mango_leg_id_by_freeswitch_uuid_def ran_def subset_iff)
  then obtain c where "corr_data (corr_run ops) leg = Some c" by blast
  with ok show ?thesis
    by (auto simp: corr_ok_def snapshot_ok_def corr_get_def get_effective_state_def)
qed

theorem correlation_lookup_sound_witness:
  "\<exists>c. corr_get ''L'' (corr_run [SetMango 1 ''L'' Leg_ANSWERED None None,
          UpsertMapping 2 ''L'' (Some ''call'') (Some ''fs'') None]) = Some c
     \<and> cs_mango_leg_id c = ''L''"
proof -
  have "find_mango_leg_id_by_call_id ''call'' (corr_run [SetMango 1 ''L'' Leg_ANSWERED None None,
          UpsertMapping 2 ''L'' (Some ''call'') (Some ''fs'') None]) = Some ''L''"
    by (simp add: corr_run_def corr_op_defs find_mango_leg_id_by_call_id_def Let_def)
  then show ?thesis using correlation_lookup_sound by blast
qed

lemma reports_snoc:
  "reports f (ops @ [x]) = reports f ops @ (case f x of None \<Rightarrow> [] | Some s \<Rightarrow> [s])"
  by (simp add: reports_def map_filter_def split: option.split)

definition leg_of :: "corr_op \<Rightarrow> string" where
  "leg_of x = (case x of UpsertMapping _ leg _ _ _ \<Rightarrow> leg | SetMango _ leg _ _ _ \<Rightarrow> leg
     | SetFreeswitch _ leg _ _ _ _ \<Rightarrow> leg)"

lemma corr_history:
  "case corr_get leg (corr_run ops) of
     None \<Rightarrow> leg \<notin> leg_of ` set ops \<and> reports (mango_report leg) ops = []
         \<and> reports (fs_report leg) ops = []
   | Some c \<Rightarrow>
       cs_mango_state c = last_report (reports (mango_report leg) ops)
       \<and> cs_freeswitch_state c = last_report (reports (fs_report leg) ops)
       \<and> (cs_answered_seen c \<longleftrightarrow> (\<exists>s\<in>set (reports (mango_report leg) ops @ reports (fs_report leg) ops).
             state_implies_answered (Some s)))
       \<and> (cs_bridged_seen c \<longleftrightarrow> Leg_BRIDGED \<in> set (reports (mango_report leg) ops @ reports (fs_report leg) ops))"
proof (induction ops rule: rev_induct)
  case Nil
  then show ?case by (simp add: corr_get_def corr_run_def empty_corr_store_def reports_def map_filter_def)
next
  case (snoc x ops)
  have last: "last_report (xs @ [s]) = Some s" "last_report [] = None" "last_report [s] = Some s" for xs s
    by (simp_all add: last_report_def)
  have imp: "state_implies_answered (last_report xs) \<Longrightarrow> \<exists>s\<in>set xs. state_implies_answered (Some s)"
    "state_implies_bridged (last_report xs) \<Longrightarrow> Leg_BRIDGED \<in> set xs" for xs
    by (auto simp: last_report_def state_implies_answered_def state_implies_bridged_def split: if_splits
        dest: last_in_set)
  show ?case
  proof (cases "leg_of x = leg")
    case False
    then have "corr_get leg (corr_run (ops @ [x])) = corr_get leg (corr_run ops)"
      by (cases x) (auto simp: corr_run_snoc corr_get_def corr_op_defs Let_def leg_of_def)
    moreover have "mango_report leg x = None" "fs_report leg x = None"
      using False by (cases x; simp add: leg_of_def)+
    ultimately show ?thesis using snoc False by (auto simp: reports_snoc split: option.splits)
  next
    case True
    show ?thesis
    proof (cases "corr_get leg (corr_run ops)")
      case None
      with snoc True show ?thesis
        by (cases x) (auto simp: corr_run_snoc corr_get_def corr_op_defs Let_def leg_of_def reports_snoc
            current_snapshot_def fresh_snapshot_def last state_implies_answered_def state_implies_bridged_def)
    next
      case (Some c)
      with snoc True imp show ?thesis
        by (cases x) (auto simp: corr_run_snoc corr_get_def corr_op_defs Let_def leg_of_def reports_snoc
            current_snapshot_def last state_implies_bridged_def)
    qed
  qed
qed

text \<open>
  An answer is never forgotten and never invented. After any history of operations a leg is
  known exactly when some operation named it; then the stored states of the two sources are their
  last reports, the effective state is the greater of the two, \<open>answered_seen\<close> holds exactly
  when some report by either source ever was \<open>ANSWERED\<close> or \<open>BRIDGED\<close>, and \<open>bridged_seen\<close>
  exactly when one ever was \<open>BRIDGED\<close>.
\<close>

theorem answer_never_forgotten:
  "case corr_get leg (corr_run ops) of
     None \<Rightarrow> leg \<notin> leg_of ` set ops
   | Some c \<Rightarrow>
       (let mango = reports (mango_report leg) ops; fs = reports (fs_report leg) ops
        in leg \<in> leg_of ` set ops
         \<and> cs_effective_state c = effective_state (last_report mango) (last_report fs)
         \<and> (cs_answered_seen c \<longleftrightarrow> Leg_ANSWERED \<in> set (mango @ fs) \<or> Leg_BRIDGED \<in> set (mango @ fs))
         \<and> (cs_bridged_seen c \<longleftrightarrow> Leg_BRIDGED \<in> set (mango @ fs)))"
proof -
  have known: "leg \<in> leg_of ` set ops" if "corr_get leg (corr_run ops) \<noteq> None" for ops
    using that
  proof (induction ops rule: rev_induct)
    case (snoc x ops)
    then show ?case
      by (cases "leg_of x = leg"; cases x)
        (auto simp: corr_run_snoc corr_get_def corr_op_defs Let_def leg_of_def)
  qed (simp add: corr_get_def corr_run_def empty_corr_store_def)
  have ok: "corr_ok (corr_run ops)" by (rule corr_run_ok)
  show ?thesis
  proof (cases "corr_get leg (corr_run ops)")
    case None
    with corr_history [of leg ops] show ?thesis by simp
  next
    case (Some c)
    moreover have "cs_effective_state c = effective_state (cs_mango_state c) (cs_freeswitch_state c)"
      using ok Some by (auto simp: corr_ok_def corr_get_def snapshot_ok_def)
    ultimately show ?thesis
      using corr_history [of leg ops] known [of ops]
      by (auto simp: Let_def state_implies_answered_def)
  qed
qed

end
