(* ===== verification/MangoEvents.thy ===== *)
theory MangoEvents
  imports Database Phone CorrStore
begin

text \<open>
  The Mango webhook of \<open>app/integrations/telephony/mango_events.py\<close>: the request guard, the
  normalisation of a payload (\<open>normalize_event\<close> and the \<open>_extract_*\<close> helpers), the search for
  the call and the transfer that an event belongs to, and its effect on their statuses. The
  processor works on the database, the leg state store and the correlation store, together
  \<open>mango_world\<close>. The digest of a payload, phone normalisation and, for the guard, HMAC and
  \<open>ipaddress\<close> are arguments.

  The lemmas characterise the guard, show that an event id is processed once, and bound what any
  event can do to the status of a call.
\<close>

section \<open>Reading a payload\<close>

type_synonym payload = "(string \<times> json) list"

fun str_or :: "payload \<Rightarrow> string list \<Rightarrow> string option" where
  "str_or d [] = None"
| "str_or d (k # ks) =
     (case dget d k of
        Some (JStr v) \<Rightarrow> if strip v \<noteq> [] then Some (strip v) else str_or d ks
      | _ \<Rightarrow> str_or d ks)"

definition nested_str_or :: "json option \<Rightarrow> string list \<Rightarrow> string option" where
  "nested_str_or v ks = (case as_dict v of None \<Rightarrow> None | Some d \<Rightarrow> str_or d ks)"

definition normalize_state_key :: "string option \<Rightarrow> string" where
  "normalize_state_key raw =
     (if \<not> truthy raw then []
      else map (\<lambda>c. if c = CHR ''-'' \<or> c = CHR '' '' then CHR ''_'' else c) (lower (strip (the raw))))"

definition state_aliases :: "(string \<times> leg_state) list" where
  "state_aliases =
    [(''initiating'', Leg_INITIATING), (''calling'', Leg_INITIATING), (''new'', Leg_INITIATING),
     (''call_start'', Leg_INITIATING), (''call_started'', Leg_INITIATING),
     (''call_appeared'', Leg_INITIATING), (''ringing'', Leg_RINGING), (''alerting'', Leg_RINGING),
     (''call_ringing'', Leg_RINGING), (''answered'', Leg_ANSWERED), (''answer'', Leg_ANSWERED),
     (''call_answer'', Leg_ANSWERED), (''call_answered'', Leg_ANSWERED),
     (''connected'', Leg_ANSWERED), (''call_connected'', Leg_ANSWERED),
     (''in-progress'', Leg_ANSWERED), (''in_progress'', Leg_ANSWERED), (''bridged'', Leg_BRIDGED),
     (''call_bridge'', Leg_BRIDGED), (''call_bridged'', Leg_BRIDGED), (''transferred'', Leg_BRIDGED),
     (''hangup'', Leg_TERMINATED), (''hung_up'', Leg_TERMINATED), (''disconnected'', Leg_TERMINATED),
     (''terminated'', Leg_TERMINATED), (''completed'', Leg_TERMINATED),
     (''call_completed'', Leg_TERMINATED), (''call_finished'', Leg_TERMINATED),
     (''call_end'', Leg_TERMINATED), (''call_ended'', Leg_TERMINATED), (''failed'', Leg_FAILED),
     (''busy'', Leg_FAILED), (''no_answer'', Leg_FAILED), (''unavailable'', Leg_FAILED),
     (''subscriber_unavailable'', Leg_FAILED)]"

definition contains_any :: "string list \<Rightarrow> string \<Rightarrow> bool" where
  "contains_any ts s = list_ex (\<lambda>t. contains t s) ts"

definition classify_state :: "string \<Rightarrow> leg_state option" where
  "classify_state c =
     (case map_of state_aliases c of
        Some st \<Rightarrow> Some st
      | None \<Rightarrow>
          if contains_any [''bridge'', ''transfer''] c then Some Leg_BRIDGED
          else if contains_any [''answer'', ''connect''] c then Some Leg_ANSWERED
          else if contains_any [''ring'', ''alert''] c then Some Leg_RINGING
          else if contains_any [''hangup'', ''hung'', ''disconnect'', ''terminat'', ''complet'', ''finish'', ''end''] c
            then Some Leg_TERMINATED
          else if contains_any [''fail'', ''busy'', ''unavailable'', ''no_answer'', ''reject''] c
            then Some Leg_FAILED
          else if contains_any [''appear'', ''start'', ''new'', ''initiat'', ''call''] c
            then Some Leg_INITIATING
          else None)"

fun first_state :: "string list \<Rightarrow> leg_state option" where
  "first_state [] = None"
| "first_state (c # cs) =
     (if c = [] then first_state cs
      else case classify_state c of Some st \<Rightarrow> Some st | None \<Rightarrow> first_state cs)"

definition extract_state :: "string option \<Rightarrow> payload \<Rightarrow> leg_state option" where
  "extract_state provider_type p =
     (let ks = [''status'', ''state'', ''call_state''];
          values = [str_or p ks, nested_str_or (dget p ''entry'') ks,
                    nested_str_or (dget p ''call'') ks, nested_str_or (dget p ''data'') ks]
      in first_state (normalize_state_key provider_type # map normalize_state_key (filter truthy values)))"

text \<open>The nested objects in turn, each under its own keys, then the top level.\<close>

definition first_truthy :: "string option list \<Rightarrow> string option" where
  "first_truthy xs = (case filter truthy xs of [] \<Rightarrow> None | x # _ \<Rightarrow> x)"

definition extract_leg_id :: "payload \<Rightarrow> string option" where
  "extract_leg_id p =
     first_truthy
       [nested_str_or (dget p ''entry'') [''id'', ''call_id'', ''uid'', ''entry_id''],
        nested_str_or (dget p ''call'') [''id'', ''call_id'', ''uid''],
        nested_str_or (dget p ''data'') [''call_id'', ''id'', ''uid'', ''recording_id''],
        str_or p [''leg_id'', ''call_id'', ''callId'', ''uid'', ''recording_id'', ''entry_id'',
                  ''manager_call_id'']]"

definition extract_command_id :: "payload \<Rightarrow> string option" where
  "extract_command_id p =
     (let ks = [''command_id'', ''request_id'', ''callback_id''] in
      first_truthy
       [nested_str_or (dget p ''entry'') ks, nested_str_or (dget p ''call'') ks,
        nested_str_or (dget p ''data'') ks, str_or p ks])"

definition extract_bridge_status :: "string option \<Rightarrow> payload \<Rightarrow> string option" where
  "extract_bridge_status provider_type p =
     (let candidate = lower (case provider_type of None \<Rightarrow> [] | Some s \<Rightarrow> s) in
      if contains_any [''bridge'', ''transfer''] candidate then
        (if contains ''fail'' candidate then Some ''bridge_failed''
         else if contains_any [''done'', ''finish'', ''ok'', ''bridged''] candidate
           then Some ''bridge_confirmed''
         else Some ''bridge_started'')
      else
        (case str_or p [''bridge_status'', ''transfer_status''] of
           None \<Rightarrow> None
         | Some explicit \<Rightarrow>
             (let lowered = lower explicit in
              if lowered \<in> {''bridged'', ''confirmed'', ''connected'', ''ok''} then Some ''bridge_confirmed''
              else if lowered \<in> {''failed'', ''error''} then Some ''bridge_failed''
              else if lowered \<in> {''started'', ''initiated''} then Some ''bridge_started''
              else None)))"

definition explicit_whisper_status :: "payload \<Rightarrow> string option" where
  "explicit_whisper_status p =
     (case str_or p [''whisper_status'', ''playback_status''] of
        None \<Rightarrow> None
      | Some explicit \<Rightarrow>
          (let lowered = lower explicit in
           if lowered \<in> {''started'', ''playing'', ''in_progress''} then Some ''whisper_started''
           else if lowered \<in> {''finished'', ''completed'', ''done''} then Some ''whisper_finished''
           else if lowered \<in> {''failed'', ''error''} then Some ''whisper_failed''
           else None))"

definition extract_whisper_status :: "string option \<Rightarrow> payload \<Rightarrow> string option" where
  "extract_whisper_status provider_type p =
     (let candidate = lower (case provider_type of None \<Rightarrow> [] | Some s \<Rightarrow> s) in
      if contains_any [''whisper'', ''playback'', ''play''] candidate then
        (if contains_any [''fail'', ''error''] candidate then Some ''whisper_failed''
         else if contains_any [''finish'', ''done'', ''complete''] candidate
           then Some ''whisper_finished''
         else if contains_any [''start'', ''begin'', ''playing''] candidate
           then Some ''whisper_started''
         else explicit_whisper_status p)
      else explicit_whisper_status p)"

definition extract_uuid_like :: "payload \<Rightarrow> string list \<Rightarrow> string option" where
  "extract_uuid_like p ks =
     (case str_or p ks of
        None \<Rightarrow> None
      | Some v \<Rightarrow> map_option uuid_str (uuid_of_string v))"

text \<open>A party given as an object with a number or as a plain string.\<close>

definition party_number :: "string list \<Rightarrow> json option \<Rightarrow> string option" where
  "party_number ks v =
     (case v of
        Some (JObj d) \<Rightarrow> str_or d ks
      | Some (JStr s) \<Rightarrow> if strip s \<noteq> [] then Some (strip s) else None
      | _ \<Rightarrow> None)"

definition dict_get :: "json option \<Rightarrow> string \<Rightarrow> json option" where
  "dict_get v k = (case as_dict v of None \<Rightarrow> None | Some d \<Rightarrow> dget d k)"

definition extract_call_parties :: "payload \<Rightarrow> string option \<times> string option" where
  "extract_call_parties p =
     (let from_n = str_or p [''from_number'', ''caller_number'', ''caller'', ''calling'', ''from''];
          to_n = str_or p [''to_number'', ''callee_number'', ''callee'', ''called'', ''to''];
          entry = dget p ''entry'';
          ks3 = [''number'', ''phone'', ''extension''];
          from_n = py_or from_n (party_number ks3 (dict_get entry ''from''));
          to_n = py_or to_n (party_number ks3 (dict_get entry ''to''));
          call = dget p ''call'';
          ks2 = [''number'', ''phone''];
          from_n = py_or from_n (party_number ks2 (dict_get call ''from''));
          to_n = py_or to_n (party_number ks2 (dict_get call ''to''))
      in (py_or from_n None, py_or to_n None))"

definition normalize_phone_candidate ::
    "(string \<Rightarrow> (app_error, string) result) \<Rightarrow> string option \<Rightarrow> string option" where
  "normalize_phone_candidate norm raw =
     (if \<not> truthy raw then None
      else case norm (the raw) of
             Inr s \<Rightarrow> Some s
           | Inl _ \<Rightarrow> if strip (the raw) \<noteq> [] then Some (strip (the raw)) else None)"

record mango_event =
  ev_provider_event_id :: string
  ev_provider_type :: string
  ev_leg_id :: "string option"
  ev_command_id :: "string option"
  ev_state :: "leg_state option"
  ev_call_id :: "string option"
  ev_transfer_id :: "string option"
  ev_role :: "string option"
  ev_bridge_status :: "string option"
  ev_whisper_status :: "string option"
  ev_from_number :: "string option"
  ev_to_number :: "string option"
  ev_raw_payload :: json

definition normalize_event :: "(payload \<Rightarrow> string) \<Rightarrow> payload \<Rightarrow> mango_event" where
  "normalize_event digest p =
     (let provider_type = str_or p [''event'', ''event_type'', ''type'', ''status''];
          provider_id = str_or p [''event_id'', ''id'', ''request_id'', ''uid''];
          (from_n, to_n) = extract_call_parties p
      in \<lparr>ev_provider_event_id = (case provider_id of None \<Rightarrow> digest p | Some s \<Rightarrow> s),
          ev_provider_type = (case provider_type of None \<Rightarrow> ''unknown'' | Some s \<Rightarrow> s),
          ev_leg_id = extract_leg_id p,
          ev_command_id = extract_command_id p,
          ev_state = extract_state provider_type p,
          ev_call_id = extract_uuid_like p [''internal_call_id'', ''call_id'', ''crm_call_id''],
          ev_transfer_id = extract_uuid_like p [''transfer_id'', ''internal_transfer_id''],
          ev_role = str_or p [''role'', ''leg_role'', ''party''],
          ev_bridge_status = extract_bridge_status provider_type p,
          ev_whisper_status = extract_whisper_status provider_type p,
          ev_from_number = from_n, ev_to_number = to_n,
          ev_raw_payload = JObj p\<rparr>)"

section \<open>The request guard\<close>

text \<open>
  \<open>gl_hmac\<close> is the hex HMAC-SHA256 of the body, \<open>gl_parse_ip\<close> and \<open>gl_parse_net\<close> are
  \<open>ipaddress.ip_address\<close> and \<open>ip_network(_, strict=False)\<close> with \<open>None\<close> for \<open>ValueError\<close>, and
  \<open>gl_in_net\<close> is membership.
\<close>

record ('b, 'ip, 'net) guard_lib =
  gl_hmac :: "string \<Rightarrow> 'b \<Rightarrow> string"
  gl_parse_ip :: "string \<Rightarrow> 'ip option"
  gl_parse_net :: "string \<Rightarrow> 'net option"
  gl_in_net :: "'ip \<Rightarrow> 'net \<Rightarrow> bool"

record guard_settings =
  gs_secret :: string
  gs_shared_secret :: string
  gs_allowlist :: string

fun split_on :: "char \<Rightarrow> string \<Rightarrow> string list" where
  "split_on d [] = [[]]"
| "split_on d (c # s) =
     (if c = d then [] # split_on d s
      else case split_on d s of [] \<Rightarrow> [[c]] | w # ws \<Rightarrow> (c # w) # ws)"

definition verify_sha256_signature ::
    "('b, 'ip, 'net) guard_lib \<Rightarrow> 'b \<Rightarrow> string \<Rightarrow> string \<Rightarrow> bool" where
  "verify_sha256_signature lib body header secret =
     (let incoming = strip header;
          incoming = (if startswith incoming ''sha256='' then drop 7 incoming else incoming)
      in gl_hmac lib secret body = incoming)"

fun ip_allowed :: "('b, 'ip, 'net) guard_lib \<Rightarrow> string \<Rightarrow> 'ip \<Rightarrow> string list \<Rightarrow> bool" where
  "ip_allowed lib source src [] = False"
| "ip_allowed lib source src (item # items) =
     (case gl_parse_net lib item of
        None \<Rightarrow> if source = item then True else ip_allowed lib source src items
      | Some net \<Rightarrow> if gl_in_net lib src net then True else ip_allowed lib source src items)"

definition allowlist_items :: "guard_settings \<Rightarrow> string list" where
  "allowlist_items cfg = filter (\<lambda>s. s \<noteq> []) (map strip (split_on (CHR '','') (gs_allowlist cfg)))"

definition verify_mango_webhook_guard ::
    "('b, 'ip, 'net) guard_lib \<Rightarrow> guard_settings \<Rightarrow> 'b \<Rightarrow> string option \<Rightarrow> string option
     \<Rightarrow> string option \<Rightarrow> bool \<times> string option" where
  "verify_mango_webhook_guard lib cfg body source_ip signature_header secret_header =
     (if gs_secret cfg \<noteq> [] \<and> \<not> truthy signature_header then (False, Some ''missing_signature'')
      else if gs_secret cfg \<noteq> []
              \<and> \<not> verify_sha256_signature lib body (the signature_header) (gs_secret cfg)
        then (False, Some ''invalid_signature'')
      else if gs_shared_secret cfg \<noteq> [] \<and> \<not> truthy secret_header
        then (False, Some ''missing_shared_secret'')
      else if gs_shared_secret cfg \<noteq> [] \<and> the secret_header \<noteq> gs_shared_secret cfg
        then (False, Some ''invalid_shared_secret'')
      else (let allowlist = allowlist_items cfg in
        if allowlist = [] then (True, None)
        else if \<not> truthy source_ip then (False, Some ''missing_source_ip'')
        else (case gl_parse_ip lib (the source_ip) of
                None \<Rightarrow> (False, Some ''invalid_source_ip'')
              | Some src \<Rightarrow>
                  if ip_allowed lib (the source_ip) src allowlist then (True, None)
                  else (False, Some ''ip_not_allowed''))))"

section \<open>Finding the call and the transfer\<close>

record mango_world =
  mw_db :: db
  mw_legs :: leg_store
  mw_corr :: corr_store

record mango_env =
  me_digest :: "payload \<Rightarrow> string"
  me_normalize :: "string \<Rightarrow> (app_error, string) result"
  me_now :: time

definition call_by_text :: "string \<Rightarrow> db \<Rightarrow> call option" where
  "call_by_text s d = (case uuid_of_string s of None \<Rightarrow> None | Some i \<Rightarrow> get_call_row i d)"

text \<open>A step of the search: taken only while no call is found and its key is there.\<close>

definition search_next ::
    "(app_error, call option) result \<Rightarrow> string option
     \<Rightarrow> (string \<Rightarrow> (app_error, call option) result) \<Rightarrow> (app_error, call option) result" where
  "search_next found key look =
     (case found of
        Inr None \<Rightarrow> if truthy key then look (the key) else Inr None
      | _ \<Rightarrow> found)"

definition correlate_by_store ::
    "corr_store \<Rightarrow> db \<Rightarrow> string option \<Rightarrow> mango_event \<Rightarrow> call option \<Rightarrow> mango_event \<times> call option" where
  "correlate_by_store cs d key ev call =
     (if call \<noteq> None \<or> \<not> truthy key then (ev, call)
      else case corr_get (the key) cs of
             None \<Rightarrow> (ev, call)
           | Some corr \<Rightarrow>
               if truthy (cs_call_id corr)
               then (ev\<lparr>ev_call_id := py_or (ev_call_id ev) (cs_call_id corr)\<rparr>,
                     call_by_text (the (cs_call_id corr)) d)
               else (ev, call))"

definition phone_candidates ::
    "(string \<Rightarrow> (app_error, string) result) \<Rightarrow> mango_event \<Rightarrow> string list" where
  "phone_candidates norm ev =
     (let cs = map (normalize_phone_candidate norm) [ev_to_number ev, ev_from_number ev]
      in fold (\<lambda>c acc. if truthy c \<and> the c \<notin> set acc then acc @ [the c] else acc) cs [])"

fun first_recent_call :: "time \<Rightarrow> db \<Rightarrow> string list \<Rightarrow> call option" where
  "first_recent_call now d [] = None"
| "first_recent_call now d (phone # ps) =
     (case get_recent_outbound_call_by_phone now phone 180 d of
        Some c \<Rightarrow> Some c
      | None \<Rightarrow> first_recent_call now d ps)"

definition correlate_recent_outbound_call :: "mango_env \<Rightarrow> db \<Rightarrow> mango_event \<Rightarrow> call option" where
  "correlate_recent_outbound_call env d ev =
     first_recent_call (me_now env) d (phone_candidates (me_normalize env) ev)"

definition get_transfer_by_manager_leg :: "string \<Rightarrow> db \<Rightarrow> transfer_record option" where
  "get_transfer_by_manager_leg leg d =
     latest (\<lambda>r. (t_created_at r, t_id r))
       (filter (\<lambda>r. t_manager_call_id r = Some leg) (transfers d))"

definition find_call ::
    "mango_env \<Rightarrow> mango_world \<Rightarrow> mango_event \<Rightarrow> (app_error, mango_event \<times> call option) result" where
  "find_call env w ev0 =
     (let d = mw_db w;
          by_id = (if truthy (ev_call_id ev0) then call_by_text (the (ev_call_id ev0)) d else None);
          by_leg = search_next (Inr by_id) (ev_leg_id ev0) (\<lambda>k. get_by_telephony_leg_id k d);
          by_cmd = search_next by_leg (ev_command_id ev0) (\<lambda>k. get_by_telephony_leg_id k d)
      in case by_cmd of
           Inl e \<Rightarrow> Inl e
         | Inr call0 \<Rightarrow>
             (let (ev1, call1) = correlate_by_store (mw_corr w) d (ev_command_id ev0) ev0 call0;
                  (ev2, call2) = correlate_by_store (mw_corr w) d (ev_leg_id ev0) ev1 call1
              in if call2 \<noteq> None then Inr (ev2, call2)
                 else case correlate_recent_outbound_call env d ev2 of
                        None \<Rightarrow> Inr (ev2, None)
                      | Some c \<Rightarrow>
                          (let ev3 = ev2\<lparr>ev_call_id := Some (uuid_str (c_id c))\<rparr>;
                               ev4 = (if truthy (ev_command_id ev3) then ev3
                                      else ev3\<lparr>ev_command_id :=
                                        find_mango_leg_id_by_call_id (uuid_str (c_id c)) (mw_corr w)\<rparr>)
                           in Inr (ev4, Some c))))"

definition find_transfer ::
    "db \<Rightarrow> mango_event \<Rightarrow> call option \<Rightarrow> call option \<times> transfer_record option" where
  "find_transfer d ev call0 =
     (let by_id = (if truthy (ev_transfer_id ev)
                   then (case uuid_of_string (the (ev_transfer_id ev)) of
                           None \<Rightarrow> None | Some i \<Rightarrow> get_transfer_row i d)
                   else None);
          (call1, tr1) =
            (if by_id = None \<and> truthy (ev_leg_id ev)
             then (case get_transfer_by_manager_leg (the (ev_leg_id ev)) d of
                     None \<Rightarrow> (call0, None)
                   | Some r \<Rightarrow> (if call0 = None then get_call_row (t_call_id r) d else call0, Some r))
             else (call0, by_id))
      in (call1,
          case (tr1, call1) of
            (None, Some c) \<Rightarrow> get_latest_for_call (c_id c) d
          | _ \<Rightarrow> tr1))"

definition correlate ::
    "mango_env \<Rightarrow> mango_world \<Rightarrow> mango_event
     \<Rightarrow> (app_error, mango_event \<times> call option \<times> transfer_record option) result" where
  "correlate env w ev =
     (case find_call env w ev of
        Inl e \<Rightarrow> Inl e
      | Inr (ev', call) \<Rightarrow>
          (let (call', tr) = find_transfer (mw_db w) ev' call in Inr (ev', call', tr)))"

section \<open>The effect on the call and the transfer\<close>

definition maybe_promote_real_telephony_leg :: "call \<Rightarrow> mango_event \<Rightarrow> call" where
  "maybe_promote_real_telephony_leg call ev =
     (if \<not> truthy (ev_leg_id ev) then call
      else (let current = strip (case c_telephony_leg_id call of None \<Rightarrow> [] | Some s \<Rightarrow> s) in
        if current \<noteq> [] \<and> Some current = ev_leg_id ev then call
        else if startswith current ''direct-'' \<or> current = []
          then call\<lparr>c_telephony_leg_id := ev_leg_id ev\<rparr> else call))"

definition apply_ringing :: "mango_event \<Rightarrow> call \<Rightarrow> db \<Rightarrow> call \<times> db" where
  "apply_ringing ev call d =
     (if ev_state ev = Some Leg_RINGING \<and> c_status call \<notin> terminal_statuses
         \<and> c_status call \<in> {CREATED, QUEUED, DIALING}
      then (let c = call\<lparr>c_status := RINGING\<rparr> in (c, save_call c d)) else (call, d))"

definition apply_answered :: "mango_event \<Rightarrow> call \<Rightarrow> db \<Rightarrow> call \<times> db" where
  "apply_answered ev call d =
     (if ev_state ev = Some Leg_ANSWERED \<and> c_status call \<notin> terminal_statuses
         \<and> c_status call \<in> {CREATED, QUEUED, DIALING, RINGING}
      then (let c = maybe_promote_real_telephony_leg (call\<lparr>c_status := IN_PROGRESS\<rparr>) ev
            in (c, save_call c d))
      else (call, d))"

definition apply_ended :: "time \<Rightarrow> mango_event \<Rightarrow> call \<Rightarrow> db \<Rightarrow> call \<times> db" where
  "apply_ended now ev call d =
     (if ev_state ev \<in> {Some Leg_TERMINATED, Some Leg_FAILED}
         \<and> c_status call \<notin> terminal_statuses \<and> c_status call \<noteq> CONNECTED_TO_MANAGER
      then (let c = (maybe_promote_real_telephony_leg call ev)\<lparr>
                      c_status := (if ev_state ev = Some Leg_FAILED then FAILED else COMPLETED),
                      c_completed_at := Some now\<rparr>
            in (c, save_call c d))
      else (call, d))"

definition apply_bridge ::
    "mango_event \<Rightarrow> call \<Rightarrow> transfer_record option \<Rightarrow> db \<Rightarrow> call \<times> transfer_record option \<times> db" where
  "apply_bridge ev call tr d =
     (case tr of
        Some r \<Rightarrow>
          if ev_bridge_status ev = Some ''bridge_confirmed''
             \<and> t_status r \<notin> {CONNECTED, CALLER_DROPPED, BRIDGE_FAILED, TIMED_OUT,
                              FAILED_ALL_UNAVAILABLE, FAILED_NO_ANSWER}
          then (let r' = r\<lparr>t_status := CONNECTED\<rparr>; c = call\<lparr>c_status := CONNECTED_TO_MANAGER\<rparr>
                in (c, Some r', save_call c (save_transfer r' d)))
          else (call, tr, d)
      | None \<Rightarrow> (call, tr, d))"

definition apply_whisper :: "mango_event \<Rightarrow> call \<Rightarrow> transfer_record option \<Rightarrow> db \<Rightarrow> call \<times> db" where
  "apply_whisper ev call tr d =
     (case tr of
        Some r \<Rightarrow>
          if ev_whisper_status ev = Some ''whisper_failed''
             \<and> t_status r \<notin> {CONNECTED, CALLER_DROPPED, BRIDGE_FAILED, TIMED_OUT}
          then (let r' = r\<lparr>t_status := BRIDGE_FAILED, t_failure_stage := Some ''briefing'',
                           t_fallback_message := Some ''Whisper playback failed by provider event''\<rparr>;
                    c = call\<lparr>c_status := STOPPED\<rparr>
                in (c, save_call c (save_transfer r' d)))
          else (call, d)
      | None \<Rightarrow> (call, d))"

definition apply_call_state ::
    "time \<Rightarrow> call option \<Rightarrow> transfer_record option \<Rightarrow> mango_event \<Rightarrow> db \<Rightarrow> db" where
  "apply_call_state now call tr ev d =
     (case call of
        None \<Rightarrow> d
      | Some c0 \<Rightarrow>
          (let (c1, d1) = apply_ringing ev c0 d;
               (c2, d2) = apply_answered ev c1 d1;
               (c3, d3) = apply_ended now ev c2 d2;
               (c4, tr4, d4) = apply_bridge ev c3 tr d3
           in snd (apply_whisper ev c4 tr4 d4)))"

section \<open>process\<close>

definition bridge_key :: "string \<Rightarrow> string \<Rightarrow> string" where
  "bridge_key customer_leg manager_leg = join_colon customer_leg manager_leg"

text \<open>What the event tells the two leg stores, under its leg id and its command id.\<close>

definition record_leg_event ::
    "mango_env \<Rightarrow> mango_event \<Rightarrow> leg_store \<Rightarrow> corr_store \<Rightarrow> leg_store \<times> corr_store" where
  "record_leg_event env ev ls cs =
     (if \<not> truthy (ev_leg_id ev) then (ls, cs)
      else (let leg = the (ev_leg_id ev); now = me_now env;
                alias = truthy (ev_command_id ev) \<and> ev_command_id ev \<noteq> ev_leg_id ev;
                cmd = the (ev_command_id ev)
            in case ev_state ev of
                 Some st \<Rightarrow>
                   (let set_to = (\<lambda>k s. snd (set_leg_state now k st (ev_call_id ev) (ev_transfer_id ev)
                                              (ev_role ev) (Some (ev_raw_payload ev)) s));
                        ls1 = set_to leg ls;
                        cs1 = snd (set_mango_state now leg st (ev_call_id ev) (Some (ev_raw_payload ev)) cs)
                    in if alias
                       then (set_to cmd ls1,
                             snd (upsert_mapping now cmd (ev_call_id ev) (Some leg) None cs1))
                       else (ls1, cs1))
               | None \<Rightarrow>
                   (let set_ctx = (\<lambda>k. set_leg_context now k (ev_call_id ev) (ev_transfer_id ev) (ev_role ev));
                        ls1 = set_ctx leg ls;
                        cs1 = snd (upsert_mapping now leg (ev_call_id ev) None None cs)
                    in if alias
                       then (set_ctx cmd ls1,
                             snd (upsert_mapping now cmd (ev_call_id ev) (Some leg) None cs1))
                       else (ls1, cs1))))"

definition record_op_status ::
    "mango_event \<Rightarrow> call option \<Rightarrow> transfer_record option \<Rightarrow> leg_store \<Rightarrow> leg_store" where
  "record_op_status ev call tr ls0 =
     (let ls1 = (case (call, tr) of
                   (Some c, Some r) \<Rightarrow>
                     if truthy (ev_bridge_status ev)
                     then set_bridge_status
                            (bridge_key (case py_or (c_telephony_leg_id c) (Some (uuid_str (c_id c))) of
                                           Some s \<Rightarrow> s | None \<Rightarrow> [])
                               (case t_manager_call_id r of None \<Rightarrow> [] | Some s \<Rightarrow> s))
                            (the (ev_bridge_status ev)) ls0
                     else ls0
                 | _ \<Rightarrow> ls0)
      in if truthy (ev_whisper_status ev) \<and> truthy (ev_leg_id ev)
         then set_whisper_status (the (ev_leg_id ev)) (the (ev_whisper_status ev)) ls1 else ls1)"

text \<open>The ids of the call and the transfer, when the payload did not have them.\<close>

definition complete_event :: "mango_event \<Rightarrow> call option \<Rightarrow> transfer_record option \<Rightarrow> mango_event" where
  "complete_event ev call tr =
     (let ev' = (case call of
                   Some c \<Rightarrow> if ev_call_id ev = None
                             then ev\<lparr>ev_call_id := Some (uuid_str (c_id c))\<rparr> else ev
                 | None \<Rightarrow> ev)
      in case tr of
           Some r \<Rightarrow> if ev_transfer_id ev' = None
                     then ev'\<lparr>ev_transfer_id := Some (uuid_str (t_id r))\<rparr> else ev'
         | None \<Rightarrow> ev')"

definition process_event ::
    "mango_env \<Rightarrow> payload \<Rightarrow> mango_world \<Rightarrow> (app_error, mango_event) result \<times> mango_world" where
  "process_event env p w0 =
     (let ev0 = normalize_event (me_digest env) p;
          (new, ls) = mark_event_seen (ev_provider_event_id ev0) (mw_legs w0);
          w1 = w0\<lparr>mw_legs := ls\<rparr>
      in if \<not> new then (Inr ev0, w1)
         else case correlate env w1 ev0 of
                Inl e \<Rightarrow> (Inl e, w1)
              | Inr (ev1, call, tr) \<Rightarrow>
                  (let ev3 = complete_event ev1 call tr;
                       (ls2, cs2) = record_leg_event env ev3 (mw_legs w1) (mw_corr w1);
                       ls3 = record_op_status ev3 call tr ls2
                   in (Inr ev3, \<lparr>mw_db = apply_call_state (me_now env) call tr ev3 (mw_db w1),
                                 mw_legs = ls3, mw_corr = cs2\<rparr>)))"

section \<open>The guard\<close>

lemma ip_allowed_iff:
  "ip_allowed lib source src items \<longleftrightarrow>
     (\<exists>item\<in>set items. case gl_parse_net lib item of
        None \<Rightarrow> source = item | Some net \<Rightarrow> gl_in_net lib src net)"
proof (induction items)
  case (Cons item items)
  then show ?case by (cases "gl_parse_net lib item") auto
qed simp

text \<open>
  The webhook guard is a conjunction. A request is accepted, with no reason, exactly when
  every configured check passes: with a secret, the signature header is there and is the HMAC of
  the body; with a shared secret, the header is that secret; with a nonempty allow list, the
  source address parses and equals or lies in some entry. With nothing configured everything is
  accepted; every rejection has a reason.
\<close>

theorem webhook_guard_conjunction:
  "(fst (verify_mango_webhook_guard lib cfg body ip sig hdr)
     \<longleftrightarrow> (gs_secret cfg \<noteq> [] \<longrightarrow>
            (\<exists>h. sig = Some h \<and> h \<noteq> [] \<and> verify_sha256_signature lib body h (gs_secret cfg)))
       \<and> (gs_shared_secret cfg \<noteq> [] \<longrightarrow> hdr = Some (gs_shared_secret cfg))
       \<and> (allowlist_items cfg \<noteq> [] \<longrightarrow>
            (\<exists>s src item. ip = Some s \<and> s \<noteq> [] \<and> gl_parse_ip lib s = Some src
               \<and> item \<in> set (allowlist_items cfg)
               \<and> (case gl_parse_net lib item of None \<Rightarrow> s = item | Some net \<Rightarrow> gl_in_net lib src net))))
   \<and> (fst (verify_mango_webhook_guard lib cfg body ip sig hdr)
       \<longleftrightarrow> snd (verify_mango_webhook_guard lib cfg body ip sig hdr) = None)"
proof
  show "fst (verify_mango_webhook_guard lib cfg body ip sig hdr)
     \<longleftrightarrow> snd (verify_mango_webhook_guard lib cfg body ip sig hdr) = None"
    by (simp add: verify_mango_webhook_guard_def Let_def split: option.split)
qed (unfold verify_mango_webhook_guard_def Let_def ip_allowed_iff,
    cases sig; cases hdr; cases ip; auto split: option.splits if_splits)

section \<open>Duplicates\<close>

lemma record_leg_event_seen [simp]:
  "seen_events (fst (record_leg_event env ev ls cs)) = seen_events ls"
  by (simp add: record_leg_event_def Let_def set_leg_state_def set_leg_context_def split: option.split)

lemma record_op_status_seen [simp]: "seen_events (record_op_status ev call tr ls) = seen_events ls"
  by (simp add: record_op_status_def Let_def set_bridge_status_def set_whisper_status_def
      split: option.split)

lemma process_event_seen:
  "seen_events (mw_legs (snd (process_event env p w)))
     = insert (ev_provider_event_id (normalize_event (me_digest env) p)) (seen_events (mw_legs w))"
  by (auto simp: process_event_def Let_def mark_event_seen_def case_prod_beta split: sum.split)

fun process_all :: "(mango_env \<times> payload) list \<Rightarrow> mango_world \<Rightarrow> mango_world" where
  "process_all [] w = w"
| "process_all ((env, p) # ps) w = process_all ps (snd (process_event env p w))"

lemma process_all_seen: "seen_events (mw_legs w) \<subseteq> seen_events (mw_legs (process_all ps w))"
proof (induction ps w rule: process_all.induct)
  case (2 env p ps w)
  then show ?case using process_event_seen [of env p w] by auto
qed simp

text \<open>
  C2. Webhook delivery is idempotent: once a payload was processed, a payload with the same
  event id changes nothing, neither the database nor the leg stores, no matter how many other
  events were processed in between, and it is answered with its own normalised event.
\<close>

theorem webhook_event_once:
  assumes "ev_provider_event_id (normalize_event (me_digest env') q)
           = ev_provider_event_id (normalize_event (me_digest env) p)"
    and "w1 = process_all ps (snd (process_event env p w))"
  shows "process_event env' q w1 = (Inr (normalize_event (me_digest env') q), w1)"
proof -
  have "ev_provider_event_id (normalize_event (me_digest env') q) \<in> seen_events (mw_legs w1)"
    using process_all_seen [of "snd (process_event env p w)" ps] process_event_seen [of env p w] assms
    by auto
  then show ?thesis by (simp add: process_event_def Let_def mark_event_seen_def)
qed

theorem webhook_guard_conjunction_witness:
  "\<not> fst (verify_mango_webhook_guard
      \<lparr>gl_hmac = (\<lambda>s b. ''abc''), gl_parse_ip = Some, gl_parse_net = (\<lambda>_. None), gl_in_net = (=)\<rparr>
      \<lparr>gs_secret = [], gs_shared_secret = ''s3'', gs_allowlist = []\<rparr> () None None (Some ''bad''))"
  using webhook_guard_conjunction [of
      "\<lparr>gl_hmac = (\<lambda>s b. ''abc''), gl_parse_ip = Some, gl_parse_net = (\<lambda>_. None), gl_in_net = (=)\<rparr>"
      "\<lparr>gs_secret = [], gs_shared_secret = ''s3'', gs_allowlist = []\<rparr>" "()" None None "Some ''bad''"]
  by simp

definition demo_mango_env :: mango_env where
  "demo_mango_env = \<lparr>me_digest = (\<lambda>_. ''d''), me_normalize = Inr, me_now = 50\<rparr>"

definition demo_call_row :: "uuid \<Rightarrow> call_status \<Rightarrow> string option \<Rightarrow> call" where
  "demo_call_row i st leg =
     \<lparr>c_id = i, c_created_at = 0, c_phone = ''+7999'', c_mode = DIRECT, c_status = st,
      c_agent_profile_id = None, c_manager_id = None, c_vapi_call_id = None, c_mango_call_id = None,
      c_route_used = None, c_telephony_leg_id = leg, c_transcript = None, c_summary = None,
      c_sentiment = None, c_completed_at = None, c_runtime_context = None\<rparr>"

definition demo_mango_world :: "call list \<Rightarrow> transfer_record list \<Rightarrow> mango_world" where
  "demo_mango_world cs rs =
     \<lparr>mw_db = empty_db\<lparr>calls := cs, transfers := rs\<rparr>, mw_legs = empty_leg_store,
      mw_corr = empty_corr_store\<rparr>"

theorem webhook_event_once_witness:
  "let p = [(''event'', JStr ''call_ringing''), (''uid'', JStr ''u1'')];
       w1 = snd (process_event demo_mango_env p (demo_mango_world [demo_call_row 1 QUEUED (Some ''u1'')] []))
   in snd (process_event demo_mango_env p w1) = w1"
proof -
  let ?p = "[(''event'', JStr ''call_ringing''), (''uid'', JStr ''u1'')]"
  let ?w = "demo_mango_world [demo_call_row 1 QUEUED (Some ''u1'')] []"
  show ?thesis
    using webhook_event_once [OF refl refl, of demo_mango_env ?p "[]" ?w] by (simp add: Let_def)
qed

section \<open>What an event does to the status of a call\<close>

text \<open>The rows of one call before and after a step of \<open>apply_call_state\<close>.\<close>

definition moves :: "uuid \<Rightarrow> call \<Rightarrow> db \<Rightarrow> call \<Rightarrow> db \<Rightarrow> bool" where
  "moves i c d c' d' \<longleftrightarrow> c_id c' = c_id c \<and> c_id c = i \<and> get_call_row i d' = Some c'
     \<and> (\<forall>j. j \<noteq> i \<longrightarrow> get_call_row j d' = get_call_row j d)"

lemma moves_save: "moves i c d c d \<Longrightarrow> c_id c' = c_id c \<Longrightarrow> moves i c d c' (save_call c' d)"
  by (simp add: moves_def)

lemma promote_simps [simp]:
  "c_id (maybe_promote_real_telephony_leg c ev) = c_id c"
  "c_status (maybe_promote_real_telephony_leg c ev) = c_status c"
  "c_completed_at (maybe_promote_real_telephony_leg c ev) = c_completed_at c"
  by (simp_all add: maybe_promote_real_telephony_leg_def Let_def)

text \<open>What the statuses of a call may be after the first three steps, and after the last two.\<close>

definition forward :: "call_status \<Rightarrow> call_status \<Rightarrow> bool" where
  "forward s s' \<longleftrightarrow> status_rank s \<le> status_rank s' \<and> (s \<in> terminal_statuses \<longrightarrow> s' = s)"

lemma forward_refl [simp]: "forward s s" and forward_trans: "forward s t \<Longrightarrow> forward t u \<Longrightarrow> forward s u"
  by (auto simp: forward_def)

lemma apply_ringing_moves:
  assumes "get_call_row i d = Some c" "c_id c = i" "apply_ringing ev c d = (c', d')"
  shows "moves i c d c' d' \<and> forward (c_status c) (c_status c') \<and> transfers d' = transfers d"
  using assms by (auto simp: apply_ringing_def moves_def forward_def Let_def split: if_splits)

lemma apply_answered_moves:
  assumes "get_call_row i d = Some c" "c_id c = i" "apply_answered ev c d = (c', d')"
  shows "moves i c d c' d' \<and> forward (c_status c) (c_status c') \<and> transfers d' = transfers d"
  using assms by (auto simp: apply_answered_def moves_def forward_def Let_def split: if_splits)

lemma forward_end:
  "s \<notin> terminal_statuses \<Longrightarrow> s' \<in> terminal_statuses \<Longrightarrow> forward s s'"
  by (cases s; cases s') (simp_all add: forward_def)

lemma apply_ended_moves:
  assumes "get_call_row i d = Some c" "c_id c = i" "apply_ended now ev c d = (c', d')"
  shows "moves i c d c' d' \<and> forward (c_status c) (c_status c') \<and> transfers d' = transfers d"
  using assms by (auto simp: apply_ended_def moves_def Let_def intro!: forward_end split: if_splits)

lemma apply_bridge_moves:
  assumes "get_call_row i d = Some c" "c_id c = i" "apply_bridge ev c tr d = (c', tr', d')"
  shows "moves i c d c' d' \<and> (c' = c \<or> c_status c' = CONNECTED_TO_MANAGER
            \<and> ev_bridge_status ev = Some ''bridge_confirmed'' \<and> (\<exists>r. tr' = Some r \<and> t_status r = CONNECTED))"
  using assms
  by (auto simp: apply_bridge_def moves_def Let_def split: if_splits option.splits)

lemma apply_whisper_moves:
  assumes "get_call_row i d = Some c" "c_id c = i" "apply_whisper ev c tr d = (c', d')"
  shows "moves i c d c' d' \<and> (c' = c \<or> c_status c' = STOPPED
            \<and> ev_whisper_status ev = Some ''whisper_failed'' \<and> (\<exists>r. tr = Some r \<and> t_status r \<noteq> CONNECTED))"
  using assms
  by (auto simp: apply_whisper_def moves_def Let_def split: if_splits option.splits)

lemma moves_trans: "moves i c d c' d' \<Longrightarrow> moves i c' d' c'' d'' \<Longrightarrow> moves i c d c'' d''"
  by (simp add: moves_def)

lemma moves_row: "moves i c d c' d' \<Longrightarrow> get_call_row i d' = Some c' \<and> c_id c' = i"
  by (simp add: moves_def)

lemma apply_call_state_moves:
  assumes "get_call_row i d = Some c" "c_id c = i"
  shows "\<exists>c'. moves i c d c' (apply_call_state now (Some c) tr ev d)
    \<and> (forward (c_status c) (c_status c')
       \<or> c_status c' = CONNECTED_TO_MANAGER \<and> ev_bridge_status ev = Some ''bridge_confirmed''
       \<or> c_status c' = STOPPED \<and> ev_whisper_status ev = Some ''whisper_failed'')"
proof -
  obtain c1 d1 where 1: "apply_ringing ev c d = (c1, d1)" by (cases "apply_ringing ev c d")
  obtain c2 d2 where 2: "apply_answered ev c1 d1 = (c2, d2)" by (cases "apply_answered ev c1 d1")
  obtain c3 d3 where 3: "apply_ended now ev c2 d2 = (c3, d3)" by (cases "apply_ended now ev c2 d2")
  obtain c4 tr4 d4 where 4: "apply_bridge ev c3 tr d3 = (c4, tr4, d4)" by (cases "apply_bridge ev c3 tr d3")
  obtain c5 d5 where 5: "apply_whisper ev c4 tr4 d4 = (c5, d5)" by (cases "apply_whisper ev c4 tr4 d4")
  have m1: "moves i c d c1 d1" "forward (c_status c) (c_status c1)"
    using apply_ringing_moves [OF assms 1] by auto
  have m2: "moves i c1 d1 c2 d2" "forward (c_status c1) (c_status c2)"
    using apply_answered_moves [of i d1 c1 ev c2 d2] moves_row [OF m1(1)] 2 by auto
  have m3: "moves i c2 d2 c3 d3" "forward (c_status c2) (c_status c3)"
    using apply_ended_moves [of i d2 c2 now ev c3 d3] moves_row [OF m2(1)] 3 by auto
  have m4: "moves i c3 d3 c4 d4" and s4: "c4 = c3 \<or> c_status c4 = CONNECTED_TO_MANAGER
      \<and> ev_bridge_status ev = Some ''bridge_confirmed''"
    using apply_bridge_moves [of i d3 c3 ev tr c4 tr4 d4] moves_row [OF m3(1)] 4 by auto
  have m5: "moves i c4 d4 c5 d5" and s5: "c5 = c4 \<or> c_status c5 = STOPPED
      \<and> ev_whisper_status ev = Some ''whisper_failed''"
    using apply_whisper_moves [of i d4 c4 ev tr4 c5 d5] moves_row [OF m4] 5 by auto
  have "forward (c_status c) (c_status c3)" using m1 m2 m3 forward_trans by blast
  moreover have "moves i c d c5 d5" using m1 m2 m3 m4 m5 moves_trans by blast
  moreover have "apply_call_state now (Some c) tr ev d = d5"
    using 1 2 3 4 5 by (simp add: apply_call_state_def Let_def)
  ultimately show ?thesis using s4 s5 by auto
qed

lemma get_by_telephony_leg_id_stored:
  "get_by_telephony_leg_id k d = Inr (Some c) \<Longrightarrow> c \<in> set (calls d)"
  unfolding get_by_telephony_leg_id_def by (drule one_or_none_Some) simp

lemma call_by_text_stored: "call_by_text s d = Some c \<Longrightarrow> c \<in> set (calls d)"
  by (auto simp: call_by_text_def get_call_row_def split: option.splits dest: find_row_in)

lemma search_next_stored:
  assumes "search_next found key look = Inr (Some c)" "found = Inr (Some c) \<Longrightarrow> P c"
    "\<And>k. look k = Inr (Some c) \<Longrightarrow> P c"
  shows "P c"
  using assms by (auto simp: search_next_def split: sum.splits option.splits if_splits)

text \<open>The search only ever completes the event's call id and command id.\<close>

definition same_event :: "mango_event \<Rightarrow> mango_event \<Rightarrow> bool" where
  "same_event a b \<longleftrightarrow> ev_bridge_status a = ev_bridge_status b
     \<and> ev_whisper_status a = ev_whisper_status b \<and> ev_state a = ev_state b
     \<and> ev_leg_id a = ev_leg_id b"

lemma correlate_by_store_stored:
  assumes "correlate_by_store cs d key ev call = (ev', call')"
    and "\<And>c. call = Some c \<Longrightarrow> c \<in> set (calls d)"
  shows "same_event ev' ev \<and> (\<forall>c. call' = Some c \<longrightarrow> c \<in> set (calls d))"
  using assms call_by_text_stored
  by (auto simp: correlate_by_store_def same_event_def split: if_splits option.splits)

lemma first_recent_call_stored: "first_recent_call now d ps = Some c \<Longrightarrow> c \<in> set (calls d)"
  by (induction ps)
    (auto simp: get_recent_outbound_call_by_phone_def Let_def split: option.splits dest!: latest_in)

lemma same_event_trans: "same_event a b \<Longrightarrow> same_event b c \<Longrightarrow> same_event a c"
  by (simp add: same_event_def)

lemma find_call_stored:
  assumes "find_call env w ev = Inr (ev', call)"
  shows "same_event ev' ev \<and> (\<forall>c. call = Some c \<longrightarrow> c \<in> set (calls (mw_db w)))"
proof -
  let ?d = "mw_db w"
  let ?by_id = "if truthy (ev_call_id ev) then call_by_text (the (ev_call_id ev)) ?d else None"
  let ?look = "\<lambda>k. get_by_telephony_leg_id k ?d"
  let ?by_cmd = "search_next (search_next (Inr ?by_id) (ev_leg_id ev) ?look) (ev_command_id ev) ?look"
  have by_id: "?by_id = Some c \<Longrightarrow> c \<in> set (calls ?d)" for c
    using call_by_text_stored by (auto split: if_splits)
  obtain call0 where c0: "?by_cmd = Inr call0"
    using assms by (cases ?by_cmd) (auto simp: find_call_def Let_def)
  have s0: "c \<in> set (calls ?d)" if "call0 = Some c" for c
  proof -
    have "?by_cmd = Inr (Some c)" using c0 that by simp
    then show ?thesis
    proof (rule search_next_stored)
      assume "search_next (Inr ?by_id) (ev_leg_id ev) ?look = Inr (Some c)"
      then show "c \<in> set (calls ?d)"
        by (rule search_next_stored) (use by_id get_by_telephony_leg_id_stored in auto)
    qed (rule get_by_telephony_leg_id_stored)
  qed
  obtain ev1 call1 where 1: "correlate_by_store (mw_corr w) ?d (ev_command_id ev) ev call0 = (ev1, call1)"
    by (cases "correlate_by_store (mw_corr w) ?d (ev_command_id ev) ev call0")
  obtain ev2 call2 where 2: "correlate_by_store (mw_corr w) ?d (ev_leg_id ev) ev1 call1 = (ev2, call2)"
    by (cases "correlate_by_store (mw_corr w) ?d (ev_leg_id ev) ev1 call1")
  note s1 = correlate_by_store_stored [OF 1 s0]
  have s2: "same_event ev2 ev1 \<and> (\<forall>c. call2 = Some c \<longrightarrow> c \<in> set (calls ?d))"
    by (rule correlate_by_store_stored [OF 2]) (use s1 in blast)
  show ?thesis
    using assms c0 1 2 s1 s2 same_event_trans first_recent_call_stored
    by (auto simp: find_call_def correlate_recent_outbound_call_def Let_def same_event_def
        split: if_splits option.splits)
qed

lemma find_transfer_stored:
  assumes "find_transfer d ev call0 = (call, tr)" "\<And>c. call0 = Some c \<Longrightarrow> c \<in> set (calls d)"
  shows "\<forall>c. call = Some c \<longrightarrow> c \<in> set (calls d)"
  using assms
  by (auto simp: find_transfer_def Let_def get_call_row_def split: prod.splits if_splits option.splits
      dest: find_row_in)

lemma correlate_stored:
  assumes "correlate env w ev = Inr (ev', call, tr)"
  shows "same_event ev' ev \<and> (\<forall>c. call = Some c \<longrightarrow> c \<in> set (calls (mw_db w)))"
  using assms find_call_stored [of env w ev] find_transfer_stored [of "mw_db w"]
  by (auto simp: correlate_def split: sum.splits prod.splits)

lemma complete_event_same: "same_event (complete_event ev call tr) ev"
  by (auto simp: complete_event_def same_event_def Let_def split: option.split)

text \<open>
  C3. What a webhook event can do to a call. Whatever the payload, every stored call is still
  stored afterwards, and its status either moved forward in the lifecycle (never back, and never
  out of a terminal status), or the event confirmed a bridge and the call is
  \<open>CONNECTED_TO_MANAGER\<close>, or the event reported a failed whisper and the call is \<open>STOPPED\<close>.
  At most one call changes.
\<close>

theorem webhook_moves_call_forward:
  assumes "calls_wf (mw_db w)" and "process_event env p w = (r, w')"
  shows "(\<forall>i c. get_call_row i (mw_db w) = Some c \<longrightarrow>
      (\<exists>c'. get_call_row i (mw_db w') = Some c'
        \<and> (forward (c_status c) (c_status c')
           \<or> c_status c' = CONNECTED_TO_MANAGER
             \<and> ev_bridge_status (normalize_event (me_digest env) p) = Some ''bridge_confirmed''
           \<or> c_status c' = STOPPED
             \<and> ev_whisper_status (normalize_event (me_digest env) p) = Some ''whisper_failed'')))
    \<and> (\<exists>k. \<forall>i. i \<noteq> k \<longrightarrow> get_call_row i (mw_db w') = get_call_row i (mw_db w))"
proof -
  let ?ev = "normalize_event (me_digest env) p"
  show ?thesis
  proof (cases "mw_db w' = mw_db w")
    case True
    then show ?thesis by auto
  next
    case False
    then obtain ls ev1 call tr where corr: "correlate env (w\<lparr>mw_legs := ls\<rparr>) ?ev = Inr (ev1, call, tr)"
      and db: "mw_db w' = apply_call_state (me_now env) call tr (complete_event ev1 call tr) (mw_db w)"
      using assms(2)
      by (auto simp: process_event_def Let_def mark_event_seen_def
          split: sum.splits if_splits prod.splits)
    let ?ev3 = "complete_event ev1 call tr"
    from correlate_stored [OF corr] have same: "same_event ev1 ?ev"
      and stored: "call = Some c \<Longrightarrow> c \<in> set (calls (mw_db w))" for c by auto
    from False db obtain c where c: "call = Some c" by (cases call) (simp_all add: apply_call_state_def)
    have row: "get_call_row (c_id c) (mw_db w) = Some c"
      using calls_wf_row [OF assms(1) stored [OF c]] .
    obtain c' where c': "moves (c_id c) c (mw_db w) c' (mw_db w')"
      "forward (c_status c) (c_status c')
       \<or> c_status c' = CONNECTED_TO_MANAGER \<and> ev_bridge_status ?ev3 = Some ''bridge_confirmed''
       \<or> c_status c' = STOPPED \<and> ev_whisper_status ?ev3 = Some ''whisper_failed''"
      using apply_call_state_moves [OF row refl, of "me_now env" tr ?ev3] db c by auto
    have "ev_bridge_status ?ev3 = ev_bridge_status ?ev" "ev_whisper_status ?ev3 = ev_whisper_status ?ev"
      using same complete_event_same [of ev1 call tr] by (simp_all add: same_event_def)
    note ev = this
    have others: "get_call_row j (mw_db w') = get_call_row j (mw_db w)" if "j \<noteq> c_id c" for j
      using c'(1) that by (simp add: moves_def)
    have "\<exists>c'. get_call_row i (mw_db w') = Some c'
        \<and> (forward (c_status a) (c_status c')
           \<or> c_status c' = CONNECTED_TO_MANAGER \<and> ev_bridge_status ?ev = Some ''bridge_confirmed''
           \<or> c_status c' = STOPPED \<and> ev_whisper_status ?ev = Some ''whisper_failed'')"
      if a: "get_call_row i (mw_db w) = Some a" for i a
    proof (cases "i = c_id c")
      case True
      with a row have "a = c" by simp
      with True c' ev show ?thesis by (simp add: moves_def)
    next
      case False
      with others a have "get_call_row i (mw_db w') = Some a" by simp
      then show ?thesis by (intro exI [of _ a]) simp
    qed
    with others show ?thesis by blast
  qed
qed

theorem webhook_moves_call_forward_witness:
  "\<exists>c'. get_call_row 1 (mw_db (snd (process_event demo_mango_env
        [(''event_id'', JStr ''e1''), (''event'', JStr ''call_answered''), (''uid'', JStr ''u1'')]
        (demo_mango_world [demo_call_row 1 QUEUED (Some ''u1'')] [])))) = Some c'
     \<and> (forward QUEUED (c_status c') \<or> c_status c' \<in> {CONNECTED_TO_MANAGER, STOPPED})"
proof -
  let ?p = "[(''event_id'', JStr ''e1''), (''event'', JStr ''call_answered''), (''uid'', JStr ''u1'')]"
  let ?w = "demo_mango_world [demo_call_row 1 QUEUED (Some ''u1'')] []"
  have wf: "calls_wf (mw_db ?w)" by (simp add: calls_wf_def demo_mango_world_def)
  have row: "get_call_row 1 (mw_db ?w) = Some (demo_call_row 1 QUEUED (Some ''u1''))"
    by (simp add: get_call_row_def demo_mango_world_def demo_call_row_def)
  obtain r w' where run: "process_event demo_mango_env ?p ?w = (r, w')"
    by (cases "process_event demo_mango_env ?p ?w")
  have "c_status (demo_call_row 1 QUEUED (Some ''u1'')) = QUEUED" by (simp add: demo_call_row_def)
  with webhook_moves_call_forward [OF wf run] row run show ?thesis by fastforce
qed

section \<open>Concrete runs that show divergences\<close>

text \<open>
  The tokens are tested in an order that lets \<open>connect\<close> match inside \<open>disconnect\<close>, and
  \<open>transfer\<close> inside \<open>transfer_failed\<close>.
\<close>

lemma disconnect_classified_as_answer:
  "classify_state ''call_disconnected'' = Some Leg_ANSWERED"
  "classify_state ''disconnect'' = Some Leg_ANSWERED"
  "classify_state ''transfer_failed'' = Some Leg_BRIDGED"
  by code_simp+

text \<open>
  Without an \<open>event_id\<close>, the event's id falls back to \<open>request_id\<close> or \<open>uid\<close>, which are also read
  as the command's and the leg's id: the second event of such a leg counts as a duplicate.
\<close>

lemma same_leg_same_event_id:
  "ev_provider_event_id (normalize_event dg [(''event'', JStr ''call_ringing''), (''uid'', JStr ''u1'')])
     = ev_provider_event_id (normalize_event dg [(''event'', JStr ''call_answered''), (''uid'', JStr ''u1'')])"
  "ev_state (normalize_event dg [(''event'', JStr ''call_ringing''), (''uid'', JStr ''u1'')]) = Some Leg_RINGING"
  "ev_state (normalize_event dg [(''event'', JStr ''call_answered''), (''uid'', JStr ''u1'')]) = Some Leg_ANSWERED"
  by code_simp+

text \<open>A confirmed bridge takes a call out of a terminal status while its transfer is open.\<close>

lemma terminal_call_reconnected:
  "\<exists>c. get_call_row 1 (apply_call_state 9 (Some (demo_call_row 1 COMPLETED None))
      (Some (\<lparr>t_id = 2, t_created_at = 0, t_call_id = 1, t_manager_id = None, t_status = BRIEFING,
        t_summary = None, t_whisper_text = None, t_manager_call_id = Some ''m'', t_attempt_count = 1,
        t_department = None, t_fallback_message = None, t_failure_stage = None\<rparr>))
      ((normalize_event dg [])\<lparr>ev_bridge_status := Some ''bridge_confirmed'', ev_state := None,
         ev_whisper_status := None\<rparr>) d)
     = Some c \<and> c_status c = CONNECTED_TO_MANAGER"
  by (simp add: apply_call_state_def apply_ringing_def apply_answered_def apply_ended_def
      apply_bridge_def apply_whisper_def demo_call_row_def Let_def)

end
