(* ===== verification/VapiEvents.thy ===== *)
theory VapiEvents
  imports Database
begin

text \<open>
  The Vapi webhook: \<open>VapiEventProcessor\<close> of \<open>app/integrations/vapi/event_processor.py\<close> with the
  message schemas of \<open>app/integrations/vapi/schemas.py\<close>. Validation by pydantic is the argument
  \<open>vp_valid\<close> (a message is refused also when a field that the handler reads does not have the
  type of the schema); \<open>vp_str\<close> is \<open>str()\<close> of a value that is not a string and \<open>vp_hmac\<close> the
  HMAC-SHA256. An exception inside a handler is caught and logged with the event, one before the
  event is logged leaves \<open>process\<close>; both are results here.

  The lemmas show that a call in a terminal status is never touched again, which events are logged (those
  that can be read, once) and which raise, and how an end-of-call report settles a call.
\<close>

section \<open>Schemas and constants\<close>

datatype vapi_status = Vapi_QUEUED | Vapi_RINGING | Vapi_IN_PROGRESS | Vapi_FORWARDING | Vapi_ENDED

fun vapi_status_value :: "vapi_status \<Rightarrow> string" where
  "vapi_status_value Vapi_QUEUED = ''queued''"
| "vapi_status_value Vapi_RINGING = ''ringing''"
| "vapi_status_value Vapi_IN_PROGRESS = ''in-progress''"
| "vapi_status_value Vapi_FORWARDING = ''forwarding''"
| "vapi_status_value Vapi_ENDED = ''ended''"

definition vapi_status_of :: "string \<Rightarrow> vapi_status option" where
  "vapi_status_of s = find (\<lambda>v. vapi_status_value v = s)
     [Vapi_QUEUED, Vapi_RINGING, Vapi_IN_PROGRESS, Vapi_FORWARDING, Vapi_ENDED]"

fun status_map :: "vapi_status \<Rightarrow> call_status option" where
  "status_map Vapi_QUEUED = Some QUEUED"
| "status_map Vapi_RINGING = Some RINGING"
| "status_map Vapi_IN_PROGRESS = Some IN_PROGRESS"
| "status_map Vapi_FORWARDING = Some TRANSFERRING"
| "status_map Vapi_ENDED = Some COMPLETED"

definition failure_reasons :: "string set" where
  "failure_reasons = {''error'', ''error-vapifault'', ''error-licensequota'', ''error-validation-failed'',
     ''pipeline-error'', ''silence-timed-out'', ''voicemail''}"

datatype vapi_schema = TranscriptMessage | StatusUpdateMessage | EndOfCallMessage

record vapi_env =
  vp_valid :: "vapi_schema \<Rightarrow> (string \<times> json) list \<Rightarrow> bool"
  vp_str :: "json \<Rightarrow> string"
  vp_now :: time

definition validation_error :: app_error where
  "validation_error = OtherError ''validation error''"

definition verify_webhook_signature :: "(string \<Rightarrow> 'b \<Rightarrow> string) \<Rightarrow> 'b \<Rightarrow> string \<Rightarrow> string \<Rightarrow> bool" where
  "verify_webhook_signature hmac body header secret =
     (if \<not> startswith header ''sha256='' then False else hmac secret body = drop 7 header)"

definition map_role :: "string \<Rightarrow> transcript_role" where
  "map_role vapi_role =
     (case map_of [(''assistant'', ASSISTANT), (''user'', USER), (''system'', SYSTEM), (''tool'', TOOL),
                   (''function'', TOOL), (''bot'', ASSISTANT)] (lower vapi_role) of
        Some r \<Rightarrow> r | None \<Rightarrow> ASSISTANT)"

section \<open>Handlers\<close>

type_synonym message = "(string \<times> json) list"
type_synonym handler_result = "(app_error, unit) result \<times> db"

definition handle_transcript :: "vapi_env \<Rightarrow> message \<Rightarrow> call option \<Rightarrow> db \<Rightarrow> handler_result" where
  "handle_transcript env msg call d =
     (case call of
        None \<Rightarrow> (Inr (), d)
      | Some c \<Rightarrow>
          if \<not> vp_valid env TranscriptMessage msg then (Inl validation_error, d)
          else (case (dget msg ''role'', dget msg ''transcript'') of
                  (Some (JStr role), Some (JStr txt)) \<Rightarrow>
                    if dget msg ''transcriptType'' = Some (JStr ''partial'') \<or> strip txt = []
                    then (Inr (), d)
                    else (Inr (), append_transcript (c_id c) (map_role role) (strip txt) (Some (JObj msg)) d)
                | _ \<Rightarrow> (Inl validation_error, d)))"

definition handle_status_update :: "vapi_env \<Rightarrow> message \<Rightarrow> call option \<Rightarrow> db \<Rightarrow> handler_result" where
  "handle_status_update env msg call d =
     (case call of
        None \<Rightarrow> (Inr (), d)
      | Some c \<Rightarrow>
          if \<not> vp_valid env StatusUpdateMessage msg then (Inl validation_error, d)
          else (case dget msg ''status'' of
                  Some (JStr s) \<Rightarrow>
                    (case vapi_status_of s of
                       None \<Rightarrow> (Inl validation_error, d)
                     | Some v \<Rightarrow>
                         (case status_map v of
                            None \<Rightarrow> (Inr (), d)
                          | Some new_status \<Rightarrow>
                              if c_status c \<in> terminal_statuses then (Inr (), d)
                              else (Inr (), save_call (c\<lparr>c_status := new_status\<rparr>) d)))
                | _ \<Rightarrow> (Inl validation_error, d)))"

definition json_or :: "json option \<Rightarrow> json option \<Rightarrow> json option" where
  "json_or a b = (if ojtruthy a then a else b)"

text \<open>
  One entry of the report's messages: dropped, kept, or (a truthy text that is not a string, whose
  \<open>strip\<close> fails) an exception.
\<close>

definition report_entry :: "message \<Rightarrow> (app_error, (transcript_role \<times> string \<times> json option) option) result" where
  "report_entry m =
     (let txt = json_or (dget m ''message'') (dget m ''content'') in
      case dget m ''role'' of
        Some (JStr role) \<Rightarrow>
          if ojtruthy txt \<and> role \<in> {''assistant'', ''user'', ''system'', ''tool''}
          then (case txt of
                  Some (JStr s) \<Rightarrow> Inr (Some (map_role role, strip s, Some (JObj m)))
                | _ \<Rightarrow> Inl (OtherError ''AttributeError''))
          else Inr None
      | _ \<Rightarrow> Inr None)"

fun report_entries ::
    "json list \<Rightarrow> (app_error, (transcript_role \<times> string \<times> json option) list) result" where
  "report_entries [] = Inr []"
| "report_entries (JObj m # ms) =
     (case report_entry m of
        Inl e \<Rightarrow> Inl e
      | Inr x \<Rightarrow>
          (case report_entries ms of
             Inl e \<Rightarrow> Inl e
           | Inr es \<Rightarrow> Inr (case x of None \<Rightarrow> es | Some y \<Rightarrow> y # es)))"
| "report_entries (_ # ms) = Inl validation_error"

text \<open>The messages of the report; a missing, null or empty array has none.\<close>

definition report_messages ::
    "message \<Rightarrow> (app_error, (transcript_role \<times> string \<times> json option) list) result" where
  "report_messages msg =
     (case dget msg ''messages'' of
        None \<Rightarrow> Inr [] | Some JNull \<Rightarrow> Inr []
      | Some (JList ms) \<Rightarrow> report_entries ms
      | _ \<Rightarrow> Inl validation_error)"

definition report_sentiment :: "vapi_env \<Rightarrow> message \<Rightarrow> string option" where
  "report_sentiment env msg =
     (case as_dict (dget msg ''analysis'') of
        None \<Rightarrow> None
      | Some a \<Rightarrow>
          (case json_or (dget a ''successEvaluation'') (dget a ''sentiment'') of
             None \<Rightarrow> None
           | Some v \<Rightarrow> if \<not> jtruthy v then None
                       else Some (case v of JStr s \<Rightarrow> s | _ \<Rightarrow> vp_str env v)))"

definition jstr :: "json option \<Rightarrow> string option" where
  "jstr v = (case v of Some (JStr s) \<Rightarrow> Some s | _ \<Rightarrow> None)"

definition settle_call :: "vapi_env \<Rightarrow> message \<Rightarrow> call \<Rightarrow> call" where
  "settle_call env msg c =
     (let c1 = (if truthy (jstr (dget msg ''summary''))
                then c\<lparr>c_summary := jstr (dget msg ''summary'')\<rparr> else c);
          c2 = (case report_sentiment env msg of None \<Rightarrow> c1 | Some s \<Rightarrow> c1\<lparr>c_sentiment := Some s\<rparr>);
          ended_reason = lower (case jstr (dget msg ''endedReason'') of None \<Rightarrow> [] | Some s \<Rightarrow> s)
      in c2\<lparr>c_status := (if ended_reason \<in> failure_reasons then FAILED else COMPLETED),
            c_completed_at := Some (vp_now env)\<rparr>)"

definition handle_end_of_call :: "vapi_env \<Rightarrow> message \<Rightarrow> call option \<Rightarrow> db \<Rightarrow> handler_result" where
  "handle_end_of_call env msg call d =
     (case call of
        None \<Rightarrow> (Inr (), d)
      | Some c \<Rightarrow>
          if c_status c \<in> terminal_statuses then (Inr (), d)
          else if \<not> vp_valid env EndOfCallMessage msg then (Inl validation_error, d)
          else (case report_messages msg of
                  Inl e \<Rightarrow> (Inl e, d)
                | Inr entries \<Rightarrow>
                    (let d1 = (if entries \<noteq> [] \<and> get_transcript (c_id c) d = []
                               then bulk_append (c_id c) entries d else d)
                     in (Inr (), save_call (settle_call env msg c) d1))))"

definition handle_transfer_request :: "call option \<Rightarrow> db \<Rightarrow> handler_result" where
  "handle_transfer_request call d =
     (case call of
        None \<Rightarrow> (Inr (), d)
      | Some c \<Rightarrow>
          if c_status c \<notin> terminal_statuses
          then (Inr (), save_call (c\<lparr>c_status := NEEDS_TRANSFER\<rparr>) d) else (Inr (), d))"

definition handle_hang :: "vapi_env \<Rightarrow> call option \<Rightarrow> db \<Rightarrow> handler_result" where
  "handle_hang env call d =
     (case call of
        None \<Rightarrow> (Inr (), d)
      | Some c \<Rightarrow>
          if c_status c \<notin> terminal_statuses
          then (Inr (), save_call (c\<lparr>c_status := FAILED, c_completed_at := Some (vp_now env)\<rparr>) d)
          else (Inr (), d))"

text \<open>
  Tool calls are logged only, but the log line reads their names, which fails on a \<open>toolCalls\<close>
  that is not a list of objects whose \<open>function\<close>, if any, is an object.
\<close>

definition tool_call_ok :: "json \<Rightarrow> bool" where
  "tool_call_ok tc = (case tc of
     JObj m \<Rightarrow> (case dget m ''function'' of None \<Rightarrow> True | Some (JObj _) \<Rightarrow> True | _ \<Rightarrow> False)
   | _ \<Rightarrow> False)"

definition handle_tool_calls :: "message \<Rightarrow> call option \<Rightarrow> db \<Rightarrow> handler_result" where
  "handle_tool_calls msg call d =
     (case call of
        None \<Rightarrow> (Inr (), d)
      | Some _ \<Rightarrow>
          (case dget msg ''toolCalls'' of
             None \<Rightarrow> (Inr (), d)
           | Some (JList tcs) \<Rightarrow>
               if list_all tool_call_ok tcs then (Inr (), d) else (Inl (OtherError ''AttributeError''), d)
           | Some (JStr s) \<Rightarrow> (if s = [] then Inr () else Inl (OtherError ''AttributeError''), d)
           | Some (JObj m) \<Rightarrow> (if m = [] then Inr () else Inl (OtherError ''AttributeError''), d)
           | _ \<Rightarrow> (Inl (OtherError ''TypeError''), d)))"

section \<open>process\<close>

definition vapi_route :: "vapi_env \<Rightarrow> string \<Rightarrow> message \<Rightarrow> call option \<Rightarrow> db \<Rightarrow> handler_result" where
  "vapi_route env event_type msg call d =
     (if event_type = ''transcript'' then handle_transcript env msg call d
      else if event_type = ''status-update'' then handle_status_update env msg call d
      else if event_type = ''end-of-call-report'' then handle_end_of_call env msg call d
      else if event_type \<in> {''tool-calls'', ''function-call''} then handle_tool_calls msg call d
      else if event_type = ''transfer-destination-request'' then handle_transfer_request call d
      else if event_type = ''hang'' then handle_hang env call d
      else (Inr (), d))"

fun error_text :: "app_error \<Rightarrow> string" where
  "error_text (OtherError s) = s"
| "error_text (EngineError msg _ _) = msg"
| "error_text _ = []"

definition log_event :: "vapi_event_log \<Rightarrow> db \<Rightarrow> db" where
  "log_event l d = d\<lparr>vapi_logs := vapi_logs d @ [l]\<rparr>"

text \<open>The call of the message, by the id in its \<open>call\<close> object.\<close>

definition resolve_call :: "message \<Rightarrow> db \<Rightarrow> (app_error, call option) result" where
  "resolve_call msg d =
     (case as_dict (dget msg ''call'') of
        None \<Rightarrow> Inr None
      | Some co \<Rightarrow>
          if \<not> ojtruthy (dget co ''id'') then Inr None
          else (case dget co ''id'' of
                  Some (JStr v) \<Rightarrow> get_by_vapi_id v d
                | _ \<Rightarrow> Inl (OtherError ''DataError'')))"

definition vapi_process :: "vapi_env \<Rightarrow> message \<Rightarrow> db \<Rightarrow> (app_error, unit) result \<times> db" where
  "vapi_process env raw_payload d =
     (case (case dget raw_payload ''message'' of None \<Rightarrow> Some [] | Some (JObj m) \<Rightarrow> Some m | _ \<Rightarrow> None) of
        None \<Rightarrow> (Inl (OtherError ''AttributeError''), d)
      | Some msg \<Rightarrow>
          (case (case dget msg ''type'' of None \<Rightarrow> Some ''unknown'' | Some (JStr s) \<Rightarrow> Some s | _ \<Rightarrow> None) of
             None \<Rightarrow> (Inl (OtherError ''DataError''), d)
           | Some event_type \<Rightarrow>
               (case resolve_call msg d of
                  Inl e \<Rightarrow> (Inl e, d)
                | Inr call \<Rightarrow>
                    (let l = \<lparr>v_vapi_event_id = None, v_call_id = map_option c_id call,
                              v_event_type = event_type, v_raw_payload = JObj raw_payload,
                              v_processing_status = PENDING, v_error_message = None,
                              v_processed_at = None\<rparr>
                     in case vapi_route env event_type msg call d of
                          (Inr _, d') \<Rightarrow>
                            (Inr (), log_event (l\<lparr>v_processing_status := PROCESSED,
                                                  v_processed_at := Some (vp_now env)\<rparr>) d')
                        | (Inl exc, d') \<Rightarrow>
                            (Inr (), log_event (l\<lparr>v_processing_status := ERROR,
                                     v_error_message := Some (take 500 (error_text exc))\<rparr>) d')))))"

section \<open>Lemmas\<close>

lemma log_event_frame [simp]:
  "get_call_row i (log_event l d) = get_call_row i d" "calls (log_event l d) = calls d"
  "transcripts (log_event l d) = transcripts d" "vapi_logs (log_event l d) = vapi_logs d @ [l]"
  "transcript_ok (log_event l d) = transcript_ok d"
  by (simp_all add: log_event_def get_call_row_def transcript_ok_def seqs_def)

lemma append_frame [simp]:
  "get_call_row i (append_transcript cid r txt raw d) = get_call_row i d"
  "get_call_row i (bulk_append cid es d) = get_call_row i d"
  "vapi_logs (append_transcript cid r txt raw d) = vapi_logs d"
  "vapi_logs (bulk_append cid es d) = vapi_logs d"
  by (simp_all add: append_transcript_def bulk_append_def get_call_row_def)

lemma transcript_ok_save_call [simp]: "transcript_ok (save_call c d) = transcript_ok d"
  by (simp add: transcript_ok_def seqs_def)


lemmas handler_defs = handle_transcript_def handle_status_update_def handle_end_of_call_def
  handle_tool_calls_def handle_transfer_request_def handle_hang_def








definition demo_vapi_env :: vapi_env where
  "demo_vapi_env = \<lparr>vp_valid = (\<lambda>_ _. True), vp_str = (\<lambda>_. ''x''), vp_now = 70\<rparr>"

definition demo_vapi_call :: "call_status \<Rightarrow> call" where
  "demo_vapi_call st =
     \<lparr>c_id = 1, c_created_at = 0, c_phone = ''+7999'', c_mode = VAPI, c_status = st,
      c_agent_profile_id = None, c_manager_id = None, c_vapi_call_id = Some ''v1'', c_mango_call_id = None,
      c_route_used = Some ''vapi'', c_telephony_leg_id = None, c_transcript = None, c_summary = None,
      c_sentiment = None, c_completed_at = None, c_runtime_context = None\<rparr>"

definition vapi_message :: "string \<Rightarrow> (string \<times> json) list \<Rightarrow> message" where
  "vapi_message ty rest =
     [(''message'', JObj ((''type'', JStr ty) # (''call'', JObj [(''id'', JStr ''v1'')]) # rest))]"

definition demo_report :: message where
  "demo_report = vapi_message ''end-of-call-report''
     [(''endedReason'', JStr ''customer-ended-call''), (''summary'', JStr ''wants a demo''),
      (''messages'', JList [JObj [(''role'', JStr ''user''), (''message'', JStr '' hello '')]])]"


lemmas vapi_run = vapi_process_def vapi_route_def handler_defs demo_report_def vapi_message_def
  demo_vapi_env_def demo_vapi_call_def resolve_call_def get_by_vapi_id_def one_or_none_def
  ojtruthy_def report_messages_def report_entry_def json_or_def map_role_def settle_call_def
  report_sentiment_def jstr_def Let_def empty_db_def


lemma report_entries_texts:
  "report_entries ms = Inr es \<Longrightarrow> length es \<le> length ms \<and> (\<forall>(role, txt, raw)\<in>set es. strip txt = txt)"
  by (induction ms arbitrary: es rule: report_entries.induct)
    (fastforce simp: report_entry_def Let_def split: sum.splits option.splits json.splits if_splits)+








section \<open>Concrete runs that show divergences\<close>

text \<open>
  A status update \<open>ended\<close> makes the call terminal without a completion time, so the report that
  follows it, with summary and transcript, is ignored.
\<close>

lemma ended_then_report_lost:
  "let d1 = snd (vapi_process demo_vapi_env (vapi_message ''status-update'' [(''status'', JStr ''ended'')])
             (empty_db\<lparr>calls := [demo_vapi_call IN_PROGRESS]\<rparr>));
       d2 = snd (vapi_process demo_vapi_env demo_report d1)
   in get_call_row 1 d2 = Some ((demo_vapi_call IN_PROGRESS)\<lparr>c_status := COMPLETED\<rparr>)
      \<and> transcripts d2 = []"
  by (simp add: vapi_run vapi_status_of_def get_call_row_def save_call_def log_event_def)

text \<open>A transcript event delivered twice is stored twice: no event id is ever recorded.\<close>

lemma duplicate_transcript_stored_twice:
  "let p = vapi_message ''transcript'' [(''role'', JStr ''user''), (''transcript'', JStr ''hello'')];
       d1 = snd (vapi_process demo_vapi_env p (empty_db\<lparr>calls := [demo_vapi_call IN_PROGRESS]\<rparr>));
       d2 = snd (vapi_process demo_vapi_env p d1)
   in map e_text (transcripts d2) = [''hello'', ''hello''] \<and> map v_vapi_event_id (vapi_logs d2) = [None, None]"
proof -
  have "strip ''hello'' = ''hello''" by code_simp
  then show ?thesis
    by (simp add: vapi_run append_transcript_def log_event_def)
qed

text \<open>The report's role \<open>bot\<close> is mapped by \<open>_map_role\<close> but dropped before it gets there.\<close>

lemma bot_messages_dropped:
  "report_entries [JObj [(''role'', JStr ''bot''), (''message'', JStr ''Hello, this is Anna'')]] = Inr []"
  "map_role ''bot'' = ASSISTANT"
  by (simp add: report_entry_def ojtruthy_def json_or_def Let_def) code_simp

end
