(* ===== verification/SessionStore.thy ===== *)
theory SessionStore
  imports Database
begin

text \<open>
  The store that coordinates live Direct sessions between workers:
  \<open>app/integrations/direct/session_store.py\<close>. \<open>session_store_if\<close> is the abstract interface,
  \<open>memory_store\<close> with its operations the in-memory implementation (its \<open>asyncio.Lock\<close> makes each
  of them atomic). Of the Redis implementation the ownership lease and the steering channel are modelled:
  Redis is a service, an argument \<open>redis_lock_if\<close> for the lease, whose two Lua scripts are translated, and
  the documented behaviour of a channel, which gives a message to those who listen at that moment.

  The lemmas state the interface's contract as two locales, the lease on a session and the rest of
  the store, discharge them for the implementations, and prove from the lease laws that a worker
  that renews in time keeps its session.
\<close>

section \<open>Domain types\<close>

datatype session_status = Sess_ACTIVE | Sess_TERMINATED | Sess_FAILED

record session_meta =
  m_session_id :: string
  m_call_id :: string
  m_phone :: string
  m_status :: session_status
  m_worker_id :: string
  m_created_at :: time
  m_updated_at :: time

record store_stats =
  active_count :: nat
  orphaned_count :: nat
  total_tracked :: nat

definition lock_ttl_seconds :: int where "lock_ttl_seconds = 30"
definition heartbeat_interval :: int where "heartbeat_interval = 10"

record 's session_store_if =
  so_create :: "session_meta \<Rightarrow> 's \<Rightarrow> 's"
  so_get :: "string \<Rightarrow> 's \<Rightarrow> session_meta option"
  so_update_status :: "string \<Rightarrow> session_status \<Rightarrow> time \<Rightarrow> 's \<Rightarrow> bool \<times> 's"
  so_delete :: "string \<Rightarrow> 's \<Rightarrow> 's"
  so_acquire_lock :: "string \<Rightarrow> string \<Rightarrow> time \<Rightarrow> 's \<Rightarrow> bool \<times> 's"
  so_renew_lock :: "string \<Rightarrow> string \<Rightarrow> time \<Rightarrow> 's \<Rightarrow> bool \<times> 's"
  so_release_lock :: "string \<Rightarrow> string \<Rightarrow> time \<Rightarrow> 's \<Rightarrow> bool \<times> 's"
  so_lock_owner :: "string \<Rightarrow> time \<Rightarrow> 's \<Rightarrow> string option"
  so_add_to_active :: "string \<Rightarrow> 's \<Rightarrow> 's"
  so_remove_from_active :: "string \<Rightarrow> 's \<Rightarrow> 's"
  so_active_ids :: "'s \<Rightarrow> string list"
  so_publish :: "string \<Rightarrow> string \<Rightarrow> 's \<Rightarrow> 's"
  so_next_steering :: "string \<Rightarrow> 's \<Rightarrow> string option \<times> 's"
  so_stats :: "time \<Rightarrow> 's \<Rightarrow> store_stats"

section \<open>InMemorySessionStore\<close>

text \<open>The active set is listed in the order in which the set is iterated.\<close>

record memory_store =
  ms_meta :: "(string \<times> session_meta) list"
  ms_locks :: "string \<rightharpoonup> string"
  ms_active :: "string list"
  ms_queues :: "string \<rightharpoonup> string list"

definition empty_memory_store :: memory_store where
  "empty_memory_store = \<lparr>ms_meta = [], ms_locks = Map.empty, ms_active = [], ms_queues = Map.empty\<rparr>"

definition mem_create :: "session_meta \<Rightarrow> memory_store \<Rightarrow> memory_store" where
  "mem_create meta s = s\<lparr>ms_meta := upsert fst (m_session_id meta, meta) (ms_meta s)\<rparr>"

definition mem_get :: "string \<Rightarrow> memory_store \<Rightarrow> session_meta option" where
  "mem_get sid s = map_option snd (find_row fst sid (ms_meta s))"

definition mem_update_status :: "string \<Rightarrow> session_status \<Rightarrow> time \<Rightarrow> memory_store \<Rightarrow> bool \<times> memory_store" where
  "mem_update_status sid status now s =
     (case mem_get sid s of
        None \<Rightarrow> (False, s)
      | Some m \<Rightarrow>
          (True, s\<lparr>ms_meta := upsert fst (sid, m\<lparr>m_status := status, m_updated_at := now\<rparr>) (ms_meta s)\<rparr>))"

definition mem_acquire_lock :: "string \<Rightarrow> string \<Rightarrow> time \<Rightarrow> memory_store \<Rightarrow> bool \<times> memory_store" where
  "mem_acquire_lock sid worker now s =
     (if ms_locks s sid \<noteq> None then (False, s)
      else (True, s\<lparr>ms_locks := (ms_locks s)(sid \<mapsto> worker)\<rparr>))"

definition mem_renew_lock :: "string \<Rightarrow> string \<Rightarrow> time \<Rightarrow> memory_store \<Rightarrow> bool \<times> memory_store" where
  "mem_renew_lock sid worker now s = (ms_locks s sid = Some worker, s)"

definition mem_release_lock :: "string \<Rightarrow> string \<Rightarrow> time \<Rightarrow> memory_store \<Rightarrow> bool \<times> memory_store" where
  "mem_release_lock sid worker now s =
     (if ms_locks s sid \<noteq> Some worker then (False, s)
      else (True, s\<lparr>ms_locks := (ms_locks s)(sid := None)\<rparr>))"

definition mem_lock_owner :: "string \<Rightarrow> time \<Rightarrow> memory_store \<Rightarrow> string option" where
  "mem_lock_owner sid now s = ms_locks s sid"

definition mem_add_to_active :: "string \<Rightarrow> memory_store \<Rightarrow> memory_store" where
  "mem_add_to_active sid s =
     (if sid \<in> set (ms_active s) then s else s\<lparr>ms_active := ms_active s @ [sid]\<rparr>)"

definition mem_remove_from_active :: "string \<Rightarrow> memory_store \<Rightarrow> memory_store" where
  "mem_remove_from_active sid s = s\<lparr>ms_active := filter (\<lambda>x. x \<noteq> sid) (ms_active s)\<rparr>"

definition mem_delete :: "string \<Rightarrow> memory_store \<Rightarrow> memory_store" where
  "mem_delete sid s =
     s\<lparr>ms_meta := filter (\<lambda>p. fst p \<noteq> sid) (ms_meta s), ms_locks := (ms_locks s)(sid := None),
       ms_queues := (ms_queues s)(sid := None), ms_active := filter (\<lambda>x. x \<noteq> sid) (ms_active s)\<rparr>"

definition queue_of :: "string \<Rightarrow> memory_store \<Rightarrow> string list" where
  "queue_of sid s = (case ms_queues s sid of None \<Rightarrow> [] | Some q \<Rightarrow> q)"

definition mem_publish :: "string \<Rightarrow> string \<Rightarrow> memory_store \<Rightarrow> memory_store" where
  "mem_publish sid instruction s = s\<lparr>ms_queues := (ms_queues s)(sid \<mapsto> queue_of sid s @ [instruction])\<rparr>"

text \<open>
  One round of the iteration over a session's channel: the next instruction, or \<open>None\<close> while it
  waits on the (then existing) queue.
\<close>

definition mem_next_steering :: "string \<Rightarrow> memory_store \<Rightarrow> string option \<times> memory_store" where
  "mem_next_steering sid s =
     (case queue_of sid s of
        [] \<Rightarrow> (None, s\<lparr>ms_queues := (ms_queues s)(sid \<mapsto> [])\<rparr>)
      | x # q \<Rightarrow> (Some x, s\<lparr>ms_queues := (ms_queues s)(sid \<mapsto> q)\<rparr>))"

definition mem_stats :: "time \<Rightarrow> memory_store \<Rightarrow> store_stats" where
  "mem_stats now s =
     \<lparr>active_count = length (ms_active s),
      orphaned_count = length (filter (\<lambda>sid. ms_locks s sid = None) (ms_active s)),
      total_tracked = length (ms_meta s)\<rparr>"

definition memory_sessions :: "memory_store session_store_if" where
  "memory_sessions =
     \<lparr>so_create = mem_create, so_get = mem_get, so_update_status = mem_update_status,
      so_delete = mem_delete, so_acquire_lock = mem_acquire_lock, so_renew_lock = mem_renew_lock,
      so_release_lock = mem_release_lock, so_lock_owner = mem_lock_owner,
      so_add_to_active = mem_add_to_active, so_remove_from_active = mem_remove_from_active,
      so_active_ids = ms_active, so_publish = mem_publish, so_next_steering = mem_next_steering,
      so_stats = mem_stats\<rparr>"

lemmas mem_defs = mem_create_def mem_get_def mem_update_status_def mem_delete_def mem_acquire_lock_def
  mem_renew_lock_def mem_release_lock_def mem_lock_owner_def mem_add_to_active_def
  mem_remove_from_active_def mem_publish_def mem_next_steering_def queue_of_def

section \<open>Steering over Redis pub/sub\<close>

text \<open>
  The channel of a session in \<open>RedisSessionStore\<close>, next to any store for the rest: the messages that the
  subscription of its owner has received and not yet yielded, \<open>None\<close> while nobody is subscribed. Redis
  delivers a message to who is subscribed when it is published and keeps it for nobody else.
\<close>

type_synonym channels = "string \<rightharpoonup> string list"

definition redis_publish :: "string \<Rightarrow> string \<Rightarrow> channels \<Rightarrow> channels" where
  "redis_publish sid instruction ch = ch(sid := map_option (\<lambda>q. q @ [instruction]) (ch sid))"

text \<open>A round of the iteration: the generator subscribes when it starts, then yields or waits.\<close>

definition redis_next_steering :: "string \<Rightarrow> channels \<Rightarrow> string option \<times> channels" where
  "redis_next_steering sid ch =
     (case ch sid of
        None \<Rightarrow> (None, ch(sid \<mapsto> []))
      | Some [] \<Rightarrow> (None, ch)
      | Some (x # q) \<Rightarrow> (Some x, ch(sid \<mapsto> q)))"

definition on_fst :: "('s \<Rightarrow> 's) \<Rightarrow> 's \<times> 'c \<Rightarrow> 's \<times> 'c" where
  "on_fst f p = (f (fst p), snd p)"

definition reply_on_fst :: "('s \<Rightarrow> 'r \<times> 's) \<Rightarrow> 's \<times> 'c \<Rightarrow> 'r \<times> 's \<times> 'c" where
  "reply_on_fst f p = (let (r, s) = f (fst p) in (r, s, snd p))"

definition pubsub_sessions :: "'s session_store_if \<Rightarrow> ('s \<times> channels) session_store_if" where
  "pubsub_sessions st =
     \<lparr>so_create = (\<lambda>m. on_fst (so_create st m)), so_get = (\<lambda>i p. so_get st i (fst p)),
      so_update_status = (\<lambda>i x t. reply_on_fst (so_update_status st i x t)),
      so_delete = (\<lambda>i. on_fst (so_delete st i)),
      so_acquire_lock = (\<lambda>i w t. reply_on_fst (so_acquire_lock st i w t)),
      so_renew_lock = (\<lambda>i w t. reply_on_fst (so_renew_lock st i w t)),
      so_release_lock = (\<lambda>i w t. reply_on_fst (so_release_lock st i w t)),
      so_lock_owner = (\<lambda>i t p. so_lock_owner st i t (fst p)),
      so_add_to_active = (\<lambda>i. on_fst (so_add_to_active st i)),
      so_remove_from_active = (\<lambda>i. on_fst (so_remove_from_active st i)),
      so_active_ids = (\<lambda>p. so_active_ids st (fst p)),
      so_publish = (\<lambda>i x p. (fst p, redis_publish i x (snd p))),
      so_next_steering = (\<lambda>i p. let (r, ch) = redis_next_steering i (snd p) in (r, fst p, ch)),
      so_stats = (\<lambda>t p. so_stats st t (fst p))\<rparr>"

text \<open>One entry per session, each session once in the active set, metadata under its own id.\<close>

definition memory_wf :: "memory_store \<Rightarrow> bool" where
  "memory_wf s \<longleftrightarrow> distinct (map fst (ms_meta s)) \<and> distinct (ms_active s)
     \<and> (\<forall>(k, m)\<in>set (ms_meta s). m_session_id m = k)"

section \<open>The lease of RedisSessionStore\<close>

record 's redis_lock_if =
  rc_get :: "string \<Rightarrow> time \<Rightarrow> 's \<Rightarrow> string option"
  rc_set_nx_ex :: "string \<Rightarrow> string \<Rightarrow> int \<Rightarrow> time \<Rightarrow> 's \<Rightarrow> bool \<times> 's"
  rc_expire :: "string \<Rightarrow> int \<Rightarrow> time \<Rightarrow> 's \<Rightarrow> 's"
  rc_del :: "string \<Rightarrow> 's \<Rightarrow> 's"

text \<open>The documented meaning of \<open>GET\<close>, \<open>SET NX EX\<close>, \<open>EXPIRE\<close> and \<open>DEL\<close>.\<close>

definition lock_laws :: "'s redis_lock_if \<Rightarrow> ('s \<Rightarrow> string \<rightharpoonup> string \<times> time option) \<Rightarrow> bool" where
  "lock_laws rc look \<longleftrightarrow>
     (\<forall>key now s. rc_get rc key now s = map_option fst (live_at (look s) key now))
     \<and> (\<forall>key v n now s.
          fst (rc_set_nx_ex rc key v n now s) = (live_at (look s) key now = None)
          \<and> look (snd (rc_set_nx_ex rc key v n now s))
              = (if live_at (look s) key now = None then (look s)(key \<mapsto> (v, Some (now + seconds n))) else look s))
     \<and> (\<forall>key n now s. look (rc_expire rc key n now s)
          = (case live_at (look s) key now of
               None \<Rightarrow> look s | Some (v, e) \<Rightarrow> (look s)(key \<mapsto> (v, Some (now + seconds n)))))
     \<and> (\<forall>key s. look (rc_del rc key s) = (look s)(key := None))"

definition lock_key :: "string \<Rightarrow> string" where
  "lock_key sid = ''session:lock:'' @ sid"

definition redis_acquire_lock :: "'s redis_lock_if \<Rightarrow> string \<Rightarrow> string \<Rightarrow> time \<Rightarrow> 's \<Rightarrow> bool \<times> 's" where
  "redis_acquire_lock rc sid worker now s = rc_set_nx_ex rc (lock_key sid) worker lock_ttl_seconds now s"

definition redis_renew_lock :: "'s redis_lock_if \<Rightarrow> string \<Rightarrow> string \<Rightarrow> time \<Rightarrow> 's \<Rightarrow> bool \<times> 's" where
  "redis_renew_lock rc sid worker now s =
     (if rc_get rc (lock_key sid) now s = Some worker
      then (True, rc_expire rc (lock_key sid) lock_ttl_seconds now s) else (False, s))"

definition redis_release_lock :: "'s redis_lock_if \<Rightarrow> string \<Rightarrow> string \<Rightarrow> time \<Rightarrow> 's \<Rightarrow> bool \<times> 's" where
  "redis_release_lock rc sid worker now s =
     (if rc_get rc (lock_key sid) now s = Some worker
      then (True, rc_del rc (lock_key sid) s) else (False, s))"

definition redis_lock_owner :: "'s redis_lock_if \<Rightarrow> string \<Rightarrow> time \<Rightarrow> 's \<Rightarrow> string option" where
  "redis_lock_owner rc sid now s = rc_get rc (lock_key sid) now s"

text \<open>What \<open>delete\<close> does to the lock.\<close>

definition redis_delete_lock :: "'s redis_lock_if \<Rightarrow> string \<Rightarrow> 's \<Rightarrow> 's" where
  "redis_delete_lock rc sid s = rc_del rc (lock_key sid) s"

section \<open>The contract of a lease\<close>

text \<open>What workers do with the lock of one session, at their instants.\<close>

datatype lease_event = Acquire string time | Renew string time | Release string time

locale lease_store =
  fixes owner :: "string \<Rightarrow> time \<Rightarrow> 's \<Rightarrow> string option"
    and acquire renew release :: "string \<Rightarrow> string \<Rightarrow> time \<Rightarrow> 's \<Rightarrow> bool \<times> 's"
    and drop_lock :: "string \<Rightarrow> 's \<Rightarrow> 's"
  assumes acquire_iff: "fst (acquire i w t s) \<longleftrightarrow> owner i t s = None"
    and acquire_lease: "owner i t s = None \<Longrightarrow> t \<le> u \<Longrightarrow> u < t + seconds lock_ttl_seconds
           \<Longrightarrow> owner i u (snd (acquire i w t s)) = Some w"
    and acquire_refused: "owner i t s \<noteq> None \<Longrightarrow> owner j u (snd (acquire i w t s)) = owner j u s"
    and renew_iff: "fst (renew i w t s) \<longleftrightarrow> owner i t s = Some w"
    and renew_lease: "owner i t s = Some w \<Longrightarrow> t \<le> u \<Longrightarrow> u < t + seconds lock_ttl_seconds
           \<Longrightarrow> owner i u (snd (renew i w t s)) = Some w"
    and renew_refused: "owner i t s \<noteq> Some w \<Longrightarrow> owner j u (snd (renew i w t s)) = owner j u s"
    and release_iff: "fst (release i w t s) \<longleftrightarrow> owner i t s = Some w"
    and release_frees: "owner i t s = Some w \<Longrightarrow> owner i u (snd (release i w t s)) = None"
    and release_refused: "owner i t s \<noteq> Some w \<Longrightarrow> owner j u (snd (release i w t s)) = owner j u s"
    and drop_frees: "owner i u (drop_lock i s) = None"
    and owner_other: "j \<noteq> i \<Longrightarrow> owner j u (snd (acquire i w t s)) = owner j u s"
      "j \<noteq> i \<Longrightarrow> owner j u (snd (renew i w t s)) = owner j u s"
      "j \<noteq> i \<Longrightarrow> owner j u (snd (release i w t s)) = owner j u s"
      "j \<noteq> i \<Longrightarrow> owner j u (drop_lock i s) = owner j u s"
begin

lemma acquire_once: "fst (acquire i w t s) \<Longrightarrow> t \<le> u \<Longrightarrow> u < t + seconds lock_ttl_seconds
    \<Longrightarrow> \<not> fst (acquire i v u (snd (acquire i w t s)))"
  by (simp add: acquire_iff acquire_lease)

end

fun lease_step ::
    "(string \<Rightarrow> string \<Rightarrow> time \<Rightarrow> 's \<Rightarrow> bool \<times> 's) \<Rightarrow> (string \<Rightarrow> string \<Rightarrow> time \<Rightarrow> 's \<Rightarrow> bool \<times> 's)
     \<Rightarrow> (string \<Rightarrow> string \<Rightarrow> time \<Rightarrow> 's \<Rightarrow> bool \<times> 's) \<Rightarrow> string \<Rightarrow> lease_event \<Rightarrow> 's \<Rightarrow> bool \<times> 's" where
  "lease_step acquire renew release i (Acquire w t) s = acquire i w t s"
| "lease_step acquire renew release i (Renew w t) s = renew i w t s"
| "lease_step acquire renew release i (Release w t) s = release i w t s"

text \<open>The answers to a sequence of such operations on one session.\<close>

fun lease_run ::
    "(string \<Rightarrow> string \<Rightarrow> time \<Rightarrow> 's \<Rightarrow> bool \<times> 's) \<Rightarrow> (string \<Rightarrow> string \<Rightarrow> time \<Rightarrow> 's \<Rightarrow> bool \<times> 's)
     \<Rightarrow> (string \<Rightarrow> string \<Rightarrow> time \<Rightarrow> 's \<Rightarrow> bool \<times> 's) \<Rightarrow> string \<Rightarrow> lease_event list \<Rightarrow> 's \<Rightarrow> bool list \<times> 's" where
  "lease_run acquire renew release i [] s = ([], s)"
| "lease_run acquire renew release i (e # es) s =
     (let (b, s1) = lease_step acquire renew release i e s;
          (bs, s2) = lease_run acquire renew release i es s1
      in (b # bs, s2))"

fun event_time :: "lease_event \<Rightarrow> time" where
  "event_time (Acquire w t) = t"
| "event_time (Renew w t) = t"
| "event_time (Release w t) = t"

text \<open>
  Worker \<open>w\<close> holds the lease since \<open>t\<close> and keeps it through the events: none of them comes later
  than the lease it held last, and it does not release it. What other workers try is arbitrary.
\<close>

fun renewed_in_time :: "string \<Rightarrow> time \<Rightarrow> lease_event list \<Rightarrow> bool" where
  "renewed_in_time w t [] = True"
| "renewed_in_time w t (e # es) =
     (t \<le> event_time e \<and> event_time e < t + seconds lock_ttl_seconds
      \<and> (case e of
           Renew v u \<Rightarrow> renewed_in_time w (if v = w then u else t) es
         | Release v u \<Rightarrow> v \<noteq> w \<and> renewed_in_time w t es
         | Acquire v u \<Rightarrow> renewed_in_time w t es))"

fun last_renewal :: "string \<Rightarrow> time \<Rightarrow> lease_event list \<Rightarrow> time" where
  "last_renewal w t [] = t"
| "last_renewal w t (Renew v u # es) = last_renewal w (if v = w then u else t) es"
| "last_renewal w t (e # es) = last_renewal w t es"

fun answered_to :: "string \<Rightarrow> lease_event \<Rightarrow> bool" where
  "answered_to w (Renew v t) = (v = w)"
| "answered_to w e = False"

context lease_store
begin

lemma lease_kept:
  assumes "\<forall>u. t \<le> u \<and> u < t + seconds lock_ttl_seconds \<longrightarrow> owner i u s = Some w"
    and "renewed_in_time w t es"
    and "lease_run acquire renew release i es s = (bs, s')"
  shows "bs = map (answered_to w) es
    \<and> (\<forall>u. last_renewal w t es \<le> u \<and> u < last_renewal w t es + seconds lock_ttl_seconds
           \<longrightarrow> owner i u s' = Some w)"
  using assms
proof (induction es arbitrary: t s bs)
  case (Cons e es)
  obtain b s1 where step: "lease_step acquire renew release i e s = (b, s1)"
    by (cases "lease_step acquire renew release i e s")
  obtain bs1 where run: "lease_run acquire renew release i es s1 = (bs1, s')" and bs: "bs = b # bs1"
    using Cons.prems(3) step by (auto split: prod.splits)
  have now: "owner i (event_time e) s = Some w" using Cons.prems(1,2) by simp
  let ?t = "case e of Renew v u \<Rightarrow> if v = w then u else t | _ \<Rightarrow> t"
  have b: "b = answered_to w e"
    using step now Cons.prems(2) acquire_iff [of i] renew_iff [of i] release_iff [of i]
    by (cases e) (auto dest: arg_cong [where f = fst])
  have lease: "\<forall>u. ?t \<le> u \<and> u < ?t + seconds lock_ttl_seconds \<longrightarrow> owner i u s1 = Some w"
    using step now Cons.prems(1,2) acquire_refused [of i] renew_lease [of i] renew_refused [of i]
      release_refused [of i]
    by (cases e) (auto dest!: arg_cong [where f = snd])
  have "renewed_in_time w ?t es" using Cons.prems(2) by (auto split: lease_event.splits)
  from Cons.IH [OF lease this run] b bs show ?case by (cases e) (simp_all split: if_splits)
qed simp

end

interpretation memory_lease: lease_store mem_lock_owner mem_acquire_lock mem_renew_lock
    mem_release_lock mem_delete
  by unfold_locales (auto simp: mem_defs)

lemma lock_laws_simps:
  assumes "lock_laws rc look"
  shows "rc_get rc key now s = map_option fst (live_at (look s) key now)"
    and "fst (rc_set_nx_ex rc key v n now s) = (live_at (look s) key now = None)"
    and "look (snd (rc_set_nx_ex rc key v n now s))
      = (if live_at (look s) key now = None then (look s)(key \<mapsto> (v, Some (now + seconds n))) else look s)"
    and "look (rc_expire rc key n now s)
      = (case live_at (look s) key now of
           None \<Rightarrow> look s | Some (v, e) \<Rightarrow> (look s)(key \<mapsto> (v, Some (now + seconds n))))"
    and "look (rc_del rc key s) = (look s)(key := None)"
  using assms unfolding lock_laws_def by blast+

lemma lock_key_inj [simp]: "lock_key i = lock_key j \<longleftrightarrow> i = j"
  by (simp add: lock_key_def)

lemma live_at_removed [simp]:
  "live_at (m(key := None)) j t = (if j = key then None else live_at m j t)"
  by (simp add: live_at_def)

lemma redis_lease:
  assumes "lock_laws rc look"
  shows "lease_store (redis_lock_owner rc) (redis_acquire_lock rc) (redis_renew_lock rc)
           (redis_release_lock rc) (redis_delete_lock rc)"
  by unfold_locales
    (auto simp: redis_lock_owner_def redis_acquire_lock_def redis_renew_lock_def redis_release_lock_def
      redis_delete_lock_def lock_laws_simps [OF assms] live_at_fresh live_at_other [OF not_sym]
      dest: live_at_earlier)

text \<open>
  C12. A worker that renews in time keeps its session. Once the Redis store has given a worker the
  lock of a session, then whatever the other workers try, in any order (acquiring it again,
  renewing or releasing it as their own), and as long as each event comes within 30 seconds of the
  worker's last renewal: every other acquire, renewal and release is refused, each of its own
  renewals succeeds, and it is the owner until 30 seconds after the last of them.
\<close>

theorem heartbeat_keeps_session:
  assumes "lock_laws rc look"
    and "redis_acquire_lock rc i w t s = (True, s1)"
    and "renewed_in_time w t es"
    and "lease_run (redis_acquire_lock rc) (redis_renew_lock rc) (redis_release_lock rc) i es s1 = (bs, s2)"
  shows "bs = map (answered_to w) es
    \<and> (\<forall>u. last_renewal w t es \<le> u \<and> u < last_renewal w t es + seconds 30
          \<longrightarrow> redis_lock_owner rc i u s2 = Some w)"
proof -
  have store: "lease_store (redis_lock_owner rc) (redis_acquire_lock rc) (redis_renew_lock rc)
      (redis_release_lock rc) (redis_delete_lock rc)"
    by (rule redis_lease [OF assms(1)])
  have free: "redis_lock_owner rc i t s = None"
    using lease_store.acquire_iff [OF store, of i w t s] assms(2) by simp
  have "\<forall>u. t \<le> u \<and> u < t + seconds lock_ttl_seconds \<longrightarrow> redis_lock_owner rc i u s1 = Some w"
    using lease_store.acquire_lease [OF store free, where w = w] assms(2) by simp
  from lease_store.lease_kept [OF store this assms(3,4)] show ?thesis
    by (simp add: lock_ttl_seconds_def)
qed

definition map_locks :: "(string \<rightharpoonup> string \<times> time option) redis_lock_if" where
  "map_locks =
     \<lparr>rc_get = (\<lambda>key now m. map_option fst (live_at m key now)),
      rc_set_nx_ex = (\<lambda>key v n now m. (live_at m key now = None,
         if live_at m key now = None then m(key \<mapsto> (v, Some (now + seconds n))) else m)),
      rc_expire = (\<lambda>key n now m. case live_at m key now of
         None \<Rightarrow> m | Some (v, e) \<Rightarrow> m(key \<mapsto> (v, Some (now + seconds n)))),
      rc_del = (\<lambda>key m. m(key := None))\<rparr>"

lemma map_locks_laws: "lock_laws map_locks (\<lambda>m. m)"
  by (simp add: lock_laws_def map_locks_def)

theorem heartbeat_keeps_session_witness:
  "\<exists>s2. lease_run (redis_acquire_lock map_locks) (redis_renew_lock map_locks) (redis_release_lock map_locks)
        ''s'' [Acquire ''B'' (seconds 5), Renew ''A'' (seconds 10), Release ''B'' (seconds 12),
               Renew ''A'' (seconds 20), Acquire ''B'' (seconds 49)]
        (snd (redis_acquire_lock map_locks ''s'' ''A'' 0 Map.empty))
      = ([False, True, False, True, False], s2)
    \<and> redis_lock_owner map_locks ''s'' (seconds 49) s2 = Some ''A''"
proof -
  let ?es = "[Acquire ''B'' (seconds 5), Renew ''A'' (seconds 10), Release ''B'' (seconds 12),
               Renew ''A'' (seconds 20), Acquire ''B'' (seconds 49)]"
  let ?s = "snd (redis_acquire_lock map_locks ''s'' ''A'' 0 Map.empty)"
  have acq: "redis_acquire_lock map_locks ''s'' ''A'' 0 Map.empty = (True, ?s)"
    by (simp add: redis_acquire_lock_def map_locks_def live_at_def)
  have inTime: "renewed_in_time ''A'' 0 ?es" by (simp add: lock_ttl_seconds_def seconds_def)
  obtain bs s2 where run: "lease_run (redis_acquire_lock map_locks) (redis_renew_lock map_locks)
      (redis_release_lock map_locks) ''s'' ?es ?s = (bs, s2)"
    by (cases "lease_run (redis_acquire_lock map_locks) (redis_renew_lock map_locks)
      (redis_release_lock map_locks) ''s'' ?es ?s")
  from heartbeat_keeps_session [OF map_locks_laws acq inTime run] run show ?thesis
    by (simp add: seconds_def)
qed

section \<open>The contract of a session store\<close>

locale session_store =
  lease_store "so_lock_owner st" "so_acquire_lock st" "so_renew_lock st" "so_release_lock st" "so_delete st"
  for st :: "'s session_store_if" +
  assumes get_create: "so_get st j (so_create st m s) = (if j = m_session_id m then Some m else so_get st j s)"
    and update_iff: "fst (so_update_status st i x t s) \<longleftrightarrow> so_get st i s \<noteq> None"
    and get_update: "so_get st j (snd (so_update_status st i x t s))
           = (if j = i then map_option (\<lambda>m. m\<lparr>m_status := x, m_updated_at := t\<rparr>) (so_get st i s) else so_get st j s)"
    and get_frame: "so_get st j (so_add_to_active st i s) = so_get st j s"
      "so_get st j (so_remove_from_active st i s) = so_get st j s"
      "so_get st j (snd (so_acquire_lock st i w t s)) = so_get st j s"
      "so_get st j (snd (so_release_lock st i w t s)) = so_get st j s"
    and get_delete: "so_get st j (so_delete st i s) = (if j = i then None else so_get st j s)"
    and owner_frame: "so_lock_owner st j u (so_create st m s) = so_lock_owner st j u s"
      "so_lock_owner st j u (snd (so_update_status st i x t s)) = so_lock_owner st j u s"
      "so_lock_owner st j u (so_add_to_active st i s) = so_lock_owner st j u s"
      "so_lock_owner st j u (so_remove_from_active st i s) = so_lock_owner st j u s"
    and ids_add: "set (so_active_ids st (so_add_to_active st i s)) = insert i (set (so_active_ids st s))"
    and ids_remove: "so_active_ids st (so_remove_from_active st i s) = filter (\<lambda>x. x \<noteq> i) (so_active_ids st s)"
    and ids_delete: "so_active_ids st (so_delete st i s) = filter (\<lambda>x. x \<noteq> i) (so_active_ids st s)"
    and ids_frame: "so_active_ids st (so_create st m s) = so_active_ids st s"
      "so_active_ids st (snd (so_update_status st i x t s)) = so_active_ids st s"
      "so_active_ids st (snd (so_acquire_lock st i w t s)) = so_active_ids st s"
      "so_active_ids st (snd (so_release_lock st i w t s)) = so_active_ids st s"

lemma find_row_filter_key:
  "find_row fst j (filter (\<lambda>p. fst p \<noteq> i) xs) = (if j = i then None else find_row fst j xs)"
  by (induction xs) auto

interpretation memory: session_store memory_sessions
  rewrites "so_lock_owner memory_sessions = mem_lock_owner"
    and "so_active_ids memory_sessions = ms_active"
    and "so_get memory_sessions = mem_get"
proof -
  show "session_store memory_sessions"
    by unfold_locales (auto simp: memory_sessions_def mem_defs find_row_filter_key split: option.split)
qed (simp_all add: memory_sessions_def)

text \<open>The operations keep the in-memory store well formed.\<close>

lemma memory_wf_create [inv_intros]: "memory_wf s \<Longrightarrow> memory_wf (mem_create m s)"
  by (auto simp: memory_wf_def mem_create_def distinct_upsert dest!: in_upsert)

lemma memory_wf_update [inv_intros]: "memory_wf s \<Longrightarrow> memory_wf (snd (mem_update_status i x t s))"
proof (cases "find_row fst i (ms_meta s)")
  case (Some p)
  assume wf: "memory_wf s"
  have "fst p = i" "m_session_id (snd p) = i"
    using Some wf find_row_key [OF Some] find_row_in [OF Some] by (auto simp: memory_wf_def)
  with Some wf show ?thesis
    by (auto simp: memory_wf_def mem_update_status_def mem_get_def distinct_upsert dest!: in_upsert)
qed (simp add: mem_update_status_def mem_get_def)

lemma memory_wf_locks [inv_intros]:
  "memory_wf s \<Longrightarrow> memory_wf (snd (mem_acquire_lock i w t s))"
  "memory_wf s \<Longrightarrow> memory_wf (snd (mem_renew_lock i w t s))"
  "memory_wf s \<Longrightarrow> memory_wf (snd (mem_release_lock i w t s))"
  by (simp_all add: memory_wf_def mem_defs)

lemma memory_wf_active [inv_intros]:
  "memory_wf s \<Longrightarrow> memory_wf (mem_add_to_active i s)"
  "memory_wf s \<Longrightarrow> memory_wf (mem_remove_from_active i s)"
  "memory_wf s \<Longrightarrow> memory_wf (mem_delete i s)"
  by (auto simp: memory_wf_def mem_defs distinct_map_filter)

lemma memory_wf_steering [inv_intros]:
  "memory_wf s \<Longrightarrow> memory_wf (mem_publish i x s)"
  "memory_wf s \<Longrightarrow> memory_wf (snd (mem_next_steering i s))"
  by (auto simp: memory_wf_def mem_defs split: list.split)

end
