(* ===== verification/Coordinator.thy ===== *)
theory Coordinator
  imports SessionStore
begin

text \<open>
  \<open>SessionCoordinator\<close> of \<open>app/integrations/direct/session_coordinator.py\<close>: a worker claims the
  sessions it runs, renews its leases, routes steering instructions to the worker that owns a
  session, and on startup settles the sessions whose worker died. The store is any
  \<open>session_store_if\<close>. The asyncio tasks are the entries of \<open>co_heartbeats\<close> (running or ended) and
  \<open>co_subscribers\<close>, and each round of their loops is an operation. The sessions a worker runs are the
  instruction queues of \<open>DirectSessionManager._sessions\<close>. An operation reads the clock once and runs
  without another worker's operation in between; a failing store (Redis down) is not modelled.

  The lemmas, proved once from the contract \<open>session_store\<close> and used on the in-memory store, show what
  registration gives, what reconciliation and cleanup settle, and which routed instructions reach the
  owner, over a store of one process and over the channels of Redis.
\<close>

section \<open>Operations\<close>

record coordinator =
  co_worker_id :: string
  co_heartbeats :: "(string \<times> bool) list"
  co_subscribers :: "string list"

definition init_coordinator :: "string \<Rightarrow> coordinator" where
  "init_coordinator worker = \<lparr>co_worker_id = worker, co_heartbeats = [], co_subscribers = []\<rparr>"

definition new_meta :: "coordinator \<Rightarrow> string \<Rightarrow> string \<Rightarrow> string \<Rightarrow> time \<Rightarrow> session_meta" where
  "new_meta co sid call_id phone now =
     \<lparr>m_session_id = sid, m_call_id = call_id, m_phone = phone, m_status = Sess_ACTIVE,
      m_worker_id = co_worker_id co, m_created_at = now, m_updated_at = now\<rparr>"

definition register_session ::
    "'s session_store_if \<Rightarrow> string \<Rightarrow> string \<Rightarrow> string \<Rightarrow> time \<Rightarrow> coordinator \<times> 's
     \<Rightarrow> bool \<times> coordinator \<times> 's" where
  "register_session st sid call_id phone now cs =
     (let (co, s) = cs;
          s1 = so_create st (new_meta co sid call_id phone now) s;
          (acquired, s2) = so_acquire_lock st sid (co_worker_id co) now s1
      in if \<not> acquired then (False, co, s2)
         else (True, co\<lparr>co_heartbeats := upsert fst (sid, True) (co_heartbeats co)\<rparr>,
               so_add_to_active st sid s2))"

text \<open>A round of a heartbeat task, if it runs: it ends when the lock is no longer the worker's.\<close>

definition heartbeat_round ::
    "'s session_store_if \<Rightarrow> string \<Rightarrow> time \<Rightarrow> coordinator \<times> 's \<Rightarrow> coordinator \<times> 's" where
  "heartbeat_round st sid now cs =
     (let (co, s) = cs in
      if find_row fst sid (co_heartbeats co) = Some (sid, True)
      then (let (renewed, s1) = so_renew_lock st sid (co_worker_id co) now s
            in (if renewed then co
                else co\<lparr>co_heartbeats := upsert fst (sid, False) (co_heartbeats co)\<rparr>, s1))
      else (co, s))"

definition release_session ::
    "'s session_store_if \<Rightarrow> string \<Rightarrow> time \<Rightarrow> coordinator \<times> 's \<Rightarrow> coordinator \<times> 's" where
  "release_session st sid now cs =
     (let (co, s) = cs;
          co1 = co\<lparr>co_heartbeats := filter (\<lambda>h. fst h \<noteq> sid) (co_heartbeats co),
                   co_subscribers := filter (\<lambda>x. x \<noteq> sid) (co_subscribers co)\<rparr>;
          (updated, s1) = so_update_status st sid Sess_TERMINATED now s;
          (released, s2) = so_release_lock st sid (co_worker_id co) now s1;
          s3 = so_remove_from_active st sid s2
      in (co1, so_delete st sid s3))"

definition start_steering_subscriber :: "string \<Rightarrow> coordinator \<Rightarrow> coordinator" where
  "start_steering_subscriber sid co =
     co\<lparr>co_subscribers := filter (\<lambda>x. x \<noteq> sid) (co_subscribers co) @ [sid]\<rparr>"

type_synonym local_sessions = "string \<rightharpoonup> string list"

definition send_steering ::
    "'s session_store_if \<Rightarrow> string \<Rightarrow> string \<Rightarrow> time \<Rightarrow> local_sessions \<times> 's
     \<Rightarrow> bool \<times> local_sessions \<times> 's" where
  "send_steering st sid instruction now ls =
     (let (sessions, s) = ls in
      case sessions sid of
        Some queue \<Rightarrow> (True, sessions(sid \<mapsto> queue @ [instruction]), s)
      | None \<Rightarrow>
          (case so_lock_owner st sid now s of
             None \<Rightarrow> (False, sessions, s)
           | Some owner \<Rightarrow> (True, sessions, so_publish st sid instruction s)))"

text \<open>Rounds of the steering subscriber: it waits, delivers, or finds its session gone and ends.\<close>

fun steering_subscriber ::
    "'s session_store_if \<Rightarrow> string \<Rightarrow> nat \<Rightarrow> local_sessions \<times> 's \<Rightarrow> local_sessions \<times> 's" where
  "steering_subscriber st sid 0 ls = ls"
| "steering_subscriber st sid (Suc n) (sessions, s) =
     (case so_next_steering st sid s of
        (None, s1) \<Rightarrow> (sessions, s1)
      | (Some instruction, s1) \<Rightarrow>
          (case sessions sid of
             None \<Rightarrow> (sessions, s1)
           | Some queue \<Rightarrow>
               steering_subscriber st sid n (sessions(sid \<mapsto> queue @ [instruction]), s1)))"

record reconcile_stats =
  rs_total_checked :: nat
  rs_orphaned_failed :: nat
  rs_already_owned :: nat
  rs_already_terminal :: nat
  rs_errors :: nat

text \<open>
  The call of an orphaned session: failed unless it is over, with the counters to increase. Saving reads the
  row again, and the status is then a plain string: the log line that follows asks it for its \<open>value\<close>, and that
  exception is counted as an error.
\<close>

definition reconcile_call :: "string \<Rightarrow> reconcile_stats \<times> db \<Rightarrow> reconcile_stats \<times> db" where
  "reconcile_call sid sd =
     (let (stats, d) = sd in
      case get_by_mango_call_id sid d of
        Inl e \<Rightarrow> (stats\<lparr>rs_errors := rs_errors stats + 1\<rparr>, d)
      | Inr None \<Rightarrow> (stats, d)
      | Inr (Some c) \<Rightarrow>
          if c_status c \<notin> terminal_statuses then (stats\<lparr>rs_errors := rs_errors stats + 1\<rparr>, save_call (c\<lparr>c_status := FAILED\<rparr>) d)
          else (stats\<lparr>rs_already_terminal := rs_already_terminal stats + 1\<rparr>, d))"

definition reconcile_one ::
    "'s session_store_if \<Rightarrow> time \<Rightarrow> string \<Rightarrow> reconcile_stats \<times> db \<times> 's \<Rightarrow> reconcile_stats \<times> db \<times> 's" where
  "reconcile_one st now sid w =
     (let (stats, d, s) = w in
      if so_lock_owner st sid now s \<noteq> None
      then (stats\<lparr>rs_already_owned := rs_already_owned stats + 1\<rparr>, d, s)
      else (case so_get st sid s of
              None \<Rightarrow>
                (stats\<lparr>rs_orphaned_failed := rs_orphaned_failed stats + 1\<rparr>, d,
                 so_remove_from_active st sid s)
            | Some meta \<Rightarrow>
                (let (stats1, d1) = reconcile_call sid (stats, d);
                     (updated, s1) = so_update_status st sid Sess_FAILED now s
                 in (stats1\<lparr>rs_orphaned_failed := rs_orphaned_failed stats1 + 1\<rparr>, d1,
                     so_remove_from_active st sid s1))))"

definition startup_reconcile ::
    "'s session_store_if \<Rightarrow> time \<Rightarrow> db \<times> 's \<Rightarrow> reconcile_stats \<times> db \<times> 's" where
  "startup_reconcile st now ds =
     (let (d, s) = ds; active_ids = so_active_ids st s;
          stats = \<lparr>rs_total_checked = length active_ids, rs_orphaned_failed = 0,
                   rs_already_owned = 0, rs_already_terminal = 0, rs_errors = 0\<rparr>
      in fold (reconcile_one st now) active_ids (stats, d, s))"

definition cleanup_one ::
    "'s session_store_if \<Rightarrow> time \<Rightarrow> string \<Rightarrow> string list \<times> 's \<Rightarrow> string list \<times> 's" where
  "cleanup_one st now sid w =
     (let (cleaned, s) = w in
      if so_lock_owner st sid now s \<noteq> None then (cleaned, s)
      else (case so_get st sid s of
              None \<Rightarrow> (cleaned @ [sid], so_remove_from_active st sid s)
            | Some meta \<Rightarrow>
                if m_status meta \<in> {Sess_TERMINATED, Sess_FAILED}
                then (cleaned @ [sid], so_remove_from_active st sid s) else (cleaned, s)))"

definition cleanup_stale :: "'s session_store_if \<Rightarrow> time \<Rightarrow> 's \<Rightarrow> string list \<times> 's" where
  "cleanup_stale st now s = fold (cleanup_one st now) (so_active_ids st s) ([], s)"

record coordinator_stats =
  cst_worker_id :: string
  cst_owned_sessions :: nat
  cst_active_in_store :: nat
  cst_orphaned_in_store :: nat
  cst_total_tracked :: nat

definition get_stats :: "'s session_store_if \<Rightarrow> time \<Rightarrow> coordinator \<times> 's \<Rightarrow> coordinator_stats" where
  "get_stats st now cs =
     (let (co, s) = cs; stats = so_stats st now s
      in \<lparr>cst_worker_id = co_worker_id co, cst_owned_sessions = length (co_heartbeats co),
          cst_active_in_store = active_count stats, cst_orphaned_in_store = orphaned_count stats,
          cst_total_tracked = total_tracked stats\<rparr>)"

section \<open>Reconciliation\<close>

text \<open>What reconciliation does to the calls of a list of orphaned sessions.\<close>

definition fail_call :: "string \<Rightarrow> db \<Rightarrow> db" where
  "fail_call sid d = snd (reconcile_call sid (undefined, d))"

definition failed_over :: "string set \<Rightarrow> db \<Rightarrow> call \<Rightarrow> call" where
  "failed_over sids d c =
     (if c_status c \<notin> terminal_statuses \<and> (\<exists>i\<in>sids. get_by_mango_call_id i d = Inr (Some c))
      then c\<lparr>c_status := FAILED\<rparr> else c)"

lemma reconcile_call_db: "snd (reconcile_call sid (stats, d)) = fail_call sid d"
  by (auto simp: reconcile_call_def fail_call_def split: sum.split option.split)

text \<open>Each call that the reconciliation fails is counted as an error too.\<close>

lemma failed_orphan_counts_as_error:
  assumes "get_by_mango_call_id sid d = Inr (Some c)" "c_status c \<notin> terminal_statuses"
  shows "rs_errors (fst (reconcile_call sid (stats, d))) = rs_errors stats + 1"
    and "snd (reconcile_call sid (stats, d)) = save_call (c\<lparr>c_status := FAILED\<rparr>) d"
  using assms by (simp_all add: reconcile_call_def)

lemma reconcile_call_stats [simp]:
  "rs_orphaned_failed (fst (reconcile_call sid (stats, d))) = rs_orphaned_failed stats"
  "rs_already_owned (fst (reconcile_call sid (stats, d))) = rs_already_owned stats"
  "rs_total_checked (fst (reconcile_call sid (stats, d))) = rs_total_checked stats"
  by (auto simp: reconcile_call_def split: sum.split option.split)

lemma upsert_map:
  "distinct (map key xs) \<Longrightarrow> key r \<in> key ` set xs \<Longrightarrow>
     upsert key r xs = map (\<lambda>x. if key x = key r then r else x) xs"
proof (induction xs)
  case (Cons x xs)
  show ?case
  proof (cases "key x = key r")
    case True
    have "map (\<lambda>y. if key y = key r then r else y) xs = xs"
      using Cons.prems(1) True by (intro map_idI) (auto simp: image_iff)
    with True show ?thesis by simp
  next
    case False
    with Cons.prems have "key r \<in> key ` set xs" by auto
    with Cons.IH Cons.prems(1) False show ?thesis by simp
  qed
qed simp

lemma one_or_none_map: "one_or_none (map f xs) = map_sum id (map_option f) (one_or_none xs)"
  by (cases xs rule: scalar_one_or_none.cases) (simp_all add: one_or_none_def)

lemma lookup_in: "get_by_mango_call_id i d = Inr (Some c) \<Longrightarrow> c \<in> set (calls d)"
  unfolding get_by_mango_call_id_def using one_or_none_Some by metis

lemma lookup_map_calls:
  assumes "\<And>c. c_mango_call_id (f c) = c_mango_call_id c"
  shows "get_by_mango_call_id j (d\<lparr>calls := map f (calls d)\<rparr>)
      = map_sum id (map_option f) (get_by_mango_call_id j d)"
  by (simp add: get_by_mango_call_id_def filter_map o_def assms one_or_none_map)

lemma fail_call_map:
  assumes "calls_wf d"
  shows "fail_call i d = d\<lparr>calls := map (failed_over {i} d) (calls d)\<rparr>"
proof (cases "\<exists>c. get_by_mango_call_id i d = Inr (Some c) \<and> c_status c \<notin> terminal_statuses")
  case True
  then obtain c where c: "get_by_mango_call_id i d = Inr (Some c)" "c_status c \<notin> terminal_statuses"
    by blast
  have mem: "c \<in> set (calls d)" using c(1) by (rule lookup_in)
  have "upsert c_id (c\<lparr>c_status := FAILED\<rparr>) (calls d)
      = map (\<lambda>x. if c_id x = c_id (c\<lparr>c_status := FAILED\<rparr>) then c\<lparr>c_status := FAILED\<rparr> else x) (calls d)"
    using assms mem by (intro upsert_map) (auto simp: calls_wf_def)
  also have "\<dots> = map (failed_over {i} d) (calls d)"
    using assms mem c
    by (intro map_cong) (auto simp: failed_over_def calls_wf_def distinct_map inj_on_def)
  finally show ?thesis using c by (simp add: fail_call_def reconcile_call_def save_call_def)
next
  case False
  then have "map (failed_over {i} d) (calls d) = calls d"
    by (intro map_idI) (auto simp: failed_over_def)
  with False show ?thesis
    by (auto simp: fail_call_def reconcile_call_def split: sum.split option.split)
qed

lemma failed_over_simps [simp]:
  "c_mango_call_id (failed_over S d c) = c_mango_call_id c" "c_id (failed_over S d c) = c_id c"
  by (simp_all add: failed_over_def)

lemma failed_over_compose:
  assumes "d' = d\<lparr>calls := map (failed_over {i} d) (calls d)\<rparr>"
  shows "failed_over S d' (failed_over {i} d c) = failed_over (insert i S) d c"
proof -
  have look: "get_by_mango_call_id j d' = map_sum id (map_option (failed_over {i} d)) (get_by_mango_call_id j d)" for j
    unfolding assms by (rule lookup_map_calls) simp
  show ?thesis
  proof (cases "c_status c \<notin> terminal_statuses \<and> get_by_mango_call_id i d = Inr (Some c)")
    case True
    then show ?thesis by (simp add: failed_over_def terminal_statuses_def)
  next
    case False
    have same: "failed_over {i} d c = c" using False by (auto simp: failed_over_def)
    have "get_by_mango_call_id j d' = Inr (Some c) \<longleftrightarrow> get_by_mango_call_id j d = Inr (Some c)"
      if "c_status c \<notin> terminal_statuses" for j
    proof
      assume "get_by_mango_call_id j d' = Inr (Some c)"
      then obtain c0 where c0: "get_by_mango_call_id j d = Inr (Some c0)" "failed_over {i} d c0 = c"
        unfolding look by (cases "get_by_mango_call_id j d") auto
      have "failed_over {i} d c0 = c0"
        using c0(2) that by (auto simp: failed_over_def terminal_statuses_def split: if_splits)
      with c0 show "get_by_mango_call_id j d = Inr (Some c)" by simp
    qed (simp add: look same)
    with same False show ?thesis by (auto simp: failed_over_def)
  qed
qed

lemma fail_calls_map:
  "calls_wf d \<Longrightarrow> fold fail_call xs d = d\<lparr>calls := map (failed_over (set xs) d) (calls d)\<rparr>"
proof (induction xs arbitrary: d)
  case Nil
  have "map (failed_over {} d) (calls d) = calls d" by (intro map_idI) (simp add: failed_over_def)
  then show ?case by simp
next
  case (Cons i xs)
  let ?d = "d\<lparr>calls := map (failed_over {i} d) (calls d)\<rparr>"
  have "calls_wf ?d" using Cons.prems by (simp add: calls_wf_def o_def)
  from Cons.IH [OF this] have "fold fail_call (i # xs) d
      = ?d\<lparr>calls := map (failed_over (set xs) ?d) (map (failed_over {i} d) (calls d))\<rparr>"
    by (simp add: fail_call_map [OF Cons.prems])
  also have "map (failed_over (set xs) ?d) (map (failed_over {i} d) (calls d))
      = map (failed_over (set (i # xs)) d) (calls d)"
    by (simp add: failed_over_compose [OF refl])
  finally show ?case by simp
qed

context session_store
begin

lemma reconcile_one_store:
  assumes "reconcile_one st now i (stats, d, s) = (stats', d', s')"
  shows "so_active_ids st s' = (if so_lock_owner st i now s = None
            then filter (\<lambda>x. x \<noteq> i) (so_active_ids st s) else so_active_ids st s)"
    and "so_lock_owner st j u s' = so_lock_owner st j u s"
    and "so_get st j s' = (if j = i \<and> so_lock_owner st i now s = None
           then map_option (\<lambda>m. m\<lparr>m_status := Sess_FAILED, m_updated_at := now\<rparr>) (so_get st j s)
           else so_get st j s)"
  using assms
  by (auto simp: reconcile_one_def ids_remove ids_frame owner_frame get_frame Let_def
      get_update split: if_splits option.splits prod.splits dest!: arg_cong [where f = snd])

lemma reconcile_one_db:
  assumes "reconcile_one st now i (stats, d, s) = (stats', d', s')"
  shows "d' = (if so_lock_owner st i now s = None \<and> so_get st i s \<noteq> None then fail_call i d else d)"
    and "rs_total_checked stats' = rs_total_checked stats"
    and "rs_orphaned_failed stats' = rs_orphaned_failed stats + (if so_lock_owner st i now s = None then 1 else 0)"
    and "rs_already_owned stats' = rs_already_owned stats + (if so_lock_owner st i now s = None then 0 else 1)"
  using assms reconcile_call_db [of i stats d] reconcile_call_stats [of i stats d]
  by (auto simp: reconcile_one_def Let_def simp del: reconcile_call_stats
      split: if_splits option.splits prod.splits)

text \<open>A pass over any list of sessions, at the store and at the database.\<close>

lemma reconcile_fold:
  assumes "fold (reconcile_one st now) xs (stats, d, s) = (stats', d', s')"
  shows "so_active_ids st s' = filter (\<lambda>x. x \<notin> set xs \<or> so_lock_owner st x now s \<noteq> None) (so_active_ids st s)
    \<and> (\<forall>j u. so_lock_owner st j u s' = so_lock_owner st j u s)
    \<and> (\<forall>j. so_get st j s' = (if j \<in> set xs \<and> so_lock_owner st j now s = None
           then map_option (\<lambda>m. m\<lparr>m_status := Sess_FAILED, m_updated_at := now\<rparr>) (so_get st j s)
           else so_get st j s))
    \<and> d' = fold fail_call (filter (\<lambda>x. so_lock_owner st x now s = None \<and> so_get st x s \<noteq> None) xs) d
    \<and> rs_total_checked stats' = rs_total_checked stats
    \<and> rs_orphaned_failed stats' = rs_orphaned_failed stats + length (filter (\<lambda>x. so_lock_owner st x now s = None) xs)
    \<and> rs_already_owned stats' = rs_already_owned stats + length (filter (\<lambda>x. so_lock_owner st x now s \<noteq> None) xs)"
  using assms
proof (induction xs arbitrary: stats d s)
  case (Cons i xs)
  obtain stats1 d1 s1 where one: "reconcile_one st now i (stats, d, s) = (stats1, d1, s1)"
    by (metis prod_cases3)
  have "fold (reconcile_one st now) xs (stats1, d1, s1) = (stats', d', s')" using Cons.prems one by simp
  note ih = Cons.IH [OF this]
  note st1 = reconcile_one_store [OF one]
  note db1 = reconcile_one_db [OF one]
  have ids: "so_active_ids st s' = filter (\<lambda>x. x \<notin> set (i # xs) \<or> so_lock_owner st x now s \<noteq> None) (so_active_ids st s)"
    using ih by (auto simp: st1 intro!: filter_cong)
  have get: "\<forall>j. so_get st j s' = (if j \<in> set (i # xs) \<and> so_lock_owner st j now s = None
           then map_option (\<lambda>m. m\<lparr>m_status := Sess_FAILED, m_updated_at := now\<rparr>) (so_get st j s)
           else so_get st j s)"
    using ih by (auto simp: st1 option.map_comp o_def)
  have "filter (\<lambda>x. so_lock_owner st x now s1 = None \<and> so_get st x s1 \<noteq> None) xs
      = filter (\<lambda>x. so_lock_owner st x now s = None \<and> so_get st x s \<noteq> None) xs"
    by (auto simp: st1 intro!: filter_cong)
  with ids get ih show ?case by (simp add: st1 db1)
qed simp

lemma reconcile_store:
  assumes "startup_reconcile st now (d, s) = (stats, d', s')"
  shows "so_active_ids st s' = filter (\<lambda>i. so_lock_owner st i now s \<noteq> None) (so_active_ids st s)"
    and "so_lock_owner st j u s' = so_lock_owner st j u s"
    and "so_get st j s' = (if j \<in> set (so_active_ids st s) \<and> so_lock_owner st j now s = None
           then map_option (\<lambda>m. m\<lparr>m_status := Sess_FAILED, m_updated_at := now\<rparr>) (so_get st j s)
           else so_get st j s)"
    and "d' = fold fail_call (filter (\<lambda>i. so_lock_owner st i now s = None \<and> so_get st i s \<noteq> None)
                               (so_active_ids st s)) d"
    and "rs_total_checked stats = length (so_active_ids st s)"
    and "rs_orphaned_failed stats = length (filter (\<lambda>i. so_lock_owner st i now s = None) (so_active_ids st s))"
    and "rs_already_owned stats = length (filter (\<lambda>i. so_lock_owner st i now s \<noteq> None) (so_active_ids st s))"
proof -
  have run: "fold (reconcile_one st now) (so_active_ids st s)
      (\<lparr>rs_total_checked = length (so_active_ids st s), rs_orphaned_failed = 0, rs_already_owned = 0,
        rs_already_terminal = 0, rs_errors = 0\<rparr>, d, s) = (stats, d', s')"
    using assms by (simp add: startup_reconcile_def Let_def)
  note fold_result = reconcile_fold [OF run]
  show "so_active_ids st s' = filter (\<lambda>i. so_lock_owner st i now s \<noteq> None) (so_active_ids st s)"
    using fold_result by (auto intro!: filter_cong)
qed (use reconcile_fold [OF assms [unfolded startup_reconcile_def Let_def split_beta fst_conv snd_conv]]
      in simp_all)

text \<open>Cleanup removes exactly the unowned sessions without metadata or with a final status.\<close>

definition stale :: "time \<Rightarrow> 's \<Rightarrow> string \<Rightarrow> bool" where
  "stale now s i \<longleftrightarrow> so_lock_owner st i now s = None
     \<and> (case so_get st i s of None \<Rightarrow> True | Some m \<Rightarrow> m_status m \<in> {Sess_TERMINATED, Sess_FAILED})"

lemma cleanup_one_eq:
  "cleanup_one st now i (cleaned, s)
     = (if stale now s i then (cleaned @ [i], so_remove_from_active st i s) else (cleaned, s))"
  by (auto simp: cleanup_one_def stale_def split: option.split)

lemma stale_remove: "stale now (so_remove_from_active st i s) = stale now s"
  by (simp add: stale_def owner_frame get_frame fun_eq_iff)

lemma cleanup_fold:
  assumes "fold (cleanup_one st now) xs (cleaned, s) = (cleaned', s')"
  shows "cleaned' = cleaned @ filter (stale now s) xs
    \<and> so_active_ids st s' = filter (\<lambda>i. i \<notin> set xs \<or> \<not> stale now s i) (so_active_ids st s)"
  using assms
proof (induction xs arbitrary: cleaned s)
  case (Cons i xs)
  show ?case
  proof (cases "stale now s i")
    case True
    then have "fold (cleanup_one st now) xs (cleaned @ [i], so_remove_from_active st i s) = (cleaned', s')"
      using Cons.prems by (simp add: cleanup_one_eq)
    from Cons.IH [OF this] True show ?thesis
      by (auto simp: stale_remove ids_remove intro!: filter_cong)
  next
    case False
    then have "fold (cleanup_one st now) xs (cleaned, s) = (cleaned', s')"
      using Cons.prems by (simp add: cleanup_one_eq)
    from Cons.IH [OF this] False show ?thesis by (auto intro!: filter_cong)
  qed
qed simp

lemma cleanup_stale_exact:
  assumes "cleanup_stale st now s = (cleaned, s')"
  shows "cleaned = filter (stale now s) (so_active_ids st s)
    \<and> so_active_ids st s' = filter (\<lambda>i. \<not> stale now s i) (so_active_ids st s)"
  using cleanup_fold [OF assms [unfolded cleanup_stale_def]] by (auto intro!: filter_cong)

end

text \<open>
  C11. Reconciliation settles every orphan and nothing else. With call ids distinct, after a pass
  over the in-memory store at startup: the sessions still active are those whose lock is held, in
  their order, and none is orphaned; no lock changed; the metadata of each orphan says \<open>FAILED\<close> and
  no other changed; a call is marked \<open>FAILED\<close> exactly when it is not over and is the one call that
  carries an orphan's session id (with metadata), and every other call is untouched; the counters
  add up.
\<close>

theorem reconcile_settles_orphans:
  assumes "calls_wf d"
    and "startup_reconcile memory_sessions now (d, s) = (stats, d', s')"
  shows "ms_active s' = filter (\<lambda>i. ms_locks s i \<noteq> None) (ms_active s)
    \<and> cst_orphaned_in_store (get_stats memory_sessions now (co, s')) = 0
    \<and> ms_locks s' = ms_locks s
    \<and> (\<forall>i. mem_get i s' = (if i \<in> set (ms_active s) \<and> ms_locks s i = None
           then map_option (\<lambda>m. m\<lparr>m_status := Sess_FAILED, m_updated_at := now\<rparr>) (mem_get i s)
           else mem_get i s))
    \<and> calls d' = map (failed_over {i \<in> set (ms_active s). ms_locks s i = None \<and> mem_get i s \<noteq> None} d) (calls d)
    \<and> rs_total_checked stats = rs_orphaned_failed stats + rs_already_owned stats
    \<and> rs_already_owned stats = length (ms_active s')"
proof -
  note store = memory.reconcile_store [OF assms(2), unfolded mem_lock_owner_def]
  have "sum_list (map (\<lambda>_. 1) xs) = length (filter P xs) + length (filter (\<lambda>x. \<not> P x) xs)"
    for P and xs :: "string list"
    by (induction xs) auto
  then have split: "length xs = length (filter P xs) + length (filter (\<lambda>x. \<not> P x) xs)"
    for P and xs :: "string list"
    by (simp add: sum_list_triv)
  have owners: "ms_locks s' = ms_locks s"
    using store(2) by (simp add: fun_eq_iff)
  moreover have "cst_orphaned_in_store (get_stats memory_sessions now (co, s')) = 0"
    using store(1) owners
    by (auto simp: get_stats_def memory_sessions_def mem_stats_def Let_def filter_empty_conv)
  moreover have "calls d'
      = map (failed_over {i \<in> set (ms_active s). ms_locks s i = None \<and> mem_get i s \<noteq> None} d) (calls d)"
    using store(4) by (simp add: fail_calls_map [OF assms(1)])
  moreover have "rs_total_checked stats = rs_orphaned_failed stats + rs_already_owned stats"
    using store(5,6,7) split [of "ms_active s" "\<lambda>i. ms_locks s i = None"] by simp
  moreover have "rs_already_owned stats = length (ms_active s')" using store(1,7) by simp
  ultimately show ?thesis using store(1,3) by blast
qed

definition demo_meta :: "string \<Rightarrow> session_meta" where
  "demo_meta sid = \<lparr>m_session_id = sid, m_call_id = ''c'', m_phone = ''+79991234567'',
     m_status = Sess_ACTIVE, m_worker_id = ''old'', m_created_at = 0, m_updated_at = 0\<rparr>"

definition demo_store :: memory_store where
  "demo_store = \<lparr>ms_meta = [(''live'', demo_meta ''live''), (''dead'', demo_meta ''dead'')],
     ms_locks = [''live'' \<mapsto> ''W1''], ms_active = [''dead'', ''live'', ''gone''], ms_queues = Map.empty\<rparr>"

definition session_call :: "uuid \<Rightarrow> string \<Rightarrow> call_status \<Rightarrow> call" where
  "session_call i sid status =
     \<lparr>c_id = i, c_created_at = 0, c_phone = ''+79991234567'', c_mode = DIRECT, c_status = status,
      c_agent_profile_id = None, c_manager_id = None, c_vapi_call_id = None, c_mango_call_id = Some sid,
      c_route_used = Some ''direct'', c_telephony_leg_id = None, c_transcript = None, c_summary = None,
      c_sentiment = None, c_completed_at = None, c_runtime_context = None\<rparr>"

theorem reconcile_settles_orphans_witness:
  "let d = empty_db\<lparr>calls := [session_call 1 ''live'' IN_PROGRESS, session_call 2 ''dead'' IN_PROGRESS]\<rparr>;
       (stats, d', s') = startup_reconcile memory_sessions 7 (d, demo_store)
   in ms_active s' = [''live''] \<and> map c_status (calls d') = [IN_PROGRESS, FAILED]"
proof -
  let ?d = "empty_db\<lparr>calls := [session_call 1 ''live'' IN_PROGRESS, session_call 2 ''dead'' IN_PROGRESS]\<rparr>"
  obtain stats d' s' where run: "startup_reconcile memory_sessions 7 (?d, demo_store) = (stats, d', s')"
    by (metis prod_cases3)
  have wf: "calls_wf ?d" by (simp add: calls_wf_def session_call_def)
  have orphans: "{i \<in> set (ms_active demo_store). ms_locks demo_store i = None \<and> mem_get i demo_store \<noteq> None}
      = {''dead''}"
    by (auto simp: demo_store_def mem_get_def split: if_splits)
  have "failed_over {''dead''} ?d (session_call 1 ''live'' IN_PROGRESS) = session_call 1 ''live'' IN_PROGRESS"
    "failed_over {''dead''} ?d (session_call 2 ''dead'' IN_PROGRESS) = session_call 2 ''dead'' FAILED"
    by (simp_all add: failed_over_def get_by_mango_call_id_def one_or_none_def session_call_def
        terminal_statuses_def)
  with reconcile_settles_orphans [OF wf run, where co = "init_coordinator ''W''"] run orphans
  show ?thesis by (simp add: demo_store_def session_call_def)
qed

section \<open>Ownership\<close>

context session_store
begin

lemma new_meta_id [simp]: "m_session_id (new_meta co i cid phone now) = i"
  by (simp add: new_meta_def)

text \<open>A free session is claimed; of a session that another worker holds, the metadata is overwritten.\<close>

lemma register_free:
  assumes "so_lock_owner st i now s = None"
    and "register_session st i cid phone now (co, s) = (ok, co', s')"
  shows "ok \<and> so_get st i s' = Some (new_meta co i cid phone now) \<and> i \<in> set (so_active_ids st s')
    \<and> find_row fst i (co_heartbeats co') = Some (i, True)
    \<and> (\<forall>u. now \<le> u \<and> u < now + seconds lock_ttl_seconds
          \<longrightarrow> so_lock_owner st i u s' = Some (co_worker_id co))"
proof -
  let ?s1 = "so_create st (new_meta co i cid phone now) s"
  have free: "so_lock_owner st i now ?s1 = None" using assms(1) by (simp add: owner_frame)
  then have "fst (so_acquire_lock st i (co_worker_id co) now ?s1)" by (simp add: acquire_iff)
  with assms(2) show ?thesis
    by (auto simp: register_session_def Let_def owner_frame get_frame get_create ids_add
        acquire_lease [OF free] split: prod.splits dest!: arg_cong [where f = snd])
qed

lemma register_held:
  assumes "so_lock_owner st i now s = Some w"
    and "register_session st i cid phone now (co, s) = (ok, co', s')"
  shows "\<not> ok \<and> co' = co \<and> so_active_ids st s' = so_active_ids st s
    \<and> so_lock_owner st j u s' = so_lock_owner st j u s
    \<and> so_get st i s' = Some (new_meta co i cid phone now)"
proof -
  let ?s1 = "so_create st (new_meta co i cid phone now) s"
  have held: "so_lock_owner st i now ?s1 \<noteq> None" using assms(1) by (simp add: owner_frame)
  then have "\<not> fst (so_acquire_lock st i (co_worker_id co) now ?s1)" by (simp add: acquire_iff)
  with assms(2) show ?thesis
    using acquire_refused [OF held, of j u "co_worker_id co"]
    by (auto simp: register_session_def Let_def owner_frame get_frame get_create ids_frame
        split: prod.splits if_splits dest!: arg_cong [where f = snd])
qed

text \<open>After a release nobody owns the session, whoever released it.\<close>

lemma release_frees_any:
  assumes "release_session st i now (co, s) = (co', s')"
  shows "so_lock_owner st i u s' = None \<and> so_get st i s' = None \<and> i \<notin> set (so_active_ids st s')"
  using assms
  by (auto simp: release_session_def Let_def drop_frees get_delete ids_delete split: prod.splits)

end

text \<open>
  C13. A session has one owner until it is released. When two workers register the same free
  session with the in-memory store, in either order of their calls, the first succeeds and the
  second is told of the conflict; the first one's heartbeat still succeeds and it is still the
  owner, whatever the second one's heartbeat task does.
\<close>

theorem register_is_exclusive:
  assumes "ms_locks s i = None"
    and "co_worker_id a \<noteq> co_worker_id b"
    and "register_session memory_sessions i cid phone t (a, s) = (ok_a, a', s1)"
    and "register_session memory_sessions i cid' phone' t' (b, s1) = (ok_b, b', s2)"
    and "heartbeat_round memory_sessions i t'' (b', s2) = (b'', s3)"
    and "heartbeat_round memory_sessions i u (a', s3) = (a'', s4)"
  shows "ok_a \<and> \<not> ok_b \<and> a'' = a' \<and> ms_locks s4 i = Some (co_worker_id a) \<and> i \<in> set (ms_active s4)"
proof -
  have first_one: "ok_a" "i \<in> set (ms_active s1)" "find_row fst i (co_heartbeats a') = Some (i, True)"
    and own1: "ms_locks s1 i = Some (co_worker_id a)"
    using memory.register_free [OF _ assms(3)] assms(1)
    by (auto simp: mem_lock_owner_def lock_ttl_seconds_def seconds_def)
  have second: "\<not> ok_b" "ms_active s2 = ms_active s1" "ms_locks s2 i = ms_locks s1 i"
    using memory.register_held [OF _ assms(4), of "co_worker_id a" i 0] own1 by (auto simp: mem_lock_owner_def)
  have id_a: "co_worker_id a' = co_worker_id a"
    using assms(3) by (auto simp: register_session_def Let_def split: prod.splits if_splits)
  have s3: "s3 = s2"
    using assms(5)
    by (auto simp: heartbeat_round_def memory_sessions_def mem_renew_lock_def Let_def split: if_splits)
  with assms(6) own1 second id_a have "a'' = a'" "s4 = s2"
    by (auto simp: heartbeat_round_def memory_sessions_def mem_renew_lock_def Let_def split: if_splits)
  with first_one second own1 show ?thesis by simp
qed

theorem register_is_exclusive_witness:
  "let (ok_a, a', s1) = register_session memory_sessions ''s'' ''c'' ''p'' 0 (init_coordinator ''A'', empty_memory_store);
       (ok_b, b', s2) = register_session memory_sessions ''s'' ''c'' ''p'' 1 (init_coordinator ''B'', s1);
       (b'', s3) = heartbeat_round memory_sessions ''s'' 2 (b', s2);
       (a'', s4) = heartbeat_round memory_sessions ''s'' 3 (a', s3)
   in ok_a \<and> \<not> ok_b \<and> ms_locks s4 ''s'' = Some ''A''"
proof -
  let ?a = "init_coordinator ''A''" and ?b = "init_coordinator ''B''"
  obtain ok_a a' s1 where r1: "register_session memory_sessions ''s'' ''c'' ''p'' 0 (?a, empty_memory_store) = (ok_a, a', s1)"
    by (metis prod_cases3)
  obtain ok_b b' s2 where r2: "register_session memory_sessions ''s'' ''c'' ''p'' 1 (?b, s1) = (ok_b, b', s2)"
    by (metis prod_cases3)
  obtain b'' s3 where h1: "heartbeat_round memory_sessions ''s'' 2 (b', s2) = (b'', s3)"
    by (metis surj_pair)
  obtain a'' s4 where h2: "heartbeat_round memory_sessions ''s'' 3 (a', s3) = (a'', s4)"
    by (metis surj_pair)
  have free: "ms_locks empty_memory_store ''s'' = None" by (simp add: empty_memory_store_def)
  have ids: "co_worker_id ?a \<noteq> co_worker_id ?b" by (simp add: init_coordinator_def)
  from register_is_exclusive [OF free ids r1 r2 h1 h2] r1 r2 h1 h2
  show ?thesis by (simp add: init_coordinator_def)
qed

text \<open>
  The session manager goes on with a session whose registration was refused and releases it when
  it ends. That release deletes the lock of the worker that owns the session, and its next
  heartbeat is refused.
\<close>

lemma refused_session_frees_owner:
  assumes "ms_locks s i = Some (co_worker_id a)" "find_row fst i (co_heartbeats a) = Some (i, True)"
    and "register_session memory_sessions i cid phone t (b, s) = (ok_b, b', s1)"
    and "release_session memory_sessions i t' (b', s1) = (b'', s2)"
    and "heartbeat_round memory_sessions i u (a, s2) = (a', s3)"
  shows "\<not> ok_b \<and> ms_locks s2 i = None \<and> find_row fst i (co_heartbeats a') = Some (i, False)"
proof -
  have "\<not> ok_b"
    using memory.register_held [OF _ assms(3), of "co_worker_id a"] assms(1)
    by (simp add: mem_lock_owner_def)
  moreover have free: "ms_locks s2 i = None"
    using memory.release_frees_any [OF assms(4)] by (simp add: mem_lock_owner_def)
  ultimately show ?thesis using assms(2,5)
    by (auto simp: heartbeat_round_def memory_sessions_def mem_renew_lock_def Let_def)
qed

section \<open>Steering\<close>

fun send_all ::
    "'s session_store_if \<Rightarrow> string \<Rightarrow> (string \<times> time) list \<Rightarrow> local_sessions \<times> 's
     \<Rightarrow> bool list \<times> local_sessions \<times> 's" where
  "send_all st sid [] ls = ([], ls)"
| "send_all st sid ((x, now) # xs) ls =
     (let (ok, ls1) = send_steering st sid x now ls;
          (oks, ls2) = send_all st sid xs ls1
      in (ok # oks, ls2))"

lemma publish_owner [simp]:
  "ms_locks (mem_publish i x s) = ms_locks s" "queue_of i (mem_publish i x s) = queue_of i s @ [x]"
  by (simp_all add: mem_publish_def queue_of_def)

lemma send_all_remote:
  "sessions i = None \<Longrightarrow> ms_locks s i = Some w \<Longrightarrow> \<exists>s1.
     send_all memory_sessions i xs (sessions, s) = (replicate (length xs) True, sessions, s1)
     \<and> queue_of i s1 = queue_of i s @ map fst xs \<and> ms_locks s1 = ms_locks s"
proof (induction xs arbitrary: s)
  case (Cons x xs)
  obtain y now where x: "x = (y, now)" by (cases x)
  have "ms_locks (mem_publish i y s) i = Some w" using Cons.prems(2) by simp
  from Cons.IH [OF Cons.prems(1) this] Cons.prems x show ?case
    by (auto simp: send_steering_def memory_sessions_def mem_lock_owner_def)
qed simp

lemma next_steering_queue:
  "queue_of i s = [] \<Longrightarrow> fst (mem_next_steering i s) = None \<and> queue_of i (snd (mem_next_steering i s)) = []"
  "queue_of i s = x # q \<Longrightarrow> fst (mem_next_steering i s) = Some x \<and> queue_of i (snd (mem_next_steering i s)) = q"
  by (simp_all add: mem_next_steering_def queue_of_def)

lemma memory_next [simp]: "so_next_steering memory_sessions = mem_next_steering"
  by (simp add: memory_sessions_def)

lemma subscriber_drains:
  "sessions i = Some q \<Longrightarrow> length (queue_of i s) \<le> n \<Longrightarrow> \<exists>s1.
     steering_subscriber memory_sessions i n (sessions, s) = (sessions(i \<mapsto> q @ queue_of i s), s1)
     \<and> queue_of i s1 = []"
proof (induction n arbitrary: sessions q s)
  case (Suc n)
  show ?case
  proof (cases "queue_of i s")
    case Nil
    with Suc.prems next_steering_queue(1) [OF Nil] show ?thesis
      by (cases "mem_next_steering i s") (simp add: map_upd_triv)
  next
    case (Cons x xs)
    obtain s1 where nx: "mem_next_steering i s = (Some x, s1)" "queue_of i s1 = xs"
      using next_steering_queue(2) [OF Cons] by (cases "mem_next_steering i s") auto
    have "length (queue_of i s1) \<le> n" using Suc.prems(2) Cons nx by simp
    moreover have "(sessions(i \<mapsto> q @ [x])) i = Some (q @ [x])" by simp
    ultimately obtain s2 where "steering_subscriber memory_sessions i n (sessions(i \<mapsto> q @ [x]), s1)
        = ((sessions(i \<mapsto> q @ [x]))(i \<mapsto> (q @ [x]) @ queue_of i s1), s2)" "queue_of i s2 = []"
      using Suc.IH by blast
    with Suc.prems(1) nx Cons show ?thesis by (auto simp: fun_upd_def)
  qed
qed (simp add: map_upd_triv)

text \<open>
  With the store of one process, instructions that are sent while the session has an owner are all
  delivered; without an owner each is refused and nothing changes.
\<close>

lemma memory_steering_reaches_owner:
  assumes "elsewhere i = None" and "own i = Some q"
    and "send_all memory_sessions i xs (elsewhere, s) = (oks, elsewhere', s1)"
    and "steering_subscriber memory_sessions i n (own, s1) = (own', s2)"
    and "length (queue_of i s) + length xs \<le> n"
  shows "(if ms_locks s i = None then oks = replicate (length xs) False \<and> s1 = s
          else oks = replicate (length xs) True
             \<and> own' = own(i \<mapsto> q @ queue_of i s @ map fst xs) \<and> queue_of i s2 = [])
    \<and> elsewhere' = elsewhere"
proof (cases "ms_locks s i")
  case None
  have "send_all memory_sessions i xs (elsewhere, s) = (replicate (length xs) False, elsewhere, s)"
    using None assms(1)
    by (induction xs) (auto simp: send_steering_def memory_sessions_def mem_lock_owner_def)
  with assms(3) None show ?thesis by simp
next
  case (Some w)
  obtain s1' where send: "send_all memory_sessions i xs (elsewhere, s) = (replicate (length xs) True, elsewhere, s1')"
      "queue_of i s1' = queue_of i s @ map fst xs"
    using send_all_remote [where sessions = elsewhere and i = i and s = s and w = w and xs = xs, OF assms(1) Some] by blast
  with assms(3) have s1: "s1 = s1'" by simp
  have "length (queue_of i s1) \<le> n" using assms(5) send(2) s1 by simp
  from subscriber_drains [where sessions = own and i = i and q = q and s = s1 and n = n, OF assms(2) this]
    assms(3,4) send s1 Some show ?thesis by auto
qed

text \<open>The same over pub/sub, where the channel passes on only what its subscriber is there for.\<close>

abbreviation owned_at :: "'s session_store_if \<Rightarrow> string \<Rightarrow> 's \<Rightarrow> string \<times> time \<Rightarrow> bool" where
  "owned_at st i s x \<equiv> so_lock_owner st i (snd x) s \<noteq> None"

lemma pubsub_send:
  "sessions i = None \<Longrightarrow> send_steering (pubsub_sessions st) i x now (sessions, (s, ch))
     = (if so_lock_owner st i now s = None then (False, sessions, (s, ch))
        else (True, sessions, (s, redis_publish i x ch)))"
  by (simp add: send_steering_def pubsub_sessions_def split: option.split)

lemma pubsub_send_all:
  "sessions i = None \<Longrightarrow> send_all (pubsub_sessions st) i xs (sessions, (s, ch))
     = (map (owned_at st i s) xs, sessions,
        (s, ch(i := map_option (\<lambda>q. q @ map fst (filter (owned_at st i s) xs)) (ch i))))"
proof (induction xs arbitrary: ch)
  case (Cons x xs)
  then show ?case
    by (cases x) (auto simp: pubsub_send redis_publish_def option.map_comp comp_def)
qed (auto simp: fun_upd_idem option.map_ident)

lemma pubsub_next:
  "so_next_steering (pubsub_sessions st) i (s, ch) = (let (r, ch') = redis_next_steering i ch in (r, s, ch'))"
  by (simp add: pubsub_sessions_def)

lemma pubsub_drains:
  "sessions i = Some q \<Longrightarrow> ch i = Some buf \<Longrightarrow> length buf \<le> n \<Longrightarrow>
     \<exists>ch'. steering_subscriber (pubsub_sessions st) i n (sessions, (s, ch)) = (sessions(i \<mapsto> q @ buf), (s, ch'))
       \<and> ch' i = Some []"
proof (induction n arbitrary: sessions q ch buf)
  case (Suc n)
  show ?case
  proof (cases buf)
    case Nil
    with Suc.prems show ?thesis by (simp add: pubsub_next redis_next_steering_def map_upd_triv)
  next
    case (Cons x xs)
    have "length xs \<le> n" using Suc.prems(3) Cons by simp
    from Suc.IH [of "sessions(i \<mapsto> q @ [x])" "q @ [x]" "ch(i \<mapsto> xs)", OF fun_upd_same fun_upd_same this]
    obtain ch' where "steering_subscriber (pubsub_sessions st) i n (sessions(i \<mapsto> q @ [x]), (s, ch(i \<mapsto> xs)))
        = (sessions(i \<mapsto> q @ buf), (s, ch'))" "ch' i = Some []"
      using Cons by (auto simp del: fun_upd_apply)
    moreover have "steering_subscriber (pubsub_sessions st) i (Suc n) (sessions, (s, ch))
        = steering_subscriber (pubsub_sessions st) i n (sessions(i \<mapsto> q @ [x]), (s, ch(i \<mapsto> xs)))"
      using Suc.prems Cons by (simp add: pubsub_next redis_next_steering_def del: fun_upd_apply)
    ultimately show ?thesis by (intro exI [of _ ch'] conjI) (simp_all del: fun_upd_apply)
  qed
qed (simp add: map_upd_triv)

lemma pubsub_subscribes:
  assumes "ch i = None"
  shows "fst (steering_subscriber (pubsub_sessions st) i n (sessions, (s, ch))) = sessions"
  using assms by (cases n) (simp_all add: pubsub_next redis_next_steering_def)

text \<open>
  C14. Steering between workers. Over Redis pub/sub (and any store for the rest), an instruction that a
  worker without the session sends is reported as sent exactly when the session has an owner at that
  moment. If the owner's subscription is up, then once its subscriber has run as many rounds as there are
  instructions, those that were reported as sent are in the session's queue, after what was there, each
  once and in the order sent. If the owner has not subscribed yet, they are lost, although they were
  reported as sent; nothing else changes in either case.
\<close>

theorem steering_reaches_owner:
  fixes st :: "'s session_store_if"
  assumes "elsewhere i = None" and "own i = Some q"
    and "send_all (pubsub_sessions st) i xs (elsewhere, (s, ch)) = (oks, elsewhere', (s1, ch1))"
    and "steering_subscriber (pubsub_sessions st) i n (own, (s1, ch1)) = (own', (s2, ch2))"
    and "(case ch i of None \<Rightarrow> 0 | Some buf \<Rightarrow> length buf) + length xs \<le> n"
  shows "oks = map (\<lambda>(x, now). so_lock_owner st i now s \<noteq> None) xs
    \<and> (case ch i of
         Some buf \<Rightarrow> own' = own(i \<mapsto> q @ buf @ [x. ((x, now), ok) \<leftarrow> zip xs oks, ok]) \<and> ch2 i = Some []
       | None \<Rightarrow> own' = own)
    \<and> elsewhere' = elsewhere \<and> s1 = s"
proof -
  let ?sent = "map fst (filter (owned_at st i s) xs)"
  have send: "oks = map (owned_at st i s) xs" "elsewhere' = elsewhere" "s1 = s"
    "ch1 = ch(i := map_option (\<lambda>q. q @ ?sent) (ch i))"
    using assms(3) unfolding pubsub_send_all [of elsewhere, OF assms(1)] prod.inject by blast+
  have sent: "[x. ((x, now), ok) \<leftarrow> zip xs (map (owned_at st i s) xs), ok] = ?sent"
    by (induction xs) auto
  have "case ch i of Some buf \<Rightarrow> own' = own(i \<mapsto> q @ buf @ ?sent) \<and> ch2 i = Some [] | None \<Rightarrow> own' = own"
  proof (cases "ch i")
    case None
    with send(4) have "ch1 i = None" by simp
    from pubsub_subscribes [where st = st and n = n and sessions = own and s = s1, of ch1 i, OF this] assms(4) None
    show ?thesis by simp
  next
    case (Some buf)
    then have ch1: "ch1 i = Some (buf @ ?sent)" using send(4) by simp
    have "length ?sent \<le> length xs" by simp
    then have "length (buf @ ?sent) \<le> n" using assms(5) Some by (simp del: length_map)
    from pubsub_drains [where st = st and s = s1 and sessions = own and i = i and ch = ch1, OF assms(2) ch1 this] assms(4) Some show ?thesis by auto
  qed
  with send(1-3) sent show ?thesis by (auto simp: split_beta split: option.splits)
qed

theorem steering_reaches_owner_witness:
  "let s = empty_memory_store\<lparr>ms_locks := [''s'' \<mapsto> ''A'']\<rparr>; st = pubsub_sessions memory_sessions;
       (oks, l, s1) = send_all st ''s'' [(''slower'', 1), (''transfer'', 2)] (Map.empty, (s, [''s'' \<mapsto> []]));
       (own, s2) = steering_subscriber st ''s'' 2 ([''s'' \<mapsto> [''hello'']], s1)
   in oks = [True, True] \<and> own ''s'' = Some [''hello'', ''slower'', ''transfer'']"
proof -
  let ?s = "empty_memory_store\<lparr>ms_locks := [''s'' \<mapsto> ''A'']\<rparr>" and ?st = "pubsub_sessions memory_sessions"
  let ?xs = "[(''slower'', 1), (''transfer'', 2)]"
  obtain oks l s1 ch1 where send: "send_all ?st ''s'' ?xs (Map.empty, (?s, [''s'' \<mapsto> []])) = (oks, l, (s1, ch1))"
    by (metis prod_cases4)
  obtain own s2 ch2 where sub: "steering_subscriber ?st ''s'' 2 ([''s'' \<mapsto> [''hello'']], (s1, ch1)) = (own, (s2, ch2))"
    by (metis prod_cases3)
  have owner: "so_lock_owner memory_sessions ''s'' t ?s = Some ''A''" for t
    by (simp add: memory_sessions_def mem_lock_owner_def)
  from steering_reaches_owner [OF _ _ send sub, of "[''hello'']"] send sub owner show ?thesis
    by simp
qed

end
