(* ===== verification/MangoTransfer.thy ===== *)
theory MangoTransfer
  imports Transfers LegStore
begin

text \<open>
  \<open>MangoTransferEngine\<close> of \<open>app/integrations/transfer_engine/mango.py\<close>: it reserves a manager in
  the database, dials through the telephony adapter, keeps a progress table per leg, and takes
  managers out of the pool for a cooldown. The adapter is the argument \<open>telephony\<close>; an operation may
  also be cancelled by the timeout that the service puts around it. \<open>mt_ops\<close> records what the engine
  asked of the adapter and of the session manager; exceptions that the code swallows are not modelled,
  nor a timeout that falls into the reservation itself.

  \<open>mango_transfer_engine\<close> is the engine as the interface of \<open>Transfers\<close>. The lemmas show that a
  dial never reaches a manager who is not free, that progress and reservation agree with its outcome,
  and that the manager of a successful transfer stays reserved.
\<close>

section \<open>State\<close>

record transfer_progress =
  p_status :: string
  p_manager_id :: "string option"
  p_manager_leg_id :: "string option"
  p_customer_leg_id :: "string option"
  p_error :: "string option"
  p_updated_at :: time

datatype tel_op =
    TelOriginate string string
  | TelWhisper string string
  | TelBridge string string
  | TelTerminate string
  | TelSuspend string

datatype originate_outcome = OrigLeg string | OrigError string | OrigCancelled

datatype wait_outcome = WaitAnswered | WaitError string | WaitCancelled

record telephony =
  tl_originate :: "string \<Rightarrow> string \<Rightarrow> originate_outcome"
  tl_wait_for_answered :: "string \<Rightarrow> wait_outcome"
  tl_play_whisper :: "string \<Rightarrow> string \<Rightarrow> op_outcome"
  tl_bridge_legs :: "string \<Rightarrow> string \<Rightarrow> op_outcome"
  tl_terminate_leg :: "string \<Rightarrow> op_outcome"
  tl_get_leg_state :: "string \<Rightarrow> leg_state option"

record mango_tworld =
  mt_db :: db
  mt_progress :: "string \<rightharpoonup> transfer_progress"
  mt_direct_sessions :: "string \<rightharpoonup> string"
  mt_restore_tasks :: "uuid set"
  mt_ops :: "tel_op list"

definition fresh_tworld :: "db \<Rightarrow> mango_tworld" where
  "fresh_tworld d = \<lparr>mt_db = d, mt_progress = Map.empty, mt_direct_sessions = Map.empty,
     mt_restore_tasks = {}, mt_ops = []\<rparr>"

definition tel_log :: "tel_op \<Rightarrow> mango_tworld \<Rightarrow> mango_tworld" where
  "tel_log x w = w\<lparr>mt_ops := mt_ops w @ [x]\<rparr>"

section \<open>Progress\<close>

definition set_progress ::
    "time \<Rightarrow> string \<Rightarrow> string \<Rightarrow> string option \<Rightarrow> string option \<Rightarrow> string option
     \<Rightarrow> mango_tworld \<Rightarrow> mango_tworld" where
  "set_progress now external_id status manager_id manager_leg_id customer_leg_id w =
     (let prev = mt_progress w external_id;
          entry = \<lparr>p_status = status,
                   p_manager_id = py_or manager_id (Option.bind prev p_manager_id),
                   p_manager_leg_id = py_or manager_leg_id (Option.bind prev p_manager_leg_id),
                   p_customer_leg_id = py_or customer_leg_id (Option.bind prev p_customer_leg_id),
                   p_error = None, p_updated_at = now\<rparr>
      in w\<lparr>mt_progress := (mt_progress w)(external_id \<mapsto> entry)\<rparr>)"

definition set_failed ::
    "time \<Rightarrow> string \<Rightarrow> string \<Rightarrow> string \<Rightarrow> string option \<Rightarrow> string option \<Rightarrow> string option
     \<Rightarrow> mango_tworld \<Rightarrow> mango_tworld" where
  "set_failed now external_id status error manager_id manager_leg_id customer_leg_id w0 =
     (let w = set_progress now external_id status manager_id manager_leg_id customer_leg_id w0
      in w\<lparr>mt_progress := (mt_progress w)(external_id \<mapsto>
             (the (mt_progress w external_id))\<lparr>p_error := Some error\<rparr>)\<rparr>)"

section \<open>Operations\<close>

definition reserve_manager :: "uuid \<Rightarrow> mango_tworld \<Rightarrow> bool \<times> mango_tworld" where
  "reserve_manager i w =
     (let (reserved, d) = try_reserve_available i (mt_db w) in (reserved, w\<lparr>mt_db := d\<rparr>))"

text \<open>The dial up to the originate request: the progress of the call and of the customer's leg.\<close>

definition select_progress :: "time \<Rightarrow> manager \<Rightarrow> call \<Rightarrow> mango_tworld \<Rightarrow> mango_tworld" where
  "select_progress now m call w =
     (let call_id = uuid_str (c_id call); cust = customer_leg call; mid = Some (uuid_str (m_id m));
          w1 = (if truthy (c_mango_call_id call)
                then w\<lparr>mt_direct_sessions := (mt_direct_sessions w)(cust \<mapsto> the (c_mango_call_id call))\<rparr>
                else w);
          w2 = set_progress now call_id ''selected'' mid None (Some cust) w1;
          w3 = set_progress now cust ''selected'' mid None (Some cust) w2
      in set_progress now call_id ''calling'' mid None (Some cust) w3)"

text \<open>Waiting for the answer on the originated leg.\<close>

definition await_manager ::
    "telephony \<Rightarrow> time \<Rightarrow> manager \<Rightarrow> call \<Rightarrow> string \<Rightarrow> mango_tworld \<Rightarrow> dial_outcome \<times> mango_tworld" where
  "await_manager tel now m call leg w =
     (let call_id = uuid_str (c_id call); cust = Some (customer_leg call);
          mid = Some (uuid_str (m_id m));
          w1 = set_progress now leg ''calling'' mid (Some leg) cust w;
          w2 = set_progress now call_id ''calling'' mid (Some leg) cust w1
      in case tl_wait_for_answered tel leg of
           WaitCancelled \<Rightarrow>
             (DialTimeout,
              set_failed now leg ''failed_answered'' ''manager_wait_cancelled'' mid (Some leg) cust
                (tel_log (TelTerminate leg) w2))
         | WaitError exc \<Rightarrow>
             (DialError exc,
              set_failed now call_id ''failed_answered'' exc mid (Some leg) cust
                (set_failed now leg ''failed_answered'' exc mid (Some leg) cust w2))
         | WaitAnswered \<Rightarrow>
             (DialAnswered (Some leg),
              set_progress now call_id ''answered'' mid (Some leg) cust
                (set_progress now leg ''answered'' mid (Some leg) cust w2)))"

definition initiate_manager_call ::
    "telephony \<Rightarrow> time \<Rightarrow> manager \<Rightarrow> call \<Rightarrow> mango_tworld \<Rightarrow> dial_outcome \<times> mango_tworld" where
  "initiate_manager_call tel now m call w0 =
     (let (reserved, w1) = reserve_manager (m_id m) w0 in
      if \<not> reserved
      then (DialError (''Manager '' @ uuid_str (m_id m) @ '' is already reserved/unavailable''), w1)
      else
        (let w2 = tel_log (TelOriginate (m_phone m) (uuid_str (c_id call))) (select_progress now m call w1)
         in case tl_originate tel (m_phone m) (uuid_str (c_id call)) of
              OrigCancelled \<Rightarrow> (DialTimeout, w2)
            | OrigError exc \<Rightarrow>
                (DialError exc,
                 set_failed now (uuid_str (c_id call)) ''failed_calling'' exc
                   (Some (uuid_str (m_id m))) None None w2)
            | OrigLeg leg \<Rightarrow> await_manager tel now m call leg w2))"

definition play_whisper :: "telephony \<Rightarrow> time \<Rightarrow> string \<Rightarrow> string \<Rightarrow> mango_tworld \<Rightarrow> op_outcome \<times> mango_tworld" where
  "play_whisper tel now leg whisper w =
     (let w1 = tel_log (TelWhisper leg whisper) (set_progress now leg ''whispering'' None None None w)
      in case tl_play_whisper tel leg whisper of
           OpError exc \<Rightarrow> (OpError exc, set_failed now leg ''failed_whispering'' exc None None None w1)
         | out \<Rightarrow> (out, w1))"

text \<open>Once bridged, the AI session of the customer's leg stops sending audio.\<close>

definition maybe_suspend_direct_audio :: "bool \<Rightarrow> string \<Rightarrow> mango_tworld \<Rightarrow> mango_tworld" where
  "maybe_suspend_direct_audio has_manager customer_leg_id w =
     (if \<not> has_manager \<or> \<not> truthy (mt_direct_sessions w customer_leg_id) then w
      else tel_log (TelSuspend (the (mt_direct_sessions w customer_leg_id))) w)"

definition bridge_calls ::
    "telephony \<Rightarrow> bool \<Rightarrow> time \<Rightarrow> string \<Rightarrow> string \<Rightarrow> mango_tworld \<Rightarrow> op_outcome \<times> mango_tworld" where
  "bridge_calls tel has_manager now leg cust w =
     (let w1 = tel_log (TelBridge cust leg) w
      in case tl_bridge_legs tel cust leg of
           OpError exc \<Rightarrow>
             (OpError exc,
              set_failed now cust ''failed_bridged'' exc None (Some leg) (Some cust)
                (set_failed now leg ''failed_bridged'' exc None None (Some cust) w1))
         | OpTimeout \<Rightarrow> (OpTimeout, w1)
         | OpOk \<Rightarrow>
             (OpOk,
              maybe_suspend_direct_audio has_manager cust
                (set_progress now cust ''bridged'' None (Some leg) (Some cust)
                  (set_progress now leg ''bridged'' None (Some leg) (Some cust) w1))))"

definition terminate_manager_call :: "telephony \<Rightarrow> time \<Rightarrow> string \<Rightarrow> mango_tworld \<Rightarrow> op_outcome \<times> mango_tworld" where
  "terminate_manager_call tel now leg w =
     (let w1 = tel_log (TelTerminate leg) w
      in case tl_terminate_leg tel leg of
           OpError exc \<Rightarrow> (OpError exc, set_failed now leg ''failed_cleanup'' exc None None None w1)
         | out \<Rightarrow> (out, w1))"

definition terminate_customer_leg :: "telephony \<Rightarrow> string \<Rightarrow> mango_tworld \<Rightarrow> op_outcome \<times> mango_tworld" where
  "terminate_customer_leg tel leg w = (tl_terminate_leg tel leg, tel_log (TelTerminate leg) w)"

fun progress_of_leg :: "leg_state \<Rightarrow> string" where
  "progress_of_leg Leg_INITIATING = ''calling''"
| "progress_of_leg Leg_RINGING = ''calling''"
| "progress_of_leg Leg_ANSWERED = ''answered''"
| "progress_of_leg Leg_BRIDGED = ''bridged''"
| "progress_of_leg Leg_TERMINATED = ''failed''"
| "progress_of_leg Leg_FAILED = ''failed''"
| "progress_of_leg Leg_TERMINATING = ''unknown''"

text \<open>The table's entry, or a best guess from the state of the leg (\<open>None\<close> when it cannot be read).\<close>

definition get_transfer_progress ::
    "telephony \<Rightarrow> time \<Rightarrow> string \<Rightarrow> mango_tworld \<Rightarrow> transfer_progress option" where
  "get_transfer_progress tel now external_id w =
     (case mt_progress w external_id of
        Some p \<Rightarrow> Some p
      | None \<Rightarrow>
          map_option (\<lambda>st. \<lparr>p_status = progress_of_leg st, p_manager_id = None,
                            p_manager_leg_id = Some external_id, p_customer_leg_id = None,
                            p_error = None, p_updated_at = now\<rparr>)
            (tl_get_leg_state tel external_id))"

definition mark_manager_temporarily_unavailable ::
    "settings \<Rightarrow> time \<Rightarrow> uuid \<Rightarrow> mango_tworld \<Rightarrow> mango_tworld" where
  "mark_manager_temporarily_unavailable cfg now i w =
     w\<lparr>mt_db := set_temporarily_unavailable i (now + seconds (st_transfer_manager_cooldown_seconds cfg)) (mt_db w),
       mt_restore_tasks := insert i (mt_restore_tasks w)\<rparr>"

text \<open>The end of a restore task, which runs once after its cooldown.\<close>

definition restore_manager_after_cooldown :: "time \<Rightarrow> uuid \<Rightarrow> mango_tworld \<Rightarrow> mango_tworld" where
  "restore_manager_after_cooldown now i w =
     (if i \<notin> mt_restore_tasks w then w
      else w\<lparr>mt_db := snd (restore_manager_if_due i now (mt_db w)),
             mt_restore_tasks := mt_restore_tasks w - {i}\<rparr>)"

section \<open>The engine as the service sees it\<close>

text \<open>
  The service only observes outcomes and the database; the progress table does not influence them.
  \<open>others\<close> are the operations of other flows and jobs on the managers before an attempt.
\<close>

definition mango_transfer_engine ::
    "settings \<Rightarrow> telephony \<Rightarrow> time \<Rightarrow> (nat \<Rightarrow> mgr_op list) \<Rightarrow> transfer_engine" where
  "mango_transfer_engine cfg tel now others =
     \<lparr>te_dial = (\<lambda>m call whisper d.
        let (out, w) = initiate_manager_call tel now m call (fresh_tworld d) in (out, mt_db w)),
      te_whisper = (\<lambda>leg whisper d.
        let (out, w) = play_whisper tel now (the leg) whisper (fresh_tworld d) in (out, mt_db w)),
      te_bridge = (\<lambda>leg cust d.
        let (out, w) = bridge_calls tel False now (the leg) cust (fresh_tworld d) in (out, mt_db w)),
      te_mark_unavailable = (\<lambda>i d. mt_db (mark_manager_temporarily_unavailable cfg now i (fresh_tworld d))),
      te_others = (\<lambda>attempt d. snd (mgr_run (others attempt) d))\<rparr>"

section \<open>Dialling and the reservation\<close>

definition reservable :: "uuid \<Rightarrow> db \<Rightarrow> bool" where
  "reservable i d \<longleftrightarrow> (\<exists>n\<in>set (managers d). m_id n = i \<and> m_is_active n \<and> m_is_available n)"

lemma try_reserve_iff: "fst (try_reserve_available i d) \<longleftrightarrow> reservable i d"
  by (auto simp: try_reserve_available_def update_managers_def reservable_def filter_empty_conv Let_def)

lemma try_reserve_refused: "\<not> reservable i d \<Longrightarrow> snd (try_reserve_available i d) = d"
proof -
  assume "\<not> reservable i d"
  then have "map (\<lambda>m. if m_id m = i \<and> m_is_active m \<and> m_is_available m
      then m\<lparr>m_is_available := False, m_available_after := None\<rparr> else m) (managers d) = managers d"
    by (intro map_idI) (auto simp: reservable_def)
  then show ?thesis by (simp add: try_reserve_available_def update_managers_def Let_def)
qed

lemma try_reserve_held:
  "distinct (map m_id (managers d)) \<Longrightarrow> reservable i d \<Longrightarrow> held i (snd (try_reserve_available i d))"
  using won_then_held [of d i] try_reserve_iff by simp

lemma progress_simps [simp]:
  "mt_db (set_progress now e st a b c w) = mt_db w" "mt_ops (set_progress now e st a b c w) = mt_ops w"
  "mt_db (set_failed now e st x a b c w) = mt_db w" "mt_ops (set_failed now e st x a b c w) = mt_ops w"
  "mt_db (tel_log op w) = mt_db w" "mt_ops (tel_log op w) = mt_ops w @ [op]"
  "mt_progress (tel_log op w) = mt_progress w"
  "mt_db (select_progress now m call w) = mt_db w" "mt_ops (select_progress now m call w) = mt_ops w"
  by (simp_all add: set_progress_def set_failed_def tel_log_def select_progress_def Let_def)

text \<open>The table after a write, with the ids that the new entry names.\<close>

lemma progress_at:
  "mt_progress (set_progress now e st a b c w) = (mt_progress w)(e \<mapsto>
     \<lparr>p_status = st, p_manager_id = py_or a (Option.bind (mt_progress w e) p_manager_id),
      p_manager_leg_id = py_or b (Option.bind (mt_progress w e) p_manager_leg_id),
      p_customer_leg_id = py_or c (Option.bind (mt_progress w e) p_customer_leg_id),
      p_error = None, p_updated_at = now\<rparr>)"
  by (simp add: set_progress_def Let_def)

lemma failed_at:
  "mt_progress (set_failed now e st x a b c w) = (mt_progress w)(e \<mapsto>
     \<lparr>p_status = st, p_manager_id = py_or a (Option.bind (mt_progress w e) p_manager_id),
      p_manager_leg_id = py_or b (Option.bind (mt_progress w e) p_manager_leg_id),
      p_customer_leg_id = py_or c (Option.bind (mt_progress w e) p_customer_leg_id),
      p_error = Some x, p_updated_at = now\<rparr>)"
  by (simp add: set_failed_def progress_at Let_def)

text \<open>An entry of the table in a given status, naming the manager and the legs.\<close>

definition at_status :: "mango_tworld \<Rightarrow> string \<Rightarrow> string \<Rightarrow> manager \<Rightarrow> call \<Rightarrow> string \<Rightarrow> bool" where
  "at_status w external_id status m call leg \<longleftrightarrow> (\<exists>p. mt_progress w external_id = Some p
     \<and> p_status p = status \<and> p_manager_id p = Some (uuid_str (m_id m))
     \<and> p_manager_leg_id p = Some leg \<and> p_customer_leg_id p = Some (customer_leg call) \<and> p_error p = None)"

lemma customer_leg_nonempty: "customer_leg call \<noteq> []"
  by (simp add: customer_leg_def split: option.split)

lemma await_manager_cases:
  assumes "await_manager tel now m call leg w = (out, w')" "leg \<noteq> []"
  shows "mt_db w' = mt_db w
    \<and> (case tl_wait_for_answered tel leg of
         WaitAnswered \<Rightarrow> out = DialAnswered (Some leg) \<and> mt_ops w' = mt_ops w
           \<and> at_status w' leg ''answered'' m call leg \<and> at_status w' (uuid_str (c_id call)) ''answered'' m call leg
       | WaitCancelled \<Rightarrow> out = DialTimeout \<and> mt_ops w' = mt_ops w @ [TelTerminate leg]
       | WaitError exc \<Rightarrow> out = DialError exc \<and> mt_ops w' = mt_ops w
           \<and> map_option p_error (mt_progress w' (uuid_str (c_id call))) = Some (Some exc))"
  using assms
  by (auto simp: await_manager_def Let_def progress_at failed_at at_status_def
      customer_leg_nonempty split: wait_outcome.splits)

text \<open>
  A dial never reaches a manager who is not free. If the manager is inactive, unavailable or
  reserved by another transfer, the dial raises before any telephony request and changes nothing.
  Otherwise the manager is reserved from then on, whatever happens on the line, and exactly one
  originate request is made for his number; an answer is reported for the leg that the adapter
  gave, and the progress of the call and of that leg say so; and a leg on which the service's
  timeout hits while waiting is terminated.
\<close>

theorem dial_respects_reservation:
  assumes "initiate_manager_call tel now m call w = (out, w')"
    and "distinct (map m_id (managers (mt_db w)))"
    and "\<forall>leg. tl_originate tel (m_phone m) (uuid_str (c_id call)) = OrigLeg leg \<longrightarrow> leg \<noteq> []"
  shows "if reservable (m_id m) (mt_db w)
    then held (m_id m) (mt_db w')
      \<and> (\<exists>xs. mt_ops w' = mt_ops w @ TelOriginate (m_phone m) (uuid_str (c_id call)) # xs
           \<and> (case tl_originate tel (m_phone m) (uuid_str (c_id call)) of
                OrigLeg leg \<Rightarrow> xs = (if tl_wait_for_answered tel leg = WaitCancelled then [TelTerminate leg] else [])
              | _ \<Rightarrow> xs = []))
      \<and> (\<forall>leg. out = DialAnswered (Some leg) \<longrightarrow>
           tl_originate tel (m_phone m) (uuid_str (c_id call)) = OrigLeg leg
           \<and> tl_wait_for_answered tel leg = WaitAnswered
           \<and> at_status w' leg ''answered'' m call leg
           \<and> at_status w' (uuid_str (c_id call)) ''answered'' m call leg)
    else (\<exists>msg. out = DialError msg) \<and> w' = w"
proof (cases "reservable (m_id m) (mt_db w)")
  case False
  then show ?thesis
    using assms(1) try_reserve_iff [of "m_id m" "mt_db w"] try_reserve_refused [OF False]
    by (auto simp: initiate_manager_call_def reserve_manager_def Let_def split: prod.splits)
next
  case True
  let ?i = "m_id m" and ?cid = "uuid_str (c_id call)"
  define w1 where "w1 = w\<lparr>mt_db := snd (try_reserve_available ?i (mt_db w))\<rparr>"
  define w2 where "w2 = tel_log (TelOriginate (m_phone m) ?cid) (select_progress now m call w1)"
  have held: "held ?i (mt_db w2)"
    using try_reserve_held [OF assms(2) True] by (simp add: w2_def w1_def)
  have ops: "mt_ops w2 = mt_ops w @ [TelOriginate (m_phone m) ?cid]" by (simp add: w2_def w1_def)
  have run: "(case tl_originate tel (m_phone m) ?cid of
              OrigCancelled \<Rightarrow> (DialTimeout, w2)
            | OrigError exc \<Rightarrow>
                (DialError exc, set_failed now ?cid ''failed_calling'' exc (Some (uuid_str ?i)) None None w2)
            | OrigLeg leg \<Rightarrow> await_manager tel now m call leg w2) = (out, w')"
    unfolding w2_def w1_def using assms(1) True try_reserve_iff [of ?i "mt_db w"]
    by (simp add: initiate_manager_call_def reserve_manager_def Let_def case_prod_beta)
  show ?thesis
  proof (cases "tl_originate tel (m_phone m) ?cid")
    case (OrigLeg leg)
    then have "await_manager tel now m call leg w2 = (out, w')" using run by simp
    moreover have "leg \<noteq> []" using assms(3) OrigLeg by simp
    ultimately show ?thesis
      using await_manager_cases [of tel now m call leg w2 out w'] OrigLeg True held ops
      by (auto split: wait_outcome.splits simp: held_def)
  qed (use run True held ops in \<open>auto simp: held_def\<close>)
qed

section \<open>The contract of an engine that reserves\<close>

locale reserving_engine =
  fixes eng :: transfer_engine
  assumes dial_reserves: "distinct (map m_id (managers d)) \<Longrightarrow>
        te_dial eng m c x d = (DialAnswered leg, d') \<Longrightarrow> held (m_id m) d'"
    and dial_ids: "map m_id (managers (snd (te_dial eng m c x d))) = map m_id (managers d)"
    and whisper_keeps: "managers (snd (te_whisper eng l x d)) = managers d"
    and bridge_keeps: "managers (snd (te_bridge eng l x d)) = managers d"
    and mark_ids: "map m_id (managers (te_mark_unavailable eng i d)) = map m_id (managers d)"
    and others_ids: "map m_id (managers (te_others eng n d)) = map m_id (managers d)"

lemma saves_managers [simp]:
  "managers (save_call c d) = managers d" "managers (save_transfer r d) = managers d"
  "managers (tw_db (taudit c a ac p w)) = managers (tw_db w)"
  by (simp_all add: save_call_def save_transfer_def taudit_def audit_call_def)

lemma select_manager_managers: "managers (tw_db (snd (select_manager c r n m w))) = managers (tw_db w)"
  by (simp add: select_manager_def Let_def)

lemma begin_briefing_managers: "begin_briefing c r n m leg w = (c', r', w') \<Longrightarrow> managers (tw_db w') = managers (tw_db w)"
  by (auto simp: begin_briefing_def Let_def)

lemma complete_transfer_managers: "complete_transfer c r n m leg actor w = (r', w') \<Longrightarrow> managers (tw_db w') = managers (tw_db w)"
  by (auto simp: complete_transfer_def Let_def)

lemma start_transfer_managers:
  "start_transfer env c dep summary whisper actor ms w = (c', r, w') \<Longrightarrow> managers (tw_db w') = managers (tw_db w)"
  by (auto simp: start_transfer_def Let_def)

lemma held_cong: "managers d = managers d' \<Longrightarrow> held i d = held i d'"
  by (simp add: held_def)

context reserving_engine
begin

lemma whisper_phase_managers: "whisper_phase cfg eng x c r m leg w = (None, w') \<Longrightarrow> managers (tw_db w') = managers (tw_db w)"
  using whisper_keeps [of leg x "tw_db w"]
  by (auto simp: whisper_phase_def Let_def split: prod.splits op_outcome.splits)

lemma bridge_phase_managers: "bridge_phase cfg eng c r m leg w = (None, w') \<Longrightarrow> managers (tw_db w') = managers (tw_db w)"
  using bridge_keeps [of leg "customer_leg c" "tw_db w"]
  by (auto simp: bridge_phase_def Let_def split: prod.splits op_outcome.splits)

lemma answered_attempt_held:
  assumes "answered_attempt cfg eng x actor c r n m leg w = (Inr rec, w')"
  shows "managers (tw_db w') = managers (tw_db w) \<and> t_manager_id rec = t_manager_id r"
  using assms
proof (cases rule: answered_attempt_cases)
  case (connected c2 r2 w2 w3 w4 r5)
  then show ?thesis
    using begin_briefing_managers [OF connected(1)] whisper_phase_managers [OF connected(2)]
      bridge_phase_managers [OF connected(3)] complete_transfer_managers [OF connected(4)]
      begin_briefing_ids [OF connected(1)] complete_transfer_outcome [OF connected(4)]
    by simp
qed simp_all

lemma dial_manager_held:
  assumes "dial_manager cfg eng x c n m w = (res, w')"
  shows "map m_id (managers (tw_db w')) = map m_id (managers (tw_db w))"
    and "res = Inr leg \<Longrightarrow> distinct (map m_id (managers (tw_db w))) \<Longrightarrow> held (m_id m) (tw_db w')"
proof -
  let ?w1 = "taudit c ''transfer_calling_manager'' ''engine''
                 [(''manager_id'', JStr (uuid_str (m_id m))), (''manager_name'', JStr (m_name m)),
                  (''attempt'', JNum (int n))] w"
  obtain out d2 where dial: "te_dial eng m c x (tw_db ?w1) = (out, d2)"
    by (cases "te_dial eng m c x (tw_db ?w1)")
  have ids: "map m_id (managers d2) = map m_id (managers (tw_db w))"
    using dial_ids [of m c x "tw_db ?w1"] dial by simp
  show "map m_id (managers (tw_db w')) = map m_id (managers (tw_db w))"
    using assms dial ids mark_ids
    by (auto simp: dial_manager_def Let_def safe_mark_unavailable_def split: dial_outcome.splits)
  assume "res = Inr leg" "distinct (map m_id (managers (tw_db w)))"
  moreover have "out = DialAnswered leg \<and> tw_db w' = d2" if "res = Inr leg"
    using assms dial that by (auto simp: dial_manager_def Let_def split: dial_outcome.splits)
  ultimately show "held (m_id m) (tw_db w')"
    using dial_reserves [of "tw_db ?w1" m c x leg d2] dial by simp
qed

lemma try_managers_held:
  assumes "try_managers cfg eng x actor c r n le ms w = (Inr rec, w')"
    and "distinct (map m_id (managers (tw_db w)))"
  shows "\<exists>m\<in>set ms. t_manager_id rec = Some (m_id m) \<and> held (m_id m) (tw_db w')"
  using assms
proof (induction ms arbitrary: r n le w)
  case Nil
  then show ?case using all_failed_outcome(2) by fastforce
next
  case (Cons m ms)
  obtain a w1 where a: "try_manager cfg eng x actor c r n m w = (a, w1)"
    by (cases "try_manager cfg eng x actor c r n m w")
  from a show ?case
  proof (cases rule: try_manager_cases)
    case gone
    with Cons.prems(1) a show ?thesis by simp
  next
    case (failed r1 w2 err)
    have "managers (tw_db w2) = managers (tw_db w)"
      using select_manager_managers [of c r n m w] failed(1) by simp
    then have "map m_id (managers (tw_db w1)) = map m_id (managers (tw_db w))"
      using dial_manager_held(1) [OF failed(2)] others_ids [of n "tw_db w2"] by simp
    moreover have "try_managers cfg eng x actor c r1 (Suc n) (Some err) ms w1 = (Inr rec, w')"
      using Cons.prems(1) a failed(3) by simp
    ultimately show ?thesis using Cons.IH [of r1 "Suc n" "Some err" w1] Cons.prems(2) by auto
  next
    case (answered r1 w2 leg w3 res)
    have res: "res = Inr rec" "w' = w1" using Cons.prems(1) a answered(4) by simp_all
    have "managers (tw_db w2) = managers (tw_db w)"
      using select_manager_managers [of c r n m w] answered(1) by simp
    then have "distinct (map m_id (managers (tw_db (on_db (te_others eng n) w2))))"
      using others_ids [of n "tw_db w2"] Cons.prems(2) by simp
    from dial_manager_held(2) [OF answered(2) refl this] have "held (m_id m) (tw_db w3)" .
    moreover have "managers (tw_db w1) = managers (tw_db w3)" "t_manager_id rec = t_manager_id r1"
      using answered_attempt_held [OF answered(3) [unfolded res(1)]] by simp_all
    ultimately show ?thesis
      using select_manager_ids(3) [OF answered(1)] held_cong [of "tw_db w1" "tw_db w3"] res(2) by auto
  qed
qed

lemma transfer_holds_manager:
  assumes "initiate_transfer cfg env eng cid dep actor w = (Inr rec, w')"
    and "distinct (map m_id (managers (tw_db w)))"
  shows "\<exists>i. t_manager_id rec = Some i \<and> held i (tw_db w')"
proof -
  obtain c ms where c: "get_transferable_call cid (tw_db w) = Inr c" "find_managers dep (tw_db w) = Inr ms"
    using assms(1) by (auto simp: initiate_transfer_def Let_def split: sum.splits)
  obtain c' r w1 where st: "start_transfer env c dep (tv_summary env (get_transcript cid (tw_db w)))
      (tv_whisper env (get_transcript cid (tw_db w))) actor ms w = (c', r, w1)"
    by (metis prod_cases3)
  have "distinct (map m_id (managers (tw_db w1)))" using start_transfer_managers [OF st] assms(2) by simp
  with try_managers_held assms(1) c st show ?thesis
    by (simp add: initiate_transfer_def Let_def) blast
qed

end

text \<open>The Mango engine keeps this contract.\<close>

lemma mgr_run_ids: "map m_id (managers (snd (mgr_run ops d))) = map m_id (managers d)"
proof (induction ops arbitrary: d)
  case (Cons x ops)
  then show ?case using mgr_step_ids [of x d] by (simp add: Let_def case_prod_beta)
qed simp

lemma initiate_manager_call_db:
  "mt_db (snd (initiate_manager_call tel now m call w)) = snd (try_reserve_available (m_id m) (mt_db w))"
  "fst (initiate_manager_call tel now m call w) = DialAnswered leg \<Longrightarrow> reservable (m_id m) (mt_db w)"
  using try_reserve_iff [of "m_id m" "mt_db w"]
  by (auto simp: initiate_manager_call_def reserve_manager_def await_manager_def Let_def
      split: prod.splits if_splits originate_outcome.splits wait_outcome.splits)

lemma whisper_bridge_db [simp]:
  "mt_db (snd (play_whisper tel now leg x w)) = mt_db w"
  "mt_db (snd (bridge_calls tel b now leg cust w)) = mt_db w"
  by (simp_all add: play_whisper_def bridge_calls_def maybe_suspend_direct_audio_def Let_def
      split: op_outcome.split)

lemma fresh_tworld_db [simp]: "mt_db (fresh_tworld d) = d"
  by (simp add: fresh_tworld_def)

interpretation mango: reserving_engine "mango_transfer_engine cfg tel now others" for cfg tel now others
proof
  fix m c x d leg d'
  assume ids: "distinct (map m_id (managers d))"
    and dial: "te_dial (mango_transfer_engine cfg tel now others) m c x d = (DialAnswered leg, d')"
  have "reservable (m_id m) d"
    using dial initiate_manager_call_db(2) [of tel now m c "fresh_tworld d" leg]
    by (simp add: mango_transfer_engine_def case_prod_beta)
  with ids try_reserve_held dial show "held (m_id m) d'"
    by (auto simp: mango_transfer_engine_def case_prod_beta initiate_manager_call_db)
next
  fix m c x d
  show "map m_id (managers (snd (te_dial (mango_transfer_engine cfg tel now others) m c x d))) = map m_id (managers d)"
    using mgr_step_ids [of "Reserve (m_id m)" d]
    by (simp add: mango_transfer_engine_def case_prod_beta initiate_manager_call_db)
next
  fix i d
  show "map m_id (managers (te_mark_unavailable (mango_transfer_engine cfg tel now others) i d)) = map m_id (managers d)"
    by (simp add: mango_transfer_engine_def mark_manager_temporarily_unavailable_def
        set_temporarily_unavailable_def update_managers_id)
qed (simp_all add: mango_transfer_engine_def case_prod_beta mgr_run_ids)

section \<open>Properties\<close>

definition demo_telephony :: telephony where
  "demo_telephony =
     \<lparr>tl_originate = (\<lambda>phone cid. OrigLeg ''leg1''), tl_wait_for_answered = (\<lambda>leg. WaitAnswered),
      tl_play_whisper = (\<lambda>leg x. OpOk), tl_bridge_legs = (\<lambda>a b. OpOk), tl_terminate_leg = (\<lambda>leg. OpOk),
      tl_get_leg_state = (\<lambda>leg. None)\<rparr>"

definition demo_live_call :: call where
  "demo_live_call = (new_call demo_env ''+7999'' DIRECT None None)\<lparr>c_status := IN_PROGRESS\<rparr>"

theorem dial_respects_reservation_witness:
  "let w = fresh_tworld (empty_db\<lparr>managers := [demo_manager 1 5 None]\<rparr>);
       (out, w1) = initiate_manager_call demo_telephony 7 (demo_manager 1 5 None) demo_live_call w;
       (out', w2) = initiate_manager_call demo_telephony 8 (demo_manager 1 5 None) demo_live_call w1
   in out = DialAnswered (Some ''leg1'') \<and> at_status w1 ''leg1'' ''answered'' (demo_manager 1 5 None) demo_live_call ''leg1''
    \<and> (\<exists>msg. out' = DialError msg) \<and> w2 = w1"
proof -
  let ?m = "demo_manager 1 5 None"
  let ?w = "fresh_tworld (empty_db\<lparr>managers := [?m]\<rparr>)"
  obtain out w1 where d1: "initiate_manager_call demo_telephony 7 ?m demo_live_call ?w = (out, w1)"
    by (cases "initiate_manager_call demo_telephony 7 ?m demo_live_call ?w")
  obtain out' w2 where d2: "initiate_manager_call demo_telephony 8 ?m demo_live_call w1 = (out', w2)"
    by (cases "initiate_manager_call demo_telephony 8 ?m demo_live_call w1")
  have leg: "\<forall>leg. tl_originate demo_telephony (m_phone ?m) (uuid_str (c_id demo_live_call)) = OrigLeg leg \<longrightarrow> leg \<noteq> []"
    by (simp add: demo_telephony_def)
  have ids: "distinct (map m_id (managers (mt_db ?w)))" by simp
  have free: "reservable (m_id ?m) (mt_db ?w)" by (simp add: reservable_def demo_manager_def)
  have out: "out = DialAnswered (Some ''leg1'')"
    using d1 free try_reserve_iff [of "m_id ?m" "mt_db ?w"]
    by (simp add: initiate_manager_call_def reserve_manager_def await_manager_def Let_def case_prod_beta
        demo_telephony_def)
  note first_dial = dial_respects_reservation [OF d1 ids leg]
  have "distinct (map m_id (managers (mt_db w1)))"
    using initiate_manager_call_db(1) [of demo_telephony 7 ?m demo_live_call ?w] d1
      mgr_step_ids [of "Reserve (m_id ?m)" "mt_db ?w"] by simp
  note second_dial = dial_respects_reservation [OF d2 this leg]
  have "\<not> reservable (m_id ?m) (mt_db w1)"
    using first_dial free by (auto simp: held_def reservable_def)
  with first_dial second_dial free out d1 d2 show ?thesis by (simp add: Let_def)
qed

text \<open>
  The manager of a successful transfer is left alone. With the Mango engine, whatever the
  telephony answers and the other flows do to the managers between the attempts: if the transfer
  returns a record, the manager that it names is reserved at the end, and no later operation of other
  flows, restore timers and jobs (short of marking him unavailable or explicitly setting him
  available) reserves him again or makes him a candidate of another transfer. No code path of the
  service ends this reservation when the conversation is over.
\<close>

theorem connected_manager_left_alone:
  assumes "initiate_transfer cfg env (mango_transfer_engine cfg tel now others) cid dep actor w = (Inr rec, w')"
    and "distinct (map m_id (managers (tw_db w)))"
  shows "\<exists>i. t_manager_id rec = Some i \<and> held i (tw_db w')
    \<and> (\<forall>ops wins d. (\<forall>x\<in>set ops. \<not> releases i x) \<and> mgr_run ops (tw_db w') = (wins, d) \<longrightarrow>
         i \<notin> set wins \<and> (\<forall>dep'. i \<notin> m_id ` set (find_available_managers dep' d)))"
proof -
  obtain i where i: "t_manager_id rec = Some i" "held i (tw_db w')"
    using mango.transfer_holds_manager [OF assms] by blast
  have "i \<notin> set wins \<and> (\<forall>dep'. i \<notin> m_id ` set (find_available_managers dep' d))"
    if "\<forall>x\<in>set ops. \<not> releases i x" "mgr_run ops (tw_db w') = (wins, d)" for ops wins d
    using held_no_wins [OF i(2) that(1)] held_run [OF i(2) that(1)] that(2)
    by (auto simp: held_def find_available_managers_def candidate_def)
  with i show ?thesis by blast
qed

lemma reservable_saves [simp]:
  "reservable i (save_call c d) = reservable i d" "reservable i (save_transfer r d) = reservable i d"
  "reservable i (tw_db (taudit c a ac p w)) = reservable i (tw_db w)"
  by (simp_all add: reservable_def)

lemma demo_engine_ops:
  "reservable (m_id m) d \<Longrightarrow>
     te_dial (mango_transfer_engine cfg demo_telephony now others) m c x d
       = (DialAnswered (Some ''leg1''), snd (try_reserve_available (m_id m) d))"
  "te_whisper (mango_transfer_engine cfg demo_telephony now others) l x d = (OpOk, d)"
  "te_bridge (mango_transfer_engine cfg demo_telephony now others) l x d = (OpOk, d)"
  "te_others (mango_transfer_engine cfg demo_telephony now (\<lambda>n. [])) k d = d"
  using try_reserve_iff [of "m_id m" d]
  by (simp_all add: mango_transfer_engine_def demo_telephony_def initiate_manager_call_def
      reserve_manager_def await_manager_def play_whisper_def bridge_calls_def
      maybe_suspend_direct_audio_def Let_def case_prod_beta)

lemma demo_transfer_succeeds:
  "\<exists>rec w'. initiate_transfer default_settings demo_transfer_env
       (mango_transfer_engine default_settings demo_telephony 0 (\<lambda>n. [])) 5 None ''bot'' demo_transfer_world
     = (Inr rec, w')"
proof -
  have "reservable (m_id (demo_manager 2 1 None)) (tw_db demo_transfer_world)"
    by (simp add: reservable_def demo_transfer_world_def demo_manager_def)
  then show ?thesis
    unfolding initiate_transfer_def demo_candidates get_transferable_call_def demo_call_row
    by (simp add: attempt_defs demo_engine_ops demo_transfer_env_def default_settings_def
        is_in_transfer_def transfer_statuses_def terminal_statuses_def demo_call_row
        complete_transfer_def Let_def)
qed

theorem connected_manager_left_alone_witness:
  "\<exists>rec w' i. initiate_transfer default_settings demo_transfer_env
       (mango_transfer_engine default_settings demo_telephony 0 (\<lambda>n. [])) 5 None ''bot'' demo_transfer_world
     = (Inr rec, w') \<and> t_manager_id rec = Some i \<and> \<not> fst (try_reserve_available i (tw_db w'))"
proof -
  obtain rec w' where run: "initiate_transfer default_settings demo_transfer_env
       (mango_transfer_engine default_settings demo_telephony 0 (\<lambda>n. [])) 5 None ''bot'' demo_transfer_world
     = (Inr rec, w')"
    using demo_transfer_succeeds by blast
  have ids: "distinct (map m_id (managers (tw_db demo_transfer_world)))"
    by (simp add: demo_transfer_world_def demo_manager_def)
  from connected_manager_left_alone [OF run ids]
  obtain i where "t_manager_id rec = Some i" "held i (tw_db w')" by blast
  with run held_not_won [of i "tw_db w'"] show ?thesis by auto
qed

text \<open>
  A second flow whose candidate has been reserved in the meantime is refused, and the service then
  marks that manager temporarily unavailable: when the cooldown is over he is back in the pool, in
  the middle of the first flow's conversation.
\<close>

lemma refused_dial_frees_busy_manager:
  assumes "held i d" "n \<in> set (managers d)" "m_id n = i" "m_is_active n" "m_id m = i"
    and "te_dial (mango_transfer_engine cfg tel now others) m c x d = (out, d1)"
    and "d2 = te_mark_unavailable (mango_transfer_engine cfg tel now others) i d1"
    and "now + seconds (st_transfer_manager_cooldown_seconds cfg) \<le> later"
  shows "(\<exists>msg. out = DialError msg) \<and> reservable i (snd (restore_manager_if_due i later d2))"
proof -
  let ?ts = "now + seconds (st_transfer_manager_cooldown_seconds cfg)"
  have "\<not> reservable i d" using assms(1) by (auto simp: held_def reservable_def)
  then have "(\<exists>msg. out = DialError msg) \<and> d1 = d"
    using assms(5,6) try_reserve_iff [of i d] try_reserve_refused [of i d]
    by (auto simp: mango_transfer_engine_def initiate_manager_call_def reserve_manager_def Let_def
        split: prod.splits)
  then have out: "\<exists>msg. out = DialError msg" and d2: "d2 = set_temporarily_unavailable i ?ts d"
    using assms(7) by (simp_all add: mango_transfer_engine_def mark_manager_temporarily_unavailable_def)
  let ?n = "n\<lparr>m_is_available := False, m_available_after := Some ?ts\<rparr>"
  have marked: "?n \<in> set (managers d2)"
    using assms(2,3) by (auto simp: d2 set_temporarily_unavailable_def update_managers_def
        intro!: rev_image_eqI [of n])
  have "restore_due later ?n" using assms(8) by (simp add: restore_due_def)
  then have "?n\<lparr>m_is_available := True, m_available_after := None\<rparr>
      \<in> set (managers (snd (restore_manager_if_due i later d2)))"
    using marked assms(3) by (auto simp: restore_manager_if_due_def update_managers_def Let_def
        intro!: rev_image_eqI [of ?n])
  then have "reservable i (snd (restore_manager_if_due i later d2))"
    unfolding reservable_def by (rule bexI [rotated]) (simp add: assms(3,4))
  with out show ?thesis by blast
qed

end
