(* ===== verification/Inbound.thy ===== *)
theory Inbound
  imports CallService MangoEvents
begin

text \<open>
  Inbound telephony: the lines and agents lookups of \<open>app/repositories/telephony_line_repo.py\<close> and
  \<open>app/repositories/agent_profile_repo.py\<close>, \<open>TelephonyRoutingService\<close> of
  \<open>app/services/telephony_routing_service.py\<close>, the older functions of
  \<open>app/services/telephony_routing.py\<close>, and \<open>MangoInboundCallService\<close> of
  \<open>app/services/mango_inbound_call_service.py\<close>, which starts an AI call for an inbound leg. Lists
  that the database orders by text are given in table order (the collation is the database's).

  The lemmas show which agent a number leads to, and that a leg gets one call.
\<close>

section \<open>Lines and agents\<close>

definition allowed_line_number :: "settings \<Rightarrow> string \<Rightarrow> bool" where
  "allowed_line_number cfg number =
     is_allowed_mango_phone_number (Some (mango_primary_phone_e164 cfg))
       (Some (st_mango_primary_phone_number cfg)) (Some number)"

definition line_label :: "telephony_line \<Rightarrow> string" where
  "line_label l =
     (let text = (\<lambda>x. strip (case x of None \<Rightarrow> [] | Some s \<Rightarrow> s)) in
      if text (l_schema_name l) \<noteq> [] then text (l_schema_name l)
      else if text (l_display_name l) \<noteq> [] then text (l_display_name l)
      else strip (l_phone_number l))"

definition is_protected :: "telephony_line \<Rightarrow> bool" where
  "is_protected l \<longleftrightarrow> strip (l_phone_number l) = ''+79585382099''"

definition get_line :: "uuid \<Rightarrow> db \<Rightarrow> telephony_line option" where
  "get_line i d = find_row l_id i (lines_tbl d)"

text \<open>The listing, sorted by the least significant key first; the collation is the database's.\<close>

definition list_lines ::
    "(string \<Rightarrow> nat) \<Rightarrow> string option \<Rightarrow> bool option \<Rightarrow> db \<Rightarrow> telephony_line list" where
  "list_lines collation provider active_only d =
     sort_key (\<lambda>l. collation (l_provider l))
       (sort_key (\<lambda>l. collation (l_phone_number l))
         (sort_key (\<lambda>l. - l_created_at l)
           (filter (\<lambda>l. (truthy provider \<longrightarrow> Some (l_provider l) = provider)
                     \<and> (case active_only of None \<Rightarrow> True | Some b \<Rightarrow> l_is_active l = b)) (lines_tbl d))))"

definition get_by_provider_resource :: "string \<Rightarrow> string \<Rightarrow> db \<Rightarrow> (app_error, telephony_line option) result" where
  "get_by_provider_resource provider resource_id d =
     one_or_none (filter (\<lambda>l. l_provider l = provider \<and> l_provider_resource_id l = resource_id) (lines_tbl d))"

definition get_active_by_phone_number :: "string \<Rightarrow> string \<Rightarrow> db \<Rightarrow> (app_error, telephony_line option) result" where
  "get_active_by_phone_number provider phone d =
     one_or_none (filter (\<lambda>l. l_provider l = provider \<and> l_phone_number l = phone \<and> l_is_active l) (lines_tbl d))"

definition bound_agent :: "string \<Rightarrow> uuid \<Rightarrow> agent_profile \<Rightarrow> bool" where
  "bound_agent provider line_id a \<longleftrightarrow> g_is_active a \<and> g_telephony_provider a = Some provider
     \<and> g_telephony_line_id a = Some line_id"

definition get_all_active_by_telephony_line :: "string \<Rightarrow> uuid \<Rightarrow> db \<Rightarrow> agent_profile list" where
  "get_all_active_by_telephony_line provider line_id d =
     sort_key g_created_at (filter (bound_agent provider line_id) (agents d))"

text \<open>The profile with its line loaded.\<close>

definition get_with_related :: "uuid \<Rightarrow> db \<Rightarrow> (agent_profile \<times> telephony_line option) option" where
  "get_with_related agent_id d =
     map_option (\<lambda>a. (a, Option.bind (g_telephony_line_id a) (\<lambda>i. get_line i d))) (get_agent agent_id d)"

section \<open>TelephonyRoutingService\<close>

record inbound_routing =
  ir_agent :: "agent_profile option"
  ir_line :: "telephony_line option"
  ir_phone :: string
  ir_ambiguous :: bool
  ir_candidate_count :: nat

definition resolve_inbound :: "settings \<Rightarrow> string \<Rightarrow> string \<Rightarrow> db \<Rightarrow> (app_error, inbound_routing) result" where
  "resolve_inbound cfg provider phone_number d =
     (let normalized = normalize_mango_phone (Some phone_number);
          result = (\<lambda>agent line amb n. \<lparr>ir_agent = agent, ir_line = line, ir_phone = normalized,
                                        ir_ambiguous = amb, ir_candidate_count = n\<rparr>)
      in case get_active_by_phone_number provider normalized d of
           Inl e \<Rightarrow> Inl e
         | Inr None \<Rightarrow> Inr (result None None False 0)
         | Inr (Some line) \<Rightarrow>
             if provider = ''mango'' \<and> \<not> allowed_line_number cfg (l_phone_number line)
             then Inr (result None None False 0)
             else (case get_all_active_by_telephony_line provider (l_id line) d of
                     [] \<Rightarrow> Inr (result None (Some line) False 0)
                   | [a] \<Rightarrow> Inr (result (Some a) (Some line) False 1)
                   | a # rest \<Rightarrow> Inr (result (Some a) (Some line) True (Suc (length rest)))))"

definition resolve_agent_for_inbound_number ::
    "settings \<Rightarrow> string \<Rightarrow> string \<Rightarrow> db \<Rightarrow> (app_error, agent_profile option) result" where
  "resolve_agent_for_inbound_number cfg provider phone_number d =
     map_sum id ir_agent (resolve_inbound cfg provider phone_number d)"

text \<open>The agent with the line to call out on; a line outside the number policy is withheld.\<close>

definition resolve_outbound_binding ::
    "settings \<Rightarrow> uuid \<Rightarrow> db \<Rightarrow> (agent_profile \<times> telephony_line option) option" where
  "resolve_outbound_binding cfg agent_id d =
     (case get_with_related agent_id d of
        None \<Rightarrow> None
      | Some (agent, line) \<Rightarrow>
          if \<not> g_is_active agent then None
          else Some (agent,
            case line of
              None \<Rightarrow> None
            | Some l \<Rightarrow> if g_telephony_provider agent = Some ''mango'' \<and> \<not> allowed_line_number cfg (l_phone_number l)
                        then None else Some l))"

text \<open>The older lookups: any active agent of the line, whatever provider it names.\<close>

definition resolve_inbound_number_to_agent :: "string \<Rightarrow> db \<Rightarrow> (app_error, agent_profile option) result" where
  "resolve_inbound_number_to_agent phone_number d =
     (case get_active_by_phone_number ''mango'' (normalize_mango_phone (Some phone_number)) d of
        Inl e \<Rightarrow> Inl e
      | Inr None \<Rightarrow> Inr None
      | Inr (Some line) \<Rightarrow>
          Inr (find (\<lambda>a. g_telephony_line_id a = Some (l_id line) \<and> g_is_active a) (agents d)))"

definition resolve_agent_to_mango_line :: "uuid \<Rightarrow> db \<Rightarrow> telephony_line option" where
  "resolve_agent_to_mango_line agent_id d =
     (case get_agent agent_id d of
        None \<Rightarrow> None
      | Some a \<Rightarrow> (case g_telephony_line_id a of None \<Rightarrow> None | Some i \<Rightarrow> get_line i d))"

section \<open>MangoInboundCallService\<close>

record inbound_launch =
  il_status :: string
  il_reason :: "string option"
  il_call :: "call option"

definition skipped :: "string \<Rightarrow> inbound_launch" where
  "skipped reason = \<lparr>il_status = ''skipped'', il_reason = Some reason, il_call = None\<rparr>"

definition readiness_errors :: "settings \<Rightarrow> string list" where
  "readiness_errors cfg =
     (if \<not> gemini_configured cfg then [''gemini_not_configured''] else [])
     @ (if \<not> st_media_gateway_enabled cfg then [''media_gateway_disabled''] else [])
     @ (if st_media_gateway_provider cfg \<noteq> ''freeswitch'' then [''media_gateway_not_freeswitch''] else [])
     @ (if st_media_gateway_mode cfg \<notin> {''mock'', ''esl_rtp''} then [''media_gateway_mode_not_supported''] else [])
     @ (if st_media_gateway_mode cfg = ''esl_rtp'' \<and> \<not> freeswitch_local_media_supported cfg
        then [''media_gateway_topology_not_supported''] else [])"

fun join_comma :: "string list \<Rightarrow> string" where
  "join_comma [] = []"
| "join_comma [x] = x"
| "join_comma (x # y # xs) = x @ '','' @ join_comma (y # xs)"

text \<open>The line's and the agent's part of the runtime context, after the leg's ids.\<close>

definition telephony_context ::
    "(string \<times> json) list \<Rightarrow> string \<Rightarrow> agent_profile \<Rightarrow> telephony_line \<Rightarrow> json" where
  "telephony_context leg_ids provider agent line =
     JObj [(''telephony'', JObj (leg_ids @
       [(''telephony_provider'', JStr provider),
        (''telephony_line_id'', JStr (uuid_str (l_id line))),
        (''telephony_remote_line_id'', JStr (l_provider_resource_id line)),
        (''telephony_line_phone_number'', JStr (l_phone_number line)),
        (''telephony_line_label'', JStr (line_label line)),
        (''telephony_extension'', opt_str (py_or (g_telephony_extension agent) (l_extension line))),
        (''call_id'', JNull), (''inbound'', JBool True)]))]"

definition inbound_phone :: "string option \<Rightarrow> string option \<Rightarrow> string \<Rightarrow> string" where
  "inbound_phone from_number to_number fallback =
     the (py_or from_number (py_or to_number (Some fallback)))"

text \<open>
  What the two entry points share: no second call for a leg, no call while the media path is not
  ready, otherwise the service places it without the outbound policy checks.
\<close>

definition launch_call ::
    "settings \<Rightarrow> call_env \<Rightarrow> engine_if \<Rightarrow> string \<Rightarrow> string \<Rightarrow> uuid \<Rightarrow> json \<Rightarrow> string \<Rightarrow> world
     \<Rightarrow> (app_error, inbound_launch) result \<times> world" where
  "launch_call cfg env eng leg_id phone agent_id ctx actor w =
     (case get_by_telephony_leg_id leg_id (w_db w) of
        Inl e \<Rightarrow> (Inl e, w)
      | Inr (Some existing) \<Rightarrow>
          (Inr \<lparr>il_status = ''existing_call'', il_reason = None, il_call = Some existing\<rparr>, w)
      | Inr None \<Rightarrow>
          if readiness_errors cfg \<noteq> []
          then (Inr \<lparr>il_status = ''blocked'', il_reason = Some (join_comma (readiness_errors cfg)),
                     il_call = None\<rparr>, w)
          else (case create_call cfg env eng phone DIRECT actor (Some agent_id) (Some ctx) True w of
                  (Inl e, w') \<Rightarrow> (Inl e, w')
                | (Inr call, w') \<Rightarrow>
                    (Inr \<lparr>il_status = ''started'', il_reason = None, il_call = Some call\<rparr>, w')))"

definition ensure_inbound_call ::
    "settings \<Rightarrow> call_env \<Rightarrow> engine_if \<Rightarrow> mango_event \<Rightarrow> inbound_routing \<Rightarrow> world
     \<Rightarrow> (app_error, inbound_launch) result \<times> world" where
  "ensure_inbound_call cfg env eng ev routing w =
     (case ev_leg_id ev of
        None \<Rightarrow> (Inr (skipped ''missing_leg_id''), w)
      | Some leg \<Rightarrow>
          (case (ir_agent routing, ir_line routing) of
             (Some agent, Some line) \<Rightarrow>
               if ev_state ev \<in> {Some Leg_TERMINATED, Some Leg_FAILED}
               then (Inr (skipped ''terminal_event''), w)
               else launch_call cfg env eng leg
                      (inbound_phone (ev_from_number ev) (ev_to_number ev) ''mango:inbound'') (g_id agent)
                      (telephony_context [(''existing_leg_id'', JStr leg), (''mango_leg_id'', JStr leg)]
                         ''mango'' agent line)
                      ''mango_webhook'' w
           | _ \<Rightarrow> (Inr (skipped ''agent_not_resolved''), w)))"

definition ensure_inbound_sip_call ::
    "settings \<Rightarrow> call_env \<Rightarrow> engine_if \<Rightarrow> string \<Rightarrow> string \<Rightarrow> string \<Rightarrow> string option \<Rightarrow> inbound_routing
     \<Rightarrow> world \<Rightarrow> (app_error, inbound_launch) result \<times> world" where
  "ensure_inbound_sip_call cfg env eng provider call_uuid to_number from_number routing w =
     (if call_uuid = [] then (Inr (skipped ''missing_call_uuid''), w)
      else case (ir_agent routing, ir_line routing) of
             (Some agent, Some line) \<Rightarrow>
               (case launch_call cfg env eng call_uuid
                       (inbound_phone from_number (Some to_number) ''sip:inbound'') (g_id agent)
                       (telephony_context
                          [(''existing_leg_id'', JStr call_uuid), (''provider_leg_id'', JStr call_uuid),
                           (''mango_leg_id'', JStr call_uuid), (''freeswitch_uuid'', JStr call_uuid)]
                          provider agent line)
                       ''freeswitch_inbound_sip'' w of
                  (Inr r, w') \<Rightarrow>
                    (case (il_status r = ''started'', il_call r) of
                       (True, Some call) \<Rightarrow>
                         if truthy (c_telephony_leg_id call) then (Inr r, w')
                         else (let call' = call\<lparr>c_telephony_leg_id := Some call_uuid\<rparr>
                               in (Inr (r\<lparr>il_call := Some call'\<rparr>), w_save call' w'))
                     | _ \<Rightarrow> (Inr r, w'))
                | (Inl e, w') \<Rightarrow> (Inl e, w'))
           | _ \<Rightarrow> (Inr (skipped ''agent_not_resolved''), w))"

section \<open>Which agent a number leads to\<close>

lemma resolve_inbound_cases:
  assumes "resolve_inbound cfg provider number d = Inr r"
  obtains (no_line) "get_active_by_phone_number provider (normalize_mango_phone (Some number)) d = Inr None"
      "ir_agent r = None" "ir_line r = None" "\<not> ir_ambiguous r" "ir_candidate_count r = 0"
  | (rejected) line where "get_active_by_phone_number provider (normalize_mango_phone (Some number)) d = Inr (Some line)"
      "provider = ''mango''" "\<not> allowed_line_number cfg (l_phone_number line)"
      "ir_agent r = None" "ir_line r = None" "\<not> ir_ambiguous r" "ir_candidate_count r = 0"
  | (found) line where "get_active_by_phone_number provider (normalize_mango_phone (Some number)) d = Inr (Some line)"
      "provider = ''mango'' \<longrightarrow> allowed_line_number cfg (l_phone_number line)" "ir_line r = Some line"
      "ir_agent r = (case get_all_active_by_telephony_line provider (l_id line) d of [] \<Rightarrow> None | a # _ \<Rightarrow> Some a)"
      "ir_candidate_count r = length (get_all_active_by_telephony_line provider (l_id line) d)"
      "ir_ambiguous r \<longleftrightarrow> 1 < length (get_all_active_by_telephony_line provider (l_id line) d)"
  using assms unfolding resolve_inbound_def Let_def
  by (auto split: sum.splits option.splits if_splits list.splits)

lemma active_line_found:
  assumes "get_active_by_phone_number provider number d = Inr (Some l)"
  shows "l \<in> set (lines_tbl d) \<and> l_provider l = provider \<and> l_phone_number l = number \<and> l_is_active l"
  using one_or_none_Some assms unfolding get_active_by_phone_number_def by fast

lemma all_active_set:
  "set (get_all_active_by_telephony_line provider i d) = {a \<in> set (agents d). bound_agent provider i a}"
  by (simp add: get_all_active_by_telephony_line_def)

lemma first_is_oldest:
  assumes "get_all_active_by_telephony_line provider i d = a # rest"
  shows "a \<in> set (agents d) \<and> bound_agent provider i a
    \<and> (\<forall>b\<in>set (agents d). bound_agent provider i b \<longrightarrow> g_created_at a \<le> g_created_at b)"
proof -
  have "sorted (map g_created_at (a # rest))"
    using assms by (metis get_all_active_by_telephony_line_def sorted_sort_key)
  with all_active_set [of provider i d] assms show ?thesis by auto
qed

text \<open>
  C27. An inbound number leads to the right agent. Whatever the notation of the number, routing
  finds an agent exactly when an active line of the provider has that number in normal form, inside
  the single-number policy for Mango, and some active agent of the provider is bound to it. Then the
  agent is the longest-standing one of them, and the ambiguity flag and the count tell how many there
  are. The answer is the same for every notation with the same normal form.
\<close>

theorem inbound_agent_correct:
  assumes "resolve_inbound cfg provider number d = Inr r"
  shows "(ir_agent r \<noteq> None \<longleftrightarrow>
      (\<exists>line a. get_active_by_phone_number provider (normalize_mango_phone (Some number)) d = Inr (Some line)
         \<and> (provider = ''mango'' \<longrightarrow> allowed_line_number cfg (l_phone_number line))
         \<and> a \<in> set (agents d) \<and> bound_agent provider (l_id line) a))
    \<and> (\<forall>a. ir_agent r = Some a \<longrightarrow>
         (\<exists>line. ir_line r = Some line \<and> line \<in> set (lines_tbl d) \<and> l_provider line = provider
           \<and> l_phone_number line = normalize_mango_phone (Some number) \<and> l_is_active line
           \<and> a \<in> set (agents d) \<and> bound_agent provider (l_id line) a
           \<and> (\<forall>b\<in>set (agents d). bound_agent provider (l_id line) b \<longrightarrow> g_created_at a \<le> g_created_at b)
           \<and> ir_candidate_count r = length (filter (bound_agent provider (l_id line)) (agents d))))
    \<and> (ir_ambiguous r \<longleftrightarrow> 1 < ir_candidate_count r)
    \<and> (\<forall>other. normalize_mango_phone (Some other) = normalize_mango_phone (Some number) \<longrightarrow>
         resolve_inbound cfg provider other d = Inr r)"
proof -
  have other: "\<forall>other. normalize_mango_phone (Some other) = normalize_mango_phone (Some number) \<longrightarrow>
         resolve_inbound cfg provider other d = Inr r"
    using assms by (simp add: resolve_inbound_def)
  from assms show ?thesis
  proof (cases rule: resolve_inbound_cases)
    case no_line
    then show ?thesis using other by simp
  next
    case (rejected line)
    then show ?thesis using other by simp
  next
    case (found line)
    let ?as = "get_all_active_by_telephony_line provider (l_id line) d"
    have none: "?as = [] \<longleftrightarrow> (\<forall>a\<in>set (agents d). \<not> bound_agent provider (l_id line) a)"
      using all_active_set [of provider "l_id line" d]
      by (metis (mono_tags, lifting) empty_Collect_eq set_empty)
    have len: "length ?as = length (filter (bound_agent provider (l_id line)) (agents d))"
      by (simp add: get_all_active_by_telephony_line_def)
    note line = active_line_found [OF found(1)]
    show ?thesis
    proof (cases ?as)
      case Nil
      then show ?thesis using found none other by auto
    next
      case (Cons a rest)
      note oldest = first_is_oldest [OF Cons]
      have "ir_agent r = Some a" using found(4) Cons by simp
      moreover have "ir_ambiguous r \<longleftrightarrow> 1 < ir_candidate_count r" using found(5,6) by simp
      moreover have "ir_candidate_count r = length (filter (bound_agent provider (l_id line)) (agents d))"
        using found(5) len by simp
      ultimately show ?thesis using found(1,2,3) line oldest other by auto
    qed
  qed
qed

definition demo_line :: telephony_line where
  "demo_line = \<lparr>l_id = 1, l_created_at = 0, l_provider = ''mango'', l_provider_resource_id = ''405622036'',
     l_phone_number = ''+79300350609'', l_schema_name = None, l_display_name = Some ''AI'',
     l_extension = Some ''101'', l_is_active = True, l_is_inbound_enabled = True,
     l_is_outbound_enabled = True, l_raw_payload = [], l_synced_at = None\<rparr>"

definition demo_agent :: "uuid \<Rightarrow> time \<Rightarrow> agent_profile" where
  "demo_agent i created = \<lparr>g_id = i, g_created_at = created, g_name = ''Anna'', g_is_active = True,
     g_system_prompt = ''Sell.'', g_tone_rules = None, g_business_rules = None, g_sales_objectives = None,
     g_greeting_text = None, g_transfer_rules = None, g_prohibited_promises = None,
     g_voice_strategy = ''gemini_primary'', g_voice_provider = ''gemini'',
     g_telephony_provider = Some ''mango'', g_telephony_line_id = Some 1,
     g_telephony_extension = None, g_config = None, g_version = 1\<rparr>"

definition demo_inbound_db :: db where
  "demo_inbound_db = empty_db\<lparr>lines_tbl := [demo_line], agents := [demo_agent 3 20, demo_agent 2 10]\<rparr>"

lemma demo_numbers:
  "normalize_mango_phone (Some ''8 (930) 035-06-09'') = ''+79300350609''"
  "allowed_line_number default_settings ''+79300350609''"
  by code_simp+

lemma demo_resolved:
  "resolve_inbound default_settings ''mango'' ''8 (930) 035-06-09'' demo_inbound_db
     = Inr \<lparr>ir_agent = Some (demo_agent 2 10), ir_line = Some demo_line, ir_phone = ''+79300350609'',
            ir_ambiguous = True, ir_candidate_count = 2\<rparr>"
  by (simp add: resolve_inbound_def demo_numbers get_active_by_phone_number_def demo_inbound_db_def
      one_or_none_def demo_line_def demo_agent_def get_all_active_by_telephony_line_def bound_agent_def Let_def)

theorem inbound_agent_correct_witness:
  "\<exists>r. resolve_inbound default_settings ''mango'' ''8 (930) 035-06-09'' demo_inbound_db = Inr r
     \<and> ir_agent r = Some (demo_agent 2 10) \<and> ir_ambiguous r
     \<and> (\<forall>b\<in>set (agents demo_inbound_db). g_created_at (demo_agent 2 10) \<le> g_created_at b)"
proof -
  let ?r = "\<lparr>ir_agent = Some (demo_agent 2 10), ir_line = Some demo_line, ir_phone = ''+79300350609'',
            ir_ambiguous = True, ir_candidate_count = 2\<rparr>"
  have "\<forall>a. ir_agent ?r = Some a \<longrightarrow> (\<exists>line. ir_line ?r = Some line \<and>
      (\<forall>b\<in>set (agents demo_inbound_db). bound_agent ''mango'' (l_id line) b \<longrightarrow> g_created_at a \<le> g_created_at b))"
    using inbound_agent_correct [OF demo_resolved] by blast
  moreover have "\<forall>b\<in>set (agents demo_inbound_db). bound_agent ''mango'' (l_id demo_line) b"
    by (simp add: demo_inbound_db_def bound_agent_def demo_agent_def demo_line_def)
  ultimately show ?thesis using demo_resolved by simp
qed

section \<open>One call per leg\<close>

lemma leg_lookup_after_create:
  assumes "get_by_telephony_leg_id leg d = Inr None" "calls d' = calls d @ [c]"
    and "c_telephony_leg_id c = Some leg"
  shows "get_by_telephony_leg_id leg d' = Inr (Some c)"
proof -
  have "filter (\<lambda>c. c_telephony_leg_id c = Some leg) (calls d) = []"
    using assms(1) by (simp add: get_by_telephony_leg_id_def one_or_none_None filter_empty_conv)
  then show ?thesis using assms(2,3) by (simp add: get_by_telephony_leg_id_def one_or_none_def)
qed

lemma launch_started:
  assumes "launch_call cfg env eng leg phone g ctx actor w = (Inr r, w1)" "il_status r = ''started''"
  shows "get_by_telephony_leg_id leg (w_db w) = Inr None
    \<and> (\<exists>call. il_call r = Some call
         \<and> create_call cfg env eng phone DIRECT actor (Some g) (Some ctx) True w = (Inr call, w1))"
  using assms unfolding launch_call_def
  by (auto split: sum.splits option.splits if_splits prod.splits)

lemma launch_existing:
  "get_by_telephony_leg_id leg (w_db w) = Inr (Some c) \<Longrightarrow>
     launch_call cfg env eng leg phone g ctx actor w
       = (Inr \<lparr>il_status = ''existing_call'', il_reason = None, il_call = Some c\<rparr>, w)"
  by (simp add: launch_call_def)

text \<open>
  C28. An inbound SIP leg gets one call. If a request for a leg starts a call (under an id not in use)
  and the engine reports this leg or none for it, then the call carries the leg, and every later
  request for the same leg, with any numbers, engine and routing that found an agent, is answered
  with that call: nothing is stored and the engine is not asked again.
\<close>

theorem one_call_per_sip_leg:
  assumes "ensure_inbound_sip_call cfg env eng provider leg to_n from_n routing w = (Inr r, w1)"
    and "il_status r = ''started''" and "get_call_row (ce_new_id env) (w_db w) = None"
    and "\<forall>c res. en_initiate eng c = Inr res \<and> truthy (r_telephony_leg_id res) \<longrightarrow> r_telephony_leg_id res = Some leg"
    and "ir_agent routing' \<noteq> None" "ir_line routing' \<noteq> None"
  shows "\<exists>c. il_call r = Some c \<and> c_telephony_leg_id c = Some leg
    \<and> ensure_inbound_sip_call cfg' env' eng' provider' leg to' from' routing' w1
        = (Inr \<lparr>il_status = ''existing_call'', il_reason = None, il_call = Some c\<rparr>, w1)"
proof -
  have leg: "leg \<noteq> []" using assms(1,2) by (auto simp: ensure_inbound_sip_call_def skipped_def)
  obtain agent line where found: "ir_agent routing = Some agent" "ir_line routing = Some line"
    using assms(1,2) leg by (auto simp: ensure_inbound_sip_call_def skipped_def split: option.splits)
  let ?phone = "inbound_phone from_n (Some to_n) ''sip:inbound''"
  let ?ctx = "telephony_context
                          [(''existing_leg_id'', JStr leg), (''provider_leg_id'', JStr leg),
                           (''mango_leg_id'', JStr leg), (''freeswitch_uuid'', JStr leg)]
                          provider agent line"
  obtain r0 w0 where launch: "launch_call cfg env eng leg ?phone (g_id agent) ?ctx ''freeswitch_inbound_sip'' w = (Inr r0, w0)"
      "il_status r0 = ''started''"
    using assms(1,2) leg found
    by (auto simp: ensure_inbound_sip_call_def split: prod.splits sum.splits option.splits bool.splits if_splits)
  from launch_started [OF launch] obtain c0 where c0: "il_call r0 = Some c0"
      "get_by_telephony_leg_id leg (w_db w) = Inr None"
      "create_call cfg env eng ?phone DIRECT ''freeswitch_inbound_sip'' (Some (g_id agent)) (Some ?ctx) True w = (Inr c0, w0)"
    by blast
  have calls0: "calls (w_db w0) = calls (w_db w) @ [c0]" by (rule create_call_calls [OF c0(3) assms(3)])
  have own_leg: "truthy (c_telephony_leg_id c0) \<Longrightarrow> c_telephony_leg_id c0 = Some leg"
  proof -
    assume t: "truthy (c_telephony_leg_id c0)"
    obtain ph res where "en_initiate eng (new_call env ph DIRECT (Some (g_id agent)) (Some ?ctx)) = Inr res"
        "c0 = apply_engine_result res (new_call env ph DIRECT (Some (g_id agent)) (Some ?ctx))"
      using c0(3) by (auto simp: create_call_def Let_def split: sum.splits)
    with t assms(4) show ?thesis
      by (auto simp: apply_engine_result_def new_call_def Let_def split: if_splits)
  qed
  define c where "c = (if truthy (c_telephony_leg_id c0) then c0 else c0\<lparr>c_telephony_leg_id := Some leg\<rparr>)"
  have c: "c_telephony_leg_id c = Some leg" using own_leg by (simp add: c_def)
  have w1: "il_call r = Some c" "w1 = (if truthy (c_telephony_leg_id c0) then w0 else w_save c w0)"
    using assms(1) leg found launch c0(1) by (auto simp: ensure_inbound_sip_call_def c_def Let_def split: if_splits)
  have "c_id c0 \<notin> c_id ` set (calls (w_db w))"
  proof -
    have "c_id c0 = ce_new_id env"
      using c0(3) by (auto simp: create_call_def Let_def split: sum.splits)
    then show ?thesis using assms(3) by (simp add: get_call_row_def find_row_None)
  qed
  then have "calls (w_db w1) = calls (w_db w) @ [c]"
    using w1(2) calls0 by (simp add: c_def w_save_def save_call_def upsert_replace_last)
  then have "get_by_telephony_leg_id leg (w_db w1) = Inr (Some c)"
    using leg_lookup_after_create [OF c0(2)] c by blast
  then have "ensure_inbound_sip_call cfg' env' eng' provider' leg to' from' routing' w1
        = (Inr \<lparr>il_status = ''existing_call'', il_reason = None, il_call = Some c\<rparr>, w1)"
    using leg assms(5,6) by (auto simp: ensure_inbound_sip_call_def launch_existing)
  with w1(1) c show ?thesis by blast
qed

definition demo_direct_engine :: "string option \<Rightarrow> engine_if" where
  "demo_direct_engine leg = \<lparr>en_initiate = (\<lambda>c. Inr \<lparr>r_external_id = Some ''sess'', r_initial_status = QUEUED,
       r_route_used = ''direct'', r_telephony_leg_id = leg, r_metadata = None\<rparr>),
     en_stop = (\<lambda>_. Inr ()), en_instruct = (\<lambda>_ _. Inr ()), en_status = (\<lambda>c. Inr IN_PROGRESS)\<rparr>"

definition demo_ready :: settings where
  "demo_ready = default_settings\<lparr>st_gemini_api_key := ''k'', st_media_gateway_enabled := True,
     st_media_gateway_mode := ''mock''\<rparr>"

definition demo_routing :: inbound_routing where
  "demo_routing = \<lparr>ir_agent = Some (demo_agent 2 10), ir_line = Some demo_line,
     ir_phone = ''+79300350609'', ir_ambiguous = False, ir_candidate_count = 1\<rparr>"

lemma demo_ready_ok: "readiness_errors demo_ready = []"
  by (simp add: readiness_errors_def demo_ready_def default_settings_def gemini_configured_def
      freeswitch_local_media_supported_def)

definition demo_inbound_world :: world where
  "demo_inbound_world = \<lparr>w_db = demo_inbound_db, w_ops = []\<rparr>"

lemma demo_started:
  "\<exists>r w1. ensure_inbound_sip_call demo_ready demo_env (demo_direct_engine None) ''mango'' ''u1'' ''+7930'' None
      demo_routing demo_inbound_world = (Inr r, w1) \<and> il_status r = ''started''"
  by (simp add: ensure_inbound_sip_call_def demo_routing_def launch_call_def demo_ready_ok
      get_by_telephony_leg_id_def demo_inbound_world_def demo_inbound_db_def empty_db_def one_or_none_def
      create_call_def precheck_def demo_env_def demo_direct_engine_def get_agent_def demo_agent_def
      inbound_phone_def py_or_def Let_def)

theorem one_call_per_sip_leg_witness:
  "\<exists>r w1 c. ensure_inbound_sip_call demo_ready demo_env (demo_direct_engine None) ''mango'' ''u1'' ''+7930'' None
        demo_routing demo_inbound_world = (Inr r, w1)
     \<and> il_call r = Some c
     \<and> ensure_inbound_sip_call demo_ready demo_env (demo_direct_engine None) ''mango'' ''u1'' ''+7930'' (Some ''+7999'')
        demo_routing w1 = (Inr \<lparr>il_status = ''existing_call'', il_reason = None, il_call = Some c\<rparr>, w1)"
proof -
  obtain r w1 where run: "ensure_inbound_sip_call demo_ready demo_env (demo_direct_engine None) ''mango''
      ''u1'' ''+7930'' None demo_routing demo_inbound_world = (Inr r, w1)" "il_status r = ''started''"
    using demo_started by blast
  have fresh: "get_call_row (ce_new_id demo_env) (w_db demo_inbound_world) = None"
    by (simp add: get_call_row_def demo_inbound_world_def demo_inbound_db_def empty_db_def)
  have eng: "\<forall>c res. en_initiate (demo_direct_engine None) c = Inr res \<and> truthy (r_telephony_leg_id res)
      \<longrightarrow> r_telephony_leg_id res = Some ''u1''"
    by (auto simp: demo_direct_engine_def)
  have "ir_agent demo_routing \<noteq> None" "ir_line demo_routing \<noteq> None" by (simp_all add: demo_routing_def)
  from one_call_per_sip_leg [OF run fresh eng this, of demo_ready demo_env "demo_direct_engine None"
      "''mango''" "''+7930''" "Some ''+7999''"] run(1)
  show ?thesis by blast
qed

text \<open>
  The entry of the Mango webhook does not store the leg itself: when the engine reports none, the
  next event of the leg starts a second call.
\<close>

lemma webhook_leg_called_twice:
  assumes "ev_leg_id ev = Some ''L''" "ev_state ev = Some Leg_RINGING" "ev_from_number ev = Some ''+7999''"
  shows "w_ops (snd (ensure_inbound_call demo_ready (demo_env\<lparr>ce_new_id := 6\<rparr>) (demo_direct_engine None) ev demo_routing
      (snd (ensure_inbound_call demo_ready demo_env (demo_direct_engine None) ev demo_routing demo_inbound_world))))
    = [OpInitiate 5, OpInitiate 6]"
  using assms
  by (simp add: ensure_inbound_call_def demo_routing_def launch_call_def demo_ready_ok
      get_by_telephony_leg_id_def demo_inbound_world_def demo_inbound_db_def empty_db_def one_or_none_def
      create_call_def precheck_def demo_env_def demo_direct_engine_def get_agent_def demo_agent_def
      inbound_phone_def py_or_def Let_def w_save_def w_op_def w_audit_def save_call_def audit_call_def
      new_call_def apply_engine_result_def)

end
