(* ===== verification/Knowledge.thy ===== *)
theory Knowledge
  imports Database
begin

text \<open>
  The knowledge base: \<open>KnowledgeBaseService\<close> of \<open>app/services/knowledge_base_service.py\<close> over its
  repositories: documents, their bindings to agents, the company profile, and the context that a
  call's prompt is assembled from. The identifier and the time of a new row are arguments; the
  order of texts is the database's collation, an argument of the listing.

  The lemmas show that binding is idempotent, that no operation binds a document to an agent
  twice (so that the query for an existing binding never finds two rows), and what the context of
  an agent can hold.
\<close>

section \<open>Repositories\<close>

definition clean_optional_text :: "string option \<Rightarrow> string option" where
  "clean_optional_text v =
     (case v of None \<Rightarrow> None | Some s \<Rightarrow> if strip s = [] then None else Some (strip s))"

definition get_document_row :: "uuid \<Rightarrow> db \<Rightarrow> knowledge_document option" where
  "get_document_row i d = find_row kd_id i (documents d)"

text \<open>Flushing a row that was loaded: its time of update moves when a column has changed.\<close>

definition touch_document :: "time \<Rightarrow> knowledge_document \<Rightarrow> knowledge_document \<Rightarrow> knowledge_document" where
  "touch_document now old k = (if k = old then k else k\<lparr>kd_updated_at := now\<rparr>)"

definition save_document :: "knowledge_document \<Rightarrow> db \<Rightarrow> db" where
  "save_document k d = d\<lparr>documents := upsert kd_id k (documents d)\<rparr>"

definition get_active_document :: "uuid \<Rightarrow> db \<Rightarrow> (app_error, knowledge_document option) result" where
  "get_active_document i d = one_or_none (filter (\<lambda>k. kd_id k = i \<and> kd_is_active k) (documents d))"

definition get_many_active :: "uuid list \<Rightarrow> db \<Rightarrow> knowledge_document list" where
  "get_many_active ids d =
     (if ids = [] then [] else filter (\<lambda>k. kd_id k \<in> set ids \<and> kd_is_active k) (documents d))"

text \<open>The listing, sorted by the least significant key first: the sort is stable.\<close>

definition list_documents ::
    "(string \<Rightarrow> nat) \<Rightarrow> string option \<Rightarrow> bool option \<Rightarrow> db \<Rightarrow> knowledge_document list" where
  "list_documents collation category active_only d =
     sort_key (\<lambda>k. collation (kd_category k))
       (sort_key (\<lambda>k. - kd_updated_at k)
         (sort_key (\<lambda>k. collation (kd_title k))
           (filter (\<lambda>k. (truthy category \<longrightarrow> Some (kd_category k) = category)
                     \<and> (case active_only of None \<Rightarrow> True | Some b \<Rightarrow> kd_is_active k = b))
             (documents d))))"

definition get_binding :: "uuid \<Rightarrow> db \<Rightarrow> knowledge_binding option" where
  "get_binding i d = find_row kb_id i (bindings d)"

definition save_binding :: "knowledge_binding \<Rightarrow> db \<Rightarrow> db" where
  "save_binding b d = d\<lparr>bindings := upsert kb_id b (bindings d)\<rparr>"

definition delete_binding :: "knowledge_binding \<Rightarrow> db \<Rightarrow> db" where
  "delete_binding b d = d\<lparr>bindings := filter (\<lambda>x. kb_id x \<noteq> kb_id b) (bindings d)\<rparr>"

definition list_for_agent :: "uuid \<Rightarrow> db \<Rightarrow> knowledge_binding list" where
  "list_for_agent i d = sort_key (\<lambda>b. - kb_created_at b) (filter (\<lambda>b. kb_agent_profile_id b = i) (bindings d))"

definition find_existing :: "uuid \<Rightarrow> uuid \<Rightarrow> db \<Rightarrow> (app_error, knowledge_binding option) result" where
  "find_existing agent_id document_id d =
     one_or_none (filter (\<lambda>b. kb_agent_profile_id b = agent_id \<and> kb_knowledge_document_id b = document_id)
                    (bindings d))"

definition newer_company :: "company_profile \<Rightarrow> company_profile \<Rightarrow> bool" where
  "newer_company a b \<longleftrightarrow>
     cp_updated_at b < cp_updated_at a
     \<or> cp_updated_at a = cp_updated_at b \<and> cp_created_at b < cp_created_at a"

fun latest_company :: "company_profile list \<Rightarrow> company_profile option" where
  "latest_company [] = None"
| "latest_company (c # cs) =
     (case latest_company cs of None \<Rightarrow> Some c | Some c' \<Rightarrow> if newer_company c' c then Some c' else Some c)"

definition get_latest_active :: "db \<Rightarrow> company_profile option" where
  "get_latest_active d = latest_company (filter cp_is_active (companies d))"

section \<open>Documents\<close>

definition get_document :: "uuid \<Rightarrow> db \<Rightarrow> (app_error, knowledge_document) result" where
  "get_document i d = (case get_document_row i d of None \<Rightarrow> Inl NotFoundError | Some k \<Rightarrow> Inr k)"

record document_fields =
  df_title :: "string option"
  df_category :: "string option"
  df_content :: "string option"
  df_is_active :: "bool option"
  df_notes :: "string option"
  df_metadata :: "(string \<times> json) list option"

text \<open>\<open>if value is not None: row.field = \<dots>\<close>, the value taken when the field is given.\<close>

definition given :: "'a option \<Rightarrow> 'a \<Rightarrow> 'a" where
  "given v old = (case v of None \<Rightarrow> old | Some x \<Rightarrow> x)"

definition given_text :: "string option \<Rightarrow> string option \<Rightarrow> string option" where
  "given_text v old = (case v of None \<Rightarrow> old | Some _ \<Rightarrow> clean_optional_text v)"

definition create_document ::
    "uuid \<Rightarrow> time \<Rightarrow> string \<Rightarrow> string \<Rightarrow> string \<Rightarrow> bool \<Rightarrow> string option \<Rightarrow> (string \<times> json) list option
     \<Rightarrow> db \<Rightarrow> knowledge_document \<times> db" where
  "create_document new_id now title category content active notes metadata d =
     (let k = \<lparr>kd_id = new_id, kd_updated_at = now, kd_title = strip title,
               kd_category = strip category, kd_content = strip content, kd_is_active = active,
               kd_notes = clean_optional_text notes, kd_metadata = Some (given metadata [])\<rparr>
      in (k, save_document k d))"

definition update_document ::
    "time \<Rightarrow> uuid \<Rightarrow> document_fields \<Rightarrow> db \<Rightarrow> (app_error, knowledge_document) result \<times> db" where
  "update_document now i f d =
     (case get_document i d of
        Inl e \<Rightarrow> (Inl e, d)
      | Inr k \<Rightarrow>
          (let k' = touch_document now k (k\<lparr>
                      kd_title := (case df_title f of None \<Rightarrow> kd_title k | Some x \<Rightarrow> strip x),
                      kd_category := (case df_category f of None \<Rightarrow> kd_category k | Some x \<Rightarrow> strip x),
                      kd_content := (case df_content f of None \<Rightarrow> kd_content k | Some x \<Rightarrow> strip x),
                      kd_is_active := given (df_is_active f) (kd_is_active k),
                      kd_notes := given_text (df_notes f) (kd_notes k),
                      kd_metadata := (case df_metadata f of None \<Rightarrow> kd_metadata k | Some m \<Rightarrow> Some m)\<rparr>)
           in (Inr k', save_document k' d)))"

definition soft_delete_document ::
    "time \<Rightarrow> uuid \<Rightarrow> db \<Rightarrow> (app_error, knowledge_document) result \<times> db" where
  "soft_delete_document now i d =
     (case get_document i d of
        Inl e \<Rightarrow> (Inl e, d)
      | Inr k \<Rightarrow>
          if \<not> kd_is_active k then (Inr k, d)
          else (let k' = touch_document now k (k\<lparr>kd_is_active := False\<rparr>) in (Inr k', save_document k' d)))"

section \<open>Bindings\<close>

definition require_agent :: "uuid \<Rightarrow> db \<Rightarrow> (app_error, agent_profile) result" where
  "require_agent i d = (case get_agent i d of None \<Rightarrow> Inl NotFoundError | Some a \<Rightarrow> Inr a)"

definition list_agent_bindings :: "uuid \<Rightarrow> db \<Rightarrow> (app_error, knowledge_binding list) result" where
  "list_agent_bindings i d = map_sum id (\<lambda>_. list_for_agent i d) (require_agent i d)"

text \<open>
  Binding a document checks first and inserts then, with awaits between: the queries of \<open>bind_check\<close> answer the
  binding that is there, if any; the table has no constraint on agent and document.
\<close>

definition bind_check :: "uuid \<Rightarrow> uuid \<Rightarrow> db \<Rightarrow> (app_error, knowledge_binding option) result" where
  "bind_check agent_id document_id d =
     (case require_agent agent_id d of
        Inl e \<Rightarrow> Inl e
      | Inr _ \<Rightarrow>
          (case get_active_document document_id d of
             Inl e \<Rightarrow> Inl e
           | Inr None \<Rightarrow> Inl NotFoundError
           | Inr (Some _) \<Rightarrow> find_existing agent_id document_id d))"

definition document_binding :: "uuid \<Rightarrow> time \<Rightarrow> uuid \<Rightarrow> uuid \<Rightarrow> string option \<Rightarrow> knowledge_binding" where
  "document_binding new_id now agent_id document_id role =
     \<lparr>kb_id = new_id, kb_created_at = now, kb_agent_profile_id = agent_id,
      kb_knowledge_document_id = document_id, kb_role = clean_optional_text role\<rparr>"

definition bind_insert ::
    "uuid \<Rightarrow> time \<Rightarrow> uuid \<Rightarrow> uuid \<Rightarrow> string option \<Rightarrow> db \<Rightarrow> (app_error, knowledge_binding) result \<times> db" where
  "bind_insert new_id now agent_id document_id role d =
     (let b = document_binding new_id now agent_id document_id role in (Inr b, save_binding b d))"

definition bind_document ::
    "uuid \<Rightarrow> time \<Rightarrow> uuid \<Rightarrow> uuid \<Rightarrow> string option \<Rightarrow> db \<Rightarrow> (app_error, knowledge_binding) result \<times> db" where
  "bind_document new_id now agent_id document_id role d =
     (case bind_check agent_id document_id d of
        Inl e \<Rightarrow> (Inl e, d)
      | Inr (Some b) \<Rightarrow> (Inr b, d)
      | Inr None \<Rightarrow> bind_insert new_id now agent_id document_id role d)"

lemmas bind_document_unfold = bind_document_def bind_check_def bind_insert_def document_binding_def

definition unbind_document :: "uuid \<Rightarrow> uuid \<Rightarrow> db \<Rightarrow> (app_error, unit) result \<times> db" where
  "unbind_document agent_id binding_id d =
     (case require_agent agent_id d of
        Inl e \<Rightarrow> (Inl e, d)
      | Inr _ \<Rightarrow>
          (case get_binding binding_id d of
             None \<Rightarrow> (Inl NotFoundError, d)
           | Some b \<Rightarrow> if kb_agent_profile_id b \<noteq> agent_id then (Inl NotFoundError, d)
                        else (Inr (), delete_binding b d)))"

section \<open>The company profile\<close>

record company_fields =
  cf_name :: string
  cf_legal_name :: "string option"
  cf_description :: "string option"
  cf_value_proposition :: "string option"
  cf_target_audience :: "string option"
  cf_contact_info :: "string option"
  cf_website_url :: "string option"
  cf_working_hours :: "string option"
  cf_compliance_notes :: "string option"
  cf_is_active :: bool
  cf_config :: "(string \<times> json) list option"

definition save_company :: "company_profile \<Rightarrow> db \<Rightarrow> db" where
  "save_company c d = d\<lparr>companies := upsert cp_id c (companies d)\<rparr>"

definition upsert_company_profile ::
    "uuid \<Rightarrow> time \<Rightarrow> company_fields \<Rightarrow> db \<Rightarrow> company_profile \<times> db" where
  "upsert_company_profile new_id now f d =
     (let old = get_latest_active d;
          c0 = \<lparr>cp_id = (case old of None \<Rightarrow> new_id | Some p \<Rightarrow> cp_id p),
               cp_created_at = (case old of None \<Rightarrow> now | Some p \<Rightarrow> cp_created_at p),
               cp_updated_at = (case old of None \<Rightarrow> now | Some p \<Rightarrow> cp_updated_at p),
               cp_name = strip (cf_name f),
               cp_legal_name = clean_optional_text (cf_legal_name f),
               cp_description = clean_optional_text (cf_description f),
               cp_value_proposition = clean_optional_text (cf_value_proposition f),
               cp_target_audience = clean_optional_text (cf_target_audience f),
               cp_contact_info = clean_optional_text (cf_contact_info f),
               cp_website_url = clean_optional_text (cf_website_url f),
               cp_working_hours = clean_optional_text (cf_working_hours f),
               cp_compliance_notes = clean_optional_text (cf_compliance_notes f),
               cp_is_active = cf_is_active f,
               cp_config = Some (given (cf_config f) [])\<rparr>;
          c = (if old = Some c0 then c0 else c0\<lparr>cp_updated_at := now\<rparr>)
      in (c, save_company c d))"

section \<open>The context of a call\<close>

record knowledge_snippet =
  ks_document_id :: uuid
  ks_title :: string
  ks_category :: string
  ks_content :: string

record knowledge_context =
  kc_company_profile :: "(string \<times> json) list option"
  kc_documents :: "knowledge_snippet list"
  kc_categories :: "(string \<times> knowledge_snippet list) list"

definition assemble_company_profile_context :: "company_profile option \<Rightarrow> (string \<times> json) list option" where
  "assemble_company_profile_context p =
     map_option (\<lambda>c.
       [(''name'', JStr (cp_name c)), (''legal_name'', opt_str (cp_legal_name c)),
        (''description'', opt_str (cp_description c)),
        (''value_proposition'', opt_str (cp_value_proposition c)),
        (''target_audience'', opt_str (cp_target_audience c)),
        (''contact_info'', opt_str (cp_contact_info c)),
        (''website_url'', opt_str (cp_website_url c)),
        (''working_hours'', opt_str (cp_working_hours c)),
        (''compliance_notes'', opt_str (cp_compliance_notes c)),
        (''config'', JObj (given (cp_config c) []))]) p"

text \<open>\<open>categories.setdefault(snippet.category, []).append(snippet)\<close>\<close>

fun add_to_category :: "knowledge_snippet \<Rightarrow> (string \<times> knowledge_snippet list) list
    \<Rightarrow> (string \<times> knowledge_snippet list) list" where
  "add_to_category s [] = [(ks_category s, [s])]"
| "add_to_category s ((c, ss) # rest) =
     (if c = ks_category s then (c, ss @ [s]) # rest else (c, ss) # add_to_category s rest)"

definition snippet_of :: "knowledge_document \<Rightarrow> knowledge_snippet" where
  "snippet_of k = \<lparr>ks_document_id = kd_id k, ks_title = kd_title k, ks_category = kd_category k,
                   ks_content = kd_content k\<rparr>"

definition snippet_limit :: nat where
  "snippet_limit = 8"

definition assemble_runtime_knowledge_context ::
    "company_profile option \<Rightarrow> knowledge_document list \<Rightarrow> knowledge_context" where
  "assemble_runtime_knowledge_context company docs =
     (let snippets = map snippet_of (take snippet_limit docs)
      in \<lparr>kc_company_profile = assemble_company_profile_context company,
          kc_documents = snippets,
          kc_categories = fold add_to_category snippets []\<rparr>)"

definition build_agent_runtime_knowledge_context :: "uuid option \<Rightarrow> db \<Rightarrow> knowledge_context" where
  "build_agent_runtime_knowledge_context agent_id d =
     (case agent_id of
        None \<Rightarrow> assemble_runtime_knowledge_context (get_latest_active d) []
      | Some i \<Rightarrow>
          assemble_runtime_knowledge_context (get_latest_active d)
            (filter kd_is_active
              (List.map_filter (\<lambda>b. get_document_row (kb_knowledge_document_id b) d) (list_for_agent i d))))"

section \<open>Bindings are unique\<close>

definition binding_pair :: "knowledge_binding \<Rightarrow> uuid \<times> uuid" where
  "binding_pair b = (kb_agent_profile_id b, kb_knowledge_document_id b)"

definition bindings_unique :: "db \<Rightarrow> bool" where
  "bindings_unique d \<longleftrightarrow> distinct (map kb_id (bindings d)) \<and> distinct (map binding_pair (bindings d))"

lemma clean_optional_text_idem [simp]: "clean_optional_text (clean_optional_text v) = clean_optional_text v"
  by (simp add: clean_optional_text_def split: option.splits)

lemma set_list_for_agent [simp]: "set (list_for_agent i d) = {b \<in> set (bindings d). kb_agent_profile_id b = i}"
  by (auto simp: list_for_agent_def)

lemma find_existing_total:
  assumes "bindings_unique d"
  shows "\<exists>r. find_existing i k d = Inr r"
proof -
  let ?P = "\<lambda>b. kb_agent_profile_id b = i \<and> kb_knowledge_document_id b = k"
  have "distinct (map binding_pair (filter ?P (bindings d)))"
    using assms by (simp add: bindings_unique_def distinct_map_filter)
  moreover have "\<forall>b\<in>set (filter ?P (bindings d)). binding_pair b = (i, k)"
    by (simp add: binding_pair_def)
  ultimately have "length (filter ?P (bindings d)) \<le> 1"
    by (cases "filter ?P (bindings d)" rule: scalar_one_or_none.cases) auto
  then show ?thesis
    by (cases "filter ?P (bindings d)" rule: scalar_one_or_none.cases)
       (simp_all add: find_existing_def one_or_none_def)
qed

lemma bindings_unique_save:
  assumes "bindings_unique d" "kb_id b \<notin> kb_id ` set (bindings d)"
    and "binding_pair b \<notin> binding_pair ` set (bindings d)"
  shows "bindings_unique (save_binding b d)" and "bindings (save_binding b d) = bindings d @ [b]"
  using assms by (auto simp: bindings_unique_def save_binding_def find_row_None upsert_fresh)

lemma bindings_unique_filter:
  "bindings_unique d \<Longrightarrow> bindings_unique (d\<lparr>bindings := filter P (bindings d)\<rparr>)"
  by (simp add: bindings_unique_def distinct_map_filter)

lemma bind_document_cases:
  assumes "bind_document new_id now i k role d = (Inr b, d')"
  obtains (existing) a c where "require_agent i d = Inr a" "get_active_document k d = Inr (Some c)"
      "find_existing i k d = Inr (Some b)" "d' = d"
    | (fresh) a c where "require_agent i d = Inr a" "get_active_document k d = Inr (Some c)"
      "find_existing i k d = Inr None" "d' = save_binding b d"
      "b = \<lparr>kb_id = new_id, kb_created_at = now, kb_agent_profile_id = i,
            kb_knowledge_document_id = k, kb_role = clean_optional_text role\<rparr>"
proof -
  obtain a where a: "require_agent i d = Inr a"
    using assms by (cases "require_agent i d") (simp_all add: bind_document_unfold)
  obtain o1 where o1: "get_active_document k d = Inr o1"
    using assms a by (cases "get_active_document k d") (simp_all add: bind_document_unfold)
  obtain c where c: "get_active_document k d = Inr (Some c)"
    using assms a o1 by (cases o1) (simp_all add: bind_document_unfold)
  obtain r where r: "find_existing i k d = Inr r"
    using assms a c by (cases "find_existing i k d") (simp_all add: bind_document_unfold)
  show ?thesis
  proof (cases r)
    case None
    with assms a c r show ?thesis
      by (intro fresh [of a c]) (auto simp: bind_document_unfold Let_def)
  next
    case (Some b')
    with assms a c r show ?thesis by (intro existing [of a c]) (simp_all add: bind_document_unfold)
  qed
qed

lemma bind_document_unique:
  assumes "bindings_unique d" "new_id \<notin> kb_id ` set (bindings d)"
  shows "bindings_unique (snd (bind_document new_id now i k role d))"
proof (cases "bind_document new_id now i k role d")
  case (Pair r d')
  show ?thesis
  proof (cases r)
    case (Inl e)
    with Pair show ?thesis
      using assms by (simp add: bind_document_unfold Let_def split: sum.splits option.splits)
  next
    case (Inr b)
    from Pair [unfolded Inr] show ?thesis
    proof (cases rule: bind_document_cases)
      case (fresh a c)
      then have "binding_pair b \<notin> binding_pair ` set (bindings d)"
        by (auto simp: find_existing_def one_or_none_None binding_pair_def)
      with fresh Pair assms show ?thesis by (auto intro: bindings_unique_save)
    qed (use assms Pair in simp)
  qed
qed

text \<open>
  Of two requests that both check before either inserts, both bind the document. From then on the query for the
  binding raises, and so does every later request to bind this document to this agent.
\<close>

lemma concurrent_binds_collide:
  fixes r1 r2 :: "string option" and t1 t2 :: time
  assumes "bind_check i k d = Inr None" and "n1 \<noteq> n2" "{n1, n2} \<inter> kb_id ` set (bindings d) = {}"
  defines "d2 \<equiv> snd (bind_insert n2 t2 i k r2 (snd (bind_insert n1 t1 i k r1 d)))"
  shows "isl (find_existing i k d2) \<and> isl (fst (bind_document n t i k r d2))"
proof -
  let ?P = "\<lambda>b. kb_agent_profile_id b = i \<and> kb_knowledge_document_id b = k"
  have "find_existing i k d = Inr None" using assms(1) by (auto simp: bind_check_def split: sum.splits option.splits)
  then have "filter ?P (bindings d) = []"
    unfolding find_existing_def one_or_none_None filter_empty_conv .
  moreover have two: "bindings d2 = bindings d @ [document_binding n1 t1 i k r1, document_binding n2 t2 i k r2]"
    using assms(2,3) by (simp add: d2_def bind_insert_def save_binding_def find_row_None upsert_fresh document_binding_def Let_def)
  ultimately have "isl (find_existing i k d2)"
    by (simp add: find_existing_def one_or_none_def document_binding_def)
  then show ?thesis
    by (auto simp: bind_document_def bind_check_def isl_def split: sum.splits option.splits)
qed

lemma unbind_document_unique:
  "bindings_unique d \<Longrightarrow> bindings_unique (snd (unbind_document i b d))"
  by (auto simp: unbind_document_def delete_binding_def bindings_unique_filter split: sum.splits option.splits)

lemma bind_document_stored:
  assumes "bind_document new_id now i k role d = (Inr b, d')" "new_id \<notin> kb_id ` set (bindings d)"
  shows "b \<in> set (bindings d') \<and> kb_agent_profile_id b = i \<and> kb_knowledge_document_id b = k"
  using assms(1)
proof (cases rule: bind_document_cases)
  case (existing a c)
  show ?thesis using one_or_none_Some [OF existing(3) [unfolded find_existing_def]] existing by simp
next
  case (fresh a c)
  then show ?thesis using assms(2) by (simp add: save_binding_def find_row_None upsert_fresh)
qed

lemma bind_document_frame:
  assumes "bind_document new_id now i k role d = (Inr b, d')"
  shows "agents d' = agents d" "documents d' = documents d"
  using assms by (cases rule: bind_document_cases; simp add: save_binding_def)+

lemma bind_document_idempotent:
  assumes "bind_document n1 t1 i k role d = (Inr b, d1)" "bindings_unique d" "n1 \<notin> kb_id ` set (bindings d)"
  shows "bind_document n2 t2 i k role' d1 = (Inr b, d1)"
proof -
  let ?P = "\<lambda>b. kb_agent_profile_id b = i \<and> kb_knowledge_document_id b = k"
  have uniq: "bindings_unique d1"
    using bind_document_unique [OF assms(2,3), of t1 i k role] assms(1) by simp
  note b = bind_document_stored [OF assms(1) assms(3)]
  note same = bind_document_frame [OF assms(1)]
  obtain r where r: "find_existing i k d1 = Inr r"
    using find_existing_total [OF uniq] by blast
  have "r = Some b"
  proof (cases r)
    case None
    with r have "\<forall>x\<in>set (bindings d1). \<not> ?P x"
      by (simp only: find_existing_def one_or_none_None)
    with b show ?thesis by blast
  next
    case (Some c)
    with r have "c \<in> set (bindings d1) \<and> ?P c"
      using one_or_none_Some [of ?P "bindings d1" c] by (simp only: find_existing_def)
    then have "c \<in> set (bindings d1)" "binding_pair c = binding_pair b"
      using b by (simp_all only: binding_pair_def)
    moreover have "inj_on binding_pair (set (bindings d1))"
      using uniq by (simp only: bindings_unique_def distinct_map)
    ultimately have "c = b" using b by (blast dest: inj_onD)
    with Some show ?thesis by simp
  qed
  moreover obtain a c where "require_agent i d = Inr a" "get_active_document k d = Inr (Some c)"
    using assms(1) by (cases rule: bind_document_cases)
  ultimately show ?thesis
    using r same by (simp add: bind_document_unfold require_agent_def get_agent_def get_active_document_def)
qed

section \<open>What a context holds\<close>

lemma context_documents_bound:
  assumes "s \<in> set (kc_documents (build_agent_runtime_knowledge_context (Some i) d))"
  shows "\<exists>b k. b \<in> set (bindings d) \<and> kb_agent_profile_id b = i
           \<and> get_document_row (kb_knowledge_document_id b) d = Some k \<and> kd_is_active k \<and> s = snippet_of k"
proof -
  obtain b k where "b \<in> set (bindings d)" "kb_agent_profile_id b = i"
      "get_document_row (kb_knowledge_document_id b) d = Some k" "kd_is_active k" "s = snippet_of k"
    using assms
    by (auto simp: build_agent_runtime_knowledge_context_def assemble_runtime_knowledge_context_def Let_def
        List.map_filter_def dest!: in_set_takeD)
  then show ?thesis by blast
qed

lemma context_documents_bounded:
  "length (kc_documents (build_agent_runtime_knowledge_context i d)) \<le> 8"
  by (auto simp: build_agent_runtime_knowledge_context_def assemble_runtime_knowledge_context_def Let_def
      snippet_limit_def split: option.splits)

end
