(* ===== verification/AgentProfiles.thy ===== *)
theory AgentProfiles
  imports Inbound Knowledge
begin

text \<open>
  Agent profiles: \<open>AgentProfileService\<close> of \<open>app/services/agent_profile_service.py\<close> with the
  assembly of the system prompt, and \<open>AgentSettingsService\<close> of
  \<open>app/services/agent_settings_service.py\<close>, which binds an agent to a telephony line and to
  knowledge documents. An update body is a record of fields that are absent (\<open>None\<close>), null
  (\<open>Some None\<close>) or given, after the validators of its schema. The suggestion of a line for an
  unbound agent is not modelled (it compares a Cyrillic name).

  The lemmas show what a settings update may bind, that it changes one agent only and nothing when
  it fails, and that the voice fields of a profile always agree.
\<close>

section \<open>The system prompt\<close>

definition prompt_sections :: "agent_profile \<Rightarrow> (string \<times> string option) list" where
  "prompt_sections a =
     [(''System Prompt'', Some (g_system_prompt a)), (''Tone Rules'', g_tone_rules a),
      (''Business Rules'', g_business_rules a), (''Sales Objectives'', g_sales_objectives a),
      (''Transfer Rules'', g_transfer_rules a), (''Prohibited Promises'', g_prohibited_promises a)]"

definition or_empty :: "string option \<Rightarrow> string" where
  "or_empty x = (case x of None \<Rightarrow> [] | Some s \<Rightarrow> s)"

fun join_with :: "string \<Rightarrow> string list \<Rightarrow> string" where
  "join_with sep [] = []"
| "join_with sep [x] = x"
| "join_with sep (x # y # xs) = x @ sep @ join_with sep (y # xs)"

definition prompt_blocks :: "(string \<times> string option) list \<Rightarrow> string list" where
  "prompt_blocks sections =
     map (\<lambda>(title, v). title @ '':'' @ ''\<newline>'' @ strip (or_empty v))
       (filter (\<lambda>(title, v). strip (or_empty v) \<noteq> []) sections)"

definition assemble_agent_system_prompt :: "agent_profile \<Rightarrow> string" where
  "assemble_agent_system_prompt a =
     strip (join_with [CHR 0x0A, CHR 0x0A] (prompt_blocks (prompt_sections a)))"

text \<open>A value of the company profile that is a text with something in it.\<close>

definition company_line :: "(string \<times> json) list \<Rightarrow> string \<times> string \<Rightarrow> string option" where
  "company_line company = (\<lambda>(label, key).
     (case map_of company key of
        Some (JStr v) \<Rightarrow> if strip v = [] then None else Some (''- '' @ label @ '': '' @ strip v)
      | _ \<Rightarrow> None))"

definition company_labels :: "(string \<times> string) list" where
  "company_labels =
     [(''Company Name'', ''name''), (''Value Proposition'', ''value_proposition''),
      (''Target Audience'', ''target_audience''), (''Contact Info'', ''contact_info''),
      (''Compliance Notes'', ''compliance_notes'')]"

definition snippet_text :: "knowledge_snippet \<Rightarrow> string" where
  "snippet_text s =
     ''- ['' @ ks_category s @ ''] '' @ ks_title s @ '':'' @ [CHR 0x0A] @ strip (ks_content s)"

definition assemble_runtime_knowledge_prompt :: "knowledge_context option \<Rightarrow> string" where
  "assemble_runtime_knowledge_prompt ctx =
     (case ctx of
        None \<Rightarrow> []
      | Some k \<Rightarrow>
          (let company = List.map_filter (company_line (given (kc_company_profile k) [])) company_labels;
               blocks = (if company = [] then []
                         else [''Company Context:'' @ [CHR 0x0A] @ join_with [CHR 0x0A] company])
                      @ (if kc_documents k = [] then []
                         else [''Knowledge Context:'' @ [CHR 0x0A]
                               @ join_with [CHR 0x0A, CHR 0x0A] (map snippet_text (kc_documents k))])
           in strip (join_with [CHR 0x0A, CHR 0x0A] blocks)))"

record agent_runtime =
  ar_agent_id :: "uuid option"
  ar_name :: string
  ar_system_prompt :: string
  ar_greeting_text :: "string option"
  ar_voice_strategy :: "string option"
  ar_voice_provider :: "string option"
  ar_telephony_provider :: "string option"
  ar_telephony_line_id :: "uuid option"
  ar_telephony_extension :: "string option"
  ar_config :: "(string \<times> json) list"
  ar_version :: "int option"
  ar_company_profile :: "(string \<times> json) list option"
  ar_knowledge_context :: "knowledge_context option"

definition build_agent_runtime_configuration ::
    "agent_profile option \<Rightarrow> knowledge_context option \<Rightarrow> agent_runtime" where
  "build_agent_runtime_configuration agent ctx =
     (let knowledge = assemble_runtime_knowledge_prompt ctx;
          company = Option.bind ctx kc_company_profile
      in case agent of
           None \<Rightarrow>
             \<lparr>ar_agent_id = None, ar_name = ''default_settings'', ar_system_prompt = knowledge,
              ar_greeting_text = None, ar_voice_strategy = None, ar_voice_provider = None,
              ar_telephony_provider = None, ar_telephony_line_id = None,
              ar_telephony_extension = None, ar_config = [], ar_version = None,
              ar_company_profile = company, ar_knowledge_context = ctx\<rparr>
         | Some a \<Rightarrow>
             \<lparr>ar_agent_id = Some (g_id a), ar_name = g_name a,
              ar_system_prompt =
                strip (join_with [CHR 0x0A, CHR 0x0A]
                  (filter (\<lambda>part. part \<noteq> []) [assemble_agent_system_prompt a, knowledge])),
              ar_greeting_text = clean_optional_text (g_greeting_text a),
              ar_voice_strategy = clean_optional_text (Some (g_voice_strategy a)),
              ar_voice_provider = clean_optional_text (Some (g_voice_provider a)),
              ar_telephony_provider = clean_optional_text (g_telephony_provider a),
              ar_telephony_line_id = g_telephony_line_id a,
              ar_telephony_extension = clean_optional_text (g_telephony_extension a),
              ar_config = given (g_config a) [], ar_version = Some (g_version a),
              ar_company_profile = company, ar_knowledge_context = ctx\<rparr>)"

section \<open>AgentProfileService\<close>

definition save_agent :: "agent_profile \<Rightarrow> db \<Rightarrow> db" where
  "save_agent a d = d\<lparr>agents := upsert g_id a (agents d)\<rparr>"

definition voice_provider_from_strategy :: "string \<Rightarrow> string" where
  "voice_provider_from_strategy strategy =
     (if strip strategy = ''gemini_primary'' then ''gemini'' else ''elevenlabs'')"

definition get_profile :: "uuid \<Rightarrow> db \<Rightarrow> (app_error, agent_profile) result" where
  "get_profile i d = (case get_agent i d of None \<Rightarrow> Inl NotFoundError | Some a \<Rightarrow> Inr a)"

definition get_active_profile :: "uuid \<Rightarrow> db \<Rightarrow> (app_error, agent_profile) result" where
  "get_active_profile i d =
     (case get_agent i d of
        None \<Rightarrow> Inl NotFoundError
      | Some a \<Rightarrow> if g_is_active a then Inr a else Inl NotFoundError)"

definition resolve_runtime_profile :: "uuid option \<Rightarrow> db \<Rightarrow> (app_error, agent_profile option) result" where
  "resolve_runtime_profile i d =
     (case i of None \<Rightarrow> Inr None | Some j \<Rightarrow> map_sum id Some (get_active_profile j d))"

record profile_fields =
  pf_name :: "string option"
  pf_is_active :: "bool option"
  pf_system_prompt :: "string option"
  pf_tone_rules :: "string option"
  pf_business_rules :: "string option"
  pf_sales_objectives :: "string option"
  pf_greeting_text :: "string option"
  pf_transfer_rules :: "string option"
  pf_prohibited_promises :: "string option"
  pf_voice_strategy :: "string option"
  pf_config :: "(string \<times> json) list option"

text \<open>The constructor's columns that the service does not set are null.\<close>

definition create_profile ::
    "uuid \<Rightarrow> time \<Rightarrow> string \<Rightarrow> bool \<Rightarrow> string \<Rightarrow> string \<Rightarrow> profile_fields \<Rightarrow> db \<Rightarrow> agent_profile \<times> db" where
  "create_profile new_id now name active system_prompt voice_strategy f d =
     (let a = \<lparr>g_id = new_id, g_created_at = now, g_name = strip name, g_is_active = active,
               g_system_prompt = strip system_prompt,
               g_tone_rules = clean_optional_text (pf_tone_rules f),
               g_business_rules = clean_optional_text (pf_business_rules f),
               g_sales_objectives = clean_optional_text (pf_sales_objectives f),
               g_greeting_text = clean_optional_text (pf_greeting_text f),
               g_transfer_rules = clean_optional_text (pf_transfer_rules f),
               g_prohibited_promises = clean_optional_text (pf_prohibited_promises f),
               g_voice_strategy = strip voice_strategy,
               g_voice_provider = voice_provider_from_strategy voice_strategy,
               g_telephony_provider = None, g_telephony_line_id = None, g_telephony_extension = None,
               g_config = Some (given (pf_config f) []), g_version = 1\<rparr>
      in (a, save_agent a d))"

definition update_profile ::
    "uuid \<Rightarrow> profile_fields \<Rightarrow> db \<Rightarrow> (app_error, agent_profile) result \<times> db" where
  "update_profile i f d =
     (case get_profile i d of
        Inl e \<Rightarrow> (Inl e, d)
      | Inr p \<Rightarrow>
          (let p1 = p\<lparr>g_name := (case pf_name f of None \<Rightarrow> g_name p | Some n \<Rightarrow> strip n),
                      g_is_active := given (pf_is_active f) (g_is_active p),
                      g_system_prompt := (case pf_system_prompt f of None \<Rightarrow> g_system_prompt p | Some x \<Rightarrow> strip x),
                      g_tone_rules := given_text (pf_tone_rules f) (g_tone_rules p),
                      g_business_rules := given_text (pf_business_rules f) (g_business_rules p),
                      g_sales_objectives := given_text (pf_sales_objectives f) (g_sales_objectives p),
                      g_greeting_text := given_text (pf_greeting_text f) (g_greeting_text p),
                      g_transfer_rules := given_text (pf_transfer_rules f) (g_transfer_rules p),
                      g_prohibited_promises := given_text (pf_prohibited_promises f) (g_prohibited_promises p)\<rparr>;
               p2 = (case pf_voice_strategy f of
                       None \<Rightarrow> p1
                     | Some v \<Rightarrow> p1\<lparr>g_voice_strategy := strip v,
                                    g_voice_provider := voice_provider_from_strategy v\<rparr>);
               p3 = (case pf_config f of None \<Rightarrow> p2 | Some c \<Rightarrow> p2\<lparr>g_config := Some c\<rparr>);
               p4 = p3\<lparr>g_version := g_version p + 1\<rparr>
           in (Inr p4, save_agent p4 d)))"

definition soft_delete_profile :: "uuid \<Rightarrow> db \<Rightarrow> (app_error, agent_profile) result \<times> db" where
  "soft_delete_profile i d =
     (case get_profile i d of
        Inl e \<Rightarrow> (Inl e, d)
      | Inr p \<Rightarrow>
          if \<not> g_is_active p then (Inr p, d)
          else (let p' = p\<lparr>g_is_active := False, g_version := g_version p + 1\<rparr>
                in (Inr p', save_agent p' d)))"

section \<open>AgentSettingsService\<close>

record settings_update =
  su_name :: "string option option"
  su_is_active :: "bool option option"
  su_system_prompt :: "string option option"
  su_tone_rules :: "string option option"
  su_business_rules :: "string option option"
  su_sales_objectives :: "string option option"
  su_greeting_text :: "string option option"
  su_transfer_rules :: "string option option"
  su_prohibited_promises :: "string option option"
  su_voice_provider :: "string option option"
  su_telephony_provider :: "string option option"
  su_telephony_line_id :: "uuid option option"
  su_telephony_remote_line_id :: "string option option"
  su_telephony_extension :: "string option option"
  su_user_settings :: "(string \<times> json) list option option"
  su_knowledge_document_ids :: "uuid list option option"

text \<open>The validators of the body: the length checks see the text as sent, then it is cleaned.\<close>

definition too_short :: "string option option \<Rightarrow> bool" where
  "too_short f \<longleftrightarrow> f = Some (Some [])"

definition clean_field :: "string option option \<Rightarrow> string option option" where
  "clean_field f = map_option clean_optional_text f"

definition validate_settings_body :: "settings_update \<Rightarrow> (app_error, settings_update) result" where
  "validate_settings_body b =
     (let c = b\<lparr>su_name := clean_field (su_name b), su_system_prompt := clean_field (su_system_prompt b),
                su_tone_rules := clean_field (su_tone_rules b),
                su_business_rules := clean_field (su_business_rules b),
                su_sales_objectives := clean_field (su_sales_objectives b),
                su_greeting_text := clean_field (su_greeting_text b),
                su_transfer_rules := clean_field (su_transfer_rules b),
                su_prohibited_promises := clean_field (su_prohibited_promises b),
                su_telephony_provider := clean_field (su_telephony_provider b),
                su_telephony_remote_line_id := clean_field (su_telephony_remote_line_id b),
                su_telephony_extension := clean_field (su_telephony_extension b),
                su_voice_provider := clean_field (su_voice_provider b)\<rparr>
      in if too_short (su_name b) \<or> too_short (su_system_prompt b)
            \<or> (case su_name b of Some (Some n) \<Rightarrow> 200 < length n | _ \<Rightarrow> False)
            \<or> su_telephony_provider c \<notin> {None, Some None, Some (Some ''mango'')}
            \<or> su_voice_provider c \<notin> {None, Some None, Some (Some ''elevenlabs''), Some (Some ''gemini'')}
         then Inl (OtherError ''request_validation'')
         else Inr c)"

text \<open>The value of a field in the body: the default \<open>None\<close> when it is absent.\<close>

definition field_value :: "'a option option \<Rightarrow> 'a option" where
  "field_value f = (case f of None \<Rightarrow> None | Some v \<Rightarrow> v)"

record settings_snapshot =
  sn_agent :: agent_profile
  sn_telephony_line :: "telephony_line option"
  sn_knowledge_document_ids :: "uuid list"

definition get_settings :: "uuid \<Rightarrow> db \<Rightarrow> (app_error, settings_snapshot) result" where
  "get_settings i d =
     (case get_with_related i d of
        None \<Rightarrow> Inl NotFoundError
      | Some (agent, line) \<Rightarrow>
          Inr \<lparr>sn_agent = agent, sn_telephony_line = line,
               sn_knowledge_document_ids = map kb_knowledge_document_id (list_for_agent i d)\<rparr>)"

definition strategy_from_voice_provider :: "string \<Rightarrow> (app_error, string) result" where
  "strategy_from_voice_provider voice_provider =
     (let cleaned = lower (strip voice_provider) in
      if cleaned = ''gemini'' then Inr ''gemini_primary''
      else if cleaned = ''elevenlabs'' then Inr ''tts_primary''
      else Inl (OtherError ''invalid_voice_provider''))"

definition apply_texts :: "settings_update \<Rightarrow> agent_profile \<Rightarrow> agent_profile" where
  "apply_texts b a =
     a\<lparr>g_name := given (field_value (su_name b)) (g_name a),
       g_is_active := given (field_value (su_is_active b)) (g_is_active a),
       g_system_prompt := given (field_value (su_system_prompt b)) (g_system_prompt a),
       g_tone_rules := given (su_tone_rules b) (g_tone_rules a),
       g_business_rules := given (su_business_rules b) (g_business_rules a),
       g_sales_objectives := given (su_sales_objectives b) (g_sales_objectives a),
       g_greeting_text := given (su_greeting_text b) (g_greeting_text a),
       g_transfer_rules := given (su_transfer_rules b) (g_transfer_rules a),
       g_prohibited_promises := given (su_prohibited_promises b) (g_prohibited_promises a),
       g_config := (case su_user_settings b of None \<Rightarrow> g_config a | Some v \<Rightarrow> Some (given v []))\<rparr>"

definition apply_voice :: "settings_update \<Rightarrow> agent_profile \<Rightarrow> (app_error, agent_profile) result" where
  "apply_voice b a =
     (case su_voice_provider b of
        None \<Rightarrow> Inr a
      | Some None \<Rightarrow> Inl (OtherError ''invalid_voice_provider'')
      | Some (Some v) \<Rightarrow>
          map_sum id (\<lambda>s. a\<lparr>g_voice_provider := v, g_voice_strategy := s\<rparr>) (strategy_from_voice_provider v))"

text \<open>The line that an update asks for.\<close>

definition requested_line :: "settings_update \<Rightarrow> db \<Rightarrow> (app_error, telephony_line option) result" where
  "requested_line b d =
     (if truthy (field_value (su_telephony_remote_line_id b))
      then get_by_provider_resource
             (the (py_or (field_value (su_telephony_provider b)) (Some ''mango'')))
             (the (field_value (su_telephony_remote_line_id b))) d
      else (case field_value (su_telephony_line_id b) of
              None \<Rightarrow> Inr None | Some i \<Rightarrow> Inr (get_line i d)))"

text \<open>The guards on that line, in the order of the code.\<close>

definition check_line :: "settings \<Rightarrow> telephony_line option \<Rightarrow> (app_error, telephony_line) result" where
  "check_line cfg line =
     (case line of
        None \<Rightarrow> Inl NotFoundError
      | Some l \<Rightarrow>
          if l_provider l \<noteq> ''mango'' then Inl NotFoundError
          else if \<not> allowed_line_number cfg (l_phone_number l) then Inl NotFoundError
          else if \<not> l_is_active l then Inl (OtherError ''telephony_line_inactive'')
          else if is_protected l then Inl (OtherError ''telephony_line_protected'')
          else Inr l)"

definition bind_line :: "settings_update \<Rightarrow> telephony_line \<Rightarrow> agent_profile \<Rightarrow> agent_profile" where
  "bind_line b l a =
     a\<lparr>g_telephony_provider := py_or (field_value (su_telephony_provider b)) (Some (l_provider l)),
       g_telephony_line_id := Some (l_id l),
       g_telephony_extension :=
         (case su_telephony_extension b of
            Some ext \<Rightarrow> ext
          | None \<Rightarrow> if truthy (g_telephony_extension a) then g_telephony_extension a else l_extension l)\<rparr>"

definition apply_telephony_update ::
    "settings \<Rightarrow> settings_update \<Rightarrow> agent_profile \<Rightarrow> db \<Rightarrow> (app_error, agent_profile) result" where
  "apply_telephony_update cfg b a d =
     (let has_provider = su_telephony_provider b \<noteq> None;
          has_line = su_telephony_line_id b \<noteq> None;
          has_remote = su_telephony_remote_line_id b \<noteq> None;
          has_ext = su_telephony_extension b \<noteq> None
      in if \<not> (has_provider \<or> has_line \<or> has_remote \<or> has_ext) then Inr a
         else if has_provider \<and> field_value (su_telephony_provider b) = None \<and> \<not> has_line \<and> \<not> has_remote
         then Inr (a\<lparr>g_telephony_provider := None, g_telephony_line_id := None, g_telephony_extension := None\<rparr>)
         else if has_line \<or> has_remote
         then (if field_value (su_telephony_remote_line_id b) = None \<and> field_value (su_telephony_line_id b) = None
               then Inr (a\<lparr>g_telephony_provider := field_value (su_telephony_provider b),
                           g_telephony_line_id := None,
                           g_telephony_extension := field_value (su_telephony_extension b)\<rparr>)
               else (case requested_line b d of
                       Inl e \<Rightarrow> Inl e
                     | Inr line \<Rightarrow> map_sum id (\<lambda>l. bind_line b l a) (check_line cfg line)))
         else Inr (a\<lparr>g_telephony_provider := given (su_telephony_provider b) (g_telephony_provider a),
                     g_telephony_extension := given (su_telephony_extension b) (g_telephony_extension a)\<rparr>))"

text \<open>\<open>list(dict.fromkeys(\<dots>))\<close>: the first occurrences, in order.\<close>

fun unique_ids :: "uuid list \<Rightarrow> uuid list" where
  "unique_ids [] = []"
| "unique_ids (x # xs) = x # filter (\<lambda>y. y \<noteq> x) (unique_ids xs)"

record settings_env =
  sv_now :: time
  sv_binding_id :: "uuid \<Rightarrow> uuid"

definition new_binding :: "settings_env \<Rightarrow> uuid \<Rightarrow> uuid \<Rightarrow> knowledge_binding" where
  "new_binding env agent_id i =
     \<lparr>kb_id = sv_binding_id env i, kb_created_at = sv_now env, kb_agent_profile_id = agent_id,
      kb_knowledge_document_id = i, kb_role = None\<rparr>"

definition replace_knowledge_bindings ::
    "settings_env \<Rightarrow> uuid \<Rightarrow> uuid list \<Rightarrow> db \<Rightarrow> (app_error, unit) result \<times> db" where
  "replace_knowledge_bindings env agent_id ids d =
     (let wanted = unique_ids ids;
          found = map kd_id (get_many_active wanted d)
      in if filter (\<lambda>i. i \<notin> set found) wanted \<noteq> [] then (Inl NotFoundError, d)
         else (let existing = list_for_agent agent_id d;
                   known = map kb_knowledge_document_id existing;
                   d1 = fold (\<lambda>b d. if kb_knowledge_document_id b \<in> set wanted then d else delete_binding b d)
                          existing d;
                   d2 = fold (\<lambda>i d. if i \<in> set known then d else save_binding (new_binding env agent_id i) d)
                          wanted d1
               in (Inr (), d2)))"

text \<open>The documents of the body, when it names them.\<close>

definition new_bindings :: "settings_env \<Rightarrow> settings_update \<Rightarrow> uuid \<Rightarrow> db \<Rightarrow> (app_error, unit) result \<times> db" where
  "new_bindings env b i d =
     (case su_knowledge_document_ids b of
        None \<Rightarrow> (Inr (), d)
      | Some ids \<Rightarrow> replace_knowledge_bindings env i (given ids []) d)"

definition update_settings ::
    "settings \<Rightarrow> settings_env \<Rightarrow> uuid \<Rightarrow> settings_update \<Rightarrow> db
     \<Rightarrow> (app_error, settings_snapshot) result \<times> db" where
  "update_settings cfg env i b d =
     (case get_settings i d of
        Inl e \<Rightarrow> (Inl e, d)
      | Inr snapshot \<Rightarrow>
          (case apply_voice b (apply_texts b (sn_agent snapshot)) of
             Inl e \<Rightarrow> (Inl e, d)
           | Inr a1 \<Rightarrow>
               (case apply_telephony_update cfg b a1 d of
                  Inl e \<Rightarrow> (Inl e, d)
                | Inr a2 \<Rightarrow>
                    (case new_bindings env b (g_id a2) d of
                       (Inl e, _) \<Rightarrow> (Inl e, d)
                     | (Inr _, d1) \<Rightarrow>
                         (let d2 = save_agent (a2\<lparr>g_version := g_version a2 + 1\<rparr>) d1
                          in (get_settings i d2, d2))))))"

section \<open>The line of an update\<close>

definition line_stored :: "db \<Rightarrow> agent_profile \<Rightarrow> bool" where
  "line_stored d a \<longleftrightarrow> (case g_telephony_line_id a of None \<Rightarrow> True | Some i \<Rightarrow> get_line i d \<noteq> None)"

lemma requested_line_stored:
  assumes "requested_line b d = Inr (Some l)"
  shows "l \<in> set (lines_tbl d)"
proof (cases "truthy (field_value (su_telephony_remote_line_id b))")
  case True
  with assms show ?thesis
    by (auto simp: requested_line_def get_by_provider_resource_def dest: one_or_none_Some)
next
  case False
  with assms show ?thesis
    by (auto simp: requested_line_def get_line_def dest: find_row_in split: option.splits)
qed

lemma check_line_Inr:
  "check_line cfg line = Inr l \<longleftrightarrow>
     line = Some l \<and> l_provider l = ''mango'' \<and> allowed_line_number cfg (l_phone_number l)
     \<and> l_is_active l \<and> \<not> is_protected l"
  by (auto simp: check_line_def split: option.splits)

text \<open>What the telephony part of an update does to the line of the agent.\<close>

definition bindable :: "settings \<Rightarrow> db \<Rightarrow> telephony_line \<Rightarrow> bool" where
  "bindable cfg d l \<longleftrightarrow> l \<in> set (lines_tbl d) \<and> l_provider l = ''mango''
     \<and> allowed_line_number cfg (l_phone_number l) \<and> l_is_active l \<and> \<not> is_protected l"

lemma apply_telephony_update_line:
  assumes "apply_telephony_update cfg b a d = Inr a'"
  shows "g_telephony_line_id a' = g_telephony_line_id a \<or> g_telephony_line_id a' = None
         \<or> (\<exists>l. bindable cfg d l \<and> g_telephony_line_id a' = Some (l_id l))"
proof (cases "requested_line b d")
  case (Inl e)
  with assms show ?thesis by (auto simp: apply_telephony_update_def Let_def split: if_splits)
next
  case (Inr line)
  show ?thesis
  proof (cases "check_line cfg line")
    case (Inl e)
    with Inr assms show ?thesis by (auto simp: apply_telephony_update_def Let_def split: if_splits)
  next
    case (Inr l)
    then have "bindable cfg d l"
      using requested_line_stored [of b d l] \<open>requested_line b d = Inr line\<close>
      by (auto simp: check_line_Inr bindable_def)
    with Inr \<open>requested_line b d = Inr line\<close> assms show ?thesis
      by (auto simp: apply_telephony_update_def bind_line_def Let_def split: if_splits)
  qed
qed

lemma apply_telephony_update_keeps:
  assumes "apply_telephony_update cfg b a d = Inr a'"
  shows "g_id a' = g_id a \<and> g_version a' = g_version a \<and> g_voice_provider a' = g_voice_provider a
         \<and> g_voice_strategy a' = g_voice_strategy a"
proof (cases "requested_line b d")
  case (Inl e)
  with assms show ?thesis by (auto simp: apply_telephony_update_def Let_def split: if_splits)
next
  case (Inr line)
  with assms show ?thesis
    by (cases "check_line cfg line")
       (auto simp: apply_telephony_update_def bind_line_def Let_def split: if_splits)
qed

section \<open>The bindings of an update\<close>

lemma set_unique_ids [simp]: "set (unique_ids xs) = set xs"
  by (induction xs) auto

lemma distinct_unique_ids [simp]: "distinct (unique_ids xs)"
  by (induction xs) auto

lemma unique_ids_empty [simp]: "unique_ids xs = [] \<longleftrightarrow> xs = []"
  by (cases xs) auto

lemma set_get_many_active: "set (get_many_active ids d) = {k \<in> set (documents d). kd_id k \<in> set ids \<and> kd_is_active k}"
  by (auto simp: get_many_active_def)

lemma fold_delete_bindings:
  "fold (\<lambda>b d. if P b then d else delete_binding b d) bs d =
     d\<lparr>bindings := filter (\<lambda>x. kb_id x \<notin> kb_id ` set (filter (\<lambda>b. \<not> P b) bs)) (bindings d)\<rparr>"
  by (induction bs arbitrary: d) (auto simp: delete_binding_def intro!: filter_cong)

lemma fold_save_bindings:
  assumes "distinct (map (\<lambda>i. kb_id (f i)) is)" "\<forall>i\<in>set is. kb_id (f i) \<notin> kb_id ` set (bindings d)"
  shows "fold (\<lambda>i d. if P i then d else save_binding (f i) d) is d =
           d\<lparr>bindings := bindings d @ map f (filter (\<lambda>i. \<not> P i) is)\<rparr>"
  using assms
proof (induction "is" arbitrary: d)
  case (Cons i rest)
  show ?case
  proof (cases "P i")
    case False
    let ?d = "d\<lparr>bindings := bindings d @ [f i]\<rparr>"
    have "save_binding (f i) d = ?d"
      using Cons.prems by (simp add: save_binding_def upsert_fresh find_row_None)
    moreover have "distinct (map (\<lambda>i. kb_id (f i)) rest)"
      using Cons.prems by simp
    moreover have "\<forall>j\<in>set rest. kb_id (f j) \<notin> kb_id ` set (bindings ?d)"
      using Cons.prems by (auto simp: image_iff)
    ultimately show ?thesis using Cons.IH [of ?d] False by simp
  qed (use Cons in auto)
qed simp

definition fresh_binding_ids :: "settings_env \<Rightarrow> uuid list \<Rightarrow> db \<Rightarrow> bool" where
  "fresh_binding_ids env ids d \<longleftrightarrow> distinct (map (sv_binding_id env) (unique_ids ids))
     \<and> sv_binding_id env ` set ids \<inter> kb_id ` set (bindings d) = {}"

text \<open>The bindings after a successful replacement.\<close>

definition replaced_bindings :: "settings_env \<Rightarrow> uuid \<Rightarrow> uuid list \<Rightarrow> knowledge_binding list \<Rightarrow> knowledge_binding list" where
  "replaced_bindings env i ids bs =
     filter (\<lambda>b. kb_agent_profile_id b \<noteq> i \<or> kb_knowledge_document_id b \<in> set ids) bs
     @ map (new_binding env i) (filter (\<lambda>k. (i, k) \<notin> binding_pair ` set bs) (unique_ids ids))"

lemma replace_knowledge_bindings_result:
  assumes "bindings_unique d" "fresh_binding_ids env ids d"
  shows "replace_knowledge_bindings env i ids d =
    (if \<forall>k\<in>set ids. \<exists>x\<in>set (documents d). kd_id x = k \<and> kd_is_active x
     then (Inr (), d\<lparr>bindings := replaced_bindings env i ids (bindings d)\<rparr>)
     else (Inl NotFoundError, d))"
proof -
  let ?w = "unique_ids ids" and ?ex = "list_for_agent i d"
  let ?known = "map kb_knowledge_document_id ?ex"
  have found: "filter (\<lambda>k. k \<notin> set (map kd_id (get_many_active ?w d))) ?w \<noteq> []
      \<longleftrightarrow> \<not> (\<forall>k\<in>set ids. \<exists>x\<in>set (documents d). kd_id x = k \<and> kd_is_active x)"
  proof -
    have "(k \<in> set (map kd_id (get_many_active ?w d)))
        = (\<exists>x\<in>set (documents d). kd_id x = k \<and> kd_is_active x)" if "k \<in> set ids" for k
      using that by (auto simp: set_get_many_active)
    then show ?thesis unfolding filter_empty_conv set_unique_ids by blast
  qed
  have inj: "inj_on kb_id (set (bindings d))"
    using assms(1) by (simp add: bindings_unique_def distinct_map)
  have del: "fold (\<lambda>b d. if kb_knowledge_document_id b \<in> set ?w then d else delete_binding b d) ?ex d =
     d\<lparr>bindings := filter (\<lambda>b. kb_agent_profile_id b \<noteq> i \<or> kb_knowledge_document_id b \<in> set ids) (bindings d)\<rparr>"
  proof -
    have "(kb_id x \<notin> kb_id ` set (filter (\<lambda>b. kb_knowledge_document_id b \<notin> set ?w) ?ex))
        = (kb_agent_profile_id x \<noteq> i \<or> kb_knowledge_document_id x \<in> set ids)"
      if "x \<in> set (bindings d)" for x
      using that inj by (auto dest: inj_onD)
    then have "filter (\<lambda>x. kb_id x \<notin> kb_id ` set (filter (\<lambda>b. kb_knowledge_document_id b \<notin> set ?w) ?ex)) (bindings d)
        = filter (\<lambda>b. kb_agent_profile_id b \<noteq> i \<or> kb_knowledge_document_id b \<in> set ids) (bindings d)"
      by (rule filter_cong [OF refl])
    then show ?thesis unfolding fold_delete_bindings by (simp only:)
  qed
  let ?d1 = "d\<lparr>bindings := filter (\<lambda>b. kb_agent_profile_id b \<noteq> i \<or> kb_knowledge_document_id b \<in> set ids) (bindings d)\<rparr>"
  have known: "(k \<notin> set ?known) = ((i, k) \<notin> binding_pair ` set (bindings d))" for k
    by (auto simp: binding_pair_def)
  have sav: "fold (\<lambda>k d. if k \<in> set ?known then d else save_binding (new_binding env i k) d) ?w ?d1 =
     ?d1\<lparr>bindings := bindings ?d1 @ map (new_binding env i) (filter (\<lambda>k. k \<notin> set ?known) ?w)\<rparr>"
    by (rule fold_save_bindings) (use assms(2) in \<open>auto simp: fresh_binding_ids_def new_binding_def\<close>)
  show ?thesis
    unfolding replace_knowledge_bindings_def Let_def found del sav known
    by (simp add: replaced_bindings_def)
qed

lemma replaced_bindings_unique:
  assumes "bindings_unique d" "fresh_binding_ids env ids d"
  shows "bindings_unique (d\<lparr>bindings := replaced_bindings env i ids (bindings d)\<rparr>)"
proof -
  let ?new = "filter (\<lambda>k. (i, k) \<notin> binding_pair ` set (bindings d)) (unique_ids ids)"
  have ids: "map (kb_id \<circ> new_binding env i) xs = map (sv_binding_id env) xs" for xs
    by (simp add: new_binding_def)
  have pairs: "map (binding_pair \<circ> new_binding env i) xs = map (Pair i) xs" for xs
    by (simp add: new_binding_def binding_pair_def)
  have "distinct (map (sv_binding_id env) ?new)"
    using assms(2) by (simp add: fresh_binding_ids_def distinct_map_filter)
  moreover have "sv_binding_id env ` set ?new \<inter> kb_id ` set (bindings d) = {}"
    using assms(2) by (auto simp: fresh_binding_ids_def)
  moreover have "distinct (map (Pair i) ?new)"
    by (simp add: distinct_map inj_on_def)
  ultimately show ?thesis
    using assms(1)
    by (auto simp: bindings_unique_def replaced_bindings_def ids pairs distinct_map_filter)
qed

section \<open>A settings update\<close>

lemma apply_texts_keeps:
  "g_id (apply_texts b a) = g_id a" "g_version (apply_texts b a) = g_version a"
  "g_telephony_line_id (apply_texts b a) = g_telephony_line_id a"
  "g_voice_provider (apply_texts b a) = g_voice_provider a"
  "g_voice_strategy (apply_texts b a) = g_voice_strategy a"
  by (simp_all add: apply_texts_def)

lemma apply_voice_keeps:
  assumes "apply_voice b a = Inr a'"
  shows "g_id a' = g_id a" "g_version a' = g_version a" "g_telephony_line_id a' = g_telephony_line_id a"
proof -
  have "g_id a' = g_id a \<and> g_version a' = g_version a \<and> g_telephony_line_id a' = g_telephony_line_id a"
  proof (cases "su_voice_provider b")
    case (Some p)
    with assms show ?thesis
      by (cases p; cases "strategy_from_voice_provider (the p)") (auto simp: apply_voice_def)
  qed (use assms in \<open>simp add: apply_voice_def\<close>)
  then show "g_id a' = g_id a" "g_version a' = g_version a" "g_telephony_line_id a' = g_telephony_line_id a"
    by simp_all
qed

lemma update_settings_cases:
  assumes "update_settings cfg env i b d = (r, d')"
  obtains (error) e where "r = Inl e" "d' = d"
    | (ok) a a1 a2 d1 where "get_agent i d = Some a" "apply_voice b (apply_texts b a) = Inr a1"
      "apply_telephony_update cfg b a1 d = Inr a2" "new_bindings env b i d = (Inr (), d1)"
      "d' = save_agent (a2\<lparr>g_version := g_version a2 + 1\<rparr>) d1" "r = get_settings i d'"
proof (cases "get_agent i d")
  case None
  with assms show ?thesis by (intro error [of NotFoundError]) (auto simp: update_settings_def get_settings_def get_with_related_def)
next
  case (Some a)
  then have gs: "\<exists>s. get_settings i d = Inr s \<and> sn_agent s = a"
    by (simp add: get_settings_def get_with_related_def)
  then obtain s where s: "get_settings i d = Inr s" "sn_agent s = a" by blast
  show ?thesis
  proof (cases "apply_voice b (apply_texts b a)")
    case (Inl e)
    with assms s show ?thesis by (intro error [of e]) (auto simp: update_settings_def)
  next
    case (Inr a1)
    note v = Inr
    show ?thesis
    proof (cases "apply_telephony_update cfg b a1 d")
      case (Inl e)
      with assms s v show ?thesis by (intro error [of e]) (auto simp: update_settings_def)
    next
      case (Inr a2)
      have id2: "g_id a2 = i"
        using apply_telephony_update_keeps [OF Inr] apply_voice_keeps [OF v] apply_texts_keeps [of b a]
          find_row_key [OF Some [unfolded get_agent_def]] by simp
      obtain r1 d1 where nb: "new_bindings env b i d = (r1, d1)" by (cases "new_bindings env b i d")
      have eq: "update_settings cfg env i b d =
          (case r1 of Inl e \<Rightarrow> (Inl e, d)
           | Inr _ \<Rightarrow> (let d2 = save_agent (a2\<lparr>g_version := g_version a2 + 1\<rparr>) d1 in (get_settings i d2, d2)))"
        using s v Inr nb id2
        by (simp add: update_settings_def)
      show ?thesis
      proof (cases r1)
        case (Inl e)
        with assms eq show ?thesis by (intro error [of e]) auto
      next
        case r1: (Inr u)
        with assms eq Some v Inr nb show ?thesis by (intro ok [of a a1 a2 d1]) (auto simp: Let_def)
      qed
    qed
  qed
qed

lemma new_binding_simps [simp]:
  "kb_agent_profile_id (new_binding env i k) = i" "kb_knowledge_document_id (new_binding env i k) = k"
  by (simp_all add: new_binding_def)

lemma replaced_bindings_documents:
  "kb_knowledge_document_id ` {b \<in> set (replaced_bindings env i ids bs). kb_agent_profile_id b = i} = set ids"
proof (intro set_eqI iffI)
  fix k
  assume "k \<in> set ids"
  then show "k \<in> kb_knowledge_document_id ` {b \<in> set (replaced_bindings env i ids bs). kb_agent_profile_id b = i}"
  proof (cases "(i, k) \<in> binding_pair ` set bs")
    case True
    then obtain b where "b \<in> set bs" "kb_agent_profile_id b = i" "kb_knowledge_document_id b = k"
      by (auto simp: binding_pair_def)
    with \<open>k \<in> set ids\<close> show ?thesis by (auto simp: replaced_bindings_def)
  next
    case False
    with \<open>k \<in> set ids\<close> have "new_binding env i k \<in> set (replaced_bindings env i ids bs)"
      by (simp add: replaced_bindings_def)
    then show ?thesis by (force intro: rev_image_eqI)
  qed
next
  fix k
  assume "k \<in> kb_knowledge_document_id ` {b \<in> set (replaced_bindings env i ids bs). kb_agent_profile_id b = i}"
  then obtain b where b: "b \<in> set (replaced_bindings env i ids bs)" "kb_agent_profile_id b = i"
    "k = kb_knowledge_document_id b" by blast
  then have "kb_knowledge_document_id b \<in> set ids \<or> (\<exists>j\<in>set ids. b = new_binding env i j)"
    unfolding replaced_bindings_def by (simp add: image_iff) blast
  with b(3) show "k \<in> set ids" by auto
qed

lemma new_bindings_result:
  assumes "new_bindings env b i d = (Inr (), d1)" "bindings_unique d"
    and "\<forall>ids. su_knowledge_document_ids b = Some ids \<longrightarrow> fresh_binding_ids env (given ids []) d"
  shows "(\<exists>bs. d1 = d\<lparr>bindings := bs\<rparr>
           \<and> filter (\<lambda>x. kb_agent_profile_id x \<noteq> i) bs = filter (\<lambda>x. kb_agent_profile_id x \<noteq> i) (bindings d))
         \<and> bindings_unique d1
         \<and> (case su_knowledge_document_ids b of
              None \<Rightarrow> d1 = d
            | Some ids \<Rightarrow>
                kb_knowledge_document_id ` set (list_for_agent i d1) = set (given ids [])
                \<and> (\<forall>k\<in>set (given ids []). \<exists>x\<in>set (documents d). kd_id x = k \<and> kd_is_active x))"
proof (cases "su_knowledge_document_ids b")
  case None
  have "d1 = d\<lparr>bindings := bindings d\<rparr>" "d1 = d"
    using None assms(1) by (simp_all add: new_bindings_def)
  then show ?thesis using None assms(2) by (auto intro: exI [of _ "bindings d"])
next
  case (Some ids)
  let ?ids = "given ids []" and ?bs = "replaced_bindings env i (given ids []) (bindings d)"
  have fresh: "fresh_binding_ids env ?ids d" using Some assms(3) by simp
  have ok: "\<forall>k\<in>set ?ids. \<exists>x\<in>set (documents d). kd_id x = k \<and> kd_is_active x"
    and d1: "d1 = d\<lparr>bindings := ?bs\<rparr>"
    using assms(1) Some replace_knowledge_bindings_result [OF assms(2) fresh, of i]
    by (simp_all add: new_bindings_def split: if_splits)
  have "filter (\<lambda>x. kb_agent_profile_id x \<noteq> i) ?bs = filter (\<lambda>x. kb_agent_profile_id x \<noteq> i) (bindings d)"
    by (auto simp: replaced_bindings_def filter_empty_conv new_binding_def intro!: filter_cong)
  moreover have "kb_knowledge_document_id ` set (list_for_agent i d1) = set ?ids"
    unfolding d1 by (simp add: replaced_bindings_documents)
  ultimately show ?thesis
    using Some ok d1 replaced_bindings_unique [OF assms(2) fresh, of i] by auto
qed

text \<open>
  C29. A settings update that fails leaves the database as it was. One that succeeds stores the
  agent with the next version and touches no other agent; a line it binds is a stored, active,
  unprotected Mango line that the phone-number policy allows (otherwise the agent keeps its line or
  loses it); the documents bound to the agent are afterwards exactly those the body names, each an
  active document, while the bindings of the other agents are kept.
\<close>

theorem settings_update_safe:
  assumes "update_settings cfg env i b d = (r, d')" and "bindings_unique d"
    and "\<forall>ids. su_knowledge_document_ids b = Some ids \<longrightarrow> fresh_binding_ids env (given ids []) d"
  shows "case r of
      Inl e \<Rightarrow> d' = d
    | Inr s \<Rightarrow> \<exists>a. get_agent i d = Some a \<and> get_agent i d' = Some (sn_agent s)
        \<and> g_version (sn_agent s) = g_version a + 1
        \<and> agents d' = upsert g_id (sn_agent s) (agents d)
        \<and> (g_telephony_line_id (sn_agent s) = g_telephony_line_id a \<or> g_telephony_line_id (sn_agent s) = None
           \<or> (\<exists>l. bindable cfg d l \<and> g_telephony_line_id (sn_agent s) = Some (l_id l)))
        \<and> (case su_knowledge_document_ids b of
              None \<Rightarrow> bindings d' = bindings d
            | Some ids \<Rightarrow> set (sn_knowledge_document_ids s) = set (given ids [])
                \<and> (\<forall>k\<in>set (given ids []). \<exists>x\<in>set (documents d). kd_id x = k \<and> kd_is_active x))
        \<and> filter (\<lambda>x. kb_agent_profile_id x \<noteq> i) (bindings d')
             = filter (\<lambda>x. kb_agent_profile_id x \<noteq> i) (bindings d)"
  using assms(1)
proof (cases rule: update_settings_cases)
  case (ok a a1 a2 d1)
  let ?a = "a2\<lparr>g_version := g_version a2 + 1\<rparr>"
  note keep = apply_telephony_update_keeps [OF ok(3)] apply_voice_keeps [OF ok(2)] apply_texts_keeps [of b a]
  have id: "g_id a2 = i"
    using keep find_row_key [OF ok(1) [unfolded get_agent_def]] by simp
  note bs = new_bindings_result [OF ok(4) assms(2,3)]
  then have same: "agents d1 = agents d" "documents d1 = documents d" by auto
  have stored: "get_agent i d' = Some ?a" and others: "agents d' = upsert g_id ?a (agents d)"
    and bd: "bindings d' = bindings d1"
    using ok(5) id same by (simp_all add: save_agent_def get_agent_def)
  then obtain s where s: "r = Inr s" "sn_agent s = ?a"
      "sn_knowledge_document_ids s = map kb_knowledge_document_id (list_for_agent i d')"
    using ok(6) by (auto simp: get_settings_def get_with_related_def)
  have line: "g_telephony_line_id a2 = g_telephony_line_id a \<or> g_telephony_line_id a2 = None
      \<or> (\<exists>l. bindable cfg d l \<and> g_telephony_line_id a2 = Some (l_id l))"
    using apply_telephony_update_line [OF ok(3)] keep by simp
  have lf: "list_for_agent i d' = list_for_agent i d1" by (simp add: list_for_agent_def bd)
  show ?thesis
    using bs stored others line keep ok(1) s by (auto simp: bd lf split: option.splits)
qed simp

definition empty_update :: settings_update where
  "empty_update = \<lparr>su_name = None, su_is_active = None, su_system_prompt = None, su_tone_rules = None,
     su_business_rules = None, su_sales_objectives = None, su_greeting_text = None,
     su_transfer_rules = None, su_prohibited_promises = None, su_voice_provider = None,
     su_telephony_provider = None, su_telephony_line_id = None, su_telephony_remote_line_id = None,
     su_telephony_extension = None, su_user_settings = None, su_knowledge_document_ids = None\<rparr>"

definition demo_update :: settings_update where
  "demo_update = empty_update\<lparr>su_telephony_line_id := Some (Some 1), su_voice_provider := Some (Some ''elevenlabs''),
     su_knowledge_document_ids := Some (Some [7, 7])\<rparr>"

definition demo_config_db :: db where
  "demo_config_db = empty_db\<lparr>lines_tbl := [demo_line],
     agents := [demo_agent 3 20, (demo_agent 2 10)\<lparr>g_telephony_line_id := None\<rparr>],
     documents := [\<lparr>kd_id = 7, kd_updated_at = 0, kd_title = ''Price'', kd_category = ''pricing'',
                    kd_content = ''100'', kd_is_active = True, kd_notes = None, kd_metadata = None\<rparr>],
     bindings := [\<lparr>kb_id = 50, kb_created_at = 0, kb_agent_profile_id = 2, kb_knowledge_document_id = 8,
                   kb_role = None\<rparr>]\<rparr>"

definition demo_settings_env :: settings_env where
  "demo_settings_env = \<lparr>sv_now = 5, sv_binding_id = (\<lambda>i. i + 100)\<rparr>"

lemma demo_config_unique: "bindings_unique demo_config_db"
  by (simp add: bindings_unique_def demo_config_db_def)

lemma demo_fresh:
  "\<forall>ids. su_knowledge_document_ids demo_update = Some ids
      \<longrightarrow> fresh_binding_ids demo_settings_env (given ids []) demo_config_db"
  by (simp add: demo_update_def fresh_binding_ids_def given_def demo_settings_env_def demo_config_db_def)

lemma demo_update_outcome:
  "case update_settings default_settings demo_settings_env 2 demo_update demo_config_db of
     (Inl e, d') \<Rightarrow> False
   | (Inr s, d') \<Rightarrow> g_telephony_line_id (sn_agent s) = Some 1 \<and> g_voice_strategy (sn_agent s) = ''tts_primary''"
  by code_simp

theorem settings_update_safe_witness:
  "\<exists>s d'. update_settings default_settings demo_settings_env 2 demo_update demo_config_db = (Inr s, d')
     \<and> g_telephony_line_id (sn_agent s) = Some 1 \<and> set (sn_knowledge_document_ids s) = {7}
     \<and> g_version (sn_agent s) = 2"
proof -
  obtain r d' where run: "update_settings default_settings demo_settings_env 2 demo_update demo_config_db = (r, d')"
    by (rule prod.exhaust)
  then obtain s where s: "r = Inr s" "g_telephony_line_id (sn_agent s) = Some 1"
    using demo_update_outcome by (cases r) auto
  have "get_agent 2 demo_config_db = Some ((demo_agent 2 10)\<lparr>g_telephony_line_id := None\<rparr>)"
    by (simp add: get_agent_def demo_config_db_def demo_agent_def)
  then show ?thesis
    using settings_update_safe [OF run demo_config_unique demo_fresh] run s
    by (auto simp: demo_update_def given_def demo_agent_def)
qed

section \<open>The configuration stays consistent\<close>

definition voice_agrees :: "agent_profile \<Rightarrow> bool" where
  "voice_agrees a \<longleftrightarrow> g_voice_provider a = voice_provider_from_strategy (g_voice_strategy a)"

definition config_ok :: "db \<Rightarrow> bool" where
  "config_ok d \<longleftrightarrow> (\<forall>a\<in>set (agents d). voice_agrees a \<and> line_stored d a) \<and> bindings_unique d"

text \<open>
  The requests of the administration API that write profiles, settings and knowledge. A step is a whole request, so
  a run of steps is a history in which no two requests overlap.
\<close>

inductive admin_step :: "settings \<Rightarrow> db \<Rightarrow> db \<Rightarrow> bool" for cfg :: settings where
  create: "admin_step cfg d (snd (create_profile i now name active prompt strategy f d))"
| update: "admin_step cfg d (snd (update_profile i f d))"
| delete: "admin_step cfg d (snd (soft_delete_profile i d))"
| settings: "validate_settings_body raw = Inr b
    \<Longrightarrow> \<forall>ids. su_knowledge_document_ids b = Some ids \<longrightarrow> fresh_binding_ids env (given ids []) d
    \<Longrightarrow> admin_step cfg d (snd (update_settings cfg env i b d))"
| bind: "new_id \<notin> kb_id ` set (bindings d) \<Longrightarrow> admin_step cfg d (snd (bind_document new_id now i k role d))"
| unbind: "admin_step cfg d (snd (unbind_document i k d))"
| new_document: "admin_step cfg d (snd (create_document k now title category content active notes meta d))"
| edit_document: "admin_step cfg d (snd (update_document now k df d))"
| drop_document: "admin_step cfg d (snd (soft_delete_document now k d))"
| company: "admin_step cfg d (snd (upsert_company_profile k now cf d))"

lemma voice_provider_strip [simp]: "voice_provider_from_strategy (strip s) = voice_provider_from_strategy s"
  by (simp add: voice_provider_from_strategy_def)

lemma line_stored_cong: "lines_tbl d' = lines_tbl d \<Longrightarrow> line_stored d' a = line_stored d a"
  by (simp add: line_stored_def get_line_def split: option.splits)

lemma config_ok_save:
  assumes "config_ok d" "voice_agrees a" "line_stored d a"
  shows "config_ok (save_agent a d)"
proof -
  have "line_stored (save_agent a d) x = line_stored d x" for x
    by (rule line_stored_cong) (simp add: save_agent_def)
  with assms show ?thesis
    by (auto simp: config_ok_def bindings_unique_def save_agent_def dest!: in_upsert)
qed

lemma config_ok_frame:
  "config_ok d \<Longrightarrow> agents d' = agents d \<Longrightarrow> lines_tbl d' = lines_tbl d \<Longrightarrow> bindings_unique d' \<Longrightarrow> config_ok d'"
  using line_stored_cong [of d' d] by (simp add: config_ok_def)

lemma line_stored_no_line: "g_telephony_line_id a = None \<Longrightarrow> line_stored d a"
  by (simp add: line_stored_def)

lemma line_stored_same_line:
  "g_telephony_line_id a = g_telephony_line_id b \<Longrightarrow> line_stored d a = line_stored d b"
  by (simp add: line_stored_def)

lemma bindable_stored: "bindable cfg d l \<Longrightarrow> g_telephony_line_id a = Some (l_id l) \<Longrightarrow> line_stored d a"
  by (auto simp: bindable_def line_stored_def get_line_def find_row_None)

lemma config_ok_agent: "config_ok d \<Longrightarrow> get_agent i d = Some a \<Longrightarrow> voice_agrees a \<and> line_stored d a"
  by (auto simp: config_ok_def get_agent_def dest: find_row_in)

lemma create_profile_ok:
  "config_ok d \<Longrightarrow> config_ok (snd (create_profile i now name active prompt strategy f d))"
  by (auto simp: create_profile_def Let_def voice_agrees_def intro!: config_ok_save line_stored_no_line)

lemma update_profile_ok:
  assumes "config_ok d"
  shows "config_ok (snd (update_profile i f d))"
proof (cases "get_agent i d")
  case (Some a)
  show ?thesis
    using config_ok_agent [OF assms Some] Some assms
    by (cases "pf_voice_strategy f"; cases "pf_config f")
       (auto simp: update_profile_def get_profile_def Let_def voice_agrees_def line_stored_def
         intro!: config_ok_save)
qed (use assms in \<open>simp add: update_profile_def get_profile_def\<close>)

lemma soft_delete_profile_ok:
  assumes "config_ok d"
  shows "config_ok (snd (soft_delete_profile i d))"
proof (cases "get_agent i d")
  case (Some a)
  show ?thesis
    using config_ok_agent [OF assms Some] Some assms
    by (auto simp: soft_delete_profile_def get_profile_def Let_def voice_agrees_def line_stored_def
         intro!: config_ok_save)
qed (use assms in \<open>simp add: soft_delete_profile_def get_profile_def\<close>)

lemma validated_voice_provider:
  assumes "validate_settings_body raw = Inr b"
  shows "su_voice_provider b \<in> {None, Some None, Some (Some ''elevenlabs''), Some (Some ''gemini'')}"
  using assms by (auto simp: validate_settings_body_def Let_def split: if_splits)

lemma apply_voice_agrees:
  assumes "apply_voice b a = Inr a'" "voice_agrees a"
    and "su_voice_provider b \<in> {None, Some None, Some (Some ''elevenlabs''), Some (Some ''gemini'')}"
  shows "voice_agrees a'"
proof -
  have "strategy_from_voice_provider ''elevenlabs'' = Inr ''tts_primary''"
    "strategy_from_voice_provider ''gemini'' = Inr ''gemini_primary''"
    "voice_provider_from_strategy ''tts_primary'' = ''elevenlabs''"
    "voice_provider_from_strategy ''gemini_primary'' = ''gemini''"
    by code_simp+
  with assms show ?thesis by (auto simp: apply_voice_def voice_agrees_def)
qed

lemma update_settings_ok:
  assumes "config_ok d" "validate_settings_body raw = Inr b"
    and "\<forall>ids. su_knowledge_document_ids b = Some ids \<longrightarrow> fresh_binding_ids env (given ids []) d"
  shows "config_ok (snd (update_settings cfg env i b d))"
proof (cases "update_settings cfg env i b d")
  case (Pair r d')
  have uniq: "bindings_unique d" using assms(1) by (simp add: config_ok_def)
  from Pair show ?thesis
  proof (cases rule: update_settings_cases)
    case (ok a a1 a2 d1)
    note keep = apply_telephony_update_keeps [OF ok(3)]
    note a = config_ok_agent [OF assms(1) ok(1)]
    have "voice_agrees (apply_texts b a)" using a by (simp add: voice_agrees_def apply_texts_keeps)
    then have "voice_agrees a1"
      by (rule apply_voice_agrees [OF ok(2) _ validated_voice_provider [OF assms(2)]])
    then have agrees: "voice_agrees (a2\<lparr>g_version := g_version a2 + 1\<rparr>)"
      using keep by (simp add: voice_agrees_def)
    have "line_stored d a1"
      using a line_stored_same_line [of a1 a d] apply_voice_keeps [OF ok(2)] apply_texts_keeps [of b a] by simp
    then have "line_stored d a2"
      using apply_telephony_update_line [OF ok(3)] line_stored_same_line [of a2 a1 d]
        line_stored_no_line [of a2 d] bindable_stored [of cfg d _ a2] by blast
    then have line: "line_stored d (a2\<lparr>g_version := g_version a2 + 1\<rparr>)"
      using line_stored_same_line [of "a2\<lparr>g_version := g_version a2 + 1\<rparr>" a2 d] by simp
    have d1: "agents d1 = agents d" "lines_tbl d1 = lines_tbl d" "bindings_unique d1"
      using new_bindings_result [OF ok(4) uniq assms(3)] by auto
    have "config_ok d1" by (rule config_ok_frame [OF assms(1) d1])
    then have "config_ok d'"
      using agrees line line_stored_cong [OF d1(2)] ok(5) config_ok_save by simp
    with Pair show ?thesis by simp
  qed (use assms Pair in simp)
qed

lemma config_ok_same:
  "config_ok d \<Longrightarrow> agents d' = agents d \<Longrightarrow> lines_tbl d' = lines_tbl d \<Longrightarrow> bindings d' = bindings d
    \<Longrightarrow> config_ok d'"
  by (rule config_ok_frame) (simp_all add: config_ok_def bindings_unique_def)

lemma document_ops_ok:
  assumes "config_ok d"
  shows "config_ok (snd (create_document k now title category content active notes meta d))"
    and "config_ok (snd (update_document now k df d))"
    and "config_ok (snd (soft_delete_document now k d))"
    and "config_ok (snd (upsert_company_profile k now cf d))"
  by (rule config_ok_same [OF assms]; simp add: create_document_def update_document_def soft_delete_document_def
      upsert_company_profile_def save_document_def save_company_def Let_def split: sum.splits)+

lemma admin_step_ok:
  assumes "admin_step cfg d d'" "config_ok d"
  shows "config_ok d'"
  using assms
proof (cases rule: admin_step.cases)
  case (settings raw b env i)
  with assms(2) show ?thesis by (simp add: update_settings_ok)
next
  case (bind new_id now i k role)
  then have "bindings_unique d'"
    using assms(2) bind_document_unique [of d new_id now i k role] by (simp add: config_ok_def)
  moreover have "agents d' = agents d" "lines_tbl d' = lines_tbl d"
    using bind by (auto simp: bind_document_unfold save_binding_def Let_def split: sum.splits option.splits)
  ultimately show ?thesis using config_ok_frame [OF assms(2)] by simp
next
  case (unbind i k)
  then have "bindings_unique d'"
    using assms(2) unbind_document_unique [of d i k] by (simp add: config_ok_def)
  moreover have "agents d' = agents d" "lines_tbl d' = lines_tbl d"
    using unbind by (auto simp: unbind_document_def delete_binding_def split: sum.splits option.splits)
  ultimately show ?thesis using config_ok_frame [OF assms(2)] by simp
qed (simp_all add: create_profile_ok update_profile_ok soft_delete_profile_ok 
    document_ops_ok assms(2))

text \<open>
  C30. The administration API keeps the configuration consistent, whatever requests it serves in whatever order,
  as long as it serves them one at a time: from a consistent database every database it reaches has, for each
  agent, a voice provider that is the one of its voice strategy and a line that is stored, and never two
  bindings of one document to one agent, so that the query for an existing binding never finds two
  rows. (Requests that overlap can break this: \<open>concurrent_binds_collide\<close>.)
\<close>

theorem admin_keeps_config:
  assumes "(admin_step cfg)\<^sup>*\<^sup>* d d'" and "config_ok d"
  shows "config_ok d' \<and> (\<forall>i k. \<exists>r. find_existing i k d' = Inr r)"
proof -
  have "config_ok d'" using assms by (induction rule: rtranclp_induct) (auto intro: admin_step_ok)
  then show ?thesis using find_existing_total by (auto simp: config_ok_def)
qed

theorem admin_keeps_config_witness:
  "config_ok (snd (bind_document 51 6 2 7 None
     (snd (update_settings default_settings demo_settings_env 2 demo_update demo_config_db))))"
proof -
  let ?d1 = "snd (update_settings default_settings demo_settings_env 2 demo_update demo_config_db)"
  have valid: "validate_settings_body demo_update = Inr demo_update"
    by (simp add: validate_settings_body_def demo_update_def empty_update_def clean_field_def too_short_def
        clean_optional_text_def strip_no_spaces is_space_def)
  have "admin_step default_settings demo_config_db ?d1"
    by (rule admin_step.settings [OF valid demo_fresh])
  moreover have "51 \<notin> kb_id ` set (bindings ?d1)" by code_simp
  then have "admin_step default_settings ?d1 (snd (bind_document 51 6 2 7 None ?d1))"
    by (rule admin_step.bind)
  ultimately have run: "(admin_step default_settings)\<^sup>*\<^sup>* demo_config_db (snd (bind_document 51 6 2 7 None ?d1))"
    by (meson r_into_rtranclp rtranclp_trans)
  have "voice_agrees a \<and> line_stored demo_config_db a" if "a \<in> set (agents demo_config_db)" for a
    using that
    by (auto simp: demo_config_db_def demo_agent_def voice_agrees_def voice_provider_from_strategy_def
        line_stored_def get_line_def demo_line_def strip_no_spaces is_space_def)
  then have "config_ok demo_config_db" using demo_config_unique by (simp add: config_ok_def)
  then show ?thesis using admin_keeps_config [OF run] by blast
qed

end
