(* ===== verification/RtpCodec.thy ===== *)
theory RtpCodec
  imports PyText Calls "HOL-Library.Word"
begin

unbundle bit_operations_syntax

text \<open>
  The bytes of the media path: G.711 coding and RTP packets, the module functions of
  \<open>app/integrations/media_gateway/freeswitch.py\<close> from \<open>_parse_esl_event_body\<close> on. A byte is an \<open>8 word\<close>; the
  samples and the shifts of the code are on Python integers, so they are on \<open>int\<close> here. The linear
  resampling (floating point) is an argument of the functions that call it.

  The lemmas show that a built packet is parsed back, that every \<open>\<mu>\<close>-law code but one survives
  decoding and encoding, and how far an encoded sample can be from the original.
\<close>

type_synonym byte = "8 word"

definition byte_of :: "int \<Rightarrow> byte" where
  "byte_of n = word_of_int n"

section \<open>Samples\<close>

text \<open>\<open>int.from_bytes(\<dots>, byteorder="little", signed=True)\<close> on two bytes.\<close>

definition sample_of :: "byte \<Rightarrow> byte \<Rightarrow> int" where
  "sample_of lo hi =
     (let n = uint lo + 256 * uint hi in if 32768 \<le> n then n - 65536 else n)"

definition sample_bytes :: "int \<Rightarrow> byte list" where
  "sample_bytes s = [byte_of (s AND 0xFF), byte_of (drop_bit 8 s AND 0xFF)]"

definition ulaw_to_linear_sample :: "int \<Rightarrow> int" where
  "ulaw_to_linear_sample u_val =
     (let u = NOT u_val AND 0xFF;
          t = push_bit 3 (u AND 0x0F) + 0x84;
          t = push_bit (nat (drop_bit 4 (u AND 0x70))) t
      in if u AND 0x80 \<noteq> 0 then 0x84 - t else t - 0x84)"

definition alaw_to_linear_sample :: "int \<Rightarrow> int" where
  "alaw_to_linear_sample a_val =
     (let a = a_val XOR 0x55;
          t = push_bit 4 (a AND 0x0F);
          segment = drop_bit 4 (a AND 0x70);
          t = (if segment = 0 then t + 8
               else if segment = 1 then t + 0x108
               else push_bit (nat (segment - 1)) (t + 0x108))
      in if a AND 0x80 \<noteq> 0 then t else - t)"

text \<open>The search for the segment: the exponent counts down while the mask's bit is clear.\<close>

fun ulaw_exponent :: "nat \<Rightarrow> int \<Rightarrow> int \<Rightarrow> nat" where
  "ulaw_exponent 0 m sample = 0"
| "ulaw_exponent (Suc e) m sample =
     (if sample AND m \<noteq> 0 then Suc e else ulaw_exponent e (drop_bit 1 m) sample)"

definition linear_to_ulaw_sample :: "int \<Rightarrow> int" where
  "linear_to_ulaw_sample sample =
     (let sign = (if sample < 0 then 0x80 else 0);
          s = (if sample < 0 then - sample else sample);
          s = (if s > 32635 then 32635 else s) + 0x84;
          exponent = ulaw_exponent 7 0x4000 s;
          mantissa = drop_bit (exponent + 3) s AND 0x0F
      in NOT (sign OR push_bit 4 (int exponent) OR mantissa) AND 0xFF)"

definition ulaw_bytes_to_pcm16 :: "byte list \<Rightarrow> byte list" where
  "ulaw_bytes_to_pcm16 data = concat (map (\<lambda>b. sample_bytes (ulaw_to_linear_sample (uint b))) data)"

definition alaw_bytes_to_pcm16 :: "byte list \<Rightarrow> byte list" where
  "alaw_bytes_to_pcm16 data = concat (map (\<lambda>b. sample_bytes (alaw_to_linear_sample (uint b))) data)"

text \<open>A trailing odd byte is dropped.\<close>

fun pcm16_to_ulaw_bytes :: "byte list \<Rightarrow> byte list" where
  "pcm16_to_ulaw_bytes (lo # hi # rest) =
     byte_of (linear_to_ulaw_sample (sample_of lo hi)) # pcm16_to_ulaw_bytes rest"
| "pcm16_to_ulaw_bytes _ = []"

section \<open>Codecs\<close>

text \<open>
  \<open>_resample_pcm16\<close>: the two exits of the code, the \<open>ValueError\<close> of \<open>array.frombytes\<close> for half a sample, and,
  as a parameter, what the floating-point loop does with the other inputs.
\<close>

type_synonym resampler = "byte list \<Rightarrow> int \<Rightarrow> int \<Rightarrow> byte list"

definition half_sample :: app_error where
  "half_sample = OtherError ''ValueError: bytes length not a multiple of item size''"

definition resample_pcm16 :: "resampler \<Rightarrow> byte list \<Rightarrow> int \<Rightarrow> int \<Rightarrow> (app_error, byte list) result" where
  "resample_pcm16 rs data from_rate to_rate =
     (if from_rate = to_rate \<or> data = [] then Inr data
      else if odd (length data) then Inl half_sample
      else Inr (rs data from_rate to_rate))"

definition codec_name :: "string \<Rightarrow> string" where
  "codec_name c = strip (lower (if c = [] then ''pcm16'' else c))"

definition decode_inbound_audio ::
    "resampler \<Rightarrow> byte list \<Rightarrow> string \<Rightarrow> int option \<Rightarrow> int \<Rightarrow> (app_error, byte list) result" where
  "decode_inbound_audio rs payload inbound_codec payload_type sample_rate_hz =
     (let codec = codec_name inbound_codec;
          decoded = (if codec = ''pcmu'' \<or> payload_type = Some 0 then ulaw_bytes_to_pcm16 payload
                     else if codec = ''pcma'' \<or> payload_type = Some 8 then alaw_bytes_to_pcm16 payload
                     else payload)
      in if sample_rate_hz \<noteq> 0 \<and> sample_rate_hz \<noteq> 16000
         then resample_pcm16 rs decoded sample_rate_hz 16000 else Inr decoded)"

definition encode_outbound_audio ::
    "resampler \<Rightarrow> byte list \<Rightarrow> string \<Rightarrow> int \<Rightarrow> (app_error, byte list) result" where
  "encode_outbound_audio rs pcm outbound_codec sample_rate_hz =
     (let codec = codec_name outbound_codec in
      case (if sample_rate_hz \<noteq> 0 \<and> sample_rate_hz \<noteq> 16000
            then resample_pcm16 rs pcm 16000 sample_rate_hz else Inr pcm) of
        Inl e \<Rightarrow> Inl e
      | Inr network_pcm \<Rightarrow> Inr (if codec = ''pcmu'' then pcm16_to_ulaw_bytes network_pcm else network_pcm))"

text \<open>Encoding fails for half a sample at a rate other than the network's, and only there.\<close>

definition half_sample_at :: "int \<Rightarrow> byte list \<Rightarrow> bool" where
  "half_sample_at rate pcm \<longleftrightarrow> rate \<noteq> 0 \<and> rate \<noteq> 16000 \<and> odd (length pcm)"

lemma encode_outbound_cases:
  "if half_sample_at rate pcm then encode_outbound_audio rs pcm codec rate = Inl half_sample
   else \<exists>encoded. encode_outbound_audio rs pcm codec rate = Inr encoded"
  by (auto simp: encode_outbound_audio_def resample_pcm16_def half_sample_at_def Let_def)

lemma encode_outbound_even: "even (length pcm) \<Longrightarrow> \<not> half_sample_at rate pcm"
  by (simp add: half_sample_at_def)

section \<open>RTP packets\<close>

text \<open>\<open>struct.pack\<close> in network order; a value that does not fit raises \<open>struct.error\<close>.\<close>

fun be_bytes :: "nat \<Rightarrow> int \<Rightarrow> byte list" where
  "be_bytes 0 n = []"
| "be_bytes (Suc k) n = be_bytes k (n div 256) @ [byte_of n]"

definition pack_be :: "nat \<Rightarrow> int \<Rightarrow> byte list option" where
  "pack_be k n = (if 0 \<le> n \<and> n < 256 ^ k then Some (be_bytes k n) else None)"

definition build_rtp_packet :: "byte list \<Rightarrow> int \<Rightarrow> int \<Rightarrow> int \<Rightarrow> int \<Rightarrow> byte list option" where
  "build_rtp_packet pcm payload_type seq ts ssrc =
     (case (pack_be 1 0x80, pack_be 1 (payload_type AND 0x7F), pack_be 2 seq, pack_be 4 ts, pack_be 4 ssrc) of
        (Some b0, Some b1, Some s, Some t, Some r) \<Rightarrow> Some (b0 @ b1 @ s @ t @ r @ pcm)
      | _ \<Rightarrow> None)"

definition rtp_version :: "byte list \<Rightarrow> int" where
  "rtp_version packet = drop_bit 6 (uint (hd packet))"

definition rtp_header_len :: "byte list \<Rightarrow> nat" where
  "rtp_header_len packet = 12 + nat (uint (hd packet) AND 0x0F) * 4"

definition extract_rtp_payload :: "byte list \<Rightarrow> byte list" where
  "extract_rtp_payload packet =
     (if length packet \<le> 12 then []
      else if rtp_version packet \<noteq> 2 then []
      else if length packet \<le> rtp_header_len packet then []
      else drop (rtp_header_len packet) packet)"

definition looks_like_rtp_packet :: "byte list \<Rightarrow> bool" where
  "looks_like_rtp_packet packet =
     (if length packet \<le> 12 then False
      else if rtp_version packet \<noteq> 2 then False
      else if length packet \<le> rtp_header_len packet then False
      else uint (packet ! 1) AND 0x7F \<in> {0, 8, 96, 97, 98, 99, 100, 101, 102, 103, 104, 105})"

definition extract_rtp_payload_type :: "byte list \<Rightarrow> int option" where
  "extract_rtp_payload_type packet =
     (if length packet < 2 then None
      else if rtp_version packet \<noteq> 2 then None
      else Some (uint (packet ! 1) AND 0x7F))"

section \<open>Event frames\<close>

text \<open>
  \<open>str.splitlines\<close> on the Latin-1 line ends: LF, VT, FF, CR (alone or before LF), the separators
  28 to 30 and NEL.
\<close>

definition line_end :: "char \<Rightarrow> bool" where
  "line_end c \<longleftrightarrow> of_char c \<in> ({10, 11, 12, 13, 28, 29, 30, 133} :: nat set)"

fun split_lines :: "string \<Rightarrow> string \<Rightarrow> string list" where
  "split_lines acc [] = (if acc = [] then [] else [rev acc])"
| "split_lines acc (c # cs) =
     (if line_end c
      then rev acc # split_lines [] (if c = CHR 0x0D \<and> cs \<noteq> [] \<and> hd cs = CHR 0x0A then tl cs else cs)
      else split_lines (c # acc) cs)"

text \<open>\<open>raw.split(":", 1)\<close> on a line with a colon, both parts stripped.\<close>

definition header_of :: "string \<Rightarrow> (string \<times> string) option" where
  "header_of line =
     (if CHR '':'' \<notin> set line then None
      else Some (strip (takeWhile (\<lambda>c. c \<noteq> CHR '':'') line),
                 strip (tl (dropWhile (\<lambda>c. c \<noteq> CHR '':'') line))))"

definition add_header :: "string \<Rightarrow> (string \<rightharpoonup> string) \<Rightarrow> (string \<rightharpoonup> string)" where
  "add_header line m = (case header_of line of None \<Rightarrow> m | Some (k, v) \<Rightarrow> m(k \<mapsto> v))"

definition parse_esl_event_body :: "string \<Rightarrow> (string \<rightharpoonup> string)" where
  "parse_esl_event_body body = fold add_header (split_lines [] body) Map.empty"

section \<open>Packets are parsed back\<close>

text \<open>The number that bytes in network order stand for.\<close>

definition be_val :: "byte list \<Rightarrow> int" where
  "be_val bs = foldl (\<lambda>a b. 256 * a + uint b) 0 bs"

lemma uint_byte_of: "uint (byte_of n) = n mod 256"
  by (simp add: byte_of_def uint_word_of_int)

lemma length_be_bytes [simp]: "length (be_bytes k n) = k"
  by (induction k arbitrary: n) auto

lemma be_val_be_bytes: "0 \<le> n \<Longrightarrow> n < 256 ^ k \<Longrightarrow> be_val (be_bytes k n) = n"
proof (induction k arbitrary: n)
  case (Suc k)
  have "be_val (be_bytes k (n div 256)) = n div 256"
    by (rule Suc.IH) (use Suc.prems in \<open>auto simp: pos_imp_zdiv_nonneg_iff div_less_iff_less_mult mult.commute\<close>)
  then show ?case by (simp add: be_val_def uint_byte_of)
qed (simp add: be_val_def)

lemma pack_be_1: "pack_be (Suc 0) n = (if 0 \<le> n \<and> n < 256 then Some [byte_of n] else None)"
  by (simp add: pack_be_def)

lemma low_seven: "0 \<le> n AND (127 :: int) \<and> n AND 127 < 128" "n AND (127 :: int) = n mod 128"
proof -
  have "n AND (127 :: int) = take_bit 7 n" by (simp add: take_bit_eq_mask mask_eq_exp_minus_1)
  then show eq: "n AND (127 :: int) = n mod 128" by (simp add: take_bit_eq_mod)
  show "0 \<le> n AND (127 :: int) \<and> n AND 127 < 128" by (simp add: eq)
qed

lemma build_rtp_packet_eq:
  "build_rtp_packet pcm pt seq ts ssrc =
     (if 0 \<le> seq \<and> seq < 65536 \<and> 0 \<le> ts \<and> ts < 2 ^ 32 \<and> 0 \<le> ssrc \<and> ssrc < 2 ^ 32
      then Some ([byte_of 0x80, byte_of (pt AND 0x7F)] @ be_bytes 2 seq @ be_bytes 4 ts @ be_bytes 4 ssrc @ pcm)
      else None)"
proof -
  have "0 \<le> pt AND 127 \<and> pt AND 127 < (256 :: int)" using low_seven(1) [of pt] by linarith
  then show ?thesis by (simp add: build_rtp_packet_def pack_be_1 pack_be_def)
qed

lemma rtp_first_byte:
  "drop_bit 6 (uint (byte_of 128)) = 2" "uint (byte_of 128) AND 15 = 0" "uint (byte_of (pt AND 127)) = pt AND 127"
proof -
  have "0 \<le> pt AND 127 \<and> pt AND 127 < (256 :: int)" using low_seven(1) [of pt] by linarith
  then show "uint (byte_of (pt AND 127)) = pt AND 127" by (simp add: uint_byte_of)
qed (simp_all add: uint_byte_of)

text \<open>
  RTP packets are parsed back: for numbers in the range of their fields, \<open>_build_rtp_packet\<close> does not
  raise, and from the packet \<open>_extract_rtp_payload\<close> gives back the audio,
  \<open>_extract_rtp_payload_type\<close> the payload type, and the bytes of the header the sequence number, the timestamp and
  the source, each in its place.
\<close>

theorem rtp_roundtrip:
  assumes "pcm \<noteq> []" and "0 \<le> seq" "seq < 65536" and "0 \<le> ts" "ts < 2 ^ 32" and "0 \<le> ssrc" "ssrc < 2 ^ 32"
  shows "\<exists>packet. build_rtp_packet pcm pt seq ts ssrc = Some packet
     \<and> length packet = 12 + length pcm
     \<and> extract_rtp_payload packet = pcm
     \<and> extract_rtp_payload_type packet = Some (pt mod 128)
     \<and> be_val (take 2 (drop 2 packet)) = seq \<and> be_val (take 4 (drop 4 packet)) = ts
     \<and> be_val (take 4 (drop 8 packet)) = ssrc"
proof -
  let ?p = "[byte_of 0x80, byte_of (pt AND 0x7F)] @ be_bytes 2 seq @ be_bytes 4 ts @ be_bytes 4 ssrc @ pcm"
  have "build_rtp_packet pcm pt seq ts ssrc = Some ?p"
    using assms by (simp add: build_rtp_packet_eq)
  moreover have "length ?p = 12 + length pcm" by simp
  moreover have "extract_rtp_payload ?p = pcm"
    using assms(1) by (simp add: extract_rtp_payload_def rtp_version_def rtp_header_len_def rtp_first_byte)
  moreover have "extract_rtp_payload_type ?p = Some (pt mod 128)"
    by (simp add: extract_rtp_payload_type_def rtp_version_def rtp_first_byte) (simp add: low_seven(2))
  moreover have "be_val (take 2 (drop 2 ?p)) = seq" "be_val (take 4 (drop 4 ?p)) = ts" "be_val (take 4 (drop 8 ?p)) = ssrc"
    using be_val_be_bytes [of seq 2] be_val_be_bytes [of ts 4] be_val_be_bytes [of ssrc 4] assms by simp_all
  ultimately show ?thesis by blast
qed

theorem rtp_roundtrip_witness:
  "\<exists>packet. build_rtp_packet [1, 2, 3] 96 65535 (2 ^ 32 - 1) 7 = Some packet
     \<and> extract_rtp_payload packet = [1, 2, 3] \<and> be_val (take 2 (drop 2 packet)) = 65535"
  using rtp_roundtrip [where pcm = "[1, 2, 3]" and pt = 96 and seq = 65535 and ts = "2 ^ 32 - 1" and ssrc = 7]
  by auto

section \<open>The \<mu>-law coder\<close>

lemma ulaw_codes:
  "list_all (\<lambda>u. (u = 127 \<or> linear_to_ulaw_sample (ulaw_to_linear_sample u) = u)
      \<and> -32768 \<le> ulaw_to_linear_sample u \<and> ulaw_to_linear_sample u < 32768) (map int [0..<256])"
  by code_simp

lemma ulaw_decode_fields:
  assumes "e < 8" "m < 16" "sg \<in> {0, 0x80}"
  shows "ulaw_to_linear_sample (NOT (sg OR push_bit 4 (int e) OR int m) AND 0xFF) =
      (if sg = 0 then 1 else -1) * ((8 * int m + 132) * 2 ^ e - 132)"
proof -
  have "list_all (\<lambda>e. list_all (\<lambda>m. list_all (\<lambda>sg.
    ulaw_to_linear_sample (NOT (sg OR push_bit 4 (int e) OR int m) AND 0xFF) =
      (if sg = 0 then 1 else -1) * ((8 * int m + 132) * 2 ^ e - 132)) [0, 0x80]) [0..<16]) [0..<8]"
    by code_simp
  note all = this [unfolded list_all_iff, rule_format]
  show ?thesis by (rule all) (use assms in auto)
qed

text \<open>The countdown finds the highest bit.\<close>

lemma ulaw_exponent_bounds:
  assumes "128 \<le> m" "m < 2 ^ (k + 8)"
  shows "2 ^ (ulaw_exponent k (2 ^ (k + 7)) m + 7) \<le> m \<and> m < 2 ^ (ulaw_exponent k (2 ^ (k + 7)) m + 8)
         \<and> ulaw_exponent k (2 ^ (k + 7)) m \<le> k"
  using assms
proof (induction k)
  case (Suc k)
  have bit: "m AND 2 ^ (Suc k + 7) \<noteq> 0 \<longleftrightarrow> 2 ^ (Suc k + 7) \<le> m"
  proof -
    let ?p = "2 ^ (Suc k + 7) :: int"
    have "m < 2 * ?p" using Suc.prems(2) by (simp add: power_add)
    moreover have "0 \<le> m" using Suc.prems(1) by simp
    ultimately have "m div ?p = (if ?p \<le> m then 1 else 0)"
      by (auto simp: div_pos_pos_trivial intro!: int_div_pos_eq [where r = "m - ?p"])
    then have "odd (m div ?p) \<longleftrightarrow> ?p \<le> m" by simp
    then show ?thesis
      by (simp only: and_exp_eq_0_iff_not_bit bit_iff_odd not_not)
  qed
  show ?case
  proof (cases "2 ^ (Suc k + 7) \<le> m")
    case True
    with bit Suc.prems show ?thesis by simp
  next
    case False
    have shift: "drop_bit 1 (2 ^ (Suc k + 7) :: int) = 2 ^ (k + 7)"
      by (simp add: drop_bit_eq_div power_add)
    from False have "m < 2 ^ (k + 8)" by (simp add: add.commute)
    from Suc.IH [OF Suc.prems(1) this] False bit shift show ?thesis by simp
  qed
qed simp

lemma ulaw_magnitude_error:
  fixes m :: int
  assumes "128 \<le> m" "m < 32768"
  defines "e \<equiv> ulaw_exponent 7 0x4000 m"
  defines "q \<equiv> drop_bit (e + 3) m AND 0x0F"
  shows "e < 8 \<and> 0 \<le> q \<and> q < 16 \<and> 32 * \<bar>(8 * q + 132) * 2 ^ e - m\<bar> \<le> m
         \<and> \<bar>(8 * q + 132) * 2 ^ e - m\<bar> \<le> 512"
proof -
  let ?p = "2 ^ (e + 3) :: int"
  have b: "2 ^ (e + 7) \<le> m" "m < 2 ^ (e + 8)" "e < 8"
    using ulaw_exponent_bounds [of m 7] assms(1,2) by (simp_all add: e_def)
  have p: "0 < ?p" by simp
  have "m = ?p * (m div ?p) + m mod ?p" by simp
  moreover have "0 \<le> m mod ?p" "m mod ?p < ?p" by (simp_all add: p)
  moreover have "16 * ?p \<le> m" "m < 32 * ?p" using b by (simp_all add: power_add)
  ultimately have d: "16 \<le> m div ?p" "m div ?p < 32"
  proof -
    show "16 \<le> m div ?p"
    proof (rule ccontr)
      assume "\<not> ?thesis"
      then have "?p * (m div ?p) \<le> ?p * 15" by (intro mult_left_mono) simp_all
      with \<open>m = ?p * (m div ?p) + m mod ?p\<close> \<open>m mod ?p < ?p\<close> \<open>16 * ?p \<le> m\<close> show False by linarith
    qed
    show "m div ?p < 32"
    proof (rule ccontr)
      assume "\<not> ?thesis"
      then have "?p * 32 \<le> ?p * (m div ?p)" by (intro mult_left_mono) simp_all
      with \<open>m = ?p * (m div ?p) + m mod ?p\<close> \<open>0 \<le> m mod ?p\<close> \<open>m < 32 * ?p\<close> show False by linarith
    qed
  qed
  have "q = (m div ?p) mod 16"
    unfolding q_def using take_bit_eq_mask [of 4 "m div ?p"]
    by (simp add: drop_bit_eq_div take_bit_eq_mod mask_eq_exp_minus_1)
  moreover have "x mod 16 = x - 16" if "16 \<le> x" "x < 32" for x :: int
    using that by presburger
  ultimately have q: "q = m div ?p - 16" using d by simp
  have "(8 * q + 132) * 2 ^ e = ?p * (m div ?p) + 4 * 2 ^ e"
    unfolding q by (simp add: power_add algebra_simps)
  then have "(8 * q + 132) * 2 ^ e - m = 4 * 2 ^ e - m mod ?p"
    using \<open>m = ?p * (m div ?p) + m mod ?p\<close> by linarith
  moreover have "?p = 8 * 2 ^ e" by (simp add: power_add)
  moreover note \<open>0 \<le> m mod ?p\<close> \<open>m mod ?p < ?p\<close>
  ultimately have err: "\<bar>(8 * q + 132) * 2 ^ e - m\<bar> \<le> 4 * 2 ^ e" by linarith
  have "(2::int) ^ e \<le> 2 ^ 7" using b(3) by (intro power_increasing) simp_all
  moreover have "128 * 2 ^ e \<le> m" using b(1) by (simp add: power_add)
  moreover have "32 * x \<le> m \<and> x \<le> 512" if "x \<le> 4 * y" "128 * y \<le> m" "y \<le> 2 ^ 7" for x y :: int
    using that by simp
  ultimately have "32 * \<bar>(8 * q + 132) * 2 ^ e - m\<bar> \<le> m \<and> \<bar>(8 * q + 132) * 2 ^ e - m\<bar> \<le> 512"
    using err by blast
  with b(3) d q show ?thesis by simp
qed

lemma ulaw_code_shape:
  fixes s :: int
  obtains e q sg where "linear_to_ulaw_sample s = NOT (sg OR push_bit 4 (int e) OR int q) AND 0xFF"
    "e < 8" "q < 16" "sg = (if s < 0 then 0x80 else 0)"
    "32 * \<bar>(8 * int q + 132) * 2 ^ e - (min \<bar>s\<bar> 32635 + 132)\<bar> \<le> min \<bar>s\<bar> 32635 + 132"
    "\<bar>(8 * int q + 132) * 2 ^ e - (min \<bar>s\<bar> 32635 + 132)\<bar> \<le> 512"
proof -
  define m where "m = min \<bar>s\<bar> 32635 + 132"
  define e where "e = ulaw_exponent 7 0x4000 m"
  define q where "q = drop_bit (e + 3) m AND 0x0F"
  have m: "128 \<le> m" "m < 32768" by (simp_all add: m_def)
  note err = ulaw_magnitude_error [OF m, folded e_def, folded q_def]
  have "linear_to_ulaw_sample s = NOT ((if s < 0 then 0x80 else 0) OR push_bit 4 (int e) OR q) AND 0xFF"
    unfolding linear_to_ulaw_sample_def Let_def q_def e_def m_def by (simp add: min_def abs_if)
  moreover have "int (nat q) = q" using err by simp
  ultimately show ?thesis
    using err by (intro that [of "if s < 0 then 0x80 else 0" e "nat q"]) (simp_all only: m_def nat_less_iff, simp_all)
qed

lemma clip_distance:
  fixes x t :: int
  assumes "32635 < x" "x \<le> 32768" "\<bar>t - 32767\<bar> \<le> 512"
  shows "32 * \<bar>t - (x + 132)\<bar> \<le> x + 132"
proof -
  have "- 512 \<le> t - 32767 \<and> t - 32767 \<le> 512" using assms(3) by (simp only: abs_le_iff) simp
  then have "\<bar>t - (x + 132)\<bar> \<le> 645" using assms(1,2) by (simp add: abs_le_iff)
  with assms(1) show ?thesis by simp
qed

lemma ulaw_error:
  fixes s :: int
  assumes "\<bar>s\<bar> \<le> 32768"
  shows "32 * \<bar>ulaw_to_linear_sample (linear_to_ulaw_sample s) - s\<bar> \<le> \<bar>s\<bar> + 132"
proof -
  obtain e q sg where c: "linear_to_ulaw_sample s = NOT (sg OR push_bit 4 (int e) OR int q) AND 0xFF"
    "e < 8" "q < 16" "sg = (if s < 0 then 0x80 else 0)"
    "32 * \<bar>(8 * int q + 132) * 2 ^ e - (min \<bar>s\<bar> 32635 + 132)\<bar> \<le> min \<bar>s\<bar> 32635 + 132"
    "\<bar>(8 * int q + 132) * 2 ^ e - (min \<bar>s\<bar> 32635 + 132)\<bar> \<le> 512"
    by (rule ulaw_code_shape)
  define t where "t = (8 * int q + 132) * 2 ^ e"
  have "ulaw_to_linear_sample (linear_to_ulaw_sample s) = (if s < 0 then 132 - t else t - 132)"
    using ulaw_decode_fields [OF c(2,3), of sg] c(4) unfolding c(1) t_def by simp
  then have eq: "\<bar>ulaw_to_linear_sample (linear_to_ulaw_sample s) - s\<bar> = \<bar>t - (\<bar>s\<bar> + 132)\<bar>"
    by (simp add: abs_if)
  show ?thesis
  proof (cases "\<bar>s\<bar> \<le> 32635")
    case True
    with c(5) show ?thesis unfolding eq t_def [symmetric] by (simp add: min_absorb1)
  next
    case False
    then have "min \<bar>s\<bar> 32635 = 32635" by (intro min_absorb2) linarith
    with c(6) have "\<bar>t - 32767\<bar> \<le> 512" unfolding t_def [symmetric] by simp
    have "32635 < \<bar>s\<bar>" using False by simp
    from clip_distance [OF this assms \<open>\<bar>t - 32767\<bar> \<le> 512\<close>] show ?thesis unfolding eq .
  qed
qed

lemma low_byte: "n AND (255 :: int) = n mod 256"
proof -
  have "n AND (255 :: int) = take_bit 8 n" by (simp add: take_bit_eq_mask mask_eq_exp_minus_1)
  then show ?thesis by (simp add: take_bit_eq_mod)
qed

lemma sample_bytes_back:
  assumes "-32768 \<le> s" "s < 32768"
  shows "sample_of (byte_of (s AND 0xFF)) (byte_of (drop_bit 8 s AND 0xFF)) = s"
proof -
  have wrap: "(s div 256) mod 256 = (if s < 0 then s div 256 + 256 else s div 256)"
  proof -
    have "- 128 \<le> s div 256" using zdiv_mono1 [of "-32768" s 256] assms(1) by simp
    moreover have "s div 256 < 128" using zdiv_mono1 [of s 32767 256] assms(2) by simp
    moreover have "x mod 256 = (if x < 0 then x + 256 else x)" if "-128 \<le> x" "x < 128" for x :: int
    proof (cases "x < 0")
      case True
      have "(x + 256) mod 256 = x + 256" by (rule mod_pos_pos_trivial) (use True that in simp_all)
      with True show ?thesis by simp
    next
      case False
      with that show ?thesis by (simp add: mod_pos_pos_trivial)
    qed
    ultimately show ?thesis by (simp add: pos_imp_zdiv_neg_iff)
  qed
  have sum: "s mod 256 + 256 * (s div 256) = s" by simp
  have "s mod 256 + 256 * ((s div 256) mod 256) = (if s < 0 then s + 65536 else s)"
  proof (cases "s < 0")
    case True
    have "r + 256 * (q + 256) = x + 65536" if "r + 256 * q = x" for r q x :: int
      using that by simp
    note this [OF sum]
    with True show ?thesis by (simp only: wrap if_True)
  next
    case False
    with sum show ?thesis by (simp only: wrap if_False)
  qed
  moreover have "drop_bit 8 s = s div 256" by (simp add: drop_bit_eq_div)
  ultimately have n: "uint (byte_of (s AND 0xFF)) + 256 * uint (byte_of (drop_bit 8 s AND 0xFF))
      = (if s < 0 then s + 65536 else s)"
    by (simp only: low_byte uint_byte_of mod_mod_trivial)
  show ?thesis
  proof (cases "s < 0")
    case True
    with assms(1) show ?thesis unfolding sample_of_def Let_def n by simp
  next
    case False
    with assms(2) show ?thesis unfolding sample_of_def Let_def n by simp
  qed
qed

lemma ulaw_code_facts:
  fixes b :: byte
  shows "b \<noteq> 0x7F \<Longrightarrow> byte_of (linear_to_ulaw_sample (ulaw_to_linear_sample (uint b))) = b"
    and "-32768 \<le> ulaw_to_linear_sample (uint b)" and "ulaw_to_linear_sample (uint b) < 32768"
proof -
  have b: "uint b = int (unat b)" "unat b \<in> set [0..<256]"
    using unsigned_less [of b, where ?'a = nat] by simp_all
  then have "uint b \<in> set (map int [0..<256])" by (metis imageI list.set_map)
  note facts = ulaw_codes [unfolded list_all_iff, rule_format, OF this]
  then show "-32768 \<le> ulaw_to_linear_sample (uint b)" "ulaw_to_linear_sample (uint b) < 32768" by auto
  assume "b \<noteq> 0x7F"
  then have "uint b \<noteq> 127"
  proof -
    have same: "word_of_int (uint b) = b" by simp
    show ?thesis
    proof
      assume u: "uint b = 127"
      have "b = word_of_int 127" using same unfolding u by (rule sym)
      with \<open>b \<noteq> 0x7F\<close> show False by simp
    qed
  qed
  with facts show "byte_of (linear_to_ulaw_sample (ulaw_to_linear_sample (uint b))) = b"
    by (simp add: byte_of_def)
qed

lemma ulaw_stream_roundtrip:
  "0x7F \<notin> set data \<Longrightarrow> pcm16_to_ulaw_bytes (ulaw_bytes_to_pcm16 data) = data"
proof (induction data)
  case (Cons b data)
  have "pcm16_to_ulaw_bytes (ulaw_bytes_to_pcm16 (b # data)) =
      byte_of (linear_to_ulaw_sample (ulaw_to_linear_sample (uint b))) # pcm16_to_ulaw_bytes (ulaw_bytes_to_pcm16 data)"
    by (simp add: ulaw_bytes_to_pcm16_def sample_bytes_def sample_bytes_back [OF ulaw_code_facts(2,3)])
  with Cons ulaw_code_facts(1) [of b] show ?case by auto
qed (simp add: ulaw_bytes_to_pcm16_def)

text \<open>
  The \<mu>-law coder is as close as G.711 promises: every 16-bit sample gets a byte, and the sample that the byte
  decodes to is off by at most a 32nd of the sample's magnitude plus bias, also where the coder
  clips; and audio that came in as \<mu>-law bytes is sent out as the same bytes, unless it holds the
  second code of zero, 7F.
\<close>

theorem ulaw_quantisation:
  assumes "\<bar>s\<bar> \<le> 32768" and "0x7F \<notin> set data"
  shows "0 \<le> linear_to_ulaw_sample s \<and> linear_to_ulaw_sample s < 256
    \<and> 32 * \<bar>ulaw_to_linear_sample (linear_to_ulaw_sample s) - s\<bar> \<le> \<bar>s\<bar> + 132
    \<and> pcm16_to_ulaw_bytes (ulaw_bytes_to_pcm16 data) = data"
proof -
  have "0 \<le> linear_to_ulaw_sample s \<and> linear_to_ulaw_sample s < 256"
    unfolding linear_to_ulaw_sample_def Let_def low_byte by simp
  with ulaw_error [OF assms(1)] ulaw_stream_roundtrip [OF assms(2)] show ?thesis by blast
qed

theorem ulaw_quantisation_witness:
  "32 * \<bar>ulaw_to_linear_sample (linear_to_ulaw_sample (-32768)) - (-32768)\<bar> \<le> 32768 + 132
   \<and> pcm16_to_ulaw_bytes (ulaw_bytes_to_pcm16 [0, 0x80, 0xFF]) = [0, 0x80, 0xFF]"
  using ulaw_quantisation [where s = "-32768" and data = "[0, 0x80, 0xFF]"] by simp

end
