(* ===== verification/MediaGateway.thy ===== *)
theory MediaGateway
  imports RtpCodec CorrStore Calls
begin

text \<open>
  The FreeSWITCH media gateway: \<open>FreeSwitchMediaGateway\<close> of
  \<open>app/integrations/media_gateway/freeswitch.py\<close>. A gateway keeps, per session, a bounded queue of
  events, the RTP endpoint, counters and the life cycle of the channel, with two indexes from
  provider legs and channel UUIDs to sessions. Sockets are not modelled: a runtime records what its
  transport was given, the gateway what was written to the event socket; what the outside answers
  (\<open>gateway_env\<close>) and the time are arguments. Of the resampler only the interpolation is a parameter:
  its refusal of half a sample is modelled. Metrics, logging and the probe counters are left out.

  The lemmas show which packets leave, that every resource of the gateway is bounded and consistent
  over all runs, and where an event or a route can be lost.
\<close>

section \<open>State\<close>

datatype media_event_type = Ev_AUDIO_IN | Ev_BARGE_IN | Ev_HANGUP | Ev_DTMF | Ev_HEARTBEAT

type_synonym esl_event = "string \<rightharpoonup> string"

record media_event =
  me_type :: media_event_type
  me_pcm :: "byte list option"
  me_reason :: "string option"
  me_payload :: "(string \<times> esl_event) option"

definition plain_media_event :: "media_event_type \<Rightarrow> media_event" where
  "plain_media_event t = \<lparr>me_type = t, me_pcm = None, me_reason = None, me_payload = None\<rparr>"

record fs_config =
  fg_mode :: string
  fg_rtp_payload_type :: int
  fg_attach_command_template :: string
  fg_rtp_inbound_codec :: string
  fg_rtp_outbound_codec :: string
  fg_rtp_sample_rate_hz :: int
  fg_rtp_frame_bytes :: int
  fg_rtp_inbound_timeout_seconds :: int
  fg_rtp_outbound_buffer_max_frames :: int
  fg_event_queue_max :: int
  fg_allow_local_rtp_bind :: bool

type_synonym address = "string \<times> int"

record rtp_runtime =
  rt_local :: address
  rt_created_at :: time
  rt_remote_addr :: "address option"
  rt_pending_outbound :: "byte list list"
  rt_seq :: int
  rt_ts :: int
  rt_ssrc :: int
  rt_sent :: "(address \<times> byte list) list"

record session_correlation =
  sx_call_id :: string
  sx_mango_leg_id :: string
  sx_freeswitch_uuid :: "string option"
  sx_updated_at :: time

record session_lifecycle =
  lc_created :: bool
  lc_answered :: bool
  lc_bridged :: bool
  lc_playback_active :: bool
  lc_hungup :: bool
  lc_last_event :: "string option"
  lc_updated_at :: "time option"

record session_media_stats =
  mt_frames_in :: nat
  mt_bytes_in :: nat
  mt_frames_out :: nat
  mt_bytes_out :: nat
  mt_overruns :: nat
  mt_underruns :: nat
  mt_disconnect_reason :: "string option"
  mt_last_rtp_at :: "time option"

definition fresh_media_stats :: session_media_stats where
  "fresh_media_stats = \<lparr>mt_frames_in = 0, mt_bytes_in = 0, mt_frames_out = 0, mt_bytes_out = 0,
     mt_overruns = 0, mt_underruns = 0, mt_disconnect_reason = None, mt_last_rtp_at = None\<rparr>"

text \<open>The entries of the metadata that the gateway reads.\<close>

record attach_metadata =
  am_mango_leg_id :: "string option"
  am_answered_from_esl_reply :: bool
  am_remote_media_ip :: "string option"
  am_remote_media_port :: "string option"

record media_session_handle =
  mh_session_id :: string
  mh_call_id :: string
  mh_provider_leg_id :: string
  mh_rtp_local :: "address option"

text \<open>What is written to the event socket, before it is formatted.\<close>

datatype esl_command = Esl_attach string address | Esl_hangup string

record gateway =
  gw_queues :: "string \<rightharpoonup> media_event list"
  gw_handles :: "string \<rightharpoonup> media_session_handle"
  gw_closed :: "string set"
  gw_audio_out_bytes :: "string \<rightharpoonup> nat"
  gw_rtp :: "string \<rightharpoonup> rtp_runtime"
  gw_leg_to_session :: "string \<rightharpoonup> string"
  gw_uuid_to_session :: "string \<rightharpoonup> string"
  gw_correlation :: "string \<rightharpoonup> session_correlation"
  gw_lifecycle :: "string \<rightharpoonup> session_lifecycle"
  gw_media_stats :: "string \<rightharpoonup> session_media_stats"
  gw_watchdogs :: "string set"
  gw_esl :: bool
  gw_esl_sent :: "esl_command list"
  gw_corr :: corr_store

definition empty_gateway :: gateway where
  "empty_gateway = \<lparr>gw_queues = Map.empty, gw_handles = Map.empty, gw_closed = {},
     gw_audio_out_bytes = Map.empty, gw_rtp = Map.empty, gw_leg_to_session = Map.empty,
     gw_uuid_to_session = Map.empty, gw_correlation = Map.empty, gw_lifecycle = Map.empty,
     gw_media_stats = Map.empty, gw_watchdogs = {}, gw_esl = False, gw_esl_sent = [],
     gw_corr = empty_corr_store\<rparr>"

definition not_ready :: app_error where
  "not_ready = OtherError ''media_gateway_not_ready''"

definition uses_sendmsg_unicast :: "fs_config \<Rightarrow> bool" where
  "uses_sendmsg_unicast cfg = startswith (strip (fg_attach_command_template cfg)) ''sendmsg_unicast''"

definition on_stats :: "string \<Rightarrow> (session_media_stats \<Rightarrow> session_media_stats) \<Rightarrow> gateway \<Rightarrow> gateway" where
  "on_stats sid f g = g\<lparr>gw_media_stats := (gw_media_stats g)(sid := map_option f (gw_media_stats g sid))\<rparr>"

section \<open>The event queue\<close>

definition queue_max :: "fs_config \<Rightarrow> nat" where
  "queue_max cfg = nat (max 1 (fg_event_queue_max cfg))"

text \<open>A full queue loses its oldest event.\<close>

definition queue_event :: "fs_config \<Rightarrow> string \<Rightarrow> media_event \<Rightarrow> gateway \<Rightarrow> gateway" where
  "queue_event cfg sid evt g =
     (case gw_queues g sid of
        None \<Rightarrow> g
      | Some q \<Rightarrow>
          if length q < queue_max cfg then g\<lparr>gw_queues := (gw_queues g)(sid \<mapsto> q @ [evt])\<rparr>
          else (on_stats sid (\<lambda>st. st\<lparr>mt_overruns := mt_overruns st + 1\<rparr>) g)
                 \<lparr>gw_queues := (gw_queues g)(sid \<mapsto> tl q @ [evt])\<rparr>)"

text \<open>One turn of the generator \<open>events\<close>: it ends, it waits on its queue, or it yields an event.\<close>

datatype events_turn = Turn_end | Turn_wait | Turn_yield media_event bool

definition next_event :: "string \<Rightarrow> gateway \<Rightarrow> events_turn \<times> gateway" where
  "next_event sid g =
     (if sid \<in> gw_closed g then (Turn_end, g)
      else case gw_queues g sid of
             None \<Rightarrow> (Turn_end, g)
           | Some [] \<Rightarrow> (Turn_wait, g)
           | Some (evt # q) \<Rightarrow>
               (Turn_yield evt (me_type evt = Ev_HANGUP), g\<lparr>gw_queues := (gw_queues g)(sid \<mapsto> q)\<rparr>))"

definition send_barge_in :: "fs_config \<Rightarrow> string \<Rightarrow> gateway \<Rightarrow> gateway" where
  "send_barge_in cfg sid g =
     (if gw_queues g sid = None then g else queue_event cfg sid (plain_media_event Ev_BARGE_IN) g)"

definition propagate_hangup :: "fs_config \<Rightarrow> string \<Rightarrow> string option \<Rightarrow> gateway \<Rightarrow> gateway" where
  "propagate_hangup cfg sid reason g =
     (if gw_queues g sid = None then g
      else queue_event cfg sid ((plain_media_event Ev_HANGUP)\<lparr>me_reason := reason\<rparr>) g)"

definition inject_inbound_audio :: "fs_config \<Rightarrow> string \<Rightarrow> byte list \<Rightarrow> gateway \<Rightarrow> gateway" where
  "inject_inbound_audio cfg sid pcm g =
     (if gw_queues g sid = None then g
      else queue_event cfg sid ((plain_media_event Ev_AUDIO_IN)\<lparr>me_pcm := Some pcm\<rparr>) g)"

section \<open>Outbound audio\<close>

text \<open>The slices \<open>encoded[offset:offset + n]\<close> for \<open>offset\<close> in \<open>range(0, len(encoded), n)\<close>.\<close>

function frames :: "nat \<Rightarrow> 'a list \<Rightarrow> 'a list list" where
  "frames n xs = (if n = 0 \<or> xs = [] then [] else take n xs # frames n (drop n xs))"
  by auto
termination by (relation "measure (\<lambda>(n, xs). length xs)") auto

declare frames.simps [simp del]

definition frame_size :: "fs_config \<Rightarrow> byte list \<Rightarrow> nat" where
  "frame_size cfg encoded =
     (let f = fg_rtp_frame_bytes cfg;
          f = (if f \<noteq> 0 then f else if encoded \<noteq> [] then int (length encoded) else 1)
      in nat (max 1 f))"

definition sample_div :: "fs_config \<Rightarrow> nat" where
  "sample_div cfg = (if fg_rtp_outbound_codec cfg = ''pcm16'' then 2 else 1)"

text \<open>The body of the loop: one frame to the transport, then the counters.\<close>

definition send_frame :: "fs_config \<Rightarrow> address \<Rightarrow> byte list \<Rightarrow> rtp_runtime \<Rightarrow> (app_error, rtp_runtime) result" where
  "send_frame cfg remote frame rt =
     (let count = (\<lambda>data. rt\<lparr>rt_sent := rt_sent rt @ [(remote, data)],
                           rt_seq := (rt_seq rt + 1) mod 65536,
                           rt_ts := (rt_ts rt + max 1 (int (length frame div sample_div cfg))) mod 2 ^ 32\<rparr>)
      in if uses_sendmsg_unicast cfg then Inr (count frame)
         else case build_rtp_packet frame (fg_rtp_payload_type cfg) (rt_seq rt) (rt_ts rt) (rt_ssrc rt) of
                None \<Rightarrow> Inl (OtherError ''struct.error'')
              | Some packet \<Rightarrow> Inr (count packet))"

definition count_out :: "byte list \<Rightarrow> session_media_stats \<Rightarrow> session_media_stats" where
  "count_out frame st = st\<lparr>mt_frames_out := mt_frames_out st + 1, mt_bytes_out := mt_bytes_out st + length frame\<rparr>"

fun send_frames ::
    "fs_config \<Rightarrow> string \<Rightarrow> address \<Rightarrow> byte list list \<Rightarrow> rtp_runtime \<Rightarrow> gateway
     \<Rightarrow> (app_error, unit) result \<times> gateway" where
  "send_frames cfg sid remote [] rt g = (Inr (), g\<lparr>gw_rtp := (gw_rtp g)(sid \<mapsto> rt)\<rparr>)"
| "send_frames cfg sid remote (f # fs) rt g =
     (case send_frame cfg remote f rt of
        Inl e \<Rightarrow> (Inl e, g\<lparr>gw_rtp := (gw_rtp g)(sid \<mapsto> rt)\<rparr>)
      | Inr rt' \<Rightarrow> send_frames cfg sid remote fs rt' (on_stats sid (count_out f) g))"

definition send_rtp_audio ::
    "fs_config \<Rightarrow> resampler \<Rightarrow> string \<Rightarrow> byte list \<Rightarrow> rtp_runtime \<Rightarrow> gateway \<Rightarrow> (app_error, unit) result \<times> gateway" where
  "send_rtp_audio cfg rs sid pcm rt g =
     (case rt_remote_addr rt of
        None \<Rightarrow> (Inl not_ready, g)
      | Some remote \<Rightarrow>
          (case encode_outbound_audio rs pcm (fg_rtp_outbound_codec cfg) (fg_rtp_sample_rate_hz cfg) of
             Inl e \<Rightarrow> (Inl e, g)
           | Inr encoded \<Rightarrow> send_frames cfg sid remote (frames (frame_size cfg encoded) encoded) rt g))"

text \<open>Buffered chunks go out in order; the session's runtime is the one in the table.\<close>

fun send_chunks ::
    "fs_config \<Rightarrow> resampler \<Rightarrow> string \<Rightarrow> byte list list \<Rightarrow> gateway \<Rightarrow> (app_error, unit) result \<times> gateway" where
  "send_chunks cfg rs sid [] g = (Inr (), g)"
| "send_chunks cfg rs sid (c # cs) g =
     (case gw_rtp g sid of
        None \<Rightarrow> (Inr (), g)
      | Some rt \<Rightarrow>
          (case send_rtp_audio cfg rs sid c rt g of
             (Inl e, g') \<Rightarrow> (Inl e, g')
           | (Inr _, g') \<Rightarrow> send_chunks cfg rs sid cs g'))"

definition flush_pending_audio ::
    "fs_config \<Rightarrow> resampler \<Rightarrow> string \<Rightarrow> gateway \<Rightarrow> (app_error, unit) result \<times> gateway" where
  "flush_pending_audio cfg rs sid g =
     (case gw_rtp g sid of
        None \<Rightarrow> (Inr (), g)
      | Some rt \<Rightarrow>
          if rt_remote_addr rt = None \<or> rt_pending_outbound rt = [] then (Inr (), g)
          else send_chunks cfg rs sid (rt_pending_outbound rt)
                 (g\<lparr>gw_rtp := (gw_rtp g)(sid \<mapsto> rt\<lparr>rt_pending_outbound := []\<rparr>)\<rparr>))"

definition set_remote ::
    "fs_config \<Rightarrow> resampler \<Rightarrow> string \<Rightarrow> address \<Rightarrow> rtp_runtime \<Rightarrow> gateway \<Rightarrow> (app_error, unit) result \<times> gateway" where
  "set_remote cfg rs sid addr rt g =
     flush_pending_audio cfg rs sid (g\<lparr>gw_rtp := (gw_rtp g)(sid \<mapsto> rt\<lparr>rt_remote_addr := Some addr\<rparr>)\<rparr>)"

text \<open>Buffering while the endpoint is unknown: the oldest chunk makes room.\<close>

definition buffer_max :: "fs_config \<Rightarrow> nat" where
  "buffer_max cfg = nat (max 1 (fg_rtp_outbound_buffer_max_frames cfg))"

definition buffer_audio :: "fs_config \<Rightarrow> string \<Rightarrow> byte list \<Rightarrow> rtp_runtime \<Rightarrow> gateway \<Rightarrow> gateway" where
  "buffer_audio cfg sid pcm rt g =
     (let full = buffer_max cfg \<le> length (rt_pending_outbound rt);
          kept = (if full then tl (rt_pending_outbound rt) else rt_pending_outbound rt);
          g1 = (if full then on_stats sid (\<lambda>st. st\<lparr>mt_underruns := mt_underruns st + 1\<rparr>) g else g)
      in g1\<lparr>gw_rtp := (gw_rtp g1)(sid \<mapsto> rt\<lparr>rt_pending_outbound := kept @ [pcm]\<rparr>)\<rparr>)"

definition send_audio ::
    "fs_config \<Rightarrow> resampler \<Rightarrow> string \<Rightarrow> byte list \<Rightarrow> gateway \<Rightarrow> (app_error, unit) result \<times> gateway" where
  "send_audio cfg rs sid pcm g =
     (if fg_mode cfg \<in> {''disabled'', ''scaffold''} then (Inl not_ready, g)
      else if gw_handles g sid = None then (Inr (), g)
      else (let old = (case gw_audio_out_bytes g sid of None \<Rightarrow> 0 | Some n \<Rightarrow> n);
                g1 = g\<lparr>gw_audio_out_bytes := (gw_audio_out_bytes g)(sid \<mapsto> old + length pcm)\<rparr>
            in if fg_mode cfg = ''esl_rtp''
               then (case gw_rtp g1 sid of
                       None \<Rightarrow> (Inl not_ready, g1)
                     | Some rt \<Rightarrow>
                         if rt_remote_addr rt = None then (Inr (), buffer_audio cfg sid pcm rt g1)
                         else send_rtp_audio cfg rs sid pcm rt g1)
               else (Inr (), g1)))"

section \<open>The remote endpoint\<close>

text \<open>\<open>a or b or c\<close> over the values of an event.\<close>

definition first_value :: "esl_event \<Rightarrow> string list \<Rightarrow> string option" where
  "first_value ev keys = find (\<lambda>v. v \<noteq> []) (List.map_filter ev keys)"

definition endpoint_of :: "string option \<Rightarrow> string option \<Rightarrow> address option" where
  "endpoint_of host port_raw =
     (if \<not> truthy host \<or> \<not> truthy port_raw then None
      else map_option (\<lambda>port. (the host, port)) (py_int (the port_raw)))"

text \<open>The guards that every way of priming the endpoint starts with.\<close>

definition prime_remote ::
    "fs_config \<Rightarrow> resampler \<Rightarrow> string \<Rightarrow> address option \<Rightarrow> gateway \<Rightarrow> (app_error, unit) result \<times> gateway" where
  "prime_remote cfg rs sid endpoint g =
     (if uses_sendmsg_unicast cfg then (Inr (), g)
      else case gw_rtp g sid of
             None \<Rightarrow> (Inr (), g)
           | Some rt \<Rightarrow>
               if rt_remote_addr rt \<noteq> None then (Inr (), g)
               else (case endpoint of None \<Rightarrow> (Inr (), g) | Some addr \<Rightarrow> set_remote cfg rs sid addr rt g))"

definition try_set_remote_addr_from_event ::
    "fs_config \<Rightarrow> resampler \<Rightarrow> string \<Rightarrow> esl_event \<Rightarrow> gateway \<Rightarrow> (app_error, unit) result \<times> gateway" where
  "try_set_remote_addr_from_event cfg rs sid ev g =
     prime_remote cfg rs sid
       (endpoint_of
          (first_value ev [''variable_remote_media_ip'', ''variable_remote_audio_media_ip'',
                           ''variable_rtp_audio_remote_addr''])
          (first_value ev [''variable_remote_media_port'', ''variable_remote_audio_media_port'',
                           ''variable_rtp_audio_remote_port''])) g"

definition stripped :: "string option \<Rightarrow> string option" where
  "stripped v = Some (strip (case v of None \<Rightarrow> [] | Some s \<Rightarrow> s))"

definition try_prime_remote_addr_from_metadata ::
    "fs_config \<Rightarrow> resampler \<Rightarrow> string \<Rightarrow> attach_metadata \<Rightarrow> gateway \<Rightarrow> (app_error, unit) result \<times> gateway" where
  "try_prime_remote_addr_from_metadata cfg rs sid m g =
     prime_remote cfg rs sid
       (endpoint_of (stripped (am_remote_media_ip m)) (stripped (am_remote_media_port m))) g"

text \<open>
  The channel variables, read over a short-lived connection (\<open>vars\<close>, the empty string for a
  variable that could not be read): whether the probe is over, and the gateway.
\<close>

definition first_variable :: "(string \<Rightarrow> string) \<Rightarrow> string list \<Rightarrow> string option" where
  "first_variable vars names = find (\<lambda>v. v \<noteq> []) (map (\<lambda>n. strip (vars n)) names)"

definition rejected :: "string option \<Rightarrow> bool" where
  "rejected v = (case v of None \<Rightarrow> True | Some s \<Rightarrow> startswith s ''-ERR'')"

definition try_prime_remote_addr_from_channel_vars ::
    "fs_config \<Rightarrow> resampler \<Rightarrow> string \<Rightarrow> string \<Rightarrow> (string \<Rightarrow> string) \<Rightarrow> gateway
     \<Rightarrow> (app_error, bool) result \<times> gateway" where
  "try_prime_remote_addr_from_channel_vars cfg rs sid uuid_leg vars g =
     (if uses_sendmsg_unicast cfg then (Inr False, g)
      else case gw_rtp g sid of
             None \<Rightarrow> (Inr True, g)
           | Some rt \<Rightarrow>
               if rt_remote_addr rt \<noteq> None then (Inr True, g)
               else if uuid_leg = [] then (Inr False, g)
               else (let host = first_variable vars [''remote_media_ip'', ''remote_audio_media_ip'',
                                  ''rtp_audio_remote_addr'', ''sip_remote_audio_ip''];
                         port_raw = first_variable vars [''remote_media_port'', ''remote_audio_media_port'',
                                  ''rtp_audio_remote_port'', ''sip_remote_audio_port'']
                     in if rejected host \<or> rejected port_raw then (Inr False, g)
                        else case py_int (the port_raw) of
                               None \<Rightarrow> (Inr False, g)
                             | Some port \<Rightarrow>
                                 if port \<le> 0 then (Inr False, g)
                                 else (case set_remote cfg rs sid (the host, port) rt g of
                                         (Inl e, g') \<Rightarrow> (Inl e, g')
                                       | (Inr _, g') \<Rightarrow> (Inr True, g'))))"

section \<open>Inbound audio\<close>

definition on_rtp_datagram ::
    "fs_config \<Rightarrow> resampler \<Rightarrow> time \<Rightarrow> string \<Rightarrow> byte list \<Rightarrow> address \<Rightarrow> gateway
     \<Rightarrow> (app_error, unit) result \<times> gateway" where
  "on_rtp_datagram cfg rs now sid data addr g =
     (case gw_rtp g sid of
        None \<Rightarrow> (Inr (), g)
      | Some rt \<Rightarrow>
          (case set_remote cfg rs sid addr rt g of
             (Inl e, g1) \<Rightarrow> (Inl e, g1)
           | (Inr _, g1) \<Rightarrow>
               (let payload = (if uses_sendmsg_unicast cfg
                               then (if looks_like_rtp_packet data then extract_rtp_payload data else data)
                               else extract_rtp_payload data)
                in if payload = [] then (Inr (), g1)
                   else (case decode_inbound_audio rs payload (fg_rtp_inbound_codec cfg)
                                (extract_rtp_payload_type data) (fg_rtp_sample_rate_hz cfg) of
                           Inl e \<Rightarrow> (Inl e, g1)
                         | Inr decoded \<Rightarrow>
                        (let g2 = on_stats sid (\<lambda>st. st\<lparr>mt_frames_in := mt_frames_in st + 1,
                                     mt_bytes_in := mt_bytes_in st + length decoded,
                                     mt_last_rtp_at := Some now\<rparr>) g1
                         in (Inr (), queue_event cfg sid
                               ((plain_media_event Ev_AUDIO_IN)\<lparr>me_pcm := Some decoded\<rparr>) g2))))))"

text \<open>One round of the watchdog, after its pause: whether it goes on.\<close>

definition watchdog_fire :: "fs_config \<Rightarrow> string \<Rightarrow> string \<Rightarrow> gateway \<Rightarrow> bool \<times> gateway" where
  "watchdog_fire cfg sid reason g =
     (False, queue_event cfg sid ((plain_media_event Ev_HANGUP)\<lparr>me_reason := Some reason\<rparr>)
        (on_stats sid (\<lambda>st. st\<lparr>mt_disconnect_reason := Some reason\<rparr>) g))"

definition rtp_watchdog_round :: "fs_config \<Rightarrow> time \<Rightarrow> string \<Rightarrow> gateway \<Rightarrow> bool \<times> gateway" where
  "rtp_watchdog_round cfg now sid g =
     (let timeout = fg_rtp_inbound_timeout_seconds cfg * seconds 1 in
      case (gw_media_stats g sid, gw_rtp g sid) of
        (Some st, Some rt) \<Rightarrow>
          (case mt_last_rtp_at st of
             None \<Rightarrow>
               if rt_remote_addr rt \<noteq> None \<or> now - rt_created_at rt \<le> timeout then (True, g)
               else watchdog_fire cfg sid ''rtp_remote_timeout'' g
           | Some t \<Rightarrow> if now - t \<le> timeout then (True, g) else watchdog_fire cfg sid ''rtp_timeout'' g)
      | _ \<Rightarrow> (True, g))"

section \<open>Sessions\<close>

text \<open>
  What the outside answers while a session is attached: the connection to the event socket, a
  free UDP port with the random numbers of the stream, whether the channel exists, and the write of
  the attach command.
\<close>

record gateway_env =
  ge_now :: time
  ge_session_id :: string
  ge_esl_connect :: "(app_error, unit) result"
  ge_open_rtp :: "(app_error, rtp_runtime) result"
  ge_uuid_exists :: bool
  ge_write_attach :: "(app_error, unit) result"

definition run_attach_command ::
    "gateway_env \<Rightarrow> string \<Rightarrow> address \<Rightarrow> gateway \<Rightarrow> (app_error, unit) result \<times> gateway" where
  "run_attach_command env uuid_leg local g =
     (if \<not> gw_esl g then (Inl not_ready, g)
      else case ge_write_attach env of
             Inl e \<Rightarrow> (Inl e, g)
           | Inr _ \<Rightarrow> (Inr (), g\<lparr>gw_esl_sent := gw_esl_sent g @ [Esl_attach uuid_leg local]\<rparr>))"

definition run_hangup_command :: "string \<Rightarrow> gateway \<Rightarrow> gateway" where
  "run_hangup_command uuid_leg g =
     (if \<not> gw_esl g then g else g\<lparr>gw_esl_sent := gw_esl_sent g @ [Esl_hangup uuid_leg]\<rparr>)"

text \<open>The tables of a new session, filled under the lock, and its correlation.\<close>

definition register_media_session ::
    "time \<Rightarrow> string \<Rightarrow> string \<Rightarrow> string \<Rightarrow> string \<Rightarrow> gateway \<Rightarrow> gateway" where
  "register_media_session now sid call_id provider_leg mango_leg g =
     g\<lparr>gw_queues := (gw_queues g)(sid \<mapsto> []),
       gw_handles := (gw_handles g)(sid \<mapsto> \<lparr>mh_session_id = sid, mh_call_id = call_id,
                                         mh_provider_leg_id = provider_leg, mh_rtp_local = None\<rparr>),
       gw_audio_out_bytes := (gw_audio_out_bytes g)(sid \<mapsto> 0),
       gw_leg_to_session := (gw_leg_to_session g)(mango_leg \<mapsto> sid, provider_leg \<mapsto> sid),
       gw_uuid_to_session := (gw_uuid_to_session g)(provider_leg \<mapsto> sid),
       gw_correlation := (gw_correlation g)(sid \<mapsto> \<lparr>sx_call_id = call_id, sx_mango_leg_id = mango_leg,
                            sx_freeswitch_uuid = Some provider_leg, sx_updated_at = now\<rparr>),
       gw_lifecycle := (gw_lifecycle g)(sid \<mapsto> \<lparr>lc_created = False, lc_answered = False, lc_bridged = False,
                            lc_playback_active = False, lc_hungup = False,
                            lc_last_event = Some ''attached'', lc_updated_at = Some now\<rparr>),
       gw_media_stats := (gw_media_stats g)(sid \<mapsto> fresh_media_stats),
       gw_corr := snd (upsert_mapping now mango_leg (Some call_id) (Some provider_leg) (Some sid) (gw_corr g))\<rparr>"

text \<open>The media plane of a session in \<open>esl_rtp\<close> mode; a failure leaves what was done before it.\<close>

definition attach_media ::
    "fs_config \<Rightarrow> resampler \<Rightarrow> gateway_env \<Rightarrow> string \<Rightarrow> attach_metadata \<Rightarrow> gateway
     \<Rightarrow> (app_error, unit) result \<times> gateway" where
  "attach_media cfg rs env provider_leg m g =
     (let sid = ge_session_id env in
      case ge_open_rtp env of
        Inl e \<Rightarrow> (Inl e, g)
      | Inr rt \<Rightarrow>
          (case try_prime_remote_addr_from_metadata cfg rs sid m (g\<lparr>gw_rtp := (gw_rtp g)(sid \<mapsto> rt)\<rparr>) of
             (Inl e, g1) \<Rightarrow> (Inl e, g1)
           | (Inr _, g1) \<Rightarrow>
               (let g2 = (if 0 < fg_rtp_inbound_timeout_seconds cfg
                          then g1\<lparr>gw_watchdogs := insert sid (gw_watchdogs g1)\<rparr> else g1);
                    g3 = g2\<lparr>gw_handles := (gw_handles g2)(sid :=
                              map_option (\<lambda>h. h\<lparr>mh_rtp_local := Some (rt_local rt)\<rparr>) (gw_handles g2 sid))\<rparr>;
                    provisional = startswith (strip provider_leg) ''direct-''
                in if \<not> provisional \<or> am_answered_from_esl_reply m \<or> (provider_leg \<noteq> [] \<and> ge_uuid_exists env)
                   then run_attach_command env provider_leg (rt_local rt) g3
                   else (Inr (), g3))))"

definition attach_session ::
    "fs_config \<Rightarrow> resampler \<Rightarrow> gateway_env \<Rightarrow> string \<Rightarrow> string \<Rightarrow> attach_metadata \<Rightarrow> gateway
     \<Rightarrow> (app_error, string) result \<times> gateway" where
  "attach_session cfg rs env call_id provider_leg m g =
     (let esl = (fg_mode cfg = ''esl_rtp'') in
      if fg_mode cfg \<in> {''disabled'', ''scaffold''} then (Inl not_ready, g)
      else if esl \<and> \<not> fg_allow_local_rtp_bind cfg then (Inl not_ready, g)
      else case (if esl then ge_esl_connect env else Inr ()) of
             Inl e \<Rightarrow> (Inl e, g)
           | Inr _ \<Rightarrow>
               (let g1 = (if esl then g\<lparr>gw_esl := True\<rparr> else g);
                    mango_leg = the (py_or (am_mango_leg_id m) (Some provider_leg));
                    g2 = register_media_session (ge_now env) (ge_session_id env) call_id provider_leg mango_leg g1
                in if \<not> esl then (Inr (ge_session_id env), g2)
                   else (case attach_media cfg rs env provider_leg m g2 of
                           (Inl e, g3) \<Rightarrow> (Inl e, g3)
                         | (Inr _, g3) \<Rightarrow> (Inr (ge_session_id env), g3))))"

text \<open>\<open>d.pop(key, None)\<close> for a key that may be missing.\<close>

definition pop_opt :: "string option \<Rightarrow> (string \<rightharpoonup> 'v) \<Rightarrow> (string \<rightharpoonup> 'v)" where
  "pop_opt key m = (if truthy key then m(the key := None) else m)"

definition detach_session :: "fs_config \<Rightarrow> string \<Rightarrow> gateway \<Rightarrow> gateway" where
  "detach_session cfg sid g =
     (let handle = gw_handles g sid;
          g1 = g\<lparr>gw_watchdogs := gw_watchdogs g - {sid}\<rparr>;
          g2 = (case handle of
                  None \<Rightarrow> g1
                | Some h \<Rightarrow> if fg_mode cfg = ''esl_rtp'' then run_hangup_command (mh_provider_leg_id h) g1 else g1);
          leg = map_option mh_provider_leg_id handle;
          unhandle = (\<lambda>m. case leg of None \<Rightarrow> m | Some l \<Rightarrow> m(l := None));
          corr = gw_correlation g sid
      in g2\<lparr>gw_rtp := (gw_rtp g2)(sid := None),
            gw_closed := insert sid (gw_closed g2),
            gw_queues := (gw_queues g2)(sid := None),
            gw_handles := (gw_handles g2)(sid := None),
            gw_audio_out_bytes := (gw_audio_out_bytes g2)(sid := None),
            gw_uuid_to_session := pop_opt (Option.bind corr sx_freeswitch_uuid) (unhandle (gw_uuid_to_session g2)),
            gw_leg_to_session := pop_opt (map_option sx_mango_leg_id corr) (unhandle (gw_leg_to_session g2)),
            gw_correlation := (gw_correlation g2)(sid := None),
            gw_lifecycle := (gw_lifecycle g2)(sid := None),
            gw_media_stats := (gw_media_stats g2)(sid := None)\<rparr>)"

section \<open>Channel events\<close>

datatype fs_event = Fs_create | Fs_answer | Fs_hangup | Fs_playback_start | Fs_playback_stop
  | Fs_bridge | Fs_barge_in | Fs_heartbeat | Fs_unmapped

fun fs_event_value :: "fs_event \<Rightarrow> string" where
  "fs_event_value Fs_create = ''channel_create''"
| "fs_event_value Fs_answer = ''channel_answer''"
| "fs_event_value Fs_hangup = ''channel_hangup''"
| "fs_event_value Fs_playback_start = ''playback_start''"
| "fs_event_value Fs_playback_stop = ''playback_stop''"
| "fs_event_value Fs_bridge = ''channel_bridge''"
| "fs_event_value Fs_barge_in = ''barge_in''"
| "fs_event_value Fs_heartbeat = ''heartbeat''"
| "fs_event_value Fs_unmapped = ''unmapped''"

definition event_text :: "esl_event \<Rightarrow> string \<Rightarrow> string" where
  "event_text ev key = (case ev key of None \<Rightarrow> [] | Some v \<Rightarrow> v)"

definition event_uuid :: "esl_event \<Rightarrow> string option" where
  "event_uuid ev =
     py_or (ev ''Unique-ID'') (py_or (ev ''Channel-Call-UUID'') (ev ''variable_uuid''))"

definition event_kind :: "esl_event \<Rightarrow> fs_event" where
  "event_kind ev =
     (let name = event_text ev ''Event-Name'' in
      if name = ''CHANNEL_CREATE'' then Fs_create
      else if name = ''CHANNEL_ANSWER'' then Fs_answer
      else if name \<in> {''CHANNEL_HANGUP'', ''CHANNEL_HANGUP_COMPLETE''} then Fs_hangup
      else if name = ''PLAYBACK_START'' then Fs_playback_start
      else if name = ''PLAYBACK_STOP'' then Fs_playback_stop
      else if name = ''CHANNEL_BRIDGE'' then Fs_bridge
      else if name = ''CUSTOM'' \<and> event_text ev ''Event-Subclass'' = ''ai::barge_in'' then Fs_barge_in
      else if name = ''HEARTBEAT'' then Fs_heartbeat
      else Fs_unmapped)"

definition normalize_esl_event :: "esl_event \<Rightarrow> gateway \<Rightarrow> fs_event \<times> string option \<times> string option" where
  "normalize_esl_event ev g =
     (event_kind ev,
      gw_uuid_to_session g (case event_uuid ev of None \<Rightarrow> [] | Some u \<Rightarrow> u),
      event_uuid ev)"

definition infer_mango_leg_id_from_event :: "esl_event \<Rightarrow> string option" where
  "infer_mango_leg_id_from_event ev =
     find (\<lambda>v. startswith v ''direct-'')
       (map (\<lambda>key. strip (event_text ev key))
         [''variable_origination_uuid'', ''variable_originating_leg_uuid'', ''Channel-Call-UUID'', ''Unique-ID''])"

definition update_correlation :: "time \<Rightarrow> string \<Rightarrow> string option \<Rightarrow> gateway \<Rightarrow> gateway" where
  "update_correlation now sid fs_uuid g =
     (if \<not> truthy fs_uuid then g
      else g\<lparr>gw_uuid_to_session := (gw_uuid_to_session g)(the fs_uuid \<mapsto> sid),
             gw_correlation := (gw_correlation g)(sid :=
               map_option (\<lambda>c. c\<lparr>sx_freeswitch_uuid := fs_uuid, sx_updated_at := now\<rparr>) (gw_correlation g sid))\<rparr>)"

text \<open>The channel got its real UUID: the media is attached again; a failure is only logged.\<close>

definition promote_session_uuid :: "gateway_env \<Rightarrow> string \<Rightarrow> string \<Rightarrow> string \<Rightarrow> gateway \<Rightarrow> gateway" where
  "promote_session_uuid env sid mango_leg fs_uuid g =
     (let previous = Option.bind (gw_correlation g sid) sx_freeswitch_uuid;
          g1 = update_correlation (ge_now env) sid (Some fs_uuid) g;
          g2 = g1\<lparr>gw_corr := snd (upsert_mapping (ge_now env) mango_leg None (Some fs_uuid) (Some sid) (gw_corr g1))\<rparr>
      in if previous = Some fs_uuid then g2
         else case gw_rtp g2 sid of
                None \<Rightarrow> g2
              | Some rt \<Rightarrow> snd (run_attach_command env fs_uuid (rt_local rt) g2))"

text \<open>The leg state that an event stands for.\<close>

fun event_leg_state :: "fs_event \<Rightarrow> leg_state option" where
  "event_leg_state Fs_create = Some Leg_INITIATING"
| "event_leg_state Fs_answer = Some Leg_ANSWERED"
| "event_leg_state Fs_bridge = Some Leg_BRIDGED"
| "event_leg_state Fs_hangup = Some Leg_TERMINATED"
| "event_leg_state _ = None"

definition json_event :: "esl_event \<Rightarrow> string list \<Rightarrow> json" where
  "json_event ev keys = JObj (List.map_filter (\<lambda>k. map_option (\<lambda>v. (k, JStr v)) (ev k)) keys)"

text \<open>
  The event itself is kept with the state in the correlation store; of its keys (\<open>keys\<close>) it is a
  function, so they are listed to make a JSON value of it.
\<close>

definition correlate_state ::
    "time \<Rightarrow> string list \<Rightarrow> string \<Rightarrow> string option \<Rightarrow> string option \<Rightarrow> leg_state option \<Rightarrow> esl_event
     \<Rightarrow> gateway \<Rightarrow> gateway" where
  "correlate_state now keys mango_leg fs_uuid session state ev g =
     (case state of
        None \<Rightarrow> g
      | Some st \<Rightarrow> g\<lparr>gw_corr := snd (set_freeswitch_state now mango_leg st fs_uuid session
                                     (Some (json_event ev keys)) (gw_corr g))\<rparr>)"

definition lifecycle_after :: "fs_event \<Rightarrow> session_lifecycle \<Rightarrow> session_lifecycle" where
  "lifecycle_after k st =
     (case k of
        Fs_create \<Rightarrow> st\<lparr>lc_created := True\<rparr>
      | Fs_answer \<Rightarrow> st\<lparr>lc_answered := True\<rparr>
      | Fs_bridge \<Rightarrow> st\<lparr>lc_bridged := True\<rparr>
      | Fs_playback_start \<Rightarrow> st\<lparr>lc_playback_active := True\<rparr>
      | Fs_playback_stop \<Rightarrow> st\<lparr>lc_playback_active := False\<rparr>
      | Fs_hangup \<Rightarrow> st\<lparr>lc_hungup := True\<rparr>
      | _ \<Rightarrow> st)"

definition set_reason :: "string option \<Rightarrow> session_media_stats \<Rightarrow> session_media_stats" where
  "set_reason r st = (if mt_disconnect_reason st = None then st\<lparr>mt_disconnect_reason := r\<rparr> else st)"

definition apply_normalized_event ::
    "fs_config \<Rightarrow> resampler \<Rightarrow> time \<Rightarrow> string list \<Rightarrow> string \<Rightarrow> fs_event \<Rightarrow> esl_event \<Rightarrow> gateway
     \<Rightarrow> (app_error, unit) result \<times> gateway" where
  "apply_normalized_event cfg rs now keys sid k ev g =
     (case gw_lifecycle g sid of
        None \<Rightarrow> (Inr (), g)
      | Some _ \<Rightarrow>
          (case try_set_remote_addr_from_event cfg rs sid ev g of
             (Inl e, g1) \<Rightarrow> (Inl e, g1)
           | (Inr _, g1) \<Rightarrow>
               (let g2 = g1\<lparr>gw_lifecycle := (gw_lifecycle g1)(sid := map_option (\<lambda>st.
                            lifecycle_after k (st\<lparr>lc_last_event := Some (fs_event_value k), lc_updated_at := Some now\<rparr>))
                            (gw_lifecycle g1 sid))\<rparr>;
                    cause = ev ''Hangup-Cause'';
                    g3 = (if k = Fs_hangup then on_stats sid (set_reason (py_or cause (Some ''hangup''))) g2 else g2);
                    g4 = (case gw_correlation g sid of
                            None \<Rightarrow> g3
                          | Some c \<Rightarrow>
                              if sx_mango_leg_id c = [] then g3
                              else correlate_state now keys (sx_mango_leg_id c) (ev ''Unique-ID'') (Some sid)
                                     (event_leg_state k) ev g3);
                    body = Some (fs_event_value k, ev)
                in (Inr (),
                    case k of
                      Fs_hangup \<Rightarrow> queue_event cfg sid
                        ((plain_media_event Ev_HANGUP)\<lparr>me_reason := cause, me_payload := body\<rparr>) g4
                    | Fs_barge_in \<Rightarrow> queue_event cfg sid ((plain_media_event Ev_BARGE_IN)\<lparr>me_payload := body\<rparr>) g4
                    | Fs_heartbeat \<Rightarrow> queue_event cfg sid ((plain_media_event Ev_HEARTBEAT)\<lparr>me_payload := body\<rparr>) g4
                    | _ \<Rightarrow> g4))))"

text \<open>
  An event of a channel without a session updates the correlation store, unless the leg already has
  a real UUID and the event comes from another channel.
\<close>

definition real_uuid :: "string \<Rightarrow> corr_store \<Rightarrow> string option" where
  "real_uuid mango_leg s =
     (case corr_get mango_leg s of
        None \<Rightarrow> None
      | Some c \<Rightarrow> (case cs_freeswitch_uuid c of
                     Some u \<Rightarrow> if u = [] then None else Some (strip u)
                   | None \<Rightarrow> None))"

definition apply_correlation_only_event ::
    "time \<Rightarrow> string list \<Rightarrow> string \<Rightarrow> fs_event \<Rightarrow> esl_event \<Rightarrow> string option \<Rightarrow> gateway \<Rightarrow> gateway" where
  "apply_correlation_only_event now keys mango_leg k ev fs_uuid g =
     (case event_leg_state k of
        None \<Rightarrow> g
      | Some state \<Rightarrow>
          (let current = real_uuid mango_leg (gw_corr g);
               incoming = (case stripped fs_uuid of Some [] \<Rightarrow> None | u \<Rightarrow> u);
               provisional = (incoming = Some mango_leg \<and> truthy fs_uuid);
               has_real = (truthy current \<and> current \<noteq> Some mango_leg);
               effective = (if provisional \<and> has_real then current else fs_uuid)
           in if has_real \<and> truthy incoming \<and> incoming \<noteq> current then g
              else (let g1 = g\<lparr>gw_corr := snd (upsert_mapping now mango_leg None effective None (gw_corr g))\<rparr>
                    in correlate_state now keys mango_leg effective None (Some state) ev g1)))"

definition process_plain_event ::
    "fs_config \<Rightarrow> resampler \<Rightarrow> gateway_env \<Rightarrow> string list \<Rightarrow> esl_event \<Rightarrow> gateway
     \<Rightarrow> (app_error, unit) result \<times> gateway" where
  "process_plain_event cfg rs env keys ev g =
     (case normalize_esl_event ev g of
        (k, Some sid, fs_uuid) \<Rightarrow>
          apply_normalized_event cfg rs (ge_now env) keys sid k ev
            (update_correlation (ge_now env) sid fs_uuid g)
      | (k, None, fs_uuid) \<Rightarrow>
          (let leg = (case infer_mango_leg_id_from_event ev of
                        Some l \<Rightarrow> Some l
                      | None \<Rightarrow> if truthy fs_uuid
                                then find_mango_leg_id_by_freeswitch_uuid (the fs_uuid) (gw_corr g) else None)
           in case leg of
                None \<Rightarrow> (Inr (), g)
              | Some l \<Rightarrow>
                  (case gw_leg_to_session g l of
                     Some sid \<Rightarrow>
                       if truthy fs_uuid
                       then apply_normalized_event cfg rs (ge_now env) keys sid k ev
                              (promote_session_uuid env sid l (the fs_uuid) g)
                       else (Inr (), apply_correlation_only_event (ge_now env) keys l k ev fs_uuid g)
                   | None \<Rightarrow> (Inr (), apply_correlation_only_event (ge_now env) keys l k ev fs_uuid g))))"

definition handle_esl_disconnect :: "gateway \<Rightarrow> gateway" where
  "handle_esl_disconnect g = g\<lparr>gw_esl := False\<rparr>"

section \<open>What a receiver gets\<close>

lemma concat_frames: "n \<noteq> 0 \<Longrightarrow> concat (frames n xs) = xs"
  by (induction n xs rule: frames.induct) (subst frames.simps, simp)

lemma frames_nonempty: "f \<in> set (frames n xs) \<Longrightarrow> f \<noteq> [] \<and> length f \<le> n"
  by (induction n xs rule: frames.induct) (subst (asm) (2) frames.simps, auto split: if_splits)

definition runtime_ok :: "fs_config \<Rightarrow> rtp_runtime \<Rightarrow> bool" where
  "runtime_ok cfg rt \<longleftrightarrow> 0 \<le> rt_seq rt \<and> rt_seq rt < 65536 \<and> 0 \<le> rt_ts rt \<and> rt_ts rt < 2 ^ 32
     \<and> 0 \<le> rt_ssrc rt \<and> rt_ssrc rt < 2 ^ 32
     \<and> length (rt_pending_outbound rt) \<le> buffer_max cfg
     \<and> (rt_pending_outbound rt \<noteq> [] \<longrightarrow> rt_remote_addr rt = None)"

text \<open>What a frame becomes on the wire, and the sequence number a receiver reads in it.\<close>

definition wire_payload :: "fs_config \<Rightarrow> byte list \<Rightarrow> byte list" where
  "wire_payload cfg data = (if uses_sendmsg_unicast cfg then data else extract_rtp_payload data)"

definition wire_seq :: "byte list \<Rightarrow> int" where
  "wire_seq data = be_val (take 2 (drop 2 data))"

lemma send_frame_ok:
  assumes "runtime_ok cfg rt" "f \<noteq> []"
  obtains rt' data where "send_frame cfg remote f rt = Inr rt'" "rt_sent rt' = rt_sent rt @ [(remote, data)]"
    "wire_payload cfg data = f" "\<not> uses_sendmsg_unicast cfg \<Longrightarrow> wire_seq data = rt_seq rt"
    "rt_seq rt' = (rt_seq rt + 1) mod 65536" "runtime_ok cfg rt'"
    "rt_remote_addr rt' = rt_remote_addr rt" "rt_pending_outbound rt' = rt_pending_outbound rt"
proof (cases "uses_sendmsg_unicast cfg")
  case True
  show ?thesis
    by (rule that [of "rt\<lparr>rt_sent := rt_sent rt @ [(remote, f)], rt_seq := (rt_seq rt + 1) mod 65536,
          rt_ts := (rt_ts rt + max 1 (int (length f div sample_div cfg))) mod 2 ^ 32\<rparr>" f])
       (use True assms in \<open>simp_all add: send_frame_def wire_payload_def runtime_ok_def\<close>)
next
  case False
  obtain packet where p: "build_rtp_packet f (fg_rtp_payload_type cfg) (rt_seq rt) (rt_ts rt) (rt_ssrc rt) = Some packet"
    "extract_rtp_payload packet = f" "be_val (take 2 (drop 2 packet)) = rt_seq rt"
    using rtp_roundtrip [OF assms(2), of "rt_seq rt" "rt_ts rt" "rt_ssrc rt" "fg_rtp_payload_type cfg"] assms(1)
    by (auto simp: runtime_ok_def)
  show ?thesis
    by (rule that [of "rt\<lparr>rt_sent := rt_sent rt @ [(remote, packet)], rt_seq := (rt_seq rt + 1) mod 65536,
          rt_ts := (rt_ts rt + max 1 (int (length f div sample_div cfg))) mod 2 ^ 32\<rparr>" packet])
       (use False assms p in \<open>simp_all add: send_frame_def wire_payload_def wire_seq_def runtime_ok_def\<close>)
qed

text \<open>Sending touches the runtimes and the counters only.\<close>

definition rtp_frame :: "gateway \<Rightarrow> gateway \<Rightarrow> bool" where
  "rtp_frame g g' \<longleftrightarrow> gw_queues g' = gw_queues g \<and> gw_handles g' = gw_handles g
     \<and> gw_closed g' = gw_closed g \<and> gw_audio_out_bytes g' = gw_audio_out_bytes g
     \<and> gw_leg_to_session g' = gw_leg_to_session g \<and> gw_uuid_to_session g' = gw_uuid_to_session g
     \<and> gw_correlation g' = gw_correlation g \<and> gw_lifecycle g' = gw_lifecycle g
     \<and> gw_watchdogs g' = gw_watchdogs g \<and> gw_esl g' = gw_esl g \<and> gw_esl_sent g' = gw_esl_sent g
     \<and> gw_corr g' = gw_corr g \<and> dom (gw_media_stats g') = dom (gw_media_stats g)"

lemma rtp_frame_refl [simp]: "rtp_frame g g"
  by (simp add: rtp_frame_def)

lemma rtp_frame_trans: "rtp_frame a b \<Longrightarrow> rtp_frame b c \<Longrightarrow> rtp_frame a c"
  unfolding rtp_frame_def by (elim conjE, intro conjI) (simp_all only:)

lemma rtp_frame_rtp: "rtp_frame g (g\<lparr>gw_rtp := m\<rparr>)"
  by (simp add: rtp_frame_def)

lemma rtp_frame_stats: "rtp_frame g (on_stats sid f g)"
proof -
  have "dom (gw_media_stats (on_stats sid f g)) = dom (gw_media_stats g)"
    by (auto simp: on_stats_def dom_def)
  then show ?thesis unfolding rtp_frame_def by (simp add: on_stats_def)
qed

text \<open>What sending frames has done: the runtime, the datagrams and the gateway after it.\<close>

definition sent_run ::
    "fs_config \<Rightarrow> string \<Rightarrow> address \<Rightarrow> byte list list \<Rightarrow> rtp_runtime \<Rightarrow> gateway
     \<Rightarrow> rtp_runtime \<Rightarrow> byte list list \<Rightarrow> gateway \<Rightarrow> bool" where
  "sent_run cfg sid remote fs rt g rt' datas g' \<longleftrightarrow>
     send_frames cfg sid remote fs rt g = (Inr (), g')
     \<and> gw_rtp g' = (gw_rtp g)(sid \<mapsto> rt') \<and> rt_sent rt' = rt_sent rt @ map (Pair remote) datas
     \<and> map (wire_payload cfg) datas = fs
     \<and> (\<not> uses_sendmsg_unicast cfg \<longrightarrow> map wire_seq datas = map (\<lambda>i. (rt_seq rt + int i) mod 65536) [0..<length fs])
     \<and> runtime_ok cfg rt' \<and> rt_remote_addr rt' = rt_remote_addr rt
     \<and> rt_pending_outbound rt' = rt_pending_outbound rt
     \<and> rtp_frame g g'"

lemma sent_run_cons:
  assumes s: "send_frame cfg remote f rt = Inr rt1" "rt_sent rt1 = rt_sent rt @ [(remote, data)]"
    "wire_payload cfg data = f" "\<not> uses_sendmsg_unicast cfg \<Longrightarrow> wire_seq data = rt_seq rt"
    "rt_seq rt1 = (rt_seq rt + 1) mod 65536" "runtime_ok cfg rt" "rt_remote_addr rt1 = rt_remote_addr rt"
    "rt_pending_outbound rt1 = rt_pending_outbound rt"
    and r: "sent_run cfg sid remote fs rt1 (on_stats sid (count_out f) g) rt' datas g'"
  shows "sent_run cfg sid remote (f # fs) rt g rt' (data # datas) g'"
proof -
  have fields: "gw_rtp (on_stats sid (count_out f) g) = gw_rtp g" by (simp add: on_stats_def)
  have head: "[0..<length (f # fs)] = 0 # map Suc [0..<length fs]"
    by (simp add: upt_conv_Cons map_Suc_upt del: upt_Suc)
  have step: "(rt_seq rt1 + int i) mod 65536 = (rt_seq rt + int (Suc i)) mod 65536" for i
  proof -
    have "(rt_seq rt1 + int i) mod 65536 = (rt_seq rt + 1 + int i) mod 65536"
      unfolding s(5) by (rule mod_add_left_eq)
    also have "rt_seq rt + 1 + int i = rt_seq rt + int (Suc i)" by simp
    finally show ?thesis .
  qed
  have seqs: "map wire_seq (data # datas) = map (\<lambda>i. (rt_seq rt + int i) mod 65536) [0..<length (f # fs)]"
    if "\<not> uses_sendmsg_unicast cfg"
  proof -
    have "map wire_seq datas = map (\<lambda>i. (rt_seq rt1 + int i) mod 65536) [0..<length fs]"
      using that r unfolding sent_run_def by blast
    moreover have "wire_seq data = (rt_seq rt + int 0) mod 65536"
      using that s(4,6) by (simp add: runtime_ok_def)
    ultimately show ?thesis unfolding head list.map(2) map_map comp_def step [symmetric] by simp
  qed
  then have "\<not> uses_sendmsg_unicast cfg
      \<longrightarrow> map wire_seq (data # datas) = map (\<lambda>i. (rt_seq rt + int i) mod 65536) [0..<length (f # fs)]"
    by blast
  moreover have "rtp_frame g g'"
    using r unfolding sent_run_def by (blast intro: rtp_frame_trans rtp_frame_stats)
  moreover have "send_frames cfg sid remote (f # fs) rt g = (Inr (), g')" "gw_rtp g' = (gw_rtp g)(sid \<mapsto> rt')"
    "rt_sent rt' = rt_sent rt @ map (Pair remote) (data # datas)" "map (wire_payload cfg) (data # datas) = f # fs"
    "runtime_ok cfg rt'" "rt_remote_addr rt' = rt_remote_addr rt" "rt_pending_outbound rt' = rt_pending_outbound rt"
    using r s(1,2,3,7,8) unfolding sent_run_def fields by simp_all
  ultimately show ?thesis unfolding sent_run_def by blast
qed

lemma send_frames_run:
  assumes "runtime_ok cfg rt" "\<forall>f\<in>set fs. f \<noteq> []"
  shows "\<exists>rt' datas g'. sent_run cfg sid remote fs rt g rt' datas g'"
  using assms
proof (induction fs arbitrary: rt g)
  case Nil
  have "sent_run cfg sid remote [] rt g rt [] (g\<lparr>gw_rtp := (gw_rtp g)(sid \<mapsto> rt)\<rparr>)"
    using Nil rtp_frame_rtp by (simp add: sent_run_def)
  then show ?case by blast
next
  case (Cons f fs)
  obtain rt1 data where s: "send_frame cfg remote f rt = Inr rt1" "rt_sent rt1 = rt_sent rt @ [(remote, data)]"
    "wire_payload cfg data = f" "\<not> uses_sendmsg_unicast cfg \<Longrightarrow> wire_seq data = rt_seq rt"
    "rt_seq rt1 = (rt_seq rt + 1) mod 65536" "runtime_ok cfg rt1"
    "rt_remote_addr rt1 = rt_remote_addr rt" "rt_pending_outbound rt1 = rt_pending_outbound rt"
    by (rule send_frame_ok [OF Cons.prems(1)]) (use Cons.prems(2) in auto)
  obtain rt' datas g' where "sent_run cfg sid remote fs rt1 (on_stats sid (count_out f) g) rt' datas g'"
    using Cons.IH [OF s(6)] Cons.prems(2) by fastforce
  from sent_run_cons [OF s(1-3) s(4,5) Cons.prems(1) s(7,8) this] show ?case by blast
qed

text \<open>
  C31. Audio that is sent to a known endpoint leaves completely and in order. \<open>_send_rtp_audio\<close> raises for
  half a sample (an odd number of bytes at a configured rate other than 16000, and only then), with nothing sent
  and nothing changed. Otherwise it succeeds and hands the transport packets to that endpoint whose payloads,
  as \<open>_extract_rtp_payload\<close> reads them, put together are the encoded audio, none of them empty or longer than
  the frame size, and leaves the counters in range. Packets with an RTP header are numbered from the current
  sequence number without a gap (modulo 65536); in the mode \<open>sendmsg_unicast\<close> the audio goes out without header
  and number.
\<close>

theorem audio_stream_sent:
  fixes rs :: resampler and pcm :: "byte list"
  assumes "gw_rtp g sid = Some rt" and "rt_remote_addr rt = Some remote" and "runtime_ok cfg rt"
  shows "if half_sample_at (fg_rtp_sample_rate_hz cfg) pcm then send_rtp_audio cfg rs sid pcm rt g = (Inl half_sample, g)
     else \<exists>encoded g' rt' packets.
       encode_outbound_audio rs pcm (fg_rtp_outbound_codec cfg) (fg_rtp_sample_rate_hz cfg) = Inr encoded
     \<and> send_rtp_audio cfg rs sid pcm rt g = (Inr (), g')
     \<and> gw_rtp g' = (gw_rtp g)(sid \<mapsto> rt') \<and> runtime_ok cfg rt'
     \<and> rt_sent rt' = rt_sent rt @ map (Pair remote) packets
     \<and> concat (map (wire_payload cfg) packets) = encoded
     \<and> (\<forall>p\<in>set packets. wire_payload cfg p \<noteq> [] \<and> length (wire_payload cfg p) \<le> frame_size cfg encoded)
     \<and> (uses_sendmsg_unicast cfg
        \<or> map wire_seq packets = map (\<lambda>i. (rt_seq rt + int i) mod 65536) [0..<length packets])"
proof (cases "half_sample_at (fg_rtp_sample_rate_hz cfg) pcm")
  case True
  with assms(2) encode_outbound_cases [of "fg_rtp_sample_rate_hz cfg" pcm rs "fg_rtp_outbound_codec cfg"]
  show ?thesis by (simp add: send_rtp_audio_def)
next
  case False
  with encode_outbound_cases [of "fg_rtp_sample_rate_hz cfg" pcm rs "fg_rtp_outbound_codec cfg"]
  obtain encoded where encoded:
    "encode_outbound_audio rs pcm (fg_rtp_outbound_codec cfg) (fg_rtp_sample_rate_hz cfg) = Inr encoded" by auto
  let ?fs = "frames (frame_size cfg encoded) encoded"
  have size: "frame_size cfg encoded \<noteq> 0" by (simp add: frame_size_def Let_def)
  have fs: "\<forall>f\<in>set ?fs. f \<noteq> []" using frames_nonempty by blast
  obtain rt' datas g' where run: "sent_run cfg sid remote ?fs rt g rt' datas g'"
    using send_frames_run [OF assms(3) fs] by blast
  then have r: "send_frames cfg sid remote ?fs rt g = (Inr (), g')"
    "gw_rtp g' = (gw_rtp g)(sid \<mapsto> rt')" "rt_sent rt' = rt_sent rt @ map (Pair remote) datas"
    "map (wire_payload cfg) datas = ?fs"
    "\<not> uses_sendmsg_unicast cfg \<longrightarrow> map wire_seq datas = map (\<lambda>i. (rt_seq rt + int i) mod 65536) [0..<length ?fs]"
    "runtime_ok cfg rt'"
    unfolding sent_run_def by blast+
  have "send_rtp_audio cfg rs sid pcm rt g = (Inr (), g')"
    using r(1) assms(2) encoded by (simp add: send_rtp_audio_def)
  moreover have "concat (map (wire_payload cfg) datas) = encoded"
    using r(4) concat_frames [OF size] by simp
  moreover have "\<forall>p\<in>set datas. wire_payload cfg p \<noteq> [] \<and> length (wire_payload cfg p) \<le> frame_size cfg encoded"
    using frames_nonempty [of _ "frame_size cfg encoded" encoded] r(4) by (metis image_eqI list.set_map)
  moreover have "length ?fs = length datas" using r(4) by (metis length_map)
  ultimately show ?thesis using r(2,3,5,6) encoded False by (simp del: fun_upd_apply) metis
qed

section \<open>Bounded and consistent\<close>

definition tables_ok :: "gateway \<Rightarrow> bool" where
  "tables_ok g \<longleftrightarrow> dom (gw_queues g) = dom (gw_handles g) \<and> dom (gw_audio_out_bytes g) = dom (gw_handles g)
     \<and> dom (gw_correlation g) = dom (gw_handles g) \<and> dom (gw_lifecycle g) = dom (gw_handles g)
     \<and> dom (gw_media_stats g) = dom (gw_handles g) \<and> dom (gw_rtp g) \<subseteq> dom (gw_handles g)
     \<and> gw_closed g \<inter> dom (gw_handles g) = {}
     \<and> ran (gw_leg_to_session g) \<subseteq> dom (gw_handles g) \<union> gw_closed g
     \<and> ran (gw_uuid_to_session g) \<subseteq> dom (gw_handles g) \<union> gw_closed g"

definition buffers_ok :: "fs_config \<Rightarrow> gateway \<Rightarrow> bool" where
  "buffers_ok cfg g \<longleftrightarrow> (\<forall>q\<in>ran (gw_queues g). length q \<le> queue_max cfg)
     \<and> (\<forall>rt\<in>ran (gw_rtp g). runtime_ok cfg rt)"

definition gateway_ok :: "fs_config \<Rightarrow> gateway \<Rightarrow> bool" where
  "gateway_ok cfg g \<longleftrightarrow> tables_ok g \<and> buffers_ok cfg g"

lemma ran_upd_subset: "ran (m(k \<mapsto> v)) \<subseteq> insert v (ran m)"
  by (auto simp: ran_def)

lemma ran_upd_None: "ran (m(k := None)) \<subseteq> ran m"
  by (auto simp: ran_def split: if_splits)

lemma stats_ok: "gateway_ok cfg g \<Longrightarrow> gateway_ok cfg (on_stats sid f g)"
proof -
  assume ok: "gateway_ok cfg g"
  have "dom (gw_media_stats (on_stats sid f g)) = dom (gw_media_stats g)"
    by (auto simp: on_stats_def dom_def)
  then show ?thesis
    using ok unfolding gateway_ok_def tables_ok_def buffers_ok_def by (simp add: on_stats_def)
qed

lemma set_queue_ok:
  assumes "gateway_ok cfg g" "gw_queues g sid \<noteq> None" "length q \<le> queue_max cfg"
  shows "gateway_ok cfg (g\<lparr>gw_queues := (gw_queues g)(sid \<mapsto> q)\<rparr>)"
proof -
  have "dom ((gw_queues g)(sid \<mapsto> q)) = dom (gw_queues g)" using assms(2) by auto
  moreover have "\<forall>x\<in>ran ((gw_queues g)(sid \<mapsto> q)). length x \<le> queue_max cfg"
    using assms ran_upd_subset [of "gw_queues g" sid q] by (auto simp: gateway_ok_def buffers_ok_def)
  ultimately show ?thesis
    using assms(1) unfolding gateway_ok_def tables_ok_def buffers_ok_def by (simp del: dom_fun_upd)
qed

lemma queue_event_ok:
  assumes "gateway_ok cfg g"
  shows "gateway_ok cfg (queue_event cfg sid evt g)"
proof (cases "gw_queues g sid")
  case (Some q)
  have q: "length q \<le> queue_max cfg"
    using assms Some by (auto simp: gateway_ok_def buffers_ok_def ran_def)
  show ?thesis
  proof (cases "length q < queue_max cfg")
    case True
    with Some assms show ?thesis by (simp add: queue_event_def set_queue_ok)
  next
    case False
    let ?g = "on_stats sid (\<lambda>st. st\<lparr>mt_overruns := mt_overruns st + 1\<rparr>) g"
    have "0 < queue_max cfg" by (simp add: queue_max_def)
    then have "length (tl q @ [evt]) \<le> queue_max cfg" using q by simp
    moreover have "gw_queues ?g = gw_queues g" by (simp add: on_stats_def)
    ultimately have "gateway_ok cfg (?g\<lparr>gw_queues := (gw_queues ?g)(sid \<mapsto> tl q @ [evt])\<rparr>)"
      by (intro set_queue_ok stats_ok assms) (use Some in simp_all)
    with False Some \<open>gw_queues ?g = gw_queues g\<close> show ?thesis by (simp add: queue_event_def)
  qed
qed (use assms in \<open>simp add: queue_event_def\<close>)

lemma set_runtime_ok:
  assumes "gateway_ok cfg g" "gw_handles g sid \<noteq> None" "runtime_ok cfg rt"
  shows "gateway_ok cfg (g\<lparr>gw_rtp := (gw_rtp g)(sid \<mapsto> rt)\<rparr>)"
proof -
  have "\<forall>x\<in>ran ((gw_rtp g)(sid \<mapsto> rt)). runtime_ok cfg x"
    using assms ran_upd_subset [of "gw_rtp g" sid rt] by (auto simp: gateway_ok_def buffers_ok_def)
  moreover have "dom ((gw_rtp g)(sid \<mapsto> rt)) \<subseteq> dom (gw_handles g)"
    using assms by (auto simp: gateway_ok_def tables_ok_def)
  ultimately show ?thesis
    using assms(1) unfolding gateway_ok_def tables_ok_def buffers_ok_def by (simp del: dom_fun_upd)
qed

lemma rtp_frame_ok:
  assumes "gateway_ok cfg g" "rtp_frame g g'" "gw_rtp g' = (gw_rtp g)(sid \<mapsto> rt)" "runtime_ok cfg rt"
    and "gw_handles g sid \<noteq> None"
  shows "gateway_ok cfg g'"
proof -
  have "\<forall>x\<in>ran (gw_rtp g'). runtime_ok cfg x"
    using assms ran_upd_subset [of "gw_rtp g" sid rt] by (auto simp: gateway_ok_def buffers_ok_def)
  moreover have "dom (gw_rtp g') \<subseteq> dom (gw_handles g)"
    using assms by (auto simp: gateway_ok_def tables_ok_def)
  ultimately show ?thesis
    using assms(1,2) unfolding gateway_ok_def tables_ok_def buffers_ok_def rtp_frame_def by simp
qed

lemma runtime_handle: "gateway_ok cfg g \<Longrightarrow> gw_rtp g sid = Some rt \<Longrightarrow> gw_handles g sid \<noteq> None \<and> runtime_ok cfg rt"
  by (auto simp: gateway_ok_def tables_ok_def buffers_ok_def ran_def)

text \<open>Audio to a known endpoint: it fails for half a sample only, and the invariant stays.\<close>

definition sent_or_half :: "(app_error, unit) result \<Rightarrow> bool" where
  "sent_or_half r \<longleftrightarrow> r = Inr () \<or> r = Inl half_sample"

lemma send_rtp_audio_ok:
  assumes "gateway_ok cfg g" "gw_rtp g sid = Some rt" "rt_remote_addr rt = Some remote"
  obtains r g' rt' where "send_rtp_audio cfg rs sid pcm rt g = (r, g')" "gateway_ok cfg g'"
    "r = (if half_sample_at (fg_rtp_sample_rate_hz cfg) pcm then Inl half_sample else Inr ())"
    "gw_rtp g' sid = Some rt'" "rt_remote_addr rt' = Some remote" "rtp_frame g g'"
proof (cases "half_sample_at (fg_rtp_sample_rate_hz cfg) pcm")
  case True
  with assms encode_outbound_cases [of "fg_rtp_sample_rate_hz cfg" pcm rs "fg_rtp_outbound_codec cfg"]
  have "send_rtp_audio cfg rs sid pcm rt g = (Inl half_sample, g)" by (simp add: send_rtp_audio_def)
  with True assms show ?thesis by (intro that [of "Inl half_sample" g rt]) (simp_all add: rtp_frame_def)
next
  case False
  note h = runtime_handle [OF assms(1,2)]
  from False encode_outbound_cases [of "fg_rtp_sample_rate_hz cfg" pcm rs "fg_rtp_outbound_codec cfg"]
  obtain encoded where encoded:
    "encode_outbound_audio rs pcm (fg_rtp_outbound_codec cfg) (fg_rtp_sample_rate_hz cfg) = Inr encoded" by auto
  obtain rt' datas g' where "sent_run cfg sid remote (frames (frame_size cfg encoded) encoded) rt g rt' datas g'"
    using send_frames_run [OF conjunct2 [OF h], of "frames (frame_size cfg encoded) encoded" sid remote g]
      frames_nonempty by blast
  note run = this [unfolded sent_run_def]
  show ?thesis
  proof (rule that [of "Inr ()" g' rt'])
    show "send_rtp_audio cfg rs sid pcm rt g = (Inr (), g')"
      using run assms(3) encoded by (simp add: send_rtp_audio_def)
    show "gateway_ok cfg g'" using run rtp_frame_ok [OF assms(1) _ _ _ conjunct1 [OF h]] by blast
  qed (use run assms(3) False in auto)
qed

lemma send_chunks_ok:
  assumes "gateway_ok cfg g" "gw_rtp g sid = Some rt" "rt_remote_addr rt \<noteq> None"
  shows "\<exists>r g'. send_chunks cfg rs sid cs g = (r, g') \<and> sent_or_half r \<and> gateway_ok cfg g' \<and> rtp_frame g g'"
  using assms
proof (induction cs arbitrary: g rt)
  case Nil
  then show ?case by (simp add: sent_or_half_def rtp_frame_def)
next
  case (Cons c cs)
  obtain remote where r: "rt_remote_addr rt = Some remote" using Cons.prems(3) by auto
  obtain r1 g1 rt1 where s: "send_rtp_audio cfg rs sid c rt g = (r1, g1)" "gateway_ok cfg g1"
    "r1 = (if half_sample_at (fg_rtp_sample_rate_hz cfg) c then Inl half_sample else Inr ())"
    "gw_rtp g1 sid = Some rt1" "rt_remote_addr rt1 = Some remote" "rtp_frame g g1"
    using send_rtp_audio_ok [OF Cons.prems(1,2) r] .
  show ?case
  proof (cases r1)
    case (Inl e)
    with s Cons.prems(2) show ?thesis by (simp add: sent_or_half_def split: if_splits)
  next
    case (Inr u)
    from Cons.IH [OF s(2,4)] s(5) obtain r g' where "send_chunks cfg rs sid cs g1 = (r, g')" "sent_or_half r"
      "gateway_ok cfg g'" "rtp_frame g1 g'" by auto
    with Inr s(1,6) Cons.prems(2) show ?thesis by (auto intro: rtp_frame_trans)
  qed
qed

lemma runtime_ok_clear:
  "runtime_ok cfg rt \<Longrightarrow> runtime_ok cfg (rt\<lparr>rt_pending_outbound := []\<rparr>)"
  "runtime_ok cfg rt \<Longrightarrow> rt_pending_outbound rt = [] \<Longrightarrow> runtime_ok cfg (rt\<lparr>rt_remote_addr := Some a\<rparr>)"
  by (auto simp: runtime_ok_def)

text \<open>Setting the endpoint flushes the buffer at once, so that buffered audio and a known endpoint never meet.\<close>

lemma set_remote_ok:
  assumes "gateway_ok cfg g" "gw_rtp g sid = Some rt"
  obtains r g' where "set_remote cfg rs sid addr rt g = (r, g')" "sent_or_half r" "gateway_ok cfg g'" "rtp_frame g g'"
proof (cases "rt_pending_outbound rt = []")
  case True
  note h = runtime_handle [OF assms]
  let ?g = "g\<lparr>gw_rtp := (gw_rtp g)(sid \<mapsto> rt\<lparr>rt_remote_addr := Some addr\<rparr>)\<rparr>"
  have "gateway_ok cfg ?g" by (rule set_runtime_ok [OF assms(1)]) (use h True in \<open>simp_all add: runtime_ok_clear\<close>)
  then show ?thesis
    by (intro that [of "Inr ()" ?g])
      (use True rtp_frame_rtp in \<open>simp_all add: set_remote_def flush_pending_audio_def sent_or_half_def\<close>)
next
  case False
  note h = runtime_handle [OF assms]
  let ?rt = "rt\<lparr>rt_remote_addr := Some addr, rt_pending_outbound := []\<rparr>"
  let ?g = "g\<lparr>gw_rtp := (gw_rtp g)(sid \<mapsto> ?rt)\<rparr>"
  have "runtime_ok cfg ?rt" using h by (simp add: runtime_ok_def)
  then have "gateway_ok cfg ?g" using h by (intro set_runtime_ok [OF assms(1)]) simp_all
  from send_chunks_ok [OF this, of sid ?rt rs "rt_pending_outbound rt"]
  obtain r g' where "send_chunks cfg rs sid (rt_pending_outbound rt) ?g = (r, g')" "sent_or_half r" "gateway_ok cfg g'"
    "rtp_frame ?g g'" by auto
  moreover have "rtp_frame g ?g" by (rule rtp_frame_rtp)
  ultimately show ?thesis
    using False by (intro that [of r g']) (auto simp: set_remote_def flush_pending_audio_def intro: rtp_frame_trans)
qed

lemma prime_remote_ok:
  assumes "gateway_ok cfg g"
  shows "\<exists>r g'. prime_remote cfg rs sid ep g = (r, g') \<and> sent_or_half r \<and> gateway_ok cfg g' \<and> rtp_frame g g'"
proof (cases "uses_sendmsg_unicast cfg \<or> gw_rtp g sid = None \<or> ep = None
    \<or> (\<exists>rt. gw_rtp g sid = Some rt \<and> rt_remote_addr rt \<noteq> None)")
  case True
  with assms show ?thesis by (auto simp: prime_remote_def sent_or_half_def rtp_frame_def split: option.splits)
next
  case False
  then obtain rt addr where "gw_rtp g sid = Some rt" "ep = Some addr" "\<not> uses_sendmsg_unicast cfg"
    by (cases "gw_rtp g sid"; cases ep) auto
  moreover have "rt_remote_addr rt = None" using False \<open>gw_rtp g sid = Some rt\<close> by blast
  moreover obtain r g' where "set_remote cfg rs sid addr rt g = (r, g')" "sent_or_half r" "gateway_ok cfg g'"
    "rtp_frame g g'" using set_remote_ok [OF assms \<open>gw_rtp g sid = Some rt\<close>] .
  ultimately show ?thesis by (simp add: prime_remote_def)
qed

lemma datagram_ok:
  assumes "gateway_ok cfg g"
  shows "gateway_ok cfg (snd (on_rtp_datagram cfg rs now sid data addr g))"
proof (cases "gw_rtp g sid")
  case (Some rt)
  obtain r g' where "set_remote cfg rs sid addr rt g = (r, g')" "gateway_ok cfg g'"
    using set_remote_ok [OF assms Some] .
  with Some show ?thesis
    by (auto simp: on_rtp_datagram_def Let_def intro!: queue_event_ok stats_ok split: sum.split)
qed (use assms in \<open>simp add: on_rtp_datagram_def\<close>)

lemma buffer_audio_ok:
  assumes "gateway_ok cfg g" "gw_rtp g sid = Some rt" "rt_remote_addr rt = None"
  shows "gateway_ok cfg (buffer_audio cfg sid pcm rt g)"
proof -
  note h = runtime_handle [OF assms(1,2)]
  let ?full = "buffer_max cfg \<le> length (rt_pending_outbound rt)"
  let ?kept = "if ?full then tl (rt_pending_outbound rt) else rt_pending_outbound rt"
  let ?g = "if ?full then on_stats sid (\<lambda>st. st\<lparr>mt_underruns := mt_underruns st + 1\<rparr>) g else g"
  have "0 < buffer_max cfg" by (simp add: buffer_max_def)
  then have "runtime_ok cfg (rt\<lparr>rt_pending_outbound := ?kept @ [pcm]\<rparr>)"
    using h assms(3) by (auto simp: runtime_ok_def)
  moreover have "gateway_ok cfg ?g" using assms(1) by (simp add: stats_ok)
  moreover have "gw_handles ?g sid \<noteq> None" using h by (simp add: on_stats_def)
  ultimately have "gateway_ok cfg (?g\<lparr>gw_rtp := (gw_rtp ?g)(sid \<mapsto> rt\<lparr>rt_pending_outbound := ?kept @ [pcm]\<rparr>)\<rparr>)"
    by (intro set_runtime_ok)
  then show ?thesis unfolding buffer_audio_def Let_def .
qed

text \<open>Sending fails only where the code refuses it, or for half a sample, before anything is sent.\<close>

lemma send_audio_ok:
  assumes "gateway_ok cfg g"
  obtains r g' where "send_audio cfg rs sid pcm g = (r, g')" "gateway_ok cfg g'"
    "r \<in> {Inr (), Inl not_ready} \<or> r = Inl half_sample \<and> half_sample_at (fg_rtp_sample_rate_hz cfg) pcm"
proof (cases "fg_mode cfg \<in> {''disabled'', ''scaffold''} \<or> gw_handles g sid = None")
  case True
  with assms show ?thesis
    by (intro that [of "if fg_mode cfg \<in> {''disabled'', ''scaffold''} then Inl not_ready else Inr ()" g])
       (auto simp: send_audio_def)
next
  case False
  let ?n = "case gw_audio_out_bytes g sid of None \<Rightarrow> 0 | Some n \<Rightarrow> n"
  let ?g = "g\<lparr>gw_audio_out_bytes := (gw_audio_out_bytes g)(sid \<mapsto> ?n + length pcm)\<rparr>"
  have "dom ((gw_audio_out_bytes g)(sid \<mapsto> ?n + length pcm)) = dom (gw_audio_out_bytes g)"
    using assms False by (auto simp: gateway_ok_def tables_ok_def)
  then have ok: "gateway_ok cfg ?g"
    using assms unfolding gateway_ok_def tables_ok_def buffers_ok_def by (simp del: dom_fun_upd)
  show ?thesis
  proof (cases "fg_mode cfg = ''esl_rtp''")
    case True
    note esl = True
    show ?thesis
    proof (cases "gw_rtp ?g sid")
      case None
      with esl False ok show ?thesis by (intro that [of "Inl not_ready" ?g]) (auto simp: send_audio_def Let_def)
    next
      case (Some rt)
      note h = runtime_handle [OF ok Some]
      show ?thesis
      proof (cases "rt_remote_addr rt")
        case None
        have "gateway_ok cfg (buffer_audio cfg sid pcm rt ?g)" by (rule buffer_audio_ok [OF ok Some None])
        with esl False Some None show ?thesis
          by (intro that [of "Inr ()" "buffer_audio cfg sid pcm rt ?g"]) (auto simp: send_audio_def Let_def)
      next
        case remote: (Some remote)
        obtain r g' where "send_rtp_audio cfg rs sid pcm rt ?g = (r, g')" "gateway_ok cfg g'"
          "r = (if half_sample_at (fg_rtp_sample_rate_hz cfg) pcm then Inl half_sample else Inr ())"
          using send_rtp_audio_ok [OF ok Some remote] .
        with esl False Some remote show ?thesis
          by (intro that [of r g']) (auto simp: send_audio_def Let_def)
      qed
    qed
  next
    case False
    with \<open>\<not> (fg_mode cfg \<in> {''disabled'', ''scaffold''} \<or> gw_handles g sid = None)\<close> ok show ?thesis
      by (intro that [of "Inr ()" ?g]) (auto simp: send_audio_def Let_def)
  qed
qed

lemma gateway_ok_cong:
  assumes "gateway_ok cfg g" "gw_queues g' = gw_queues g" "gw_handles g' = gw_handles g" "gw_closed g' = gw_closed g"
    "gw_audio_out_bytes g' = gw_audio_out_bytes g" "gw_rtp g' = gw_rtp g"
    "gw_leg_to_session g' = gw_leg_to_session g" "gw_uuid_to_session g' = gw_uuid_to_session g"
    "dom (gw_correlation g') = dom (gw_correlation g)" "dom (gw_lifecycle g') = dom (gw_lifecycle g)"
    "dom (gw_media_stats g') = dom (gw_media_stats g)"
  shows "gateway_ok cfg g'"
  using assms by (simp add: gateway_ok_def tables_ok_def buffers_ok_def)

lemma bookkeeping_ok:
  "gateway_ok cfg g \<Longrightarrow> gateway_ok cfg (g\<lparr>gw_corr := c\<rparr>)"
  "gateway_ok cfg g \<Longrightarrow> gateway_ok cfg (g\<lparr>gw_esl_sent := xs\<rparr>)"
  "gateway_ok cfg g \<Longrightarrow> gateway_ok cfg (g\<lparr>gw_esl := b\<rparr>)"
  "gateway_ok cfg g \<Longrightarrow> gateway_ok cfg (g\<lparr>gw_watchdogs := ws\<rparr>)"
  by (simp_all add: gateway_ok_def tables_ok_def buffers_ok_def)

lemma update_correlation_ok:
  assumes "gateway_ok cfg g" "sid \<in> dom (gw_handles g) \<union> gw_closed g"
  shows "gateway_ok cfg (update_correlation now sid u g)"
proof (cases "truthy u")
  case True
  have "dom ((gw_correlation g)(sid := map_option f (gw_correlation g sid))) = dom (gw_correlation g)" for f
    by (auto simp: dom_def)
  moreover have "ran ((gw_uuid_to_session g)(the u \<mapsto> sid)) \<subseteq> dom (gw_handles g) \<union> gw_closed g"
    using assms ran_upd_subset [of "gw_uuid_to_session g" "the u" sid] by (auto simp: gateway_ok_def tables_ok_def)
  ultimately show ?thesis
    using assms(1) True unfolding gateway_ok_def tables_ok_def buffers_ok_def update_correlation_def
    by (simp del: dom_fun_upd)
qed (use assms in \<open>simp add: update_correlation_def\<close>)

lemma correlate_state_ok: "gateway_ok cfg g \<Longrightarrow> gateway_ok cfg (correlate_state now keys leg u s st ev g)"
  by (rule gateway_ok_cong, assumption) (simp_all add: correlate_state_def split: option.splits)

lemma apply_normalized_event_ok:
  assumes "gateway_ok cfg g"
  shows "gateway_ok cfg (snd (apply_normalized_event cfg rs now keys sid k ev g))"
proof (cases "gw_lifecycle g sid")
  case (Some lc)
  obtain r g1 where g1: "try_set_remote_addr_from_event cfg rs sid ev g = (r, g1)" "gateway_ok cfg g1"
    using prime_remote_ok [OF assms] unfolding try_set_remote_addr_from_event_def by blast
  let ?g2 = "g1\<lparr>gw_lifecycle := (gw_lifecycle g1)(sid := map_option (\<lambda>st.
      lifecycle_after k (st\<lparr>lc_last_event := Some (fs_event_value k), lc_updated_at := Some now\<rparr>)) (gw_lifecycle g1 sid))\<rparr>"
  have "gateway_ok cfg ?g2" by (rule gateway_ok_cong [OF g1(2)]) (auto simp: dom_def)
  with Some g1 show ?thesis
    by (auto simp: apply_normalized_event_def Let_def
        intro!: queue_event_ok correlate_state_ok stats_ok split: option.split fs_event.split sum.split)
qed (use assms in \<open>simp add: apply_normalized_event_def\<close>)

lemma correlation_only_ok: "gateway_ok cfg g \<Longrightarrow> gateway_ok cfg (apply_correlation_only_event now keys leg k ev u g)"
  by (auto simp: apply_correlation_only_event_def Let_def intro!: correlate_state_ok bookkeeping_ok
      split: option.split)

lemma run_attach_sent: "\<exists>c. snd (run_attach_command env u l g) = g\<lparr>gw_esl_sent := c\<rparr>"
proof (cases "gw_esl g")
  case True
  then show ?thesis
    by (cases "ge_write_attach env") (auto simp: run_attach_command_def intro: exI [of _ "gw_esl_sent g"])
qed (auto simp: run_attach_command_def intro: exI [of _ "gw_esl_sent g"])

lemma run_attach_ok: "gateway_ok cfg g \<Longrightarrow> gateway_ok cfg (snd (run_attach_command env u l g))"
  using run_attach_sent [of env u l g] bookkeeping_ok(2) by fastforce

lemma promote_ok:
  assumes "gateway_ok cfg g" "sid \<in> dom (gw_handles g) \<union> gw_closed g"
  shows "gateway_ok cfg (promote_session_uuid env sid leg u g)"
proof -
  let ?g = "update_correlation (ge_now env) sid (Some u) g"
  let ?g2 = "?g\<lparr>gw_corr := snd (upsert_mapping (ge_now env) leg None (Some u) (Some sid) (gw_corr ?g))\<rparr>"
  have "gateway_ok cfg ?g" by (rule update_correlation_ok [OF assms])
  then have "gateway_ok cfg ?g2" by (rule bookkeeping_ok)
  then show ?thesis
    using run_attach_ok by (cases "gw_rtp ?g2 sid") (simp_all add: promote_session_uuid_def Let_def)
qed

lemma process_plain_event_ok:
  assumes "gateway_ok cfg g"
  shows "gateway_ok cfg (snd (process_plain_event cfg rs env keys ev g))"
proof -
  have uuid: "sid \<in> dom (gw_handles g) \<union> gw_closed g" if "gw_uuid_to_session g u = Some sid" for u sid
    using assms that by (auto simp: gateway_ok_def tables_ok_def ran_def)
  have leg: "sid \<in> dom (gw_handles g) \<union> gw_closed g" if "gw_leg_to_session g u = Some sid" for u sid
    using assms that by (auto simp: gateway_ok_def tables_ok_def ran_def)
  obtain k s u where n: "normalize_esl_event ev g = (k, s, u)" by (cases "normalize_esl_event ev g")
  show ?thesis
  proof (cases s)
    case (Some sid)
    have "sid \<in> dom (gw_handles g) \<union> gw_closed g"
      by (rule uuid) (use n Some in \<open>auto simp: normalize_esl_event_def\<close>)
    then have "gateway_ok cfg (update_correlation (ge_now env) sid u g)" by (rule update_correlation_ok [OF assms])
    from apply_normalized_event_ok [OF this] n Some show ?thesis by (simp add: process_plain_event_def)
  next
    case None
    define l where "l = (case infer_mango_leg_id_from_event ev of Some l \<Rightarrow> Some l
      | None \<Rightarrow> if truthy u then find_mango_leg_id_by_freeswitch_uuid (the u) (gw_corr g) else None)"
    have eq: "process_plain_event cfg rs env keys ev g = (case l of
        None \<Rightarrow> (Inr (), g)
      | Some l \<Rightarrow> (case gw_leg_to_session g l of
           Some sid \<Rightarrow> if truthy u then apply_normalized_event cfg rs (ge_now env) keys sid k ev
                            (promote_session_uuid env sid l (the u) g)
                        else (Inr (), apply_correlation_only_event (ge_now env) keys l k ev u g)
         | None \<Rightarrow> (Inr (), apply_correlation_only_event (ge_now env) keys l k ev u g)))"
      using n None by (simp add: process_plain_event_def Let_def l_def)
    show ?thesis
    proof (cases l)
      case None
      with eq assms show ?thesis by simp
    next
      case (Some leg_id)
      show ?thesis
      proof (cases "gw_leg_to_session g leg_id")
        case None
        with eq Some correlation_only_ok [OF assms] show ?thesis by simp
      next
        case sid: (Some sid)
        have "gateway_ok cfg (promote_session_uuid env sid leg_id (the u) g)"
          by (rule promote_ok [OF assms leg [OF sid]])
        from apply_normalized_event_ok [OF this] correlation_only_ok [OF assms] eq Some sid show ?thesis
          by (cases "truthy u") simp_all
      qed
    qed
  qed
qed

lemma tables_routes:
  assumes "tables_ok g"
  shows "ran (gw_leg_to_session g) \<subseteq> dom (gw_handles g) \<union> gw_closed g"
    and "ran (gw_uuid_to_session g) \<subseteq> dom (gw_handles g) \<union> gw_closed g"
  using assms unfolding tables_ok_def by simp_all

lemma insert_route: "A \<subseteq> insert x B \<Longrightarrow> B \<subseteq> D \<union> C \<Longrightarrow> A \<subseteq> insert x D \<union> C"
  by blast

lemma ran_pop: "ran (pop_opt k m) \<subseteq> ran m"
  using ran_upd_None [of m "the k"] by (simp add: pop_opt_def)

lemma detach_ok:
  assumes "gateway_ok cfg g"
  shows "gateway_ok cfg (detach_session cfg sid g)"
proof -
  define g2 where "g2 = (case gw_handles g sid of
      None \<Rightarrow> g\<lparr>gw_watchdogs := gw_watchdogs g - {sid}\<rparr>
    | Some h \<Rightarrow> if fg_mode cfg = ''esl_rtp''
               then run_hangup_command (mh_provider_leg_id h) (g\<lparr>gw_watchdogs := gw_watchdogs g - {sid}\<rparr>)
               else g\<lparr>gw_watchdogs := gw_watchdogs g - {sid}\<rparr>)"
  have g2: "gateway_ok cfg g2"
    using assms by (auto simp: g2_def run_hangup_command_def intro!: bookkeeping_ok split: option.split)
  let ?un = "\<lambda>m :: string \<rightharpoonup> string. case map_option mh_provider_leg_id (gw_handles g sid) of
      None \<Rightarrow> m | Some l \<Rightarrow> m(l := None)"
  have un: "ran (pop_opt k (?un m)) \<subseteq> ran m" for k m
    using ran_pop [of k "?un m"] ran_upd_None [of m] by (fastforce split: option.splits)
  let ?d = "\<lambda>k1 k2. g2\<lparr>gw_rtp := (gw_rtp g2)(sid := None), gw_closed := insert sid (gw_closed g2),
      gw_queues := (gw_queues g2)(sid := None), gw_handles := (gw_handles g2)(sid := None),
      gw_audio_out_bytes := (gw_audio_out_bytes g2)(sid := None),
      gw_uuid_to_session := pop_opt k1 (?un (gw_uuid_to_session g2)),
      gw_leg_to_session := pop_opt k2 (?un (gw_leg_to_session g2)),
      gw_correlation := (gw_correlation g2)(sid := None), gw_lifecycle := (gw_lifecycle g2)(sid := None),
      gw_media_stats := (gw_media_stats g2)(sid := None)\<rparr>"
  have "gateway_ok cfg (?d k1 k2)" for k1 k2
  proof -
    have old: "tables_ok g2" "buffers_ok cfg g2" using g2 by (simp_all add: gateway_ok_def)
    note tabs = old(1) [unfolded tables_ok_def]
    let ?e = "?d k1 k2"
    have fields: "gw_queues ?e = (gw_queues g2)(sid := None)" "gw_rtp ?e = (gw_rtp g2)(sid := None)"
      "gw_closed ?e = insert sid (gw_closed g2)" "dom (gw_handles ?e) = dom (gw_handles g2) - {sid}"
      "dom (gw_audio_out_bytes ?e) = dom (gw_audio_out_bytes g2) - {sid}"
      "dom (gw_correlation ?e) = dom (gw_correlation g2) - {sid}"
      "dom (gw_lifecycle ?e) = dom (gw_lifecycle g2) - {sid}"
      "dom (gw_media_stats ?e) = dom (gw_media_stats g2) - {sid}"
      "gw_leg_to_session ?e = pop_opt k2 (?un (gw_leg_to_session g2))"
      "gw_uuid_to_session ?e = pop_opt k1 (?un (gw_uuid_to_session g2))"
      by simp_all
    have routes: "ran (gw_leg_to_session ?e) \<subseteq> dom (gw_handles g2) \<union> gw_closed g2"
      "ran (gw_uuid_to_session ?e) \<subseteq> dom (gw_handles g2) \<union> gw_closed g2"
    proof -
      show "ran (gw_leg_to_session ?e) \<subseteq> dom (gw_handles g2) \<union> gw_closed g2"
        unfolding fields by (rule subset_trans [OF un tables_routes(1) [OF old(1)]])
      show "ran (gw_uuid_to_session ?e) \<subseteq> dom (gw_handles g2) \<union> gw_closed g2"
        unfolding fields by (rule subset_trans [OF un tables_routes(2) [OF old(1)]])
    qed
    have "buffers_ok cfg ?e"
      using old(2) ran_upd_None [of "gw_queues g2" sid] ran_upd_None [of "gw_rtp g2" sid]
      unfolding buffers_ok_def fields(1,2) by blast
    moreover have "tables_ok ?e"
      unfolding tables_ok_def
    proof (intro conjI)
      show "dom (gw_rtp ?e) \<subseteq> dom (gw_handles ?e)" unfolding fields using tabs by auto
      show "gw_closed ?e \<inter> dom (gw_handles ?e) = {}" unfolding fields using tabs by blast
      show "ran (gw_leg_to_session ?e) \<subseteq> dom (gw_handles ?e) \<union> gw_closed ?e"
        using routes(1) unfolding fields(3,4) by blast
      show "ran (gw_uuid_to_session ?e) \<subseteq> dom (gw_handles ?e) \<union> gw_closed ?e"
        using routes(2) unfolding fields(3,4) by blast
    qed (unfold fields, use tabs in simp_all)
    ultimately show ?thesis by (simp add: gateway_ok_def)
  qed
  then show ?thesis unfolding detach_session_def Let_def g2_def by (simp only: option.map)
qed

lemma register_media_ok:
  assumes "gateway_ok cfg g" "sid \<notin> dom (gw_handles g) \<union> gw_closed g"
  shows "gateway_ok cfg (register_media_session now sid call leg mango g)"
proof -
  have "\<forall>q\<in>ran ((gw_queues g)(sid \<mapsto> [])). length q \<le> queue_max cfg"
    using assms ran_upd_subset [of "gw_queues g" sid "[]"] by (auto simp: gateway_ok_def buffers_ok_def)
  moreover have "ran ((gw_leg_to_session g)(mango \<mapsto> sid, leg \<mapsto> sid)) \<subseteq> insert sid (ran (gw_leg_to_session g))"
    using ran_upd_subset [of "(gw_leg_to_session g)(mango \<mapsto> sid)" leg sid] ran_upd_subset [of "gw_leg_to_session g" mango sid]
    by blast
  moreover have "ran ((gw_uuid_to_session g)(leg \<mapsto> sid)) \<subseteq> insert sid (ran (gw_uuid_to_session g))"
    by (rule ran_upd_subset)
  moreover have "tables_ok g" "buffers_ok cfg g" using assms(1) by (simp_all add: gateway_ok_def)
  ultimately have facts: "\<forall>q\<in>ran ((gw_queues g)(sid \<mapsto> [])). length q \<le> queue_max cfg"
    "ran ((gw_leg_to_session g)(mango \<mapsto> sid, leg \<mapsto> sid)) \<subseteq> insert sid (ran (gw_leg_to_session g))"
    "ran ((gw_uuid_to_session g)(leg \<mapsto> sid)) \<subseteq> insert sid (ran (gw_uuid_to_session g))"
    "tables_ok g" "buffers_ok cfg g" by blast+
  let ?g = "register_media_session now sid call leg mango g"
  have fields: "gw_queues ?g = (gw_queues g)(sid \<mapsto> [])" "gw_rtp ?g = gw_rtp g" "gw_closed ?g = gw_closed g"
    "dom (gw_handles ?g) = insert sid (dom (gw_handles g))" "dom (gw_queues ?g) = insert sid (dom (gw_queues g))"
    "dom (gw_audio_out_bytes ?g) = insert sid (dom (gw_audio_out_bytes g))"
    "dom (gw_correlation ?g) = insert sid (dom (gw_correlation g))"
    "dom (gw_lifecycle ?g) = insert sid (dom (gw_lifecycle g))"
    "dom (gw_media_stats ?g) = insert sid (dom (gw_media_stats g))"
    "gw_leg_to_session ?g = (gw_leg_to_session g)(mango \<mapsto> sid, leg \<mapsto> sid)"
    "gw_uuid_to_session ?g = (gw_uuid_to_session g)(leg \<mapsto> sid)"
    by (simp_all add: register_media_session_def)
  have "buffers_ok cfg ?g" using facts(1,5) unfolding buffers_ok_def fields(1,2) by blast
  moreover have "tables_ok ?g"
    unfolding tables_ok_def
  proof (intro conjI)
    note tabs = facts(4) [unfolded tables_ok_def]
    show "dom (gw_rtp ?g) \<subseteq> dom (gw_handles ?g)" unfolding fields using tabs by blast
    show "gw_closed ?g \<inter> dom (gw_handles ?g) = {}" unfolding fields using tabs assms(2) by blast
    show "ran (gw_leg_to_session ?g) \<subseteq> dom (gw_handles ?g) \<union> gw_closed ?g"
      unfolding fields by (rule insert_route [OF facts(2) tables_routes(1) [OF facts(4)]])
    show "ran (gw_uuid_to_session ?g) \<subseteq> dom (gw_handles ?g) \<union> gw_closed ?g"
      unfolding fields by (rule insert_route [OF facts(3) tables_routes(2) [OF facts(4)]])
  qed (unfold fields, use facts(4) [unfolded tables_ok_def] in simp_all)
  ultimately show ?thesis by (simp add: gateway_ok_def)
qed

lemma attach_media_ok:
  assumes "gateway_ok cfg g" "gw_handles g (ge_session_id env) \<noteq> None"
    and "\<forall>rt. ge_open_rtp env = Inr rt \<longrightarrow> runtime_ok cfg rt"
  shows "gateway_ok cfg (snd (attach_media cfg rs env leg m g))"
proof (cases "ge_open_rtp env")
  case (Inr rt)
  let ?sid = "ge_session_id env"
  have "gateway_ok cfg (g\<lparr>gw_rtp := (gw_rtp g)(?sid \<mapsto> rt)\<rparr>)"
    using assms Inr by (intro set_runtime_ok) simp_all
  from prime_remote_ok [OF this]
  obtain r g1 where g1: "try_prime_remote_addr_from_metadata cfg rs ?sid m (g\<lparr>gw_rtp := (gw_rtp g)(?sid \<mapsto> rt)\<rparr>) = (r, g1)"
    "gateway_ok cfg g1"
    unfolding try_prime_remote_addr_from_metadata_def by blast
  define g2 where "g2 = (if 0 < fg_rtp_inbound_timeout_seconds cfg
      then g1\<lparr>gw_watchdogs := insert ?sid (gw_watchdogs g1)\<rparr> else g1)"
  have g2: "gateway_ok cfg g2" using g1(2) by (simp add: g2_def bookkeeping_ok)
  define g3 where "g3 = g2\<lparr>gw_handles := (gw_handles g2)(?sid :=
      map_option (\<lambda>h. h\<lparr>mh_rtp_local := Some (rt_local rt)\<rparr>) (gw_handles g2 ?sid))\<rparr>"
  have "dom (gw_handles g3) = dom (gw_handles g2)" by (auto simp: g3_def dom_def)
  then have "gateway_ok cfg g3"
    using g2 unfolding gateway_ok_def tables_ok_def buffers_ok_def by (simp add: g3_def)
  then show ?thesis
    using Inr g1 run_attach_ok by (cases r) (simp_all add: attach_media_def Let_def g3_def g2_def)
qed (use assms(1) in \<open>simp add: attach_media_def\<close>)

lemma attach_ok:
  assumes "gateway_ok cfg g" "ge_session_id env \<notin> dom (gw_handles g) \<union> gw_closed g"
    and "\<forall>rt. ge_open_rtp env = Inr rt \<longrightarrow> runtime_ok cfg rt"
  shows "gateway_ok cfg (snd (attach_session cfg rs env call leg m g))"
proof -
  define g1 where "g1 = (if fg_mode cfg = ''esl_rtp'' then g\<lparr>gw_esl := True\<rparr> else g)"
  define g2 where "g2 = register_media_session (ge_now env) (ge_session_id env) call leg
      (the (py_or (am_mango_leg_id m) (Some leg))) g1"
  have "gateway_ok cfg g1" "ge_session_id env \<notin> dom (gw_handles g1) \<union> gw_closed g1"
    using assms by (simp_all add: g1_def bookkeeping_ok)
  then have g2: "gateway_ok cfg g2" unfolding g2_def by (rule register_media_ok)
  have "gw_handles g2 (ge_session_id env) \<noteq> None" by (simp add: g2_def register_media_session_def)
  from attach_media_ok [OF g2 this assms(3)]
  have "gateway_ok cfg (snd (attach_media cfg rs env leg m g2))" .
  then show ?thesis
    using assms(1) g2 unfolding attach_session_def Let_def g1_def [symmetric] g2_def [symmetric]
    by (auto split: sum.split prod.split)
qed

section \<open>Runs of the gateway\<close>

inductive gateway_step :: "fs_config \<Rightarrow> resampler \<Rightarrow> gateway \<Rightarrow> gateway \<Rightarrow> bool"
  for cfg :: fs_config and rs :: resampler where
  attach: "ge_session_id env \<notin> dom (gw_handles g) \<union> gw_closed g
    \<Longrightarrow> \<forall>rt. ge_open_rtp env = Inr rt \<longrightarrow> runtime_ok cfg rt
    \<Longrightarrow> gateway_step cfg rs g (snd (attach_session cfg rs env call leg m g))"
| detach: "gateway_step cfg rs g (detach_session cfg sid g)"
| send: "gateway_step cfg rs g (snd (send_audio cfg rs sid pcm g))"
| datagram: "gateway_step cfg rs g (snd (on_rtp_datagram cfg rs now sid data addr g))"
| event: "gateway_step cfg rs g (snd (process_plain_event cfg rs env keys ev g))"
| variables: "gateway_step cfg rs g (snd (try_prime_remote_addr_from_channel_vars cfg rs sid u vars g))"
| barge_in: "gateway_step cfg rs g (send_barge_in cfg sid g)"
| hangup: "gateway_step cfg rs g (propagate_hangup cfg sid reason g)"
| inject: "gateway_step cfg rs g (inject_inbound_audio cfg sid pcm g)"
| watchdog: "gateway_step cfg rs g (snd (rtp_watchdog_round cfg now sid g))"
| consume: "gateway_step cfg rs g (snd (next_event sid g))"
| disconnect: "gateway_step cfg rs g (handle_esl_disconnect g)"

lemma variables_ok:
  assumes "gateway_ok cfg g"
  shows "gateway_ok cfg (snd (try_prime_remote_addr_from_channel_vars cfg rs sid u vars g))"
proof (cases "gw_rtp g sid")
  case (Some rt)
  have "gateway_ok cfg (snd (set_remote cfg rs sid addr rt g))" for addr
    using set_remote_ok [OF assms Some, of rs addr] by (metis snd_conv)
  then show ?thesis
    using assms Some
    by (auto simp: try_prime_remote_addr_from_channel_vars_def Let_def split: option.split sum.split prod.split)
       (metis snd_conv)+
qed (use assms in \<open>simp add: try_prime_remote_addr_from_channel_vars_def\<close>)

lemma consume_ok: "gateway_ok cfg g \<Longrightarrow> gateway_ok cfg (snd (next_event sid g))"
proof (cases "gw_queues g sid")
  case (Some q)
  assume ok: "gateway_ok cfg g"
  show ?thesis
  proof (cases q)
    case (Cons evt rest)
    have "length rest \<le> queue_max cfg"
      using ok Some Cons by (force simp: gateway_ok_def buffers_ok_def ran_def)
    with ok Some Cons show ?thesis by (simp add: next_event_def set_queue_ok)
  qed (use ok Some in \<open>simp add: next_event_def\<close>)
qed (simp add: next_event_def)

lemma gateway_step_ok:
  assumes "gateway_step cfg rs g g'" "gateway_ok cfg g"
  shows "gateway_ok cfg g'"
  using assms(1)
proof cases
  case (attach env call leg m)
  with assms(2) show ?thesis by (simp add: attach_ok)
next
  case (send sid pcm)
  then show ?thesis using send_audio_ok [OF assms(2)] by (metis snd_conv)
next
  case (datagram now sid data addr)
  then show ?thesis using datagram_ok [OF assms(2)] by simp
next
  case (event env keys ev)
  then show ?thesis using process_plain_event_ok [OF assms(2)] by simp
next
  case (watchdog now sid)
  with assms(2) show ?thesis
    by (auto simp: rtp_watchdog_round_def watchdog_fire_def Let_def intro!: queue_event_ok stats_ok split: option.split)
qed (use assms(2) in \<open>simp_all add: detach_ok variables_ok consume_ok handle_esl_disconnect_def bookkeeping_ok
    send_barge_in_def propagate_hangup_def inject_inbound_audio_def queue_event_ok\<close>)

lemma gateway_run_ok:
  assumes "(gateway_step cfg rs)\<^sup>*\<^sup>* empty_gateway g"
  shows "gateway_ok cfg g"
  using assms
proof (induction rule: rtranclp_induct)
  case base
  show ?case by (simp add: gateway_ok_def tables_ok_def buffers_ok_def empty_gateway_def)
qed (rule gateway_step_ok)

text \<open>
  C32. Whatever sessions are attached, detached and fed with audio, datagrams and channel events, in
  any order, the gateway stays bounded and consistent: an event queue never exceeds its maximum, nor
  a buffer of outbound audio, and audio waits only while the endpoint is unknown; the tables cover
  exactly the attached sessions, a closed session is in none of them, and every route leads to a
  session that is attached or closed. Sequence numbers and timestamps fit their fields, so that audio
  sent to any session fails only where the code refuses it as not ready, and for an odd number of bytes at
  a configured rate other than 16000, with a \<open>ValueError\<close>.
\<close>

theorem gateway_stays_bounded:
  assumes "(gateway_step cfg rs)\<^sup>*\<^sup>* empty_gateway g"
  shows "tables_ok g \<and> buffers_ok cfg g
    \<and> (\<forall>sid pcm. fst (send_audio cfg rs sid pcm g)
         \<in> {Inr (), Inl not_ready} \<union> (if half_sample_at (fg_rtp_sample_rate_hz cfg) pcm then {Inl half_sample} else {}))"
proof -
  note ok = gateway_run_ok [OF assms]
  have "fst (send_audio cfg rs sid pcm g)
      \<in> {Inr (), Inl not_ready} \<union> (if half_sample_at (fg_rtp_sample_rate_hz cfg) pcm then {Inl half_sample} else {})"
    for sid pcm
  proof -
    obtain r g' where "send_audio cfg rs sid pcm g = (r, g')"
      "r \<in> {Inr (), Inl not_ready} \<or> r = Inl half_sample \<and> half_sample_at (fg_rtp_sample_rate_hz cfg) pcm"
      by (rule send_audio_ok [OF ok])
    then show ?thesis by auto
  qed
  with ok show ?thesis unfolding gateway_ok_def by blast
qed

section \<open>An example\<close>

definition demo_fs_config :: fs_config where
  "demo_fs_config = \<lparr>fg_mode = ''esl_rtp'', fg_rtp_payload_type = 96,
     fg_attach_command_template = ''uuid_media {uuid}'', fg_rtp_inbound_codec = ''pcm16'',
     fg_rtp_outbound_codec = ''pcm16'', fg_rtp_sample_rate_hz = 16000, fg_rtp_frame_bytes = 2,
     fg_rtp_inbound_timeout_seconds = 15, fg_rtp_outbound_buffer_max_frames = 1,
     fg_event_queue_max = 2, fg_allow_local_rtp_bind = True\<rparr>"

definition demo_runtime :: rtp_runtime where
  "demo_runtime = \<lparr>rt_local = (''127.0.0.1'', 16384), rt_created_at = 0, rt_remote_addr = None,
     rt_pending_outbound = [], rt_seq = 65535, rt_ts = 2 ^ 32 - 1, rt_ssrc = 7, rt_sent = []\<rparr>"

definition demo_gateway_env :: "string \<Rightarrow> gateway_env" where
  "demo_gateway_env sid = \<lparr>ge_now = 0, ge_session_id = sid, ge_esl_connect = Inr (), ge_open_rtp = Inr demo_runtime,
     ge_uuid_exists = True, ge_write_attach = Inr ()\<rparr>"

definition demo_metadata :: attach_metadata where
  "demo_metadata = \<lparr>am_mango_leg_id = Some ''leg'', am_answered_from_esl_reply = True,
     am_remote_media_ip = None, am_remote_media_port = None\<rparr>"

lemma demo_runtime_ok: "runtime_ok demo_fs_config (demo_runtime\<lparr>rt_remote_addr := a\<rparr>)"
  by (simp add: runtime_ok_def demo_runtime_def demo_fs_config_def buffer_max_def)

theorem audio_stream_sent_witness:
  "\<exists>g' (rt' :: rtp_runtime) packets. send_rtp_audio demo_fs_config (\<lambda>d a b. d) ''s'' [1, 2, 3]
       (demo_runtime\<lparr>rt_remote_addr := Some (''10.0.0.1'', 4000)\<rparr>)
       (empty_gateway\<lparr>gw_rtp := [''s'' \<mapsto> demo_runtime\<lparr>rt_remote_addr := Some (''10.0.0.1'', 4000)\<rparr>]\<rparr>) = (Inr (), g')
     \<and> rt_sent rt' = map (Pair (''10.0.0.1'', 4000)) packets
     \<and> concat (map (wire_payload demo_fs_config) packets) = [1, 2, 3]"
proof -
  let ?rt = "demo_runtime\<lparr>rt_remote_addr := Some (''10.0.0.1'', 4000)\<rparr>"
  have g: "gw_rtp (empty_gateway\<lparr>gw_rtp := [''s'' \<mapsto> ?rt]\<rparr>) ''s'' = Some ?rt" by simp
  have remote: "rt_remote_addr ?rt = Some (''10.0.0.1'', 4000)" by simp
  have enc: "encode_outbound_audio (\<lambda>d a b. d) [1, 2, 3] (fg_rtp_outbound_codec demo_fs_config)
      (fg_rtp_sample_rate_hz demo_fs_config) = Inr [1, 2, 3]"
  proof -
    have "codec_name ''pcm16'' = ''pcm16''" by code_simp
    then show ?thesis by (simp add: encode_outbound_audio_def demo_fs_config_def Let_def)
  qed
  have sent: "rt_sent ?rt = []" by (simp add: demo_runtime_def)
  have whole: "\<not> half_sample_at (fg_rtp_sample_rate_hz demo_fs_config) [1, 2, 3]"
    by (simp add: half_sample_at_def demo_fs_config_def)
  from audio_stream_sent [OF g remote demo_runtime_ok, where rs = "\<lambda>d a b. d" and pcm = "[1, 2, 3]"]
    enc whole
  obtain g' and rt' :: rtp_runtime and packets where
    "send_rtp_audio demo_fs_config (\<lambda>d a b. d) ''s'' [1, 2, 3] ?rt (empty_gateway\<lparr>gw_rtp := [''s'' \<mapsto> ?rt]\<rparr>) = (Inr (), g')"
    "rt_sent rt' = rt_sent ?rt @ map (Pair (''10.0.0.1'', 4000)) packets"
    "concat (map (wire_payload demo_fs_config) packets) = [1, 2, 3]"
    by (simp del: fun_upd_apply) blast
  with sent show ?thesis by (intro exI [of _ g'] exI [of _ rt'] exI [of _ packets]) simp
qed

theorem gateway_stays_bounded_witness:
  "\<exists>g. (gateway_step demo_fs_config (\<lambda>d a b. d))\<^sup>*\<^sup>* empty_gateway g \<and> gw_handles g ''s'' \<noteq> None
     \<and> (\<forall>rt\<in>ran (gw_rtp g). length (rt_pending_outbound rt) \<le> 1)"
proof -
  let ?cfg = demo_fs_config and ?rs = "\<lambda>d a b. d :: byte list" and ?env = "demo_gateway_env ''s''"
  let ?g1 = "snd (attach_session ?cfg ?rs ?env ''call'' ''uuid'' demo_metadata empty_gateway)"
  let ?g2 = "snd (send_audio ?cfg ?rs ''s'' [1, 2] ?g1)"
  have "runtime_ok ?cfg demo_runtime"
    using demo_runtime_ok [of None] by (simp add: demo_runtime_def)
  then have "gateway_step ?cfg ?rs empty_gateway ?g1"
    by (intro gateway_step.attach) (simp_all add: empty_gateway_def demo_gateway_env_def)
  moreover have "gateway_step ?cfg ?rs ?g1 ?g2" by (rule gateway_step.send)
  ultimately have run: "(gateway_step ?cfg ?rs)\<^sup>*\<^sup>* empty_gateway ?g2"
    by (meson r_into_rtranclp rtranclp_trans)
  have "buffers_ok ?cfg ?g2" using gateway_stays_bounded [OF run] by simp
  then have "\<forall>rt\<in>ran (gw_rtp ?g2). length (rt_pending_outbound rt) \<le> 1"
    by (auto simp: buffers_ok_def runtime_ok_def buffer_max_def demo_fs_config_def)
  moreover have "gw_handles ?g2 ''s'' \<noteq> None" by code_simp
  ultimately show ?thesis using run by blast
qed

section \<open>Where something is lost\<close>

text \<open>A full queue loses its oldest event, also when that is the hangup that the reader waits for.\<close>

lemma full_queue_loses_oldest:
  assumes "gw_queues g sid = Some (evt # q)" "length (evt # q) = queue_max cfg"
  shows "gw_queues (queue_event cfg sid new g) sid = Some (q @ [new])"
  using assms by (simp add: queue_event_def)

text \<open>
  Half a sample at the rate of a telephone line raises \<open>ValueError\<close>. In the buffer of a session it also
  takes the chunks after it with it: the buffer is cleared before the first of them is sent.
\<close>

lemma half_sample_drops_buffer:
  "let cfg = demo_fs_config\<lparr>fg_rtp_sample_rate_hz := 8000\<rparr>;
       rt = demo_runtime\<lparr>rt_pending_outbound := [[1], [1, 2]]\<rparr>;
       (r, g) = set_remote cfg (\<lambda>d a b. d) ''s'' (''10.0.0.1'', 4000) rt (empty_gateway\<lparr>gw_rtp := [''s'' \<mapsto> rt]\<rparr>)
   in r = Inl half_sample \<and> map_option rt_pending_outbound (gw_rtp g ''s'') = Some []
     \<and> map_option rt_sent (gw_rtp g ''s'') = Some []"
  by code_simp

text \<open>An attach that fails after the tables are filled leaves a session that nobody has a handle of.\<close>

lemma failed_attach_keeps_session:
  assumes "fg_mode cfg = ''esl_rtp''" "fg_allow_local_rtp_bind cfg" "ge_esl_connect env = Inr ()"
    and "ge_open_rtp env = Inl e"
  shows "\<exists>g'. attach_session cfg rs env call leg m g = (Inl e, g')
     \<and> gw_handles g' (ge_session_id env) \<noteq> None \<and> gw_leg_to_session g' leg = Some (ge_session_id env)"
  using assms by (simp add: attach_session_def attach_media_def register_media_session_def Let_def)

text \<open>Detaching a session removes the routes of its leg, also when a newer session of the leg owns them.\<close>

lemma detach_unroutes_newer_session:
  "let cfg = demo_fs_config\<lparr>fg_mode := ''mock''\<rparr>;
       attach = (\<lambda>sid g. snd (attach_session cfg (\<lambda>d a b. d) (demo_gateway_env sid) ''call'' ''uuid'' demo_metadata g));
       g = detach_session cfg ''old'' (attach ''new'' (attach ''old'' empty_gateway))
   in gw_handles g ''new'' \<noteq> None \<and> gw_leg_to_session g ''leg'' = None \<and> gw_uuid_to_session g ''uuid'' = None"
  by code_simp

text \<open>
  An event with the provisional UUID, once the real one is known, is dropped as foreign: the branch
  that was to keep the real UUID for it is never reached, and its hangup is not recorded.
\<close>

lemma provisional_event_ignored:
  assumes "corr_get leg (gw_corr g) = Some c" "cs_freeswitch_uuid c = Some real" "strip real \<noteq> []"
    and "strip real \<noteq> leg" "leg \<noteq> []" "strip leg = leg"
  shows "apply_correlation_only_event now keys leg k ev (Some leg) g = g"
proof -
  have "real \<noteq> []" using assms(3) by auto
  with assms show ?thesis
    by (auto simp: apply_correlation_only_event_def real_uuid_def stripped_def Let_def split: option.split list.split)
qed

text \<open>Raw audio that begins with a quiet sample is taken for an RTP packet and decoded as \<mu>-law.\<close>

lemma raw_pcm_taken_for_rtp:
  assumes "10 < length rest"
  defines "data \<equiv> 0x80 # 0x00 # rest"
  shows "looks_like_rtp_packet data
    \<and> decode_inbound_audio rs (extract_rtp_payload data) ''pcm16'' (extract_rtp_payload_type data) 16000
        = Inr (ulaw_bytes_to_pcm16 (drop 10 rest))"
  using assms
  by (simp add: looks_like_rtp_packet_def extract_rtp_payload_def extract_rtp_payload_type_def rtp_version_def
      rtp_header_len_def decode_inbound_audio_def)

end
