(* ===== verification/VoiceStrategy.thy ===== *)
theory VoiceStrategy
  imports Calls Settings
begin

text \<open>
  The voice of a direct session, \<open>app/integrations/direct/voice_strategy.py\<close>: which path speaks first
  (Gemini's own audio or a TTS provider), whether a session may fall back to TTS, and the check of the
  configuration that precedes every session. A check keeps its name, its status and its details; the
  message for the operator is not modelled.

  The lemmas show that a configuration that passes the check gives a definition whose paths are served
  by a configured provider, and that a session falls back at most once.
\<close>

datatype voice_path = Path_disabled | Path_gemini_native | Path_tts_primary | Path_tts_fallback

datatype issue_status = Issue_pass | Issue_warn | Issue_fail

record voice_check =
  vc_name :: string
  vc_status :: issue_status
  vc_details :: "(string \<times> string) option"

record voice_definition =
  vd_strategy :: string
  vd_primary_path :: voice_path
  vd_fallback_path :: "voice_path option"
  vd_initial_greeting_path :: voice_path
  vd_experimental :: bool
  vd_uses_gemini_audio_output :: bool
  vd_needs_tts_provider :: bool
  vd_allow_tts_fallback :: bool

record voice_state =
  vs_definition :: voice_definition
  vs_active_path :: voice_path
  vs_fallback_activated :: bool

definition wants_gemini_audio_output :: "voice_state \<Rightarrow> bool" where
  "wants_gemini_audio_output v = (vs_active_path v = Path_gemini_native)"

definition wants_tts_output :: "voice_state \<Rightarrow> bool" where
  "wants_tts_output v = (vs_active_path v \<in> {Path_tts_primary, Path_tts_fallback})"

definition can_activate_tts_fallback :: "voice_state \<Rightarrow> bool" where
  "can_activate_tts_fallback v =
     (vd_allow_tts_fallback (vs_definition v) \<and> vd_fallback_path (vs_definition v) = Some Path_tts_fallback
      \<and> vs_active_path v \<noteq> Path_tts_fallback)"

definition activate_tts_fallback :: "voice_state \<Rightarrow> bool \<times> voice_state" where
  "activate_tts_fallback v =
     (if \<not> can_activate_tts_fallback v then (False, v)
      else (True, v\<lparr>vs_active_path := Path_tts_fallback, vs_fallback_activated := True\<rparr>))"

section \<open>The check of the configuration\<close>

definition strategy_or_default :: "settings \<Rightarrow> string option \<Rightarrow> string" where
  "strategy_or_default cfg override = the (py_or override (Some (st_direct_voice_strategy cfg)))"

text \<open>TTS can stand in for Gemini.\<close>

definition fallback_ready :: "settings \<Rightarrow> bool" where
  "fallback_ready cfg = (elevenlabs_configured cfg \<and> st_direct_voice_allow_tts_fallback cfg)"

definition plain_check :: "string \<Rightarrow> issue_status \<Rightarrow> voice_check" where
  "plain_check name status = \<lparr>vc_name = name, vc_status = status, vc_details = None\<rparr>"

definition gemini_primary_checks :: "settings \<Rightarrow> voice_check list" where
  "gemini_primary_checks cfg =
     [if st_gemini_audio_output_enabled cfg then plain_check ''voice_strategy_gemini_output'' Issue_pass
      else if fallback_ready cfg
      then (plain_check ''voice_strategy_gemini_output'' Issue_warn)\<lparr>vc_details := Some (''degraded_boot_path'', ''tts_fallback'')\<rparr>
      else plain_check ''voice_strategy_gemini_output'' Issue_fail,
      if fallback_ready cfg
      then (plain_check ''voice_strategy_fallback'' Issue_pass)\<lparr>vc_details := Some (''fallback_path'', ''tts_fallback'')\<rparr>
      else plain_check ''voice_strategy_fallback'' Issue_warn]"

definition tts_primary_checks :: "settings \<Rightarrow> voice_check list" where
  "tts_primary_checks cfg =
     [plain_check ''voice_strategy_tts_primary''
        (if elevenlabs_configured cfg \<or> cartesia_configured cfg then Issue_pass else Issue_fail),
      plain_check ''voice_strategy_hybrid_guard''
        (if st_gemini_audio_output_enabled cfg then Issue_warn else Issue_pass)]"

definition hybrid_checks :: "settings \<Rightarrow> voice_check list" where
  "hybrid_checks cfg =
     [plain_check ''voice_strategy_experimental''
        (if \<not> st_gemini_audio_output_enabled cfg \<or> \<not> elevenlabs_configured cfg then Issue_fail else Issue_warn)]"

definition inspect_voice_strategy :: "settings \<Rightarrow> string option \<Rightarrow> voice_check list" where
  "inspect_voice_strategy cfg override =
     (let strategy = strategy_or_default cfg override
      in (plain_check ''voice_strategy'' Issue_pass)\<lparr>vc_details := Some (''strategy'', strategy)\<rparr>
         # (if strategy = ''disabled'' then [plain_check ''voice_strategy_disabled'' Issue_warn]
            else if strategy = ''gemini_primary'' then gemini_primary_checks cfg
            else if strategy = ''tts_primary'' then tts_primary_checks cfg
            else if strategy = ''experimental_hybrid'' then hybrid_checks cfg
            else [plain_check ''voice_strategy_unknown'' Issue_fail]))"

definition voice_strategy_error :: app_error where
  "voice_strategy_error = EngineError ''Direct voice strategy configuration is invalid.'' None None"

definition resolve_voice_strategy_definition ::
    "settings \<Rightarrow> string option \<Rightarrow> (app_error, voice_definition) result" where
  "resolve_voice_strategy_definition cfg override =
     (let strategy = strategy_or_default cfg override;
          define = (\<lambda>primary fb greeting experimental gemini tts allow.
            Inr \<lparr>vd_strategy = strategy, vd_primary_path = primary, vd_fallback_path = fb,
                 vd_initial_greeting_path = greeting, vd_experimental = experimental,
                 vd_uses_gemini_audio_output = gemini, vd_needs_tts_provider = tts, vd_allow_tts_fallback = allow\<rparr>)
      in if strategy = ''disabled'' then define Path_disabled None Path_disabled False False False False
         else if strategy = ''gemini_primary''
         then (if \<not> st_gemini_audio_output_enabled cfg \<and> fallback_ready cfg
               then define Path_tts_fallback None Path_tts_fallback False False True False
               else define Path_gemini_native (if fallback_ready cfg then Some Path_tts_fallback else None)
                      Path_gemini_native False True (fallback_ready cfg) (fallback_ready cfg))
         else if strategy = ''tts_primary'' then define Path_tts_primary None Path_tts_primary False False True False
         else if strategy = ''experimental_hybrid''
         then define Path_gemini_native (if elevenlabs_configured cfg then Some Path_tts_fallback else None)
                Path_tts_primary True True True (elevenlabs_configured cfg)
         else Inl (EngineError (''Unsupported voice strategy: '' @ strategy) None None))"

definition ensure_voice_strategy_valid ::
    "settings \<Rightarrow> string option \<Rightarrow> (app_error, voice_definition) result" where
  "ensure_voice_strategy_valid cfg override =
     (if filter (\<lambda>c. vc_status c = Issue_fail) (inspect_voice_strategy cfg override) \<noteq> []
      then Inl voice_strategy_error else resolve_voice_strategy_definition cfg override)"

definition make_session_voice_state :: "settings \<Rightarrow> string option \<Rightarrow> (app_error, voice_state) result" where
  "make_session_voice_state cfg override =
     map_sum id (\<lambda>d. \<lparr>vs_definition = d, vs_active_path = vd_primary_path d, vs_fallback_activated = False\<rparr>)
       (resolve_voice_strategy_definition cfg override)"

section \<open>What a checked strategy promises\<close>

text \<open>A provider is configured for a path.\<close>

fun path_served :: "settings \<Rightarrow> voice_path \<Rightarrow> bool" where
  "path_served cfg Path_disabled = True"
| "path_served cfg Path_gemini_native = st_gemini_audio_output_enabled cfg"
| "path_served cfg Path_tts_primary = (elevenlabs_configured cfg \<or> cartesia_configured cfg)"
| "path_served cfg Path_tts_fallback = elevenlabs_configured cfg"

text \<open>The definition of a strategy that passed the check.\<close>

definition ensured :: "settings \<Rightarrow> string \<Rightarrow> voice_definition \<Rightarrow> bool" where
  "ensured cfg strategy d \<longleftrightarrow>
     vd_strategy d = strategy \<and> path_served cfg (vd_primary_path d) \<and> path_served cfg (vd_initial_greeting_path d)
     \<and> (\<forall>p. vd_fallback_path d = Some p \<longrightarrow> p = Path_tts_fallback \<and> path_served cfg p \<and> vd_allow_tts_fallback d)
     \<and> (vd_primary_path d = Path_disabled \<longleftrightarrow> strategy = ''disabled'')"

lemma ensured_cases:
  assumes v: "ensure_voice_strategy_valid cfg override = Inr d"
  shows "ensured cfg (strategy_or_default cfg override) d"
proof -
  let ?s = "strategy_or_default cfg override"
  have r: "resolve_voice_strategy_definition cfg override = Inr d"
    and checks: "\<forall>c\<in>set (inspect_voice_strategy cfg override). vc_status c \<noteq> Issue_fail"
    using v by (auto simp: ensure_voice_strategy_valid_def filter_empty_conv split: if_splits)
  consider "?s = ''disabled''" | "?s = ''gemini_primary''" | "?s = ''tts_primary''" | "?s = ''experimental_hybrid''"
    using r unfolding resolve_voice_strategy_definition_def Let_def by (metis sum.distinct(1))
  then show ?thesis
  proof cases
    case 1
    then show ?thesis using r by (auto simp: resolve_voice_strategy_definition_def ensured_def)
  next
    case 2
    have "st_gemini_audio_output_enabled cfg \<or> fallback_ready cfg"
      using checks unfolding inspect_voice_strategy_def Let_def 2 by (auto simp: gemini_primary_checks_def plain_check_def split: if_splits)
    then show ?thesis using r unfolding resolve_voice_strategy_definition_def Let_def 2
      by (auto simp: ensured_def fallback_ready_def split: if_splits)
  next
    case 3
    have "elevenlabs_configured cfg \<or> cartesia_configured cfg"
      using checks unfolding inspect_voice_strategy_def Let_def 3 by (auto simp: tts_primary_checks_def plain_check_def split: if_splits)
    then show ?thesis using r unfolding resolve_voice_strategy_definition_def Let_def 3 by (auto simp: ensured_def)
  next
    case 4
    have "st_gemini_audio_output_enabled cfg \<and> elevenlabs_configured cfg"
      using checks unfolding inspect_voice_strategy_def Let_def 4 by (auto simp: hybrid_checks_def plain_check_def split: if_splits)
    then show ?thesis using r unfolding resolve_voice_strategy_definition_def Let_def 4 by (auto simp: ensured_def)
  qed
qed

lemma ensured_strategy:
  assumes "ensure_voice_strategy_valid cfg override = Inr d"
  shows "resolve_voice_strategy_definition cfg override = Inr d"
    and "vd_strategy d = strategy_or_default cfg override"
    and "path_served cfg (vd_primary_path d)" "path_served cfg (vd_initial_greeting_path d)"
    and "vd_fallback_path d = Some p \<Longrightarrow> p = Path_tts_fallback \<and> path_served cfg p \<and> vd_allow_tts_fallback d"
    and "vd_primary_path d = Path_disabled \<longleftrightarrow> strategy_or_default cfg override = ''disabled''"
  using ensured_cases [OF assms] assms unfolding ensured_def
  by (blast+ | simp add: ensure_voice_strategy_valid_def split: if_splits)+

lemma fallback_once:
  "fst (activate_tts_fallback v) \<longleftrightarrow> can_activate_tts_fallback v"
  "fst (activate_tts_fallback v) \<Longrightarrow> wants_tts_output (snd (activate_tts_fallback v))
     \<and> \<not> can_activate_tts_fallback (snd (activate_tts_fallback v))"
  by (auto simp: activate_tts_fallback_def can_activate_tts_fallback_def wants_tts_output_def)

end
