(* ===== verification/AudioShaping.thy ===== *)
theory AudioShaping
  imports RtpCodec
begin

text \<open>
  The shaping of synthesised speech, \<open>app/core/audio_utils.py\<close>: the aligner that keeps samples
  whole (\<open>Pcm16ChunkAligner\<close>) and the optimizer that drops silence at the ends of an utterance and
  cuts the rest into chunks for playback (\<open>Pcm16RealtimeOptimizer\<close>).

  Both are stages of a byte stream: they take chunks as the provider cuts them, hold something back,
  and give the rest at the end. The locale \<open>stream_stage\<close> is what a client of a stage relies on, that
  the bytes which come out depend on the bytes that went in and not on how they were cut; both stages
  are interpretations, with a specification on whole streams (\<open>padded_stream\<close>, \<open>shaped_stream\<close>).

  \<open>pcm16le_stats\<close> computes in floating point. The two comparisons the optimizer makes with its
  defaults are written on integers (\<open>frame_is_silent\<close>). The rounding to six places that precedes them
  is part of it: the bound on the mean square is that of 0.0030005, and a ratio of samples below 0.995
  is not rounded up to it in a frame of less than 10000 samples (a frame has 320).
\<close>

section \<open>The aligner\<close>

record aligner =
  al_carry :: "byte list"
  al_raw_bytes :: nat
  al_aligned_bytes :: nat
  al_odd_chunks :: nat
  al_chunks_seen :: nat

definition new_aligner :: aligner where
  "new_aligner = \<lparr>al_carry = [], al_raw_bytes = 0, al_aligned_bytes = 0, al_odd_chunks = 0, al_chunks_seen = 0\<rparr>"

definition aligner_push :: "byte list \<Rightarrow> aligner \<Rightarrow> byte list \<times> aligner" where
  "aligner_push chunk a =
     (if chunk = [] then ([], a)
      else (let merged = al_carry a @ chunk;
                even_len = length merged - length merged mod 2;
                out = take even_len merged
            in (out, \<lparr>al_carry = drop even_len merged,
                      al_raw_bytes = al_raw_bytes a + length chunk,
                      al_aligned_bytes = al_aligned_bytes a + length out,
                      al_odd_chunks = (if length chunk mod 2 \<noteq> 0 then al_odd_chunks a + 1 else al_odd_chunks a),
                      al_chunks_seen = al_chunks_seen a + 1\<rparr>)))"

definition aligner_flush :: "bool \<Rightarrow> aligner \<Rightarrow> byte list \<times> aligner" where
  "aligner_flush pad a =
     (if al_carry a = [] then ([], a)
      else if \<not> pad then (al_carry a, a\<lparr>al_carry := []\<rparr>)
      else (let padded = al_carry a @ [0]
            in (padded, a\<lparr>al_carry := [], al_aligned_bytes := al_aligned_bytes a + length padded\<rparr>)))"

section \<open>Silence\<close>

fun samples_of :: "byte list \<Rightarrow> int list" where
  "samples_of (lo # hi # rest) = sample_of lo hi # samples_of rest"
| "samples_of _ = []"

text \<open>\<open>abs(sample / 32768) <= 0.01\<close>.\<close>

definition silent_samples :: "int list \<Rightarrow> nat" where
  "silent_samples xs = length (filter (\<lambda>s. \<bar>s\<bar> \<le> 327) xs)"

definition sum_squares :: "int list \<Rightarrow> int" where
  "sum_squares xs = sum_list (map (\<lambda>s. s * s) xs)"

text \<open>\<open>silence_ratio >= 0.995 or rms <= 0.003\<close>; the ratio of no samples is 1.\<close>

definition frame_is_silent :: "byte list \<Rightarrow> bool" where
  "frame_is_silent frame =
     (let xs = samples_of frame; n = length xs
      in n = 0 \<or> 995 * n \<le> 1000 * silent_samples xs
         \<or> sum_squares xs * 10 ^ 14 \<le> (32768 * 30005)\<^sup>2 * int n)"

section \<open>The optimizer\<close>

record shaping =
  sp_frame_bytes :: nat
  sp_startup_bytes :: nat
  sp_steady_bytes :: nat
  sp_max_leading :: nat
  sp_keep_trailing :: nat

record optimizer =
  op_frame_carry :: "byte list"
  op_emit_buffer :: "byte list"
  op_pending :: "byte list list"
  op_speech_started :: bool
  op_chunks_in :: nat
  op_chunks_out :: nat
  op_bytes_in :: nat
  op_bytes_out :: nat
  op_tiny_chunks_in :: nat
  op_silent_frames_seen :: nat
  op_leading_dropped :: nat
  op_trailing_dropped :: nat
  op_trailing_kept :: nat

definition new_optimizer :: optimizer where
  "new_optimizer = \<lparr>op_frame_carry = [], op_emit_buffer = [], op_pending = [], op_speech_started = False,
     op_chunks_in = 0, op_chunks_out = 0, op_bytes_in = 0, op_bytes_out = 0, op_tiny_chunks_in = 0,
     op_silent_frames_seen = 0, op_leading_dropped = 0, op_trailing_dropped = 0, op_trailing_kept = 0\<rparr>"

text \<open>32 bytes are a millisecond; whole milliseconds are whole samples.\<close>

definition bytes_for_duration_ms :: "int \<Rightarrow> nat" where
  "bytes_for_duration_ms d = (let raw = 32 * d in if raw \<le> 0 then 2 else nat raw)"

text \<open>The constructor: 20 ms are an analysis frame.\<close>

definition make_shaping :: "nat \<Rightarrow> int \<Rightarrow> int \<Rightarrow> int \<Rightarrow> int \<Rightarrow> shaping" where
  "make_shaping frame_bytes startup_ms steady_ms leading_ms trailing_ms =
     \<lparr>sp_frame_bytes = frame_bytes,
      sp_startup_bytes = bytes_for_duration_ms startup_ms,
      sp_steady_bytes = bytes_for_duration_ms steady_ms,
      sp_max_leading = nat (max 0 (leading_ms div 20)),
      sp_keep_trailing = nat (max 0 (trailing_ms div 20))\<rparr>"

definition default_shaping :: shaping where
  "default_shaping = make_shaping 640 20 80 120 60"

text \<open>
  \<open>while len(buffer) >= n\<close>: cut \<open>n\<close> bytes off. Both loops of the optimizer are this one; its sizes
  are positive (\<open>bytes_for_duration_ms\<close>, and the frame size of the callers).
\<close>

function cut_chunks :: "nat \<Rightarrow> 'a list \<Rightarrow> 'a list list \<times> 'a list" where
  "cut_chunks n xs =
     (if n = 0 \<or> length xs < n then ([], xs)
      else (let (cs, rest) = cut_chunks n (drop n xs) in (take n xs # cs, rest)))"
  by auto
termination by (relation "measure (\<lambda>(n, xs). length xs)") auto

declare cut_chunks.simps [simp del]

definition record_emission :: "nat \<Rightarrow> optimizer \<Rightarrow> optimizer" where
  "record_emission n st = st\<lparr>op_chunks_out := op_chunks_out st + 1, op_bytes_out := op_bytes_out st + n\<rparr>"

definition record_emissions :: "byte list list \<Rightarrow> optimizer \<Rightarrow> optimizer" where
  "record_emissions cs st = fold (\<lambda>c. record_emission (length c)) cs st"

definition append_emit_bytes :: "shaping \<Rightarrow> byte list \<Rightarrow> optimizer \<Rightarrow> byte list list \<times> optimizer" where
  "append_emit_bytes cfg frame st =
     (let target = (if op_chunks_out st = 0 then sp_startup_bytes cfg else sp_steady_bytes cfg);
          (cs, rest) = cut_chunks target (op_emit_buffer st @ frame)
      in (cs, record_emissions cs (st\<lparr>op_emit_buffer := rest\<rparr>)))"

fun append_all :: "shaping \<Rightarrow> byte list list \<Rightarrow> optimizer \<Rightarrow> byte list list \<times> optimizer" where
  "append_all cfg [] st = ([], st)"
| "append_all cfg (f # fs) st =
     (let (out, st1) = append_emit_bytes cfg f st; (outs, st2) = append_all cfg fs st1
      in (out @ outs, st2))"

definition process_frame ::
    "shaping \<Rightarrow> (byte list \<Rightarrow> bool) \<Rightarrow> byte list \<Rightarrow> optimizer \<Rightarrow> byte list list \<times> optimizer" where
  "process_frame cfg sil frame st0 =
     (let quiet = sil frame;
          st = (if quiet then st0\<lparr>op_silent_frames_seen := op_silent_frames_seen st0 + 1\<rparr> else st0)
      in if \<not> op_speech_started st \<and> quiet \<and> op_leading_dropped st < sp_max_leading cfg
         then ([], st\<lparr>op_leading_dropped := op_leading_dropped st + 1\<rparr>)
         else (let st1 = st\<lparr>op_speech_started := (op_speech_started st \<or> \<not> quiet)\<rparr>
               in if op_speech_started st1 \<and> quiet then ([], st1\<lparr>op_pending := op_pending st1 @ [frame]\<rparr>)
                  else (let (out, st2) = append_all cfg (op_pending st1) st1;
                            (out', st3) = append_emit_bytes cfg frame (st2\<lparr>op_pending := []\<rparr>)
                        in (out @ out', st3))))"

fun process_frames ::
    "shaping \<Rightarrow> (byte list \<Rightarrow> bool) \<Rightarrow> byte list list \<Rightarrow> optimizer \<Rightarrow> byte list list \<times> optimizer" where
  "process_frames cfg sil [] st = ([], st)"
| "process_frames cfg sil (f # fs) st =
     (let (out, st1) = process_frame cfg sil f st; (outs, st2) = process_frames cfg sil fs st1
      in (out @ outs, st2))"

definition optimizer_push ::
    "shaping \<Rightarrow> (byte list \<Rightarrow> bool) \<Rightarrow> byte list \<Rightarrow> optimizer \<Rightarrow> byte list list \<times> optimizer" where
  "optimizer_push cfg sil chunk st =
     (if chunk = [] then ([], st)
      else (let tiny = (if length chunk < sp_frame_bytes cfg then 1 else 0);
                (fs, rest) = cut_chunks (sp_frame_bytes cfg) (op_frame_carry st @ chunk)
            in process_frames cfg sil fs
                 (st\<lparr>op_chunks_in := op_chunks_in st + 1, op_bytes_in := op_bytes_in st + length chunk,
                     op_tiny_chunks_in := op_tiny_chunks_in st + tiny, op_frame_carry := rest\<rparr>)))"

definition pad_sample :: "byte list \<Rightarrow> byte list" where
  "pad_sample bs = (if length bs mod 2 \<noteq> 0 then bs @ [0] else bs)"

definition optimizer_flush ::
    "shaping \<Rightarrow> (byte list \<Rightarrow> bool) \<Rightarrow> optimizer \<Rightarrow> byte list list \<times> optimizer" where
  "optimizer_flush cfg sil st =
     (let (out1, st1) = (if op_frame_carry st = [] then ([], st)
                         else process_frame cfg sil (pad_sample (op_frame_carry st)) (st\<lparr>op_frame_carry := []\<rparr>));
          keep = take (sp_keep_trailing cfg) (op_pending st1);
          cut = drop (sp_keep_trailing cfg) (op_pending st1);
          (out2, st2) = append_all cfg keep
                          (st1\<lparr>op_trailing_kept := op_trailing_kept st1 + length keep,
                               op_trailing_dropped := op_trailing_dropped st1 + length cut\<rparr>);
          st3 = st2\<lparr>op_pending := []\<rparr>
      in if op_emit_buffer st3 = [] then (out1 @ out2, st3)
         else (out1 @ out2 @ [op_emit_buffer st3],
               (record_emission (length (op_emit_buffer st3)) st3)\<lparr>op_emit_buffer := []\<rparr>))"

section \<open>The startup gate\<close>

text \<open>
  \<open>Pcm16VoicedFirstGate\<close> with its defaults: before the first voiced sample of an utterance it drops
  whole chunks, up to 320 ms of them, and cuts the voiced chunk 32 samples before that sample. The
  fade-in over the first samples of a cut chunk multiplies in floating point; it is the argument \<open>fade\<close>
  (\<open>apply_pcm16_fade_in\<close>). Durations are in hundredths of a millisecond, to the nearest; the float of
  a half may be rounded either way.
\<close>

type_synonym fader = "byte list \<Rightarrow> byte list"

definition duration_cms :: "nat \<Rightarrow> int" where
  "duration_cms n = (int n * 25 + 4) div 8"

text \<open>The index of the first sample with \<open>abs(sample) >= 800\<close>.\<close>

definition voiced_sample :: "int \<Rightarrow> bool" where
  "voiced_sample s \<longleftrightarrow> 800 \<le> \<bar>s\<bar>"

definition first_voiced_sample :: "int list \<Rightarrow> nat option" where
  "first_voiced_sample xs =
     (let quiet = takeWhile (\<lambda>s. \<not> voiced_sample s) xs in if length quiet = length xs then None else Some (length quiet))"

text \<open>\<open>rms <= 0.0015 and peak <= 0.01\<close>, each rounded to six places.\<close>

definition clearly_silent :: "int list \<Rightarrow> bool" where
  "clearly_silent xs \<longleftrightarrow>
     sum_squares xs * 10 ^ 14 \<le> (32768 * 15005)\<^sup>2 * int (length xs) \<and> (\<forall>s\<in>set xs. \<bar>s\<bar> \<le> 327)"

definition whole_samples :: "byte list \<Rightarrow> byte list" where
  "whole_samples bs = (if length bs mod 2 = 0 then bs else butlast bs)"

text \<open>\<open>trim_pcm16_to_first_voiced\<close> of a chunk with a voiced sample: the bytes and what was cut.\<close>

definition trim_to_first_voiced :: "fader \<Rightarrow> byte list \<Rightarrow> nat \<Rightarrow> byte list \<times> int" where
  "trim_to_first_voiced fade chunk index =
     (let usable = whole_samples chunk; cut = index - 32
      in if cut = 0 then (usable, 0)
         else (let rest = drop (2 * cut) usable
               in (if rest = [] then rest else fade rest, duration_cms (2 * cut))))"

record gate =
  gt_started :: bool
  gt_chunk_index :: nat
  gt_leading_cms :: int
  gt_dropped_chunks :: nat
  gt_silent_dropped :: nat
  gt_near_silent_dropped :: nat
  gt_first_voiced_chunk :: "nat option"

definition new_gate :: gate where
  "new_gate = \<lparr>gt_started = False, gt_chunk_index = 0, gt_leading_cms = 0, gt_dropped_chunks = 0,
     gt_silent_dropped = 0, gt_near_silent_dropped = 0, gt_first_voiced_chunk = None\<rparr>"

text \<open>The chunk that passes, whether this push started playback, and the gate.\<close>

definition gate_push :: "fader \<Rightarrow> byte list \<Rightarrow> gate \<Rightarrow> byte list option \<times> bool \<times> gate" where
  "gate_push fade chunk st0 =
     (if chunk = [] then (None, False, st0)
      else (let st = st0\<lparr>gt_chunk_index := gt_chunk_index st0 + 1\<rparr> in
        if gt_started st then (Some chunk, False, st)
        else (let xs = samples_of chunk; total = gt_leading_cms st + duration_cms (length chunk) in
          case first_voiced_sample xs of
            None \<Rightarrow>
              if total \<le> 32000
              then (None, False,
                    (if clearly_silent xs then st\<lparr>gt_silent_dropped := gt_silent_dropped st + 1\<rparr>
                     else st\<lparr>gt_near_silent_dropped := gt_near_silent_dropped st + 1\<rparr>)
                      \<lparr>gt_leading_cms := total, gt_dropped_chunks := gt_dropped_chunks st + 1\<rparr>)
              else (Some chunk, True, st\<lparr>gt_started := True\<rparr>)
          | Some index \<Rightarrow>
              (let (trimmed, cut) = trim_to_first_voiced fade chunk index
               in (Some (if trimmed \<noteq> [] then trimmed else chunk), True,
                   st\<lparr>gt_started := True, gt_leading_cms := gt_leading_cms st + cut,
                      gt_first_voiced_chunk := Some (gt_chunk_index st)\<rparr>)))))"

text \<open>What the gate drops or cuts has no voiced sample, and the dropped chunks stay within the limit.\<close>

lemma first_voiced_sample_None: "first_voiced_sample xs = None \<longleftrightarrow> (\<forall>s\<in>set xs. \<not> voiced_sample s)"
proof -
  have "length (takeWhile P xs) = length xs \<longleftrightarrow> (\<forall>s\<in>set xs. P s)" for P :: "int \<Rightarrow> bool"
    by (induction xs) auto
  then show ?thesis by (simp add: first_voiced_sample_def Let_def)
qed

lemma gate_drops_no_voice:
  assumes "gate_push fade chunk st = (None, b, st')" "chunk \<noteq> []"
  shows "(\<forall>s\<in>set (samples_of chunk). \<not> voiced_sample s) \<and> gt_leading_cms st' \<le> 32000 \<and> \<not> b"
  using assms
  by (auto simp: gate_push_def Let_def first_voiced_sample_None split: option.splits if_splits prod.splits)

lemma gate_open_passes: "gt_started st \<Longrightarrow> chunk \<noteq> [] \<Longrightarrow> fst (gate_push fade chunk st) = Some chunk"
  by (simp add: gate_push_def Let_def)

lemma cut_has_no_voice:
  "first_voiced_sample xs = Some i \<Longrightarrow> j < i \<Longrightarrow> \<not> voiced_sample (xs ! j)"
  by (auto simp: first_voiced_sample_def Let_def split: if_splits) (metis nth_mem set_takeWhileD takeWhile_nth)

section \<open>Stages of a byte stream\<close>

text \<open>What a stage puts out for a list of chunks, the rest of its buffers included.\<close>

fun run_stage ::
    "(byte list \<Rightarrow> 's \<Rightarrow> byte list \<times> 's) \<Rightarrow> ('s \<Rightarrow> byte list \<times> 's) \<Rightarrow> byte list list \<Rightarrow> 's \<Rightarrow> byte list" where
  "run_stage push flush [] s = fst (flush s)"
| "run_stage push flush (c # cs) s = (let (out, s') = push c s in out @ run_stage push flush cs s')"

text \<open>
  The contract: \<open>repr bs s out\<close> says that the stage in state \<open>s\<close> has taken \<open>bs\<close> and put out \<open>out\<close>;
  \<open>spec\<close> is its output for the whole stream.
\<close>

locale stream_stage =
  fixes push :: "byte list \<Rightarrow> 's \<Rightarrow> byte list \<times> 's"
    and flush :: "'s \<Rightarrow> byte list \<times> 's"
    and start :: 's
    and repr :: "byte list \<Rightarrow> 's \<Rightarrow> byte list \<Rightarrow> bool"
    and spec :: "byte list \<Rightarrow> byte list"
  assumes repr_start: "repr [] start []"
    and repr_push: "repr bs s out \<Longrightarrow> push c s = (o1, s') \<Longrightarrow> repr (bs @ c) s' (out @ o1)"
    and repr_flush: "repr bs s out \<Longrightarrow> out @ fst (flush s) = spec bs"
begin

lemma run_repr: "repr bs s out \<Longrightarrow> out @ run_stage push flush cs s = spec (bs @ concat cs)"
proof (induction cs arbitrary: bs s out)
  case Nil
  then show ?case by (simp add: repr_flush)
next
  case (Cons c cs)
  obtain o1 s' where step: "push c s = (o1, s')" by fastforce
  have "(out @ o1) @ run_stage push flush cs s' = spec ((bs @ c) @ concat cs)"
    by (rule Cons.IH) (rule repr_push [OF Cons.prems step])
  with step show ?case by simp
qed

lemma run_spec: "run_stage push flush cs start = spec (concat cs)"
  using run_repr [OF repr_start] by simp

lemma cutting_irrelevant: "concat cs = concat ds \<Longrightarrow> run_stage push flush cs start = run_stage push flush ds start"
  by (simp add: run_spec)

end

text \<open>Streams that went through the aligner: the bytes, with a last half sample completed.\<close>

definition aligner_repr :: "byte list \<Rightarrow> aligner \<Rightarrow> byte list \<Rightarrow> bool" where
  "aligner_repr bs a out \<longleftrightarrow>
     out @ al_carry a = bs \<and> even (length out) \<and> length (al_carry a) \<le> 1
     \<and> al_raw_bytes a = length bs \<and> al_aligned_bytes a = length out"

lemma aligner_push_repr:
  assumes r: "aligner_repr bs a out" and p: "aligner_push c a = (o1, a')"
  shows "aligner_repr (bs @ c) a' (out @ o1)"
proof (cases "c = []")
  case True
  with assms show ?thesis by (simp add: aligner_push_def)
next
  case False
  let ?m = "al_carry a @ c"
  let ?k = "length ?m - length ?m mod 2"
  have k: "even ?k" "?k \<le> length ?m" "length ?m - ?k \<le> 1" by presburger+
  have out: "o1 = take ?k ?m" "al_carry a' = drop ?k ?m" "al_raw_bytes a' = al_raw_bytes a + length c"
    "al_aligned_bytes a' = al_aligned_bytes a + length o1"
    using p False by (auto simp: aligner_push_def Let_def)
  have "length o1 = ?k" using out(1) k(2) by simp
  moreover have "o1 @ al_carry a' = ?m" by (simp only: out(1,2) append_take_drop_id)
  moreover have "length (al_carry a') \<le> 1" using out(2) k(3) by simp
  ultimately show ?thesis using r out(3,4) k(1) by (auto simp: aligner_repr_def)
qed

interpretation aligned: stream_stage aligner_push "aligner_flush True" new_aligner aligner_repr pad_sample
proof
  show "aligner_repr [] new_aligner []" by (simp add: aligner_repr_def new_aligner_def)
  show "aligner_repr bs s out \<Longrightarrow> aligner_push c s = (o1, s') \<Longrightarrow> aligner_repr (bs @ c) s' (out @ o1)"
    for bs s out c o1 s' by (rule aligner_push_repr)
  show "out @ fst (aligner_flush True s) = pad_sample bs" if "aligner_repr bs s out" for bs s out
  proof -
    have "length bs = length out + length (al_carry s)" "even (length out)" "length (al_carry s) \<le> 1"
      using that by (auto simp: aligner_repr_def)
    then have "odd (length bs) \<longleftrightarrow> al_carry s \<noteq> []"
      by (cases "al_carry s") auto
    then show ?thesis using that
      by (auto simp: aligner_flush_def pad_sample_def aligner_repr_def odd_iff_mod_2_eq_one)
  qed
qed

section \<open>The cutting loops\<close>

lemma cut_chunks_short: "n = 0 \<or> length xs < n \<Longrightarrow> cut_chunks n xs = ([], xs)"
  by (subst cut_chunks.simps) auto

lemma cut_chunks_cut:
  "n \<noteq> 0 \<Longrightarrow> n \<le> length xs \<Longrightarrow> cut_chunks n xs = (take n xs # fst (cut_chunks n (drop n xs)), snd (cut_chunks n (drop n xs)))"
  by (subst cut_chunks.simps) (auto simp: case_prod_beta)

lemma cut_chunks_whole:
  "concat (fst (cut_chunks n xs)) @ snd (cut_chunks n xs) = xs
   \<and> (\<forall>c\<in>set (fst (cut_chunks n xs)). length c = n)
   \<and> (n \<noteq> 0 \<longrightarrow> length (snd (cut_chunks n xs)) < n)"
proof (induction n xs rule: cut_chunks.induct)
  case (1 n xs)
  show ?case
  proof (cases "n = 0 \<or> length xs < n")
    case True
    then show ?thesis by (auto simp: cut_chunks_short)
  next
    case False
    then have n: "n \<noteq> 0" "n \<le> length xs" by simp_all
    define c where "c = fst (cut_chunks n (drop n xs))"
    define r where "r = snd (cut_chunks n (drop n xs))"
    have cut: "cut_chunks n xs = (take n xs # c, r)" unfolding c_def r_def by (rule cut_chunks_cut [OF n])
    have "concat c @ r = drop n xs" "\<forall>x\<in>set c. length x = n" "length r < n"
      using 1 [OF False] n(1) unfolding c_def r_def by blast+
    with n(2) show ?thesis unfolding cut by simp
  qed
qed

lemma cut_chunks_append:
  "cut_chunks n (xs @ ys) =
     (fst (cut_chunks n xs) @ fst (cut_chunks n (snd (cut_chunks n xs) @ ys)),
      snd (cut_chunks n (snd (cut_chunks n xs) @ ys)))"
proof (induction n xs rule: cut_chunks.induct)
  case (1 n xs)
  show ?case
  proof (cases "n = 0 \<or> length xs < n")
    case True
    then show ?thesis by (simp add: cut_chunks_short)
  next
    case False
    then have n: "n \<noteq> 0" and le: "n \<le> length xs" "n \<le> length (xs @ ys)" by simp_all
    have "drop n (xs @ ys) = drop n xs @ ys" "take n (xs @ ys) = take n xs" using le by simp_all
    then show ?thesis
      using 1 [OF False] cut_chunks_cut [OF n le(1)] cut_chunks_cut [OF n le(2)] by simp
  qed
qed

section \<open>The shaped stream\<close>

text \<open>
  The specification. The frames of the stream, the last one completed to whole samples; of the silent
  frames before the first voiced one a number is left out, of those after the last voiced one a number
  is kept, everything between them stays.
\<close>

definition stream_frames :: "nat \<Rightarrow> byte list \<Rightarrow> byte list list" where
  "stream_frames n bs =
     fst (cut_chunks n bs) @ (if snd (cut_chunks n bs) = [] then [] else [pad_sample (snd (cut_chunks n bs))])"

definition voiced_part :: "('a \<Rightarrow> bool) \<Rightarrow> 'a list \<Rightarrow> 'a list" where
  "voiced_part sil fs = rev (dropWhile sil (rev (dropWhile sil fs)))"

definition silent_end :: "('a \<Rightarrow> bool) \<Rightarrow> 'a list \<Rightarrow> 'a list" where
  "silent_end sil fs = rev (takeWhile sil (rev (dropWhile sil fs)))"

definition kept_frames :: "nat \<Rightarrow> nat \<Rightarrow> ('a \<Rightarrow> bool) \<Rightarrow> 'a list \<Rightarrow> 'a list" where
  "kept_frames lead trail sil fs =
     drop lead (takeWhile sil fs) @ voiced_part sil fs @ take trail (silent_end sil fs)"

definition shaped_stream :: "shaping \<Rightarrow> (byte list \<Rightarrow> bool) \<Rightarrow> byte list \<Rightarrow> byte list" where
  "shaped_stream cfg sil bs =
     concat (kept_frames (sp_max_leading cfg) (sp_keep_trailing cfg) sil (stream_frames (sp_frame_bytes cfg) bs))"

text \<open>One frame more.\<close>

lemma silent_end_none: "dropWhile sil fs = [] \<Longrightarrow> silent_end sil fs = []"
  by (simp add: silent_end_def del: dropWhile_eq_Nil_conv)

lemma voiced_part_none: "dropWhile sil fs = [] \<Longrightarrow> voiced_part sil fs = []"
  by (simp add: voiced_part_def del: dropWhile_eq_Nil_conv)

lemma parts_snoc:
  "takeWhile sil (fs @ [f]) = (if dropWhile sil fs = [] \<and> sil f then takeWhile sil fs @ [f] else takeWhile sil fs)"
  "dropWhile sil (fs @ [f]) = (if dropWhile sil fs = [] \<and> sil f then [] else dropWhile sil fs @ [f])"
  by (induction fs) auto

lemma voiced_part_snoc:
  "voiced_part sil (fs @ [f]) =
     (if sil f then voiced_part sil fs else voiced_part sil fs @ silent_end sil fs @ [f])"
  "silent_end sil (fs @ [f]) =
     (if \<not> sil f \<or> dropWhile sil fs = [] then [] else silent_end sil fs @ [f])"
proof -
  have split: "rev (dropWhile sil (rev xs)) @ rev (takeWhile sil (rev xs)) = xs" for xs :: "'a list"
    by (metis rev_append rev_rev_ident takeWhile_dropWhile_id)
  show "voiced_part sil (fs @ [f]) =
     (if sil f then voiced_part sil fs else voiced_part sil fs @ silent_end sil fs @ [f])"
    using split [of "dropWhile sil fs"]
    by (auto simp: voiced_part_def silent_end_def parts_snoc simp del: dropWhile_eq_Nil_conv)
  show "silent_end sil (fs @ [f]) =
     (if \<not> sil f \<or> dropWhile sil fs = [] then [] else silent_end sil fs @ [f])"
    by (auto simp: silent_end_def parts_snoc simp del: dropWhile_eq_Nil_conv)
qed

section \<open>The optimizer implements it\<close>

definition emitted_ok :: "shaping \<Rightarrow> byte list list \<Rightarrow> bool" where
  "emitted_ok cfg cs \<longleftrightarrow> (\<forall>c\<in>set cs. c \<noteq> [] \<and> length c \<le> max (sp_startup_bytes cfg) (sp_steady_bytes cfg))"

definition sizes_ok :: "shaping \<Rightarrow> bool" where
  "sizes_ok cfg \<longleftrightarrow> 0 < sp_frame_bytes cfg \<and> 0 < sp_startup_bytes cfg \<and> 0 < sp_steady_bytes cfg"

text \<open>What appending to the buffer leaves alone.\<close>

definition same_frames :: "optimizer \<Rightarrow> optimizer \<Rightarrow> bool" where
  "same_frames st st' \<longleftrightarrow>
     op_frame_carry st' = op_frame_carry st \<and> op_pending st' = op_pending st
     \<and> op_speech_started st' = op_speech_started st \<and> op_leading_dropped st' = op_leading_dropped st"

lemma record_emissions_fields:
  "op_frame_carry (record_emissions cs st) = op_frame_carry st"
  "op_emit_buffer (record_emissions cs st) = op_emit_buffer st"
  "op_pending (record_emissions cs st) = op_pending st"
  "op_speech_started (record_emissions cs st) = op_speech_started st"
  "op_leading_dropped (record_emissions cs st) = op_leading_dropped st"
  "op_bytes_out (record_emissions cs st) = op_bytes_out st + length (concat cs)"
  by (induction cs arbitrary: st) (simp_all add: record_emissions_def record_emission_def)

lemma append_emit_result:
  assumes a: "append_emit_bytes cfg frame st = (cs, st')" and ok: "sizes_ok cfg"
  shows "concat cs @ op_emit_buffer st' = op_emit_buffer st @ frame \<and> emitted_ok cfg cs
     \<and> length (op_emit_buffer st') \<le> max (sp_startup_bytes cfg) (sp_steady_bytes cfg)
     \<and> op_bytes_out st' = op_bytes_out st + length (concat cs) \<and> same_frames st st'"
proof -
  let ?n = "if op_chunks_out st = 0 then sp_startup_bytes cfg else sp_steady_bytes cfg"
  have n: "?n \<noteq> 0" "?n \<le> max (sp_startup_bytes cfg) (sp_steady_bytes cfg)" using ok by (simp_all add: sizes_ok_def)
  have cs: "cs = fst (cut_chunks ?n (op_emit_buffer st @ frame))"
    and st': "st' = record_emissions cs (st\<lparr>op_emit_buffer := snd (cut_chunks ?n (op_emit_buffer st @ frame))\<rparr>)"
    using a by (auto simp: append_emit_bytes_def case_prod_beta Let_def)
  have whole: "concat cs @ op_emit_buffer st' = op_emit_buffer st @ frame"
    "\<forall>c\<in>set cs. length c = ?n" "length (op_emit_buffer st') < ?n"
    using cut_chunks_whole [of ?n "op_emit_buffer st @ frame"] n(1) unfolding cs st'
    by (simp_all add: record_emissions_fields)
  then have "emitted_ok cfg cs" using n by (auto simp: emitted_ok_def)
  with whole n(2) st' show ?thesis by (simp add: record_emissions_fields same_frames_def)
qed

lemma append_all_result:
  assumes "append_all cfg fs st = (cs, st')" and ok: "sizes_ok cfg"
    and "length (op_emit_buffer st) \<le> max (sp_startup_bytes cfg) (sp_steady_bytes cfg)"
  shows "concat cs @ op_emit_buffer st' = op_emit_buffer st @ concat fs \<and> emitted_ok cfg cs
     \<and> length (op_emit_buffer st') \<le> max (sp_startup_bytes cfg) (sp_steady_bytes cfg)
     \<and> op_bytes_out st' = op_bytes_out st + length (concat cs) \<and> same_frames st st'"
  using assms(1,3)
proof (induction fs arbitrary: st cs)
  case Nil
  then show ?case by (simp add: emitted_ok_def same_frames_def)
next
  case (Cons f fs)
  obtain c1 st1 c2 where step: "append_emit_bytes cfg f st = (c1, st1)"
    "append_all cfg fs st1 = (c2, st')" "cs = c1 @ c2"
    using Cons.prems(1) by (auto split: prod.splits)
  note one = append_emit_result [OF step(1) ok]
  note rest = Cons.IH [OF step(2)]
  from one rest show ?case unfolding step(3)
    by (auto simp: emitted_ok_def same_frames_def)
qed

text \<open>The state after the frames \<open>fs\<close> with the bytes \<open>out\<close> put out.\<close>

definition frames_repr :: "shaping \<Rightarrow> (byte list \<Rightarrow> bool) \<Rightarrow> byte list list \<Rightarrow> optimizer \<Rightarrow> byte list \<Rightarrow> bool" where
  "frames_repr cfg sil fs st out \<longleftrightarrow>
     op_speech_started st = (dropWhile sil fs \<noteq> [])
     \<and> op_leading_dropped st = min (sp_max_leading cfg) (length (takeWhile sil fs))
     \<and> op_pending st = silent_end sil fs
     \<and> out @ op_emit_buffer st = concat (drop (sp_max_leading cfg) (takeWhile sil fs) @ voiced_part sil fs)
     \<and> length (op_emit_buffer st) \<le> max (sp_startup_bytes cfg) (sp_steady_bytes cfg)
     \<and> op_bytes_out st = length out"

lemma frames_repr_carry [simp]:
  "frames_repr cfg sil fs (st\<lparr>op_frame_carry := c\<rparr>) out = frames_repr cfg sil fs st out"
  by (simp add: frames_repr_def)

text \<open>A frame that is played lets the silent frames before it through.\<close>

definition release_frames :: "shaping \<Rightarrow> byte list \<Rightarrow> optimizer \<Rightarrow> byte list list \<times> optimizer" where
  "release_frames cfg f st =
     (let (out, st2) = append_all cfg (op_pending st) st;
          (out', st3) = append_emit_bytes cfg f (st2\<lparr>op_pending := []\<rparr>)
      in (out @ out', st3))"

lemma release_frames_result:
  assumes a: "release_frames cfg f st = (cs, st')" and ok: "sizes_ok cfg"
    and b: "length (op_emit_buffer st) \<le> max (sp_startup_bytes cfg) (sp_steady_bytes cfg)"
  shows "concat cs @ op_emit_buffer st' = op_emit_buffer st @ concat (op_pending st) @ f \<and> emitted_ok cfg cs
     \<and> length (op_emit_buffer st') \<le> max (sp_startup_bytes cfg) (sp_steady_bytes cfg)
     \<and> op_bytes_out st' = op_bytes_out st + length (concat cs) \<and> same_frames (st\<lparr>op_pending := []\<rparr>) st'"
proof -
  obtain c1 st2 c2 where step: "append_all cfg (op_pending st) st = (c1, st2)"
    "append_emit_bytes cfg f (st2\<lparr>op_pending := []\<rparr>) = (c2, st')" "cs = c1 @ c2"
    using a by (auto simp: release_frames_def split: prod.splits)
  have one: "concat c1 @ op_emit_buffer st2 = op_emit_buffer st @ concat (op_pending st)" "emitted_ok cfg c1"
    "op_bytes_out st2 = op_bytes_out st + length (concat c1)" "same_frames st st2"
    using append_all_result [OF step(1) ok b] by blast+
  have two: "concat c2 @ op_emit_buffer st' = op_emit_buffer st2 @ f" "emitted_ok cfg c2"
    "length (op_emit_buffer st') \<le> max (sp_startup_bytes cfg) (sp_steady_bytes cfg)"
    "op_bytes_out st' = op_bytes_out st2 + length (concat c2)" "same_frames (st2\<lparr>op_pending := []\<rparr>) st'"
    using append_emit_result [OF step(2) ok] by simp_all
  have "concat cs @ op_emit_buffer st' = op_emit_buffer st @ concat (op_pending st) @ f"
    using one(1) two(1) step(3) by (metis append.assoc concat_append)
  moreover have "emitted_ok cfg cs" using one(2) two(2) step(3) by (auto simp: emitted_ok_def)
  moreover have "same_frames (st\<lparr>op_pending := []\<rparr>) st'" using one(4) two(5) by (simp add: same_frames_def)
  ultimately show ?thesis using one(3) two(3,4) step(3) by simp
qed

lemma process_frame_repr:
  assumes r: "frames_repr cfg sil fs st out" and p: "process_frame cfg sil f st = (cs, st')" and ok: "sizes_ok cfg"
  shows "frames_repr cfg sil (fs @ [f]) st' (out @ concat cs) \<and> emitted_ok cfg cs
     \<and> op_frame_carry st' = op_frame_carry st"
proof -
  let ?lead = "takeWhile sil fs" and ?rest = "dropWhile sil fs"
  consider (dropped) "?rest = []" "sil f" "length ?lead < sp_max_leading cfg"
    | (kept) "?rest = []" "sil f" "sp_max_leading cfg \<le> length ?lead"
    | (held) "?rest \<noteq> []" "sil f" | (voiced) "\<not> sil f" by force
  then show ?thesis
  proof cases
    case dropped
    then have "cs = []" "st' = st\<lparr>op_silent_frames_seen := op_silent_frames_seen st + 1,
        op_leading_dropped := op_leading_dropped st + 1\<rparr>"
      using p r by (auto simp: process_frame_def frames_repr_def Let_def)
    with dropped r show ?thesis
      by (simp add: frames_repr_def parts_snoc voiced_part_snoc silent_end_none voiced_part_none emitted_ok_def del: dropWhile_eq_Nil_conv)
  next
    case held
    then have "cs = []" "st' = st\<lparr>op_silent_frames_seen := op_silent_frames_seen st + 1,
        op_pending := op_pending st @ [f]\<rparr>"
      using p r by (auto simp: process_frame_def frames_repr_def Let_def)
    with held r show ?thesis
      by (simp add: frames_repr_def parts_snoc voiced_part_snoc silent_end_none voiced_part_none emitted_ok_def del: dropWhile_eq_Nil_conv)
  next
    case kept
    let ?st = "st\<lparr>op_silent_frames_seen := op_silent_frames_seen st + 1, op_speech_started := False\<rparr>"
    have st: "\<not> op_speech_started st" "op_pending st = []" "op_leading_dropped st = sp_max_leading cfg"
      using r kept by (simp_all add: frames_repr_def silent_end_none del: dropWhile_eq_Nil_conv)
    with kept p have "release_frames cfg f ?st = (cs, st')"
      by (simp add: process_frame_def release_frames_def Let_def)
    from release_frames_result [OF this ok] r st kept show ?thesis
      by (auto simp: frames_repr_def parts_snoc voiced_part_snoc silent_end_none voiced_part_none same_frames_def simp del: dropWhile_eq_Nil_conv)
  next
    case voiced
    let ?st = "st\<lparr>op_speech_started := True\<rparr>"
    from voiced p have "release_frames cfg f ?st = (cs, st')"
      by (simp add: process_frame_def release_frames_def Let_def)
    from release_frames_result [OF this ok] r voiced show ?thesis
      by (auto simp: frames_repr_def parts_snoc voiced_part_snoc silent_end_none voiced_part_none same_frames_def simp del: dropWhile_eq_Nil_conv)
  qed
qed

lemma process_frames_repr:
  assumes "frames_repr cfg sil fs st out" and "process_frames cfg sil gs st = (cs, st')" and ok: "sizes_ok cfg"
  shows "frames_repr cfg sil (fs @ gs) st' (out @ concat cs) \<and> emitted_ok cfg cs
     \<and> op_frame_carry st' = op_frame_carry st"
  using assms(1,2)
proof (induction gs arbitrary: fs st out cs)
  case Nil
  then show ?case by (simp add: emitted_ok_def)
next
  case (Cons g gs)
  obtain c1 st1 c2 where step: "process_frame cfg sil g st = (c1, st1)"
    "process_frames cfg sil gs st1 = (c2, st')" "cs = c1 @ c2"
    using Cons.prems(2) by (auto split: prod.splits)
  note one = process_frame_repr [OF Cons.prems(1) step(1) ok]
  note rest = Cons.IH [OF conjunct1 [OF one] step(2)]
  from one rest show ?case unfolding step(3) by (auto simp: emitted_ok_def)
qed

text \<open>The state after a stream \<open>bs\<close>: its whole frames are processed, the rest is carried.\<close>

definition optimizer_repr :: "shaping \<Rightarrow> (byte list \<Rightarrow> bool) \<Rightarrow> byte list \<Rightarrow> optimizer \<Rightarrow> byte list \<Rightarrow> bool" where
  "optimizer_repr cfg sil bs st out \<longleftrightarrow>
     frames_repr cfg sil (fst (cut_chunks (sp_frame_bytes cfg) bs)) st out
     \<and> op_frame_carry st = snd (cut_chunks (sp_frame_bytes cfg) bs)"

lemma optimizer_push_repr:
  assumes r: "optimizer_repr cfg sil bs st out" and p: "optimizer_push cfg sil c st = (cs, st')" and ok: "sizes_ok cfg"
  shows "optimizer_repr cfg sil (bs @ c) st' (out @ concat cs) \<and> emitted_ok cfg cs"
proof (cases "c = []")
  case True
  with p r show ?thesis by (simp add: optimizer_push_def emitted_ok_def)
next
  case False
  let ?n = "sp_frame_bytes cfg"
  let ?cut = "cut_chunks ?n (op_frame_carry st @ c)"
  define st1 where "st1 = st\<lparr>op_chunks_in := op_chunks_in st + 1, op_bytes_in := op_bytes_in st + length c,
     op_tiny_chunks_in := op_tiny_chunks_in st + (if length c < ?n then 1 else 0), op_frame_carry := snd ?cut\<rparr>"
  have run: "process_frames cfg sil (fst ?cut) st1 = (cs, st')"
    using p False by (simp add: optimizer_push_def st1_def Let_def case_prod_beta)
  have "frames_repr cfg sil (fst (cut_chunks ?n bs)) st1 out"
    using r by (simp add: optimizer_repr_def frames_repr_def st1_def)
  from process_frames_repr [OF this run ok]
  show ?thesis using r cut_chunks_append [of ?n bs c]
    by (simp add: optimizer_repr_def st1_def)
qed

lemma optimizer_flush_result:
  assumes r: "optimizer_repr cfg sil bs st out" and f: "optimizer_flush cfg sil st = (cs, st')" and ok: "sizes_ok cfg"
  shows "out @ concat cs = shaped_stream cfg sil bs \<and> emitted_ok cfg cs \<and> op_bytes_out st' = length (shaped_stream cfg sil bs)"
proof -
  let ?n = "sp_frame_bytes cfg"
  let ?max = "max (sp_startup_bytes cfg) (sp_steady_bytes cfg)"
  let ?fs = "stream_frames ?n bs"
  obtain c1 st1 where last: "(if op_frame_carry st = [] then ([], st)
      else process_frame cfg sil (pad_sample (op_frame_carry st)) (st\<lparr>op_frame_carry := []\<rparr>)) = (c1, st1)"
    by fastforce
  have one: "frames_repr cfg sil ?fs st1 (out @ concat c1)" "emitted_ok cfg c1"
  proof -
    have carry: "op_frame_carry st = snd (cut_chunks ?n bs)"
      and before: "frames_repr cfg sil (fst (cut_chunks ?n bs)) (st\<lparr>op_frame_carry := []\<rparr>) out"
      using r by (simp_all add: optimizer_repr_def)
    have "frames_repr cfg sil ?fs st1 (out @ concat c1) \<and> emitted_ok cfg c1"
    proof (cases "op_frame_carry st = []")
      case True
      with last r carry show ?thesis by (simp add: stream_frames_def optimizer_repr_def emitted_ok_def)
    next
      case False
      with last have "process_frame cfg sil (pad_sample (op_frame_carry st)) (st\<lparr>op_frame_carry := []\<rparr>) = (c1, st1)"
        by simp
      from process_frame_repr [OF before this ok] False carry show ?thesis by (simp add: stream_frames_def)
    qed
    then show "frames_repr cfg sil ?fs st1 (out @ concat c1)" "emitted_ok cfg c1" by blast+
  qed
  let ?keep = "take (sp_keep_trailing cfg) (op_pending st1)"
  define st2 where "st2 = st1\<lparr>op_trailing_kept := op_trailing_kept st1 + length ?keep,
     op_trailing_dropped := op_trailing_dropped st1 + length (drop (sp_keep_trailing cfg) (op_pending st1))\<rparr>"
  obtain c2 st3 where tail: "append_all cfg ?keep st2 = (c2, st3)" by fastforce
  have short: "length (op_emit_buffer st2) \<le> ?max" using one(1) by (simp add: frames_repr_def st2_def)
  have two: "concat c2 @ op_emit_buffer st3 = op_emit_buffer st1 @ concat ?keep" "emitted_ok cfg c2"
    "length (op_emit_buffer st3) \<le> ?max" "op_bytes_out st3 = op_bytes_out st1 + length (concat c2)"
    using append_all_result [OF tail ok short] by (simp_all add: st2_def)
  have whole: "out @ concat c1 @ concat c2 @ op_emit_buffer st3 = shaped_stream cfg sil bs"
    using two(1) one(1) by (simp add: frames_repr_def shaped_stream_def kept_frames_def)
  have result: "(cs, st') = (if op_emit_buffer st3 = [] then (c1 @ c2, st3\<lparr>op_pending := []\<rparr>)
      else (c1 @ c2 @ [op_emit_buffer st3],
            (record_emission (length (op_emit_buffer st3)) (st3\<lparr>op_pending := []\<rparr>))\<lparr>op_emit_buffer := []\<rparr>))"
    using f unfolding optimizer_flush_def last Let_def prod.case st2_def [symmetric] tail by (auto split: if_splits)
  have total: "length (shaped_stream cfg sil bs) = length out + length (concat c1) + length (concat c2) + length (op_emit_buffer st3)"
    by (simp flip: whole)
  have bytes: "op_bytes_out st1 = length (out @ concat c1)" using one(1) by (simp add: frames_repr_def)
  show ?thesis
  proof (cases "op_emit_buffer st3 = []")
    case True
    with result whole total one(2) two(2,4) bytes show ?thesis by (auto simp: emitted_ok_def)
  next
    case False
    with result whole total one(2) two bytes show ?thesis
      by (auto simp: emitted_ok_def record_emission_def)
  qed
qed

text \<open>The optimizer as a stage: the chunks it puts out, one after the other.\<close>

definition speech_push ::
    "shaping \<Rightarrow> (byte list \<Rightarrow> bool) \<Rightarrow> byte list \<Rightarrow> optimizer \<Rightarrow> byte list \<times> optimizer" where
  "speech_push cfg sil c st = map_prod concat id (optimizer_push cfg sil c st)"

definition speech_flush :: "shaping \<Rightarrow> (byte list \<Rightarrow> bool) \<Rightarrow> optimizer \<Rightarrow> byte list \<times> optimizer" where
  "speech_flush cfg sil st = map_prod concat id (optimizer_flush cfg sil st)"

lemma optimizer_repr_start: "optimizer_repr cfg sil [] new_optimizer []" if "sizes_ok cfg"
  using that
  by (simp add: optimizer_repr_def frames_repr_def new_optimizer_def cut_chunks_short sizes_ok_def
      voiced_part_def silent_end_def)

lemma optimizer_stage:
  assumes ok: "sizes_ok cfg"
  shows "stream_stage (speech_push cfg sil) (speech_flush cfg sil) new_optimizer (optimizer_repr cfg sil)
     (shaped_stream cfg sil)"
proof
  show "optimizer_repr cfg sil [] new_optimizer []" by (rule optimizer_repr_start [OF ok])
next
  fix bs st out c o1 st'
  assume r: "optimizer_repr cfg sil bs st out" and p: "speech_push cfg sil c st = (o1, st')"
  obtain cs where "optimizer_push cfg sil c st = (cs, st')" "o1 = concat cs"
    using p by (auto simp: speech_push_def map_prod_def split: prod.splits)
  with optimizer_push_repr [OF r _ ok] show "optimizer_repr cfg sil (bs @ c) st' (out @ o1)" by blast
next
  fix bs st out
  assume r: "optimizer_repr cfg sil bs st out"
  obtain cs st' where "optimizer_flush cfg sil st = (cs, st')" by fastforce
  with optimizer_flush_result [OF r this ok] show "out @ fst (speech_flush cfg sil st) = shaped_stream cfg sil bs"
    by (simp add: speech_flush_def)
qed

lemma default_sizes: "sizes_ok default_shaping"
  by (simp add: sizes_ok_def default_shaping_def make_shaping_def bytes_for_duration_ms_def)

interpretation shaped: stream_stage "speech_push default_shaping frame_is_silent"
    "speech_flush default_shaping frame_is_silent" new_optimizer "optimizer_repr default_shaping frame_is_silent"
    "shaped_stream default_shaping frame_is_silent"
  by (rule optimizer_stage [OF default_sizes])

text \<open>A whole utterance: every chunk of the provider is pushed, then the optimizer is flushed.\<close>

fun run_optimizer ::
    "shaping \<Rightarrow> (byte list \<Rightarrow> bool) \<Rightarrow> byte list list \<Rightarrow> optimizer \<Rightarrow> byte list list \<times> optimizer" where
  "run_optimizer cfg sil [] st = optimizer_flush cfg sil st"
| "run_optimizer cfg sil (c # cs) st =
     (let (out, st1) = optimizer_push cfg sil c st; (outs, st2) = run_optimizer cfg sil cs st1
      in (out @ outs, st2))"

lemma run_optimizer_stage:
  "concat (fst (run_optimizer cfg sil cs st)) = run_stage (speech_push cfg sil) (speech_flush cfg sil) cs st"
  by (induction cs arbitrary: st)
     (auto simp: speech_push_def speech_flush_def map_prod_def case_prod_beta Let_def)

lemma run_optimizer_sizes:
  assumes "optimizer_repr cfg sil bs st out" and ok: "sizes_ok cfg"
  shows "emitted_ok cfg (fst (run_optimizer cfg sil cs st))
     \<and> op_bytes_out (snd (run_optimizer cfg sil cs st)) = length (shaped_stream cfg sil (bs @ concat cs))"
  using assms(1)
proof (induction cs arbitrary: bs st out)
  case Nil
  obtain cs st' where f: "optimizer_flush cfg sil st = (cs, st')" by fastforce
  from optimizer_flush_result [OF Nil f ok] f show ?case by simp
next
  case (Cons c cs)
  obtain c1 st1 where step: "optimizer_push cfg sil c st = (c1, st1)" by fastforce
  note one = optimizer_push_repr [OF Cons.prems step ok]
  from one Cons.IH [OF conjunct1 [OF one]] step show ?case
    by (auto simp: emitted_ok_def case_prod_beta)
qed

text \<open>
  C33. The shaping of speech is a function of the stream: however the provider cuts the audio into
  chunks, \<open>Pcm16RealtimeOptimizer\<close> puts out, in chunks that are not empty and not longer than a
  playback chunk, exactly the specified stream: at most the configured number of leading silent frames
  is left out, every frame from the first voiced one to the last voiced one is there in order, and of
  the silent frames after that the configured number. Its byte counter is the length of that stream.
\<close>

theorem speech_stream_shaped:
  fixes chunks :: "byte list list" and sil :: "byte list \<Rightarrow> bool"
  assumes "sizes_ok cfg"
  defines "result \<equiv> run_optimizer cfg sil chunks new_optimizer"
  shows "concat (fst result) = shaped_stream cfg sil (concat chunks) \<and> emitted_ok cfg (fst result)
     \<and> op_bytes_out (snd result) = length (shaped_stream cfg sil (concat chunks))"
  using stream_stage.run_spec [OF optimizer_stage [OF assms(1)]]
    run_optimizer_sizes [OF optimizer_repr_start [OF assms(1)] assms(1)]
  by (simp add: result_def run_optimizer_stage)

text \<open>
  Frames of one sample here; a silent frame before and two after the voiced ones, a chunk that ends in
  the middle of a sample, and the last half sample.
\<close>

theorem speech_stream_shaped_witness:
  "let cfg = \<lparr>sp_frame_bytes = 2, sp_startup_bytes = 2, sp_steady_bytes = 4, sp_max_leading = 1, sp_keep_trailing = 1\<rparr>;
       chunks = [[0, 0, 0], [64, 0, 64, 0], [], [0, 0, 0, 7]]
   in concat (fst (run_optimizer cfg frame_is_silent chunks new_optimizer)) = [0, 64, 0, 64, 0, 0]
     \<and> fst (run_optimizer cfg frame_is_silent chunks new_optimizer) = [[0, 64], [0, 64, 0, 0]]"
proof -
  let ?cfg = "\<lparr>sp_frame_bytes = 2, sp_startup_bytes = 2, sp_steady_bytes = 4, sp_max_leading = 1, sp_keep_trailing = 1\<rparr>"
  let ?chunks = "[[0, 0, 0], [64, 0, 64, 0], [], [0, 0, 0, 7]] :: byte list list"
  have "sizes_ok ?cfg" by (simp add: sizes_ok_def)
  from speech_stream_shaped [OF this, of frame_is_silent ?chunks]
  have "concat (fst (run_optimizer ?cfg frame_is_silent ?chunks new_optimizer)) = shaped_stream ?cfg frame_is_silent (concat ?chunks)"
    by simp
  moreover have "shaped_stream ?cfg frame_is_silent (concat ?chunks) = [0, 64, 0, 64, 0, 0]" by code_simp
  moreover have "fst (run_optimizer ?cfg frame_is_silent ?chunks new_optimizer) = [[0, 64], [0, 64, 0, 0]]" by code_simp
  ultimately show ?thesis by (simp add: Let_def)
qed

end
