(* ===== verification/DirectSession.thy ===== *)
theory DirectSession
  imports VoiceStrategy AudioShaping Database LegStore
begin

text \<open>
  One live session of \<open>app/integrations/direct/session_manager.py\<close>: the state that
  \<open>DirectSession\<close> keeps in its process, the sentence buffer \<open>IncrementalTTSBuffer\<close>, and what the
  session's loops and callbacks do to it: the bounded audio queues with their accounting, the batches
  of the audio loop, speech synthesis, the model's callbacks, the response timeout and the failure of
  the session. The manager that creates and ends sessions is in \<open>SessionManager\<close>.

  An operation returns the session with what it did outside of it, in order: calls to the model, the
  bridge and the telephony provider (\<open>live_op\<close>) and the tasks it started (\<open>live_task\<close>). Whether such
  a call raises is given by \<open>io\<close>. Counters of log lines and latency figures are left out. Text
  beyond Latin-1 is not representable, so the ellipsis does not end a sentence here. The linear resampling of
  Gemini's audio from 24 to 16 kHz (floating point) is an argument.
\<close>

section \<open>Sentences\<close>

text \<open>\<open>re.search\<close> for white space after a sentence end: what is before it and what is after it.\<close>

fun sentence_boundary :: "bool \<Rightarrow> string \<Rightarrow> string \<Rightarrow> (string \<times> string) option" where
  "sentence_boundary ended acc [] = None"
| "sentence_boundary ended acc (c # cs) =
     (if ended \<and> is_space c then Some (rev acc, dropWhile is_space cs)
      else sentence_boundary (c \<in> {CHR ''.'', CHR ''!'', CHR ''?''}) (c # acc) cs)"

lemma sentence_boundary_shorter:
  "sentence_boundary e acc s = Some (before, rest) \<Longrightarrow> length rest < length s"
  by (induction e acc s rule: sentence_boundary.induct)
     (auto split: if_splits intro: le_less_trans [OF length_dropWhile_le])

definition min_tts_sentence_chars :: nat where
  "min_tts_sentence_chars = 12"

text \<open>The sentences that leave the buffer, and the buffer.\<close>

function try_flush :: "string \<Rightarrow> string list \<times> string" where
  "try_flush buf =
     (case sentence_boundary False [] buf of
        None \<Rightarrow> ([], buf)
      | Some (before, rest) \<Rightarrow>
          (let sentence = strip before in
           if length sentence < min_tts_sentence_chars then ([], buf)
           else (let (more, left) = try_flush rest in (sentence # more, left))))"
  by auto
termination by (relation "measure length") (auto dest: sentence_boundary_shorter)

declare try_flush.simps [simp del]

definition tts_buffer_push :: "string \<Rightarrow> bool \<Rightarrow> string \<Rightarrow> string list \<times> string" where
  "tts_buffer_push fragment is_final buf =
     (let buf1 = buf @ fragment in
      if is_final then (if strip buf1 = [] then [] else [strip buf1], [])
      else try_flush buf1)"

section \<open>State\<close>

record capabilities =
  cp_mode :: string
  cp_audio_in :: bool
  cp_audio_out :: bool
  cp_real_audio_in :: bool
  cp_real_audio_out :: bool

definition text_only :: capabilities where
  "text_only = \<lparr>cp_mode = ''text_only'', cp_audio_in = False, cp_audio_out = False,
     cp_real_audio_in = False, cp_real_audio_out = False\<rparr>"

record live_metrics =
  dm_inbound_received :: nat
  dm_inbound_sent :: nat
  dm_inbound_dropped :: nat
  dm_inbound_silence_dropped :: nat
  dm_inbound_echo_suppressed :: nat
  dm_outbound_enqueued :: nat
  dm_outbound_played :: nat
  dm_outbound_dropped :: nat
  dm_inbound_voice_tail_until :: "time option"
  dm_suppress_inbound_until :: "time option"
  dm_last_model_request_at :: "time option"
  dm_awaiting_model_response :: bool
  dm_model_turn_active :: bool

definition fresh_metrics :: live_metrics where
  "fresh_metrics = \<lparr>dm_inbound_received = 0, dm_inbound_sent = 0, dm_inbound_dropped = 0,
     dm_inbound_silence_dropped = 0, dm_inbound_echo_suppressed = 0, dm_outbound_enqueued = 0,
     dm_outbound_played = 0, dm_outbound_dropped = 0, dm_inbound_voice_tail_until = None,
     dm_suppress_inbound_until = None, dm_last_model_request_at = None,
     dm_awaiting_model_response = False, dm_model_turn_active = False\<rparr>"

text \<open>A synthesis in flight; its source is fixed when it begins.\<close>

record tts_job =
  tj_text :: string
  tj_override :: "voice_path option"
  tj_source :: "voice_path option"
  tj_optimizer :: optimizer
  tj_gate :: gate

definition new_tts_job :: "string \<Rightarrow> voice_path option \<Rightarrow> tts_job" where
  "new_tts_job txt override =
     \<lparr>tj_text = txt, tj_override = override, tj_source = None, tj_optimizer = new_optimizer, tj_gate = new_gate\<rparr>"

record live_session =
  ds_session_id :: string
  ds_call_id :: uuid
  ds_phone :: string
  ds_current_status :: call_status
  ds_capabilities :: capabilities
  ds_metrics :: live_metrics
  ds_instructions :: "string list"
  ds_audio_in :: "byte list list"
  ds_audio_out :: "(voice_path \<times> byte list) list"
  ds_stop :: bool
  ds_leg_id :: "string option"
  ds_hangup_reason :: "string option"
  ds_aligners :: "voice_path \<rightharpoonup> aligner"
  ds_voice :: voice_state
  ds_initial_greeting :: "string option"
  ds_tts_buffer :: "string option"
  ds_tts_jobs :: "tts_job list"
  ds_transcripts :: "(string \<times> string) list"
  ds_last_error :: "string option"
  ds_last_failure_stage :: "string option"
  ds_takes_control :: bool

datatype live_op =
    Op_connect string
  | Op_disconnect string
  | Op_bridge_close string
  | Op_model_connect string
  | Op_model_close string
  | Op_model_instruct string string
  | Op_model_audio string "byte list"
  | Op_play string "byte list"
  | Op_control string string
  | Op_terminate_leg string

text \<open>A \<open>terminate_session\<close> that was scheduled: the session, the status, the stage and the reason.\<close>

datatype live_task =
    Task_terminate string "call_status option" "string option" "string option"

type_synonym io = "live_op \<Rightarrow> string option"

definition on_metrics :: "(live_metrics \<Rightarrow> live_metrics) \<Rightarrow> live_session \<Rightarrow> live_session" where
  "on_metrics f s = s\<lparr>ds_metrics := f (ds_metrics s)\<rparr>"

section \<open>Failure\<close>

definition schedule_failure :: "string \<Rightarrow> string \<Rightarrow> live_session \<Rightarrow> live_session \<times> live_task list" where
  "schedule_failure stage err s =
     (if ds_current_status s = FAILED then (s, [])
      else (s\<lparr>ds_current_status := FAILED, ds_last_error := Some err,
              ds_last_failure_stage := Some stage, ds_stop := True\<rparr>,
            [Task_terminate (ds_session_id s) (Some FAILED) (Some stage) (Some err)]))"

section \<open>Queues\<close>

definition audio_queue_max :: nat where
  "audio_queue_max = 200"

text \<open>\<open>put_nowait\<close>; a full queue loses its oldest item. The flag tells that one was lost.\<close>

definition put_dropping :: "'a \<Rightarrow> 'a list \<Rightarrow> bool \<times> 'a list" where
  "put_dropping x q = (if length q < audio_queue_max then (False, q @ [x]) else (True, tl q @ [x]))"

definition enqueue_audio_in :: "byte list \<Rightarrow> live_session \<Rightarrow> live_session" where
  "enqueue_audio_in chunk s =
     (let (lost, q) = put_dropping chunk (ds_audio_in s)
      in on_metrics (\<lambda>m. m\<lparr>dm_inbound_received := dm_inbound_received m + 1,
                           dm_inbound_dropped := dm_inbound_dropped m + (if lost then 1 else 0)\<rparr>)
           (s\<lparr>ds_audio_in := q\<rparr>))"

definition aligner_of :: "voice_path \<Rightarrow> live_session \<Rightarrow> aligner" where
  "aligner_of src s = (case ds_aligners s src of Some a \<Rightarrow> a | None \<Rightarrow> new_aligner)"

definition enqueue_audio_out :: "voice_path \<Rightarrow> byte list \<Rightarrow> live_session \<Rightarrow> live_session" where
  "enqueue_audio_out src chunk s =
     (if chunk = [] then s
      else (let (aligned, a) = aligner_push chunk (aligner_of src s);
                s1 = s\<lparr>ds_aligners := (ds_aligners s)(src \<mapsto> a)\<rparr>
            in if aligned = [] then s1
               else (let (lost, q) = put_dropping (src, aligned) (ds_audio_out s1)
                     in on_metrics (\<lambda>m. m\<lparr>dm_outbound_enqueued := dm_outbound_enqueued m + 1,
                                          dm_outbound_dropped := dm_outbound_dropped m + (if lost then 1 else 0)\<rparr>)
                          (s1\<lparr>ds_audio_out := q\<rparr>))))"

text \<open>The last half sample of an utterance; unlike above, a full queue refuses it.\<close>

definition flush_audio_out_alignment :: "voice_path \<Rightarrow> live_session \<Rightarrow> live_session" where
  "flush_audio_out_alignment src s =
     (case ds_aligners s src of
        None \<Rightarrow> s
      | Some a \<Rightarrow>
          (let s1 = s\<lparr>ds_aligners := (ds_aligners s)(src := None)\<rparr>; final = fst (aligner_flush True a)
           in if final = [] then s1
              else (let full = (audio_queue_max \<le> length (ds_audio_out s1))
                    in on_metrics (\<lambda>m. m\<lparr>dm_outbound_enqueued := dm_outbound_enqueued m + 1,
                                         dm_outbound_dropped := dm_outbound_dropped m + (if full then 1 else 0)\<rparr>)
                         (if full then s1 else s1\<lparr>ds_audio_out := ds_audio_out s1 @ [(src, final)]\<rparr>))))"

text \<open>\<open>_chunk_pcm\<close> with 640 bytes: slices of the chunk, a short chunk as it is.\<close>

definition chunk_pcm :: "byte list \<Rightarrow> byte list list" where
  "chunk_pcm pcm =
     (if length pcm \<le> 640 then [pcm]
      else (let (cs, rest) = cut_chunks 640 pcm in cs @ (if rest = [] then [] else [rest])))"

definition bridge_chunk :: "byte list \<Rightarrow> live_session \<Rightarrow> live_session" where
  "bridge_chunk pcm s =
     (if ds_stop s \<or> pcm = [] then s else fold enqueue_audio_in (chunk_pcm pcm) s)"

section \<open>The batches of the audio loop\<close>

text \<open>The exception that ended the batch, if any, the session and the calls made.\<close>

type_synonym batch = "string option \<times> live_session \<times> live_op list"

definition after_instruction :: "time \<Rightarrow> live_metrics \<Rightarrow> live_metrics" where
  "after_instruction now m = m\<lparr>dm_last_model_request_at := Some now, dm_awaiting_model_response := True\<rparr>"

fun drain_instructions :: "io \<Rightarrow> time \<Rightarrow> nat \<Rightarrow> live_session \<Rightarrow> batch" where
  "drain_instructions io now 0 s = (None, s, [])"
| "drain_instructions io now (Suc n) s =
     (case ds_instructions s of
        [] \<Rightarrow> (None, s, [])
      | i # rest \<Rightarrow>
          (let op = Op_model_instruct (ds_session_id s) i; s1 = s\<lparr>ds_instructions := rest\<rparr> in
           case io op of
             Some e \<Rightarrow> (Some e, s1, [op])
           | None \<Rightarrow> (let (r, s2, ops) = drain_instructions io now n (on_metrics (after_instruction now) s1)
                      in (r, s2, op # ops))))"

text \<open>
  \<open>rms >= 0.012 or peak >= 0.04\<close>, on integers as in \<open>AudioShaping\<close>; no samples have neither.
\<close>

definition chunk_is_voiced :: "byte list \<Rightarrow> bool" where
  "chunk_is_voiced chunk =
     (let xs = samples_of chunk
      in xs \<noteq> [] \<and> ((32768 * 119995)\<^sup>2 * int (length xs) \<le> sum_squares xs * 10 ^ 14 \<or> (\<exists>x\<in>set xs. 1311 \<le> \<bar>x\<bar>)))"

definition echo_suppressed :: "time \<Rightarrow> live_metrics \<Rightarrow> bool" where
  "echo_suppressed now m = (case dm_suppress_inbound_until m of None \<Rightarrow> False | Some u \<Rightarrow> now \<le> u)"

definition voice_tail_over :: "time \<Rightarrow> live_metrics \<Rightarrow> bool" where
  "voice_tail_over now m = (case dm_inbound_voice_tail_until m of None \<Rightarrow> True | Some u \<Rightarrow> u < now)"

text \<open>What happens to a chunk of the caller: it is dropped (an echo, silence) or sent.\<close>

datatype inbound_fate = Fate_echo | Fate_silence | Fate_send

definition inbound_fate :: "time \<Rightarrow> byte list \<Rightarrow> live_metrics \<Rightarrow> inbound_fate" where
  "inbound_fate now chunk m =
     (let voiced = chunk_is_voiced chunk
      in if \<not> voiced \<and> echo_suppressed now m then Fate_echo
         else if \<not> voiced \<and> voice_tail_over now m then Fate_silence else Fate_send)"

definition after_dropped :: "inbound_fate \<Rightarrow> live_metrics \<Rightarrow> live_metrics" where
  "after_dropped fate m =
     (if fate = Fate_echo then m\<lparr>dm_inbound_echo_suppressed := dm_inbound_echo_suppressed m + 1\<rparr>
      else m\<lparr>dm_inbound_silence_dropped := dm_inbound_silence_dropped m + 1\<rparr>)
       \<lparr>dm_inbound_dropped := dm_inbound_dropped m + 1\<rparr>"

definition note_voice :: "time \<Rightarrow> byte list \<Rightarrow> live_metrics \<Rightarrow> live_metrics" where
  "note_voice now chunk m =
     (if chunk_is_voiced chunk then m\<lparr>dm_inbound_voice_tail_until := Some (now + 800000)\<rparr> else m)"

definition after_sent :: "time \<Rightarrow> live_metrics \<Rightarrow> live_metrics" where
  "after_sent now m =
     m\<lparr>dm_inbound_sent := dm_inbound_sent m + 1, dm_last_model_request_at := Some now,
       dm_awaiting_model_response := (dm_awaiting_model_response m \<or> \<not> dm_model_turn_active m)\<rparr>"

fun drain_audio_in :: "io \<Rightarrow> time \<Rightarrow> nat \<Rightarrow> live_session \<Rightarrow> batch" where
  "drain_audio_in io now 0 s = (None, s, [])"
| "drain_audio_in io now (Suc n) s =
     (case ds_audio_in s of
        [] \<Rightarrow> (None, s, [])
      | chunk # rest \<Rightarrow>
          (let s1 = s\<lparr>ds_audio_in := rest\<rparr>; fate = inbound_fate now chunk (ds_metrics s) in
           if fate \<noteq> Fate_send then drain_audio_in io now n (on_metrics (after_dropped fate) s1)
           else (let op = Op_model_audio (ds_session_id s) chunk; s2 = on_metrics (note_voice now chunk) s1 in
                 case io op of
                   Some e \<Rightarrow> (Some e, s2, [op])
                 | None \<Rightarrow> (let (r, s3, ops) = drain_audio_in io now n (on_metrics (after_sent now) s2)
                            in (r, s3, op # ops)))))"

text \<open>Playing a chunk keeps the caller's echo of it out for its duration and a second.\<close>

definition suppress_echo :: "time \<Rightarrow> byte list \<Rightarrow> live_metrics \<Rightarrow> live_metrics" where
  "suppress_echo now chunk m =
     (let until = now + 10 * duration_cms (length chunk) + 1000000
      in m\<lparr>dm_suppress_inbound_until := Some (case dm_suppress_inbound_until m of None \<Rightarrow> max 0 until | Some u \<Rightarrow> max u until)\<rparr>)"

fun drain_audio_out :: "io \<Rightarrow> time \<Rightarrow> nat \<Rightarrow> live_session \<Rightarrow> batch" where
  "drain_audio_out io now 0 s = (None, s, [])"
| "drain_audio_out io now (Suc n) s =
     (case ds_audio_out s of
        [] \<Rightarrow> (None, s, [])
      | (src, chunk) # rest \<Rightarrow>
          (let op = Op_play (ds_session_id s) chunk; s1 = s\<lparr>ds_audio_out := rest\<rparr> in
           case io op of
             Some e \<Rightarrow> (Some e, s1, [op])
           | None \<Rightarrow>
               (let s2 = (if cp_audio_in (ds_capabilities s1) \<and> chunk \<noteq> []
                          then on_metrics (suppress_echo now chunk) s1 else s1);
                    (r, s3, ops) = drain_audio_out io now n
                      (on_metrics (\<lambda>m. m\<lparr>dm_outbound_played := dm_outbound_played m + 1\<rparr>) s2)
                in (r, s3, op # ops))))"

section \<open>Speech\<close>

definition tts_dispatch :: "string \<Rightarrow> voice_path option \<Rightarrow> live_session \<Rightarrow> live_session" where
  "tts_dispatch txt override s = s\<lparr>ds_tts_jobs := ds_tts_jobs s @ [new_tts_job txt override]\<rparr>"

definition greeting_of :: "settings \<Rightarrow> live_session \<Rightarrow> string" where
  "greeting_of cfg s =
     the (py_or (ds_initial_greeting s) (Some (strip (st_direct_initial_greeting_text cfg))))"

text \<open>The phrase of the instruction is Cyrillic in the source.\<close>

definition greeting_instruction :: "string \<Rightarrow> string" where
  "greeting_instruction greeting = ''Greet the client with this phrase unchanged: '' @ greeting"

definition start_initial_greeting :: "settings \<Rightarrow> live_session \<Rightarrow> live_session" where
  "start_initial_greeting cfg s =
     (let greeting = greeting_of cfg s; path = vd_initial_greeting_path (vs_definition (ds_voice s)) in
      if \<not> st_direct_initial_greeting_enabled cfg \<or> greeting = [] \<or> \<not> cp_audio_out (ds_capabilities s) then s
      else if path \<in> {Path_tts_primary, Path_tts_fallback} then tts_dispatch greeting (Some path) s
      else if path = Path_gemini_native
      then s\<lparr>ds_instructions := ds_instructions s @ [greeting_instruction greeting]\<rparr>
      else s)"

text \<open>
  The synthesis of a text, step by step: its source is resolved, each chunk of the provider goes through
  the optimizer, the gate and the aligner into the playback queue, and the end flushes them.
\<close>

definition job_source :: "live_session \<Rightarrow> tts_job \<Rightarrow> voice_path" where
  "job_source s j = (case tj_override j of Some p \<Rightarrow> p | None \<Rightarrow> vs_active_path (ds_voice s))"

definition source_of :: "tts_job \<Rightarrow> voice_path" where
  "source_of j = (case tj_source j of Some p \<Rightarrow> p | None \<Rightarrow> Path_tts_fallback)"

definition tts_start :: "tts_job \<Rightarrow> live_session \<Rightarrow> tts_job" where
  "tts_start j s = j\<lparr>tj_source := Some (job_source s j)\<rparr>"

fun play_through_gate :: "fader \<Rightarrow> voice_path \<Rightarrow> byte list list \<Rightarrow> gate \<Rightarrow> live_session \<Rightarrow> gate \<times> live_session" where
  "play_through_gate fade src [] g s = (g, s)"
| "play_through_gate fade src (c # cs) g s =
     (case gate_push fade c g of
        (None, b, g') \<Rightarrow> play_through_gate fade src cs g' s
      | (Some out, b, g') \<Rightarrow> play_through_gate fade src cs g' (enqueue_audio_out src out s))"

definition tts_chunk :: "fader \<Rightarrow> byte list \<Rightarrow> tts_job \<Rightarrow> live_session \<Rightarrow> tts_job \<times> live_session" where
  "tts_chunk fade pcm j s =
     (let (cs, opt) = optimizer_push default_shaping frame_is_silent pcm (tj_optimizer j);
          (g, s1) = play_through_gate fade (source_of j) cs (tj_gate j) s
      in (j\<lparr>tj_optimizer := opt, tj_gate := g\<rparr>, s1))"

definition tts_finish :: "fader \<Rightarrow> tts_job \<Rightarrow> live_session \<Rightarrow> live_session" where
  "tts_finish fade j s =
     (let (cs, opt) = optimizer_flush default_shaping frame_is_silent (tj_optimizer j);
          (g, s1) = play_through_gate fade (source_of j) cs (tj_gate j) s
      in flush_audio_out_alignment (source_of j) s1)"

text \<open>A step of the \<open>i\<close>-th synthesis of a session; the first one resolves its source. An exception of the provider fails the session.\<close>

datatype tts_step = Tts_start | Tts_chunk "byte list" | Tts_end | Tts_error string string

definition remove_nth :: "nat \<Rightarrow> 'a list \<Rightarrow> 'a list" where
  "remove_nth i xs = take i xs @ drop (Suc i) xs"

definition tts_run :: "fader \<Rightarrow> nat \<Rightarrow> tts_step \<Rightarrow> live_session \<Rightarrow> live_session \<times> live_task list" where
  "tts_run fade i step s =
     (if length (ds_tts_jobs s) \<le> i then (s, [])
      else (let j0 = ds_tts_jobs s ! i; rest = remove_nth i (ds_tts_jobs s);
                j = (if tj_source j0 = None then tts_start j0 s else j0) in
        case step of
          Tts_start \<Rightarrow> (s\<lparr>ds_tts_jobs := (ds_tts_jobs s)[i := j]\<rparr>, [])
        | Tts_chunk pcm \<Rightarrow>
            (let (j', s') = tts_chunk fade pcm j s in (s'\<lparr>ds_tts_jobs := (ds_tts_jobs s)[i := j']\<rparr>, []))
        | Tts_end \<Rightarrow> ((tts_finish fade j s)\<lparr>ds_tts_jobs := rest\<rparr>, [])
        | Tts_error stage e \<Rightarrow>
            schedule_failure (''tts_'' @ stage) (''tts failed: '' @ e) (s\<lparr>ds_tts_jobs := rest\<rparr>)))"

section \<open>The model's callbacks\<close>

text \<open>A control message goes to a bridge that takes them (\<open>hasattr(bridge, "send_control")\<close>: the browser's).\<close>

definition control :: "string \<Rightarrow> live_session \<Rightarrow> live_op list" where
  "control kind s = (if ds_takes_control s then [Op_control (ds_session_id s) kind] else [])"

text \<open>The first sign of an answer.\<close>

definition answer_began :: "live_metrics \<Rightarrow> live_metrics" where
  "answer_began m =
     (if dm_awaiting_model_response m \<and> dm_last_model_request_at m \<noteq> None
      then m\<lparr>dm_awaiting_model_response := False, dm_model_turn_active := True\<rparr> else m)"

definition on_text :: "string \<Rightarrow> string \<Rightarrow> live_session \<Rightarrow> live_session \<times> live_op list" where
  "on_text role txt s =
     (let s1 = s\<lparr>ds_transcripts := ds_transcripts s @ [(role, txt)]\<rparr>;
          ops = control ''transcript'' s
      in if role \<noteq> ''assistant'' then (s1, ops)
         else (let s2 = on_metrics answer_began s1 in
               (if ds_tts_buffer s = None \<and> cp_audio_out (ds_capabilities s2) \<and> wants_tts_output (ds_voice s2)
                then tts_dispatch txt None s2 else s2, ops)))"

definition on_text_fragment :: "string \<Rightarrow> string \<Rightarrow> bool \<Rightarrow> live_session \<Rightarrow> live_session" where
  "on_text_fragment role fragment is_final s =
     (if role \<noteq> ''assistant'' \<or> ds_tts_buffer s = None then s
      else (let s1 = (if fragment \<noteq> [] then on_metrics answer_began s else s);
                (sentences, buf) = tts_buffer_push fragment is_final (the (ds_tts_buffer s))
            in fold (\<lambda>sentence. tts_dispatch sentence None) sentences (s1\<lparr>ds_tts_buffer := Some buf\<rparr>)))"

text \<open>The model's audio comes at 24000 Hz; half a sample raises after the answer has been noticed.\<close>

definition on_audio :: "resampler \<Rightarrow> byte list \<Rightarrow> live_session \<Rightarrow> (app_error, unit) result \<times> live_session" where
  "on_audio rs pcm s =
     (if \<not> cp_audio_out (ds_capabilities s) \<or> \<not> wants_gemini_audio_output (ds_voice s) then (Inr (), s)
      else (let s1 = on_metrics answer_began s in
            case resample_pcm16 rs pcm 24000 16000 of
              Inl e \<Rightarrow> (Inl e, s1)
            | Inr resampled \<Rightarrow> (Inr (), enqueue_audio_out Path_gemini_native resampled s1)))"

definition on_interrupted :: "live_session \<Rightarrow> live_session \<times> live_op list" where
  "on_interrupted s =
     (on_metrics (\<lambda>m. m\<lparr>dm_model_turn_active := False\<rparr>)
        (s\<lparr>ds_tts_jobs := [], ds_tts_buffer := map_option (\<lambda>b. []) (ds_tts_buffer s), ds_audio_out := []\<rparr>),
      control ''interrupted'' s)"

definition on_turn_complete :: "live_session \<Rightarrow> live_session" where
  "on_turn_complete s = on_metrics (\<lambda>m. m\<lparr>dm_model_turn_active := False\<rparr>) s"

definition on_tool_call :: "string \<Rightarrow> live_session \<Rightarrow> live_task list" where
  "on_tool_call name s =
     (if name = ''end_call'' then [Task_terminate (ds_session_id s) None None (Some ''agent_hangup'')] else [])"

section \<open>The response timeout\<close>

definition check_model_response_timeout ::
    "settings \<Rightarrow> time \<Rightarrow> live_session \<Rightarrow> live_session \<times> live_task list" where
  "check_model_response_timeout cfg now s =
     (let timeout = st_direct_model_response_timeout cfg; m = ds_metrics s in
      if timeout \<le> 0 \<or> \<not> dm_awaiting_model_response m then (s, [])
      else case dm_last_model_request_at m of
        None \<Rightarrow> (s, [])
      | Some at \<Rightarrow>
          if now - at < timeout then (s, [])
          else (case activate_tts_fallback (ds_voice s) of
            (True, v) \<Rightarrow>
              (let s1 = on_metrics (\<lambda>m. m\<lparr>dm_awaiting_model_response := False\<rparr>) (s\<lparr>ds_voice := v\<rparr>);
                   greeting = greeting_of cfg s1
               in (if st_direct_initial_greeting_enabled cfg \<and> greeting \<noteq> [] \<and> dm_outbound_played m = 0
                   then tts_dispatch greeting (Some Path_tts_fallback) s1 else s1, []))
          | (False, v) \<Rightarrow>
              if wants_tts_output (ds_voice s)
              then (on_metrics (\<lambda>m. m\<lparr>dm_awaiting_model_response := False, dm_model_turn_active := False,
                                      dm_last_model_request_at := None\<rparr>) s, [])
              else schedule_failure ''gemini_response_timeout'' ''no Gemini response'' s))"

section \<open>A round of the audio loop\<close>

text \<open>\<open>a\<close>, then \<open>b\<close> unless \<open>a\<close> raised.\<close>

definition then_batch :: "batch \<Rightarrow> (live_session \<Rightarrow> batch) \<Rightarrow> batch" where
  "then_batch a b =
     (case a of
        (Some e, s, ops) \<Rightarrow> (Some e, s, ops)
      | (None, s, ops) \<Rightarrow> (let (r, s', ops') = b s in (r, s', ops @ ops')))"

definition drain_queues :: "io \<Rightarrow> time \<Rightarrow> live_session \<Rightarrow> batch" where
  "drain_queues io now s =
     then_batch (drain_instructions io now 10 s) (\<lambda>s.
     then_batch (if cp_audio_in (ds_capabilities s) then drain_audio_in io now 40 s else (None, s, [])) (\<lambda>s.
     if cp_audio_out (ds_capabilities s) then drain_audio_out io now 100 s else (None, s, [])))"

text \<open>One turn of the loop. An exception fails the session, which ends the loop.\<close>

definition audio_loop_round ::
    "settings \<Rightarrow> io \<Rightarrow> time \<Rightarrow> live_session \<Rightarrow> live_session \<times> live_op list \<times> live_task list" where
  "audio_loop_round cfg io now s =
     (if ds_stop s then (s, [], [])
      else case drain_queues io now s of
        (Some e, s1, ops) \<Rightarrow>
          (let (s2, tasks) = schedule_failure ''audio_loop'' (''audio loop failed: '' @ e) s1 in (s2, ops, tasks))
      | (None, s1, ops) \<Rightarrow>
          (let (s2, tasks) = check_model_response_timeout cfg now s1 in (s2, ops, tasks)))"

text \<open>The \<open>finally\<close> of the loop, for a session that is still registered.\<close>

definition audio_loop_exit :: "live_session \<Rightarrow> live_session \<times> live_task list" where
  "audio_loop_exit s =
     (let s1 = (if ds_current_status s \<notin> terminal_statuses then s\<lparr>ds_current_status := COMPLETED\<rparr> else s)
      in if ds_current_status s1 = FAILED then (s1, [])
         else (s1, [Task_terminate (ds_session_id s1) None None None]))"

section \<open>The bridge and the leg\<close>

definition bridge_stream_closed :: "live_session \<Rightarrow> live_session \<times> live_task list" where
  "bridge_stream_closed s =
     (if ds_stop s then (s, [])
      else (s\<lparr>ds_stop := True\<rparr>, [Task_terminate (ds_session_id s) None None None]))"

definition leg_state_observed :: "leg_state \<Rightarrow> live_session \<Rightarrow> live_session \<times> live_task list" where
  "leg_state_observed st s =
     (if st \<in> {Leg_ANSWERED, Leg_BRIDGED} then (s\<lparr>ds_current_status := IN_PROGRESS\<rparr>, [])
      else if st \<in> {Leg_TERMINATED, Leg_FAILED}
      then (if ds_stop s then (s, [])
            else (s\<lparr>ds_stop := True\<rparr>,
                  [Task_terminate (ds_session_id s) (Some FAILED) (Some ''telephony_leg_terminated'')
                     (Some (''telephony leg terminated: '' @ leg_value st))]))
      else (s, []))"

definition resolve_capabilities :: "settings \<Rightarrow> bool \<Rightarrow> bool \<Rightarrow> voice_state \<Rightarrow> capabilities" where
  "resolve_capabilities cfg is_null is_open v =
     (let ready = (\<not> is_null \<and> is_open);
          inp = (ready \<and> st_gemini_audio_input_enabled cfg);
          out = (ready \<and> vd_primary_path (vs_definition v) \<noteq> Path_disabled);
          real = (ready \<and> st_media_gateway_enabled cfg \<and> st_media_gateway_provider cfg = ''freeswitch''
                  \<and> st_media_gateway_mode cfg = ''esl_rtp'')
      in \<lparr>cp_mode = (if inp \<and> out then ''full_duplex'' else if inp then ''audio_in_only''
                     else if out then ''audio_out_only'' else ''text_only''),
          cp_audio_in = inp, cp_audio_out = out, cp_real_audio_in = (real \<and> inp), cp_real_audio_out = (real \<and> out)\<rparr>)"

definition suspend_audio :: "live_session \<Rightarrow> live_session" where
  "suspend_audio s =
     s\<lparr>ds_capabilities := text_only, ds_voice := (ds_voice s)\<lparr>vs_active_path := Path_disabled\<rparr>,
       ds_audio_in := [], ds_audio_out := []\<rparr>"

section \<open>The sentence buffer\<close>

text \<open>No text is lost or reordered: apart from white space, what leaves is what came.\<close>

abbreviation inked :: "string \<Rightarrow> string" where
  "inked s \<equiv> filter (\<lambda>c. \<not> is_space c) s"

lemma inked_dropWhile: "inked (dropWhile is_space s) = inked s"
  by (induction s) auto

lemma inked_rev: "inked (rev s) = rev (inked s)"
  by (simp add: rev_filter)

lemma inked_strip: "inked (strip s) = inked s"
  by (simp add: strip_def inked_rev inked_dropWhile)

lemma sentence_boundary_text:
  "sentence_boundary e acc s = Some (before, rest) \<Longrightarrow> inked before @ inked rest = inked (rev acc) @ inked s"
  by (induction e acc s rule: sentence_boundary.induct) (auto simp: inked_dropWhile split: if_splits)

lemma try_flush_text: "concat (map inked (fst (try_flush buf))) @ inked (snd (try_flush buf)) = inked buf"
proof (induction buf rule: try_flush.induct)
  case (1 buf)
  show ?case
  proof (cases "sentence_boundary False [] buf")
    case None
    then show ?thesis by (simp add: try_flush.simps [of buf])
  next
    case (Some p)
    obtain before rest where p: "p = (before, rest)" by fastforce
    note ink = sentence_boundary_text [OF Some [unfolded p]]
    show ?thesis
    proof (cases "length (strip before) < min_tts_sentence_chars")
      case True
      then show ?thesis using Some p by (simp add: try_flush.simps [of buf])
    next
      case False
      have "concat (map inked (fst (try_flush rest))) @ inked (snd (try_flush rest)) = inked rest"
        using 1 [OF Some p [symmetric] refl False] .
      then show ?thesis using Some p False ink
        by (simp add: try_flush.simps [of buf] case_prod_beta inked_strip)
    qed
  qed
qed

text \<open>What is spoken for the fragments of a turn, the last of which is final.\<close>

fun spoken :: "(string \<times> bool) list \<Rightarrow> string \<Rightarrow> string list \<times> string" where
  "spoken [] buf = ([], buf)"
| "spoken ((frag, final) # fs) buf =
     (let (out, buf1) = tts_buffer_push frag final buf; (outs, buf2) = spoken fs buf1 in (out @ outs, buf2))"

lemma tts_buffer_push_text:
  "concat (map inked (fst (tts_buffer_push frag final buf))) @ inked (snd (tts_buffer_push frag final buf))
     = inked buf @ inked frag"
  using try_flush_text [of "buf @ frag"] inked_strip [of "buf @ frag"]
  by (auto simp: tts_buffer_push_def Let_def)

lemma spoken_text:
  "concat (map inked (fst (spoken fs buf))) @ inked (snd (spoken fs buf)) = inked buf @ concat (map (inked \<circ> fst) fs)"
proof (induction fs arbitrary: buf)
  case (Cons f fs)
  obtain frag final where f: "f = (frag, final)" by fastforce
  show ?case
    using tts_buffer_push_text [of frag final buf] Cons.IH [of "snd (tts_buffer_push frag final buf)"]
    by (simp add: f case_prod_beta)
qed simp

lemma turn_spoken_completely:
  "snd (spoken (fs @ [(frag, True)]) []) = []
   \<and> concat (map inked (fst (spoken (fs @ [(frag, True)]) []))) = concat (map (inked \<circ> fst) (fs @ [(frag, True)]))"
proof -
  have empty: "snd (spoken (fs @ [(frag, True)]) buf) = []" for buf
    by (induction fs arbitrary: buf) (auto simp: tts_buffer_push_def Let_def case_prod_beta)
  with spoken_text [of "fs @ [(frag, True)]" "[]"] show ?thesis by simp
qed

text \<open>
  A short first sentence is not merged with the next: it blocks the buffer, and everything after it waits
  for the end of the turn.
\<close>

lemma short_sentence_blocks:
  assumes "sentence_boundary False [] buf = Some (before, rest)" "length (strip before) < min_tts_sentence_chars"
  shows "tts_buffer_push frag False buf = ([], buf @ frag)"
proof -
  have grow: "\<exists>rest'. sentence_boundary e acc (s @ t) = Some (before, rest')"
    if "sentence_boundary e acc s = Some (before, rest)" for e acc s t and before rest :: string
    using that by (induction e acc s rule: sentence_boundary.induct) (auto split: if_splits)
  show ?thesis
    using grow [OF assms(1), of frag] assms(2) by (auto simp: tts_buffer_push_def try_flush.simps)
qed

section \<open>The invariant of a session\<close>

text \<open>
  The queues are bounded and hold whole samples; a chunk is counted once, as sent or played, as dropped or
  as waiting; a failed session is to stop.
\<close>

definition inbound_ok :: "live_metrics \<Rightarrow> nat \<Rightarrow> bool" where
  "inbound_ok m n \<longleftrightarrow> n \<le> audio_queue_max \<and> dm_inbound_sent m + dm_inbound_dropped m + n \<le> dm_inbound_received m"

definition outbound_ok :: "live_metrics \<Rightarrow> nat \<Rightarrow> bool" where
  "outbound_ok m n \<longleftrightarrow> n \<le> audio_queue_max \<and> dm_outbound_played m + dm_outbound_dropped m + n \<le> dm_outbound_enqueued m"

definition whole_audio :: "live_session \<Rightarrow> bool" where
  "whole_audio s \<longleftrightarrow> (\<forall>(p, c)\<in>set (ds_audio_out s). c \<noteq> [] \<and> even (length c)) \<and> (\<forall>a\<in>ran (ds_aligners s). length (al_carry a) \<le> 1)"

definition session_ok :: "live_session \<Rightarrow> bool" where
  "session_ok s \<longleftrightarrow> inbound_ok (ds_metrics s) (length (ds_audio_in s)) \<and> outbound_ok (ds_metrics s) (length (ds_audio_out s))
     \<and> whole_audio s \<and> (ds_current_status s = FAILED \<longrightarrow> ds_stop s)"

definition terminates :: "string \<Rightarrow> live_task list \<Rightarrow> bool" where
  "terminates sid ts \<longleftrightarrow> (\<exists>final stage reason. Task_terminate sid final stage reason \<in> set ts)"

text \<open>What every operation on a session keeps; one that stops it schedules its termination.\<close>

definition live_keeps :: "live_session \<Rightarrow> live_session \<Rightarrow> live_task list \<Rightarrow> bool" where
  "live_keeps s s' ts \<longleftrightarrow>
     ds_session_id s' = ds_session_id s \<and> ds_call_id s' = ds_call_id s \<and> ds_leg_id s' = ds_leg_id s
     \<and> (session_ok s \<longrightarrow> session_ok s') \<and> (ds_stop s' \<longrightarrow> ds_stop s \<or> terminates (ds_session_id s) ts)
     \<and> (ds_stop s \<longrightarrow> ds_stop s')"

lemma live_keepsI:
  assumes "ds_session_id s' = ds_session_id s" "ds_call_id s' = ds_call_id s" "ds_leg_id s' = ds_leg_id s"
    and "ds_current_status s' = ds_current_status s" "ds_stop s' = ds_stop s"
    and "session_ok s \<Longrightarrow> inbound_ok (ds_metrics s') (length (ds_audio_in s'))"
    and "session_ok s \<Longrightarrow> outbound_ok (ds_metrics s') (length (ds_audio_out s'))"
    and "session_ok s \<Longrightarrow> whole_audio s'"
  shows "live_keeps s s' ts"
  using assms by (simp add: live_keeps_def session_ok_def)

lemma live_keeps_refl [simp]: "live_keeps s s ts"
  by (simp add: live_keeps_def)

lemma terminates_append [simp]: "terminates sid (xs @ ys) \<longleftrightarrow> terminates sid xs \<or> terminates sid ys"
  by (auto simp: terminates_def)

lemma terminates_single [simp]: "terminates sid [Task_terminate i f a b] \<longleftrightarrow> i = sid" "\<not> terminates sid []"
  by (auto simp: terminates_def)

lemma live_keeps_trans: "live_keeps s s1 ts \<Longrightarrow> live_keeps s1 s2 us \<Longrightarrow> live_keeps s s2 (ts @ us)"
  by (auto simp: live_keeps_def)

lemma live_keeps_then: "live_keeps s s1 [] \<Longrightarrow> live_keeps s1 s2 us \<Longrightarrow> live_keeps s s2 us"
  using live_keeps_trans [of s s1 "[]" s2 us] by simp

lemma schedule_failure_keeps: "schedule_failure stage e s = (s', ts) \<Longrightarrow> live_keeps s s' ts"
  by (auto simp: schedule_failure_def live_keeps_def session_ok_def whole_audio_def split: if_splits)

text \<open>Fields of an updated session.\<close>

lemma on_metrics_fields [simp]:
  "ds_metrics (on_metrics f s) = f (ds_metrics s)" "ds_session_id (on_metrics f s) = ds_session_id s"
  "ds_call_id (on_metrics f s) = ds_call_id s" "ds_leg_id (on_metrics f s) = ds_leg_id s"
  "ds_current_status (on_metrics f s) = ds_current_status s" "ds_stop (on_metrics f s) = ds_stop s"
  "ds_audio_in (on_metrics f s) = ds_audio_in s" "ds_audio_out (on_metrics f s) = ds_audio_out s"
  "ds_aligners (on_metrics f s) = ds_aligners s" "ds_voice (on_metrics f s) = ds_voice s"
  "ds_capabilities (on_metrics f s) = ds_capabilities s" "ds_instructions (on_metrics f s) = ds_instructions s"
  "ds_tts_jobs (on_metrics f s) = ds_tts_jobs s" "ds_tts_buffer (on_metrics f s) = ds_tts_buffer s"
  "whole_audio (on_metrics f s) = whole_audio s"
  by (simp_all add: on_metrics_def whole_audio_def)

lemma tts_dispatch_keeps: "live_keeps s (tts_dispatch txt p s) ts"
  by (simp add: tts_dispatch_def live_keeps_def session_ok_def whole_audio_def)

lemma dispatch_all_keeps: "live_keeps s (fold (\<lambda>x. tts_dispatch x None) xs s) ts"
proof (induction xs arbitrary: s)
  case (Cons x xs)
  from live_keeps_then [OF tts_dispatch_keeps Cons] show ?case by simp
qed simp

lemma enqueue_audio_in_keeps: "live_keeps s (enqueue_audio_in c s) []"
  by (rule live_keepsI)
     (auto simp: enqueue_audio_in_def put_dropping_def session_ok_def inbound_ok_def outbound_ok_def
       whole_audio_def audio_queue_max_def on_metrics_def split: if_splits)

lemma bridge_chunk_keeps: "live_keeps s (bridge_chunk pcm s) []"
proof -
  have "live_keeps s (fold enqueue_audio_in cs s) []" for cs
  proof (induction cs arbitrary: s)
    case (Cons c cs)
    from live_keeps_then [OF enqueue_audio_in_keeps Cons] show ?case by simp
  qed simp
  then show ?thesis by (simp add: bridge_chunk_def)
qed

lemma aligner_push_even:
  "aligner_push c a = (out, a') \<Longrightarrow> c \<noteq> [] \<Longrightarrow> even (length out) \<and> length (al_carry a') \<le> 1"
proof -
  assume p: "aligner_push c a = (out, a')" and c: "c \<noteq> []"
  define m where "m = al_carry a @ c"
  define k where "k = length m - length m mod 2"
  have "out = take k m" "al_carry a' = drop k m"
    using p c by (auto simp: aligner_push_def Let_def m_def k_def)
  moreover have "even k" "k \<le> length m" "length m - k \<le> 1" unfolding k_def by presburger+
  ultimately show ?thesis by simp
qed

lemma set_tl_subset: "set (tl xs) \<subseteq> set xs"
  by (cases xs) auto

lemma ran_map_upd: "(\<forall>a\<in>ran m. P a) \<Longrightarrow> P x \<Longrightarrow> \<forall>a\<in>ran (m(k \<mapsto> x)). P a"
  by (auto simp: ran_def split: if_splits)

lemma ran_map_del: "(\<forall>a\<in>ran m. P a) \<Longrightarrow> \<forall>a\<in>ran (m(k := None)). P a"
  by (auto simp: ran_def split: if_splits)

lemma enqueue_audio_out_keeps: "live_keeps s (enqueue_audio_out src c s) []"
proof (cases "c = []")
  case True
  then show ?thesis by (simp add: enqueue_audio_out_def)
next
  case False
  obtain out a where p: "aligner_push c (aligner_of src s) = (out, a)" by fastforce
  note even = aligner_push_even [OF p False]
  let ?s1 = "s\<lparr>ds_aligners := (ds_aligners s)(src \<mapsto> a)\<rparr>"
  have aligned: "live_keeps s ?s1 []"
    using even
    by (intro live_keepsI) (auto simp: session_ok_def inbound_ok_def outbound_ok_def whole_audio_def
        dest: ran_map_upd [where k = src and x = a])
  show ?thesis
  proof (cases "out = []")
    case True
    with p False aligned show ?thesis by (simp add: enqueue_audio_out_def)
  next
    case nonempty: False
    obtain lost q where put: "put_dropping (src, out) (ds_audio_out ?s1) = (lost, q)" by fastforce
    let ?s2 = "on_metrics (\<lambda>m. m\<lparr>dm_outbound_enqueued := dm_outbound_enqueued m + 1,
        dm_outbound_dropped := dm_outbound_dropped m + (if lost then 1 else 0)\<rparr>) (?s1\<lparr>ds_audio_out := q\<rparr>)"
    have q: "set q \<subseteq> insert (src, out) (set (ds_audio_out ?s1))"
      using put set_tl_subset [of "ds_audio_out s"] by (auto simp: put_dropping_def split: if_splits)
    have "live_keeps ?s1 ?s2 []"
      using put q even nonempty
      by (intro live_keepsI)
         (auto simp: session_ok_def inbound_ok_def outbound_ok_def whole_audio_def put_dropping_def audio_queue_max_def
           on_metrics_def split: if_splits)
    with aligned have "live_keeps s ?s2 []" by (rule live_keeps_then)
    moreover have "enqueue_audio_out src c s = ?s2" using False p nonempty put by (simp add: enqueue_audio_out_def)
    ultimately show ?thesis by simp
  qed
qed

lemmas session_ok_parts = session_ok_def inbound_ok_def outbound_ok_def whole_audio_def

lemma flush_alignment_keeps: "live_keeps s (flush_audio_out_alignment src s) []"
proof (cases "ds_aligners s src")
  case None
  then show ?thesis by (simp add: flush_audio_out_alignment_def)
next
  case (Some a)
  let ?s1 = "s\<lparr>ds_aligners := (ds_aligners s)(src := None)\<rparr>"
  have cleared: "live_keeps s ?s1 []"
    by (intro live_keepsI) (auto simp: session_ok_parts dest: ran_map_del [where k = src])
  show ?thesis
  proof (cases "al_carry a = []")
    case True
    with Some cleared show ?thesis by (simp add: flush_audio_out_alignment_def aligner_flush_def)
  next
    case False
    let ?full = "audio_queue_max \<le> length (ds_audio_out ?s1)"
    let ?s2 = "on_metrics (\<lambda>m. m\<lparr>dm_outbound_enqueued := dm_outbound_enqueued m + 1,
        dm_outbound_dropped := dm_outbound_dropped m + (if ?full then 1 else 0)\<rparr>)
      (if ?full then ?s1 else ?s1\<lparr>ds_audio_out := ds_audio_out ?s1 @ [(src, al_carry a @ [0])]\<rparr>)"
    have one: "whole_audio s \<Longrightarrow> length (al_carry a) = 1"
      using Some False by (auto simp: whole_audio_def ran_def intro: le_antisym Suc_leI)
    have "live_keeps s ?s2 []"
      using one
      by (intro live_keepsI)
         (auto simp: session_ok_parts on_metrics_def dest: ran_map_del [where k = src])
    moreover have "flush_audio_out_alignment src s = ?s2"
      using Some False by (simp add: flush_audio_out_alignment_def aligner_flush_def Let_def)
    ultimately show ?thesis by simp
  qed
qed

lemma play_through_gate_keeps: "play_through_gate fade src cs g s = (g', s') \<Longrightarrow> live_keeps s s' []"
proof (induction cs arbitrary: g s)
  case (Cons c cs)
  obtain out b g1 where gate: "gate_push fade c g = (out, b, g1)" by (cases "gate_push fade c g")
  show ?case
  proof (cases out)
    case None
    with Cons gate show ?thesis by simp
  next
    case (Some x)
    with Cons.prems gate have "play_through_gate fade src cs g1 (enqueue_audio_out src x s) = (g', s')" by simp
    from live_keeps_then [OF enqueue_audio_out_keeps Cons.IH [OF this]] show ?thesis .
  qed
qed simp

lemma session_ok_jobs [simp]: "session_ok (s\<lparr>ds_tts_jobs := js\<rparr>) = session_ok s"
  by (simp add: session_ok_def whole_audio_def)

lemma keeps_jobs: "live_keeps s s' ts \<Longrightarrow> live_keeps s (s'\<lparr>ds_tts_jobs := js\<rparr>) ts"
  unfolding live_keeps_def by simp

lemma tts_chunk_keeps:
  assumes "tts_chunk fade pcm j s = (j', s')"
  shows "live_keeps s s' []"
proof -
  obtain cs opt where f: "optimizer_push default_shaping frame_is_silent pcm (tj_optimizer j) = (cs, opt)" by fastforce
  obtain g s1 where p: "play_through_gate fade (source_of j) cs (tj_gate j) s = (g, s1)" by fastforce
  have "s' = s1" using assms unfolding tts_chunk_def Let_def f prod.case p by simp
  with play_through_gate_keeps [OF p] show ?thesis by simp
qed

lemma tts_finish_keeps: "live_keeps s (tts_finish fade j s) []"
proof -
  obtain cs opt where f: "optimizer_flush default_shaping frame_is_silent (tj_optimizer j) = (cs, opt)" by fastforce
  obtain g s1 where p: "play_through_gate fade (source_of j) cs (tj_gate j) s = (g, s1)" by fastforce
  have "tts_finish fade j s = flush_audio_out_alignment (source_of j) s1" by (simp add: tts_finish_def f p)
  with live_keeps_then [OF play_through_gate_keeps [OF p] flush_alignment_keeps] show ?thesis by simp
qed

lemma tts_run_keeps:
  assumes "tts_run fade i step s = (s', ts)"
  shows "live_keeps s s' ts"
proof (cases "length (ds_tts_jobs s) \<le> i")
  case True
  with assms show ?thesis by (simp add: tts_run_def)
next
  case False
  define j where "j = (if tj_source (ds_tts_jobs s ! i) = None then tts_start (ds_tts_jobs s ! i) s else ds_tts_jobs s ! i)"
  show ?thesis
  proof (cases step)
    case Tts_start
    with assms False show ?thesis by (auto simp: tts_run_def Let_def intro: keeps_jobs)
  next
    case (Tts_chunk pcm)
    obtain j' s1 where c: "tts_chunk fade pcm j s = (j', s1)" by fastforce
    with assms False Tts_chunk show ?thesis
      by (auto simp: tts_run_def j_def [symmetric] Let_def intro: keeps_jobs tts_chunk_keeps)
  next
    case Tts_end
    with assms False show ?thesis
      by (auto simp: tts_run_def j_def [symmetric] Let_def intro: keeps_jobs tts_finish_keeps)
  next
    case (Tts_error stage e)
    let ?s = "s\<lparr>ds_tts_jobs := remove_nth i (ds_tts_jobs s)\<rparr>"
    have "live_keeps s ?s []" by (rule keeps_jobs) simp
    moreover have "live_keeps ?s s' ts"
      using assms False Tts_error by (auto simp: tts_run_def Let_def intro: schedule_failure_keeps)
    ultimately show ?thesis by (rule live_keeps_then)
  qed
qed

text \<open>The batches.\<close>

lemma drain_instructions_keeps: "drain_instructions io now n s = (r, s', ops) \<Longrightarrow> live_keeps s s' []"
proof (induction n arbitrary: s ops)
  case (Suc n)
  show ?case
  proof (cases "ds_instructions s")
    case (Cons i rest)
    let ?s1 = "s\<lparr>ds_instructions := rest\<rparr>"
    have one: "live_keeps s ?s1 []" by (rule live_keepsI) (simp_all add: session_ok_parts)
    have two: "live_keeps s (on_metrics (after_instruction now) ?s1) []"
      by (rule live_keepsI) (simp_all add: session_ok_parts after_instruction_def on_metrics_def)
    show ?thesis
      using Suc.prems Cons one live_keeps_then [OF two Suc.IH]
      by (auto simp: Let_def split: option.splits prod.splits)
  qed (use Suc.prems in simp)
qed simp

lemma drain_audio_in_keeps: "drain_audio_in io now n s = (r, s', ops) \<Longrightarrow> live_keeps s s' []"
proof (induction n arbitrary: s ops)
  case (Suc n)
  show ?case
  proof (cases "ds_audio_in s")
    case (Cons c rest)
    let ?s1 = "s\<lparr>ds_audio_in := rest\<rparr>" and ?fate = "inbound_fate now c (ds_metrics s)"
    have dropped: "live_keeps s (on_metrics (after_dropped ?fate) ?s1) []"
      using Cons by (intro live_keepsI) (auto simp: session_ok_parts after_dropped_def on_metrics_def)
    have noted: "live_keeps s (on_metrics (note_voice now c) ?s1) []"
      using Cons by (intro live_keepsI) (auto simp: session_ok_parts note_voice_def on_metrics_def)
    have sent: "live_keeps s (on_metrics (after_sent now) (on_metrics (note_voice now c) ?s1)) []"
      using Cons by (intro live_keepsI) (auto simp: session_ok_parts note_voice_def after_sent_def on_metrics_def)
    show ?thesis
      using Suc.prems Cons noted live_keeps_then [OF dropped Suc.IH] live_keeps_then [OF sent Suc.IH]
      by (auto simp: Let_def split: option.splits prod.splits if_splits)
  qed (use Suc.prems in simp)
qed simp

lemma drain_audio_out_keeps: "drain_audio_out io now n s = (r, s', ops) \<Longrightarrow> live_keeps s s' []"
proof (induction n arbitrary: s ops)
  case (Suc n)
  show ?case
  proof (cases "ds_audio_out s")
    case (Cons item rest)
    obtain src c where item: "item = (src, c)" by fastforce
    let ?s1 = "s\<lparr>ds_audio_out := rest\<rparr>"
    let ?s2 = "if cp_audio_in (ds_capabilities ?s1) \<and> c \<noteq> [] then on_metrics (suppress_echo now c) ?s1 else ?s1"
    have taken: "live_keeps s ?s1 []"
      using Cons by (intro live_keepsI) (auto simp: session_ok_parts)
    have played: "live_keeps s (on_metrics (\<lambda>m. m\<lparr>dm_outbound_played := dm_outbound_played m + 1\<rparr>) ?s2) []"
      using Cons by (intro live_keepsI) (auto simp: session_ok_parts suppress_echo_def Let_def on_metrics_def)
    show ?thesis
      using Suc.prems Cons item taken live_keeps_then [OF played Suc.IH]
      by (auto simp: Let_def split: option.splits prod.splits)
  qed (use Suc.prems in simp)
qed simp

text \<open>Changing what the queues do not depend on.\<close>

lemma metrics_keep:
  assumes "\<And>m. dm_inbound_received (f m) = dm_inbound_received m" "\<And>m. dm_inbound_sent (f m) = dm_inbound_sent m"
    and "\<And>m. dm_inbound_dropped (f m) = dm_inbound_dropped m" "\<And>m. dm_outbound_enqueued (f m) = dm_outbound_enqueued m"
    and "\<And>m. dm_outbound_played (f m) = dm_outbound_played m" "\<And>m. dm_outbound_dropped (f m) = dm_outbound_dropped m"
  shows "live_keeps s (on_metrics f s) ts"
  by (rule live_keepsI) (simp_all add: session_ok_parts assms)

lemma answer_began_keeps: "live_keeps s (on_metrics answer_began s) ts"
  by (rule metrics_keep) (simp_all add: answer_began_def)

lemma inner_keeps:
  "live_keeps s (s\<lparr>ds_transcripts := ts\<rparr>) us" "live_keeps s (s\<lparr>ds_instructions := is\<rparr>) us"
  "live_keeps s (s\<lparr>ds_voice := v\<rparr>) us" "live_keeps s (s\<lparr>ds_capabilities := c\<rparr>) us"
  "live_keeps s (s\<lparr>ds_tts_buffer := b\<rparr>) us"
  by (rule live_keepsI; simp add: session_ok_parts)+

lemma on_text_keeps: "on_text role txt s = (s', ops) \<Longrightarrow> live_keeps s s' []"
proof -
  assume a: "on_text role txt s = (s', ops)"
  let ?s1 = "s\<lparr>ds_transcripts := ds_transcripts s @ [(role, txt)]\<rparr>"
  have began: "live_keeps s (on_metrics answer_began ?s1) []"
    by (rule live_keeps_then [OF inner_keeps(1) answer_began_keeps])
  have spoken: "live_keeps s (tts_dispatch txt None (on_metrics answer_began ?s1)) []"
    by (rule live_keeps_then [OF began tts_dispatch_keeps])
  have "s' \<in> {?s1, on_metrics answer_began ?s1, tts_dispatch txt None (on_metrics answer_began ?s1)}"
    using a by (auto simp: on_text_def Let_def split: if_splits)
  with began spoken inner_keeps(1) show ?thesis by blast
qed

lemma on_text_fragment_keeps: "live_keeps s (on_text_fragment role frag final s) []"
proof (cases "role \<noteq> ''assistant'' \<or> ds_tts_buffer s = None")
  case True
  then show ?thesis by (auto simp: on_text_fragment_def)
next
  case False
  let ?s1 = "if frag \<noteq> [] then on_metrics answer_began s else s"
  obtain xs buf where push: "tts_buffer_push frag final (the (ds_tts_buffer s)) = (xs, buf)" by fastforce
  have "live_keeps s ?s1 []" by (simp add: answer_began_keeps)
  from live_keeps_then [OF this live_keeps_then [OF inner_keeps(5) dispatch_all_keeps]]
  have "live_keeps s (fold (\<lambda>x. tts_dispatch x None) xs (?s1\<lparr>ds_tts_buffer := Some buf\<rparr>)) []" .
  with False push show ?thesis by (simp add: on_text_fragment_def)
qed

lemma on_audio_keeps: "live_keeps s (snd (on_audio rs pcm s)) []"
  using live_keeps_then [OF answer_began_keeps enqueue_audio_out_keeps] answer_began_keeps
  by (simp add: on_audio_def Let_def split: sum.split)

text \<open>A piece of native audio with an odd number of bytes is lost, though the caller is told of an answer.\<close>

lemma half_sample_not_played:
  assumes "cp_audio_out (ds_capabilities s)" "wants_gemini_audio_output (ds_voice s)" "odd (length pcm)"
  shows "on_audio rs pcm s = (Inl half_sample, on_metrics answer_began s)"
proof -
  have "pcm \<noteq> []" using assms(3) by auto
  with assms show ?thesis by (simp add: on_audio_def resample_pcm16_def)
qed

lemma on_interrupted_keeps: "on_interrupted s = (s', ops) \<Longrightarrow> live_keeps s s' []"
  by (auto simp: on_interrupted_def intro!: live_keepsI) (auto simp: session_ok_parts on_metrics_def)

lemma start_greeting_keeps: "live_keeps s (start_initial_greeting cfg s) ts"
  by (simp add: start_initial_greeting_def Let_def tts_dispatch_keeps inner_keeps)

lemma timeout_keeps: "check_model_response_timeout cfg now s = (s', ts) \<Longrightarrow> live_keeps s s' ts"
proof -
  assume a: "check_model_response_timeout cfg now s = (s', ts)"
  obtain b v where fb: "activate_tts_fallback (ds_voice s) = (b, v)" by fastforce
  let ?heard = "on_metrics (\<lambda>m. m\<lparr>dm_awaiting_model_response := False\<rparr>) (s\<lparr>ds_voice := v\<rparr>)"
  let ?ignored = "on_metrics (\<lambda>m. m\<lparr>dm_awaiting_model_response := False, dm_model_turn_active := False,
      dm_last_model_request_at := None\<rparr>) s"
  have heard: "live_keeps s ?heard ts" by (rule live_keepsI) (simp_all add: session_ok_parts on_metrics_def)
  have greeted: "live_keeps s (tts_dispatch g (Some Path_tts_fallback) ?heard) []" for g
    by (rule live_keeps_then [OF _ tts_dispatch_keeps], rule live_keepsI) (simp_all add: session_ok_parts on_metrics_def)
  have ignored: "live_keeps s ?ignored ts" by (rule metrics_keep) simp_all
  from a fb show ?thesis
    using heard greeted ignored schedule_failure_keeps
    by (auto simp: check_model_response_timeout_def Let_def split: if_splits option.splits bool.splits)
qed

lemma drain_queues_keeps: "drain_queues io now s = (r, s', ops) \<Longrightarrow> live_keeps s s' []"
proof -
  have chain: "live_keeps s s2 []"
    if "then_batch a b = (r, s2, ops)" "\<And>r s1 ops. a = (r, s1, ops) \<Longrightarrow> live_keeps s s1 []"
      "\<And>s1 r s2 ops. b s1 = (r, s2, ops) \<Longrightarrow> live_keeps s1 s2 []" for a b r s s2 ops
    using that(1) that(2) live_keeps_then [OF that(2) that(3)]
    by (auto simp: then_batch_def split: prod.splits option.splits)
  assume "drain_queues io now s = (r, s', ops)"
  then show ?thesis
    unfolding drain_queues_def
    by (rule chain) (auto dest: drain_instructions_keeps drain_audio_in_keeps drain_audio_out_keeps
        elim!: chain split: if_splits)
qed

lemma audio_loop_round_keeps: "audio_loop_round cfg io now s = (s', ops, ts) \<Longrightarrow> live_keeps s s' ts"
proof -
  assume a: "audio_loop_round cfg io now s = (s', ops, ts)"
  obtain r s1 ops1 where d: "drain_queues io now s = (r, s1, ops1)" by (cases "drain_queues io now s")
  note one = drain_queues_keeps [OF d]
  from a d show ?thesis
    using live_keeps_then [OF one schedule_failure_keeps] live_keeps_then [OF one timeout_keeps]
    by (auto simp: audio_loop_round_def split: if_splits option.splits prod.splits)
qed

lemma session_end_keeps:
  "audio_loop_exit s = (s', ts) \<Longrightarrow> live_keeps s s' ts"
  "bridge_stream_closed s = (s', ts) \<Longrightarrow> live_keeps s s' ts"
  "leg_state_observed st s = (s', ts) \<Longrightarrow> live_keeps s s' ts"
  by (auto simp: audio_loop_exit_def bridge_stream_closed_def leg_state_observed_def Let_def live_keeps_def
      session_ok_parts terminal_iff split: if_splits)

lemma suspend_audio_keeps: "live_keeps s (suspend_audio s) ts"
  by (rule live_keepsI) (auto simp: suspend_audio_def session_ok_parts)

text \<open>
  Suspending the audio for a bridged transfer does not silence the response timeout: a session of
  Gemini's own voice that is instructed afterwards fails, and its customer leg is terminated.
\<close>

lemma suspended_session_fails:
  assumes "dm_awaiting_model_response (ds_metrics s)" "dm_last_model_request_at (ds_metrics s) = Some at"
    and "0 < st_direct_model_response_timeout cfg" "st_direct_model_response_timeout cfg \<le> now - at"
    and "\<not> vd_allow_tts_fallback (vs_definition (ds_voice s))" "ds_current_status s = IN_PROGRESS"
  shows "\<exists>s'. check_model_response_timeout cfg now (suspend_audio s)
     = (s', [Task_terminate (ds_session_id s) (Some FAILED) (Some ''gemini_response_timeout'') (Some ''no Gemini response'')])"
  using assms
  by (simp add: check_model_response_timeout_def suspend_audio_def activate_tts_fallback_def
      can_activate_tts_fallback_def wants_tts_output_def schedule_failure_def Let_def)

end
