(* ===== verification/SessionManager.thy ===== *)
theory SessionManager
  imports DirectSession Coordinator
begin

text \<open>
  \<open>DirectSessionManager\<close> of \<open>app/integrations/direct/session_manager.py\<close> and \<open>DirectEventHandler\<close> of
  \<open>app/integrations/direct/event_handler.py\<close>: the sessions of a worker, how one is created, instructed,
  suspended and terminated, how its transcript is saved and its call finalised.

  The world holds the sessions, the database, the coordinator with its store, the calls made to the
  outside in order (\<open>sm_ops\<close>) and the scheduled terminations (\<open>sm_tasks\<close>). Everything that can happen to
  a registered session is a \<open>live_event\<close>; the step relation \<open>live_step\<close> lets events, scheduled
  tasks and requests follow each other in any order. A step is a whole operation: the creation of a session (the
  connection of the leg, the bridge, the model and the registration with the coordinator, all of them awaits) is one
  step, and so is a termination, so what another task does while one of them waits is not covered, but for
  the limit of sessions (\<open>limit_can_be_exceeded\<close>). Callbacks of a session that has left the table
  are not modelled. The summary of a transcript (\<open>SummaryService\<close>) is an argument, and so is how many
  pending transcript entries are saved before the flush at the end times out.

  The lemmas show that a termination settles everything the session held, exactly once, that no audio
  is counted twice and the queues stay bounded, and that every session that is to stop ends.
\<close>

section \<open>The event handler\<close>

definition direct_role :: "string \<Rightarrow> transcript_role" where
  "direct_role role =
     (if role = ''user'' then USER else if role = ''system'' then SYSTEM else if role = ''tool'' then TOOL else ASSISTANT)"

definition save_transcript :: "uuid \<Rightarrow> string \<times> string \<Rightarrow> db \<Rightarrow> db" where
  "save_transcript cid entry d =
     (let (role, txt) = entry; t = strip txt in
      if t = [] then d
      else append_transcript cid (direct_role role) t
             (Some (JObj [(''source'', JStr ''gemini_live''), (''role'', JStr role)])) d)"

type_synonym summarizer = "transcript_entry list \<Rightarrow> string \<times> string"

definition finalize_call ::
    "summarizer \<Rightarrow> time \<Rightarrow> uuid \<Rightarrow> call_status \<Rightarrow> json \<Rightarrow> db \<Rightarrow> db" where
  "finalize_call sm now cid final payload d =
     (case get_call_row cid d of
        None \<Rightarrow> d
      | Some c \<Rightarrow>
          if c_status c \<in> terminal_statuses then d
          else (let entries = get_transcript cid d;
                    c1 = (if entries = [] then c
                          else c\<lparr>c_summary := Some (fst (sm entries)), c_sentiment := Some (snd (sm entries))\<rparr>)
                in audit_call cid ''direct_session_finalized'' ''direct_session_manager'' (Some payload)
                     (save_call (c1\<lparr>c_status := final, c_completed_at := Some now\<rparr>) d)))"

section \<open>The manager\<close>

record 's live_world =
  sm_sessions :: "live_session list"
  sm_db :: db
  sm_coordinator :: "coordinator option"
  sm_store :: 's
  sm_ops :: "live_op list"
  sm_tasks :: "live_task list"

definition session_at :: "string \<Rightarrow> 's live_world \<Rightarrow> live_session option" where
  "session_at sid w = find_row ds_session_id sid (sm_sessions w)"

definition put_session :: "live_session \<Rightarrow> 's live_world \<Rightarrow> 's live_world" where
  "put_session s w = w\<lparr>sm_sessions := upsert ds_session_id s (sm_sessions w)\<rparr>"

definition live_log :: "live_op list \<Rightarrow> 's live_world \<Rightarrow> 's live_world" where
  "live_log ops w = w\<lparr>sm_ops := sm_ops w @ ops\<rparr>"

definition live_schedule :: "live_task list \<Rightarrow> 's live_world \<Rightarrow> 's live_world" where
  "live_schedule ts w = w\<lparr>sm_tasks := sm_tasks w @ ts\<rparr>"

subsection \<open>Termination\<close>

record end_env =
  ee_now :: time
  ee_saved :: nat
  ee_summary :: summarizer

definition resolved_status :: "call_status option \<Rightarrow> live_session \<Rightarrow> call_status" where
  "resolved_status final s =
     (case final of
        Some x \<Rightarrow> x
      | None \<Rightarrow> if ds_current_status s \<in> terminal_statuses then ds_current_status s else COMPLETED)"

definition final_payload ::
    "call_status \<Rightarrow> string option \<Rightarrow> string option \<Rightarrow> live_session \<Rightarrow> json" where
  "final_payload final stage reason s =
     JObj [(''final_status'', JStr (''CallStatus.'' @ status_value final)),
           (''stage'', opt_str (py_or stage (ds_last_failure_stage s))),
           (''reason'', opt_str reason),
           (''disconnect_reason'', opt_str (ds_hangup_reason s)),
           (''last_error'', opt_str (ds_last_error s))]"

text \<open>The calls that take a session down; errors of each are only logged.\<close>

definition shutdown_ops :: "live_session \<Rightarrow> live_op list" where
  "shutdown_ops s =
     control ''call_ended'' s @ [Op_model_close (ds_session_id s), Op_bridge_close (ds_session_id s)]
     @ (if truthy (ds_leg_id s) then [Op_terminate_leg (the (ds_leg_id s))] else [])"

definition release_ownership :: "'s session_store_if \<Rightarrow> string \<Rightarrow> time \<Rightarrow> 's live_world \<Rightarrow> 's live_world" where
  "release_ownership st sid now w =
     (case sm_coordinator w of
        None \<Rightarrow> w
      | Some co \<Rightarrow>
          (let (co', s) = release_session st sid now (co, sm_store w)
           in w\<lparr>sm_coordinator := Some co', sm_store := s\<rparr>))"

definition terminate_session ::
    "'s session_store_if \<Rightarrow> end_env \<Rightarrow> string \<Rightarrow> call_status option \<Rightarrow> string option \<Rightarrow> string option
     \<Rightarrow> 's live_world \<Rightarrow> 's live_world" where
  "terminate_session st env sid final stage reason w =
     (case session_at sid w of
        None \<Rightarrow> w
      | Some s \<Rightarrow>
          (let status = resolved_status final s;
               d1 = fold (save_transcript (ds_call_id s)) (take (ee_saved env) (ds_transcripts s)) (sm_db w);
               d2 = finalize_call (ee_summary env) (ee_now env) (ds_call_id s) status
                      (final_payload status stage reason s) d1
           in release_ownership st sid (ee_now env)
                (live_log (shutdown_ops s)
                   (w\<lparr>sm_sessions := filter (\<lambda>x. ds_session_id x \<noteq> sid) (sm_sessions w), sm_db := d2\<rparr>))))"

subsection \<open>Creation\<close>

record live_request =
  rq_call_id :: uuid
  rq_phone :: string
  rq_greeting :: "string option"
  rq_strategy :: "string option"

text \<open>
  The answers of the telephony provider, of the bridge (no bridge at all, open, takes control messages), and of
  the model. A model that could not be reached leaves no receive loop. When the connection is there but the setup
  fails (its timeout cancels the receive loop; a connection that closes ends it), the receive loop
  ends and calls \<open>on_close\<close>.
\<close>

record bridge_kind =
  bk_null :: bool
  bk_open :: bool
  bk_control :: bool

datatype model_answer = Model_ready | Model_refused app_error | Model_lost app_error

record open_env =
  oe_now :: time
  oe_connect :: "(app_error, string option) result"
  oe_bridge :: "(app_error, bridge_kind) result"
  oe_model :: model_answer

definition live_session_id :: "uuid \<Rightarrow> string" where
  "live_session_id cid = uuid_str cid @ ''-direct''"

definition new_live_session ::
    "live_request \<Rightarrow> string option \<Rightarrow> bool \<Rightarrow> capabilities \<Rightarrow> voice_state \<Rightarrow> live_session" where
  "new_live_session rq leg ctl caps v =
     \<lparr>ds_session_id = live_session_id (rq_call_id rq), ds_call_id = rq_call_id rq, ds_phone = rq_phone rq,
      ds_current_status = IN_PROGRESS, ds_capabilities = caps, ds_metrics = fresh_metrics,
      ds_instructions = [], ds_audio_in = [], ds_audio_out = [], ds_stop = False, ds_leg_id = leg,
      ds_hangup_reason = None, ds_aligners = Map.empty, ds_voice = v,
      ds_initial_greeting = (case rq_greeting rq of None \<Rightarrow> None | Some g \<Rightarrow> if strip g = [] then None else Some (strip g)),
      ds_tts_buffer = (if wants_tts_output v then Some [] else None),
      ds_tts_jobs = [], ds_transcripts = [], ds_last_error = None, ds_last_failure_stage = None,
      ds_takes_control = ctl\<rparr>"

text \<open>A model that closes the connection fails the session, unless it is stopping already.\<close>

definition on_gemini_close :: "live_session \<Rightarrow> live_session \<times> live_task list" where
  "on_gemini_close s =
     (if ds_stop s then (s, [Task_terminate (ds_session_id s) None None None])
      else schedule_failure ''gemini_closed'' ''Gemini websocket closed unexpectedly'' s)"

definition aborted :: "string \<Rightarrow> string \<Rightarrow> uuid \<Rightarrow> app_error" where
  "aborted msg stage cid = EngineError (''Direct call aborted: '' @ msg) (Some stage) (Some cid)"

definition coordinate_session ::
    "'s session_store_if \<Rightarrow> time \<Rightarrow> live_session \<Rightarrow> 's live_world \<Rightarrow> 's live_world" where
  "coordinate_session st now s w =
     (case sm_coordinator w of
        None \<Rightarrow> w
      | Some co \<Rightarrow>
          (let sid = ds_session_id s;
               (registered, co1, s1) = register_session st sid (uuid_str (ds_call_id s)) (ds_phone s) now (co, sm_store w)
           in w\<lparr>sm_coordinator := Some (if registered then start_steering_subscriber sid co1 else co1), sm_store := s1\<rparr>))"

definition admit_session :: "settings \<Rightarrow> 's live_world \<Rightarrow> (app_error, unit) result" where
  "admit_session cfg w =
     (if st_direct_max_sessions cfg \<le> length (sm_sessions w) then Inl (OtherError ''RuntimeError'') else Inr ())"

text \<open>With the leg connected: the bridge, the capabilities, and the session.\<close>

definition open_media ::
    "settings \<Rightarrow> open_env \<Rightarrow> live_request \<Rightarrow> string option \<Rightarrow> voice_state \<Rightarrow> 's live_world
     \<Rightarrow> (app_error, live_session) result \<times> 's live_world" where
  "open_media cfg env rq leg v w =
     (let cid = rq_call_id rq; hang_up = Op_disconnect (rq_phone rq) in
      case oe_bridge env of
        Inl e \<Rightarrow> (Inl (aborted ''audio bridge attach failed'' ''bridge_attach'' cid), live_log [hang_up] w)
      | Inr b \<Rightarrow>
          (let caps = resolve_capabilities cfg (bk_null b) (bk_open b) v; down = [Op_bridge_close (live_session_id cid), hang_up] in
           if \<not> cp_audio_out caps
           then (Inl (aborted ''outbound audio path is unavailable'' ''capability_check'' cid), live_log down w)
           else if st_gemini_audio_input_enabled cfg \<and> \<not> cp_audio_in caps
           then (Inl (aborted ''inbound audio path is unavailable'' ''capability_check'' cid), live_log down w)
           else (Inr (new_live_session rq leg (bk_control b) caps v), w)))"

definition open_session ::
    "settings \<Rightarrow> 's session_store_if \<Rightarrow> open_env \<Rightarrow> live_request \<Rightarrow> 's live_world
     \<Rightarrow> (app_error, string) result \<times> 's live_world" where
  "open_session cfg st env rq w =
     (case ensure_voice_strategy_valid cfg (rq_strategy rq) of
        Inl e \<Rightarrow> (Inl e, w)
      | Inr d \<Rightarrow>
          if vd_primary_path d = Path_disabled
          then (Inl (EngineError ''Direct call aborted: voice strategy is disabled'' None (Some (rq_call_id rq))), w)
          else case make_session_voice_state cfg (rq_strategy rq) of
            Inl e \<Rightarrow> (Inl e, w)
          | Inr v \<Rightarrow>
              (let w1 = live_log [Op_connect (rq_phone rq)] w in
               case oe_connect env of
                 Inl e \<Rightarrow> (Inl e, w1)
               | Inr leg \<Rightarrow>
                   (case open_media cfg env rq leg v w1 of
                      (Inl e, w2) \<Rightarrow> (Inl e, w2)
                    | (Inr s, w2) \<Rightarrow>
                        (let w3 = live_log [Op_model_connect (ds_session_id s)] (put_session s w2) in
                         case oe_model env of
                           Model_refused e \<Rightarrow> (Inl e, w3)
                         | Model_lost e \<Rightarrow>
                             (let (s', ts) = on_gemini_close s in (Inl e, live_schedule ts (put_session s' w3)))
                         | Model_ready \<Rightarrow>
                             (Inr (ds_session_id s),
                              coordinate_session st (oe_now env) s (put_session (start_initial_greeting cfg s) w3))))))"

definition create_live_session ::
    "settings \<Rightarrow> 's session_store_if \<Rightarrow> open_env \<Rightarrow> live_request \<Rightarrow> 's live_world
     \<Rightarrow> (app_error, string) result \<times> 's live_world" where
  "create_live_session cfg st env rq w =
     (case admit_session cfg w of Inl e \<Rightarrow> (Inl e, w) | Inr _ \<Rightarrow> open_session cfg st env rq w)"

subsection \<open>Instructions and events\<close>

definition inject_live_instruction ::
    "'s session_store_if \<Rightarrow> time \<Rightarrow> string \<Rightarrow> string \<Rightarrow> 's live_world \<Rightarrow> 's live_world" where
  "inject_live_instruction st now sid instruction w =
     (case session_at sid w of
        Some s \<Rightarrow> put_session (s\<lparr>ds_instructions := ds_instructions s @ [instruction]\<rparr>) w
      | None \<Rightarrow>
          (case sm_coordinator w of
             None \<Rightarrow> w
           | Some co \<Rightarrow>
               (let (delivered, queues, s) = send_steering st sid instruction now (Map.empty, sm_store w)
                in w\<lparr>sm_store := s\<rparr>)))"

text \<open>What can happen to a registered session.\<close>

datatype live_event =
    Live_text string string
  | Live_fragment string string bool
  | Live_audio "byte list"
  | Live_interrupted
  | Live_turn_complete
  | Live_tool_call string
  | Live_model_closed
  | Live_loop_round io time
  | Live_loop_exit
  | Live_bridge_chunk "byte list"
  | Live_bridge_closed
  | Live_bridge_error string
  | Live_leg_state leg_state
  | Live_tts nat tts_step
  | Live_suspend

text \<open>The media functions in floating point that a session uses.\<close>

record media_fun =
  mf_fade :: fader
  mf_resample :: resampler

fun handle_live ::
    "settings \<Rightarrow> media_fun \<Rightarrow> live_event \<Rightarrow> live_session \<Rightarrow> live_session \<times> live_op list \<times> live_task list" where
  "handle_live cfg mf (Live_text role txt) s = (let (s', ops) = on_text role txt s in (s', ops, []))"
| "handle_live cfg mf (Live_fragment role frag final) s = (on_text_fragment role frag final s, [], [])"
| "handle_live cfg mf (Live_audio pcm) s = (snd (on_audio (mf_resample mf) pcm s), [], [])"
| "handle_live cfg mf Live_interrupted s = (let (s', ops) = on_interrupted s in (s', ops, []))"
| "handle_live cfg mf Live_turn_complete s = (on_turn_complete s, [], [])"
| "handle_live cfg mf (Live_tool_call name) s = (s, [], on_tool_call name s)"
| "handle_live cfg mf Live_model_closed s = (let (s', ts) = on_gemini_close s in (s', [], ts))"
| "handle_live cfg mf (Live_loop_round io now) s = audio_loop_round cfg io now s"
| "handle_live cfg mf Live_loop_exit s = (let (s', ts) = audio_loop_exit s in (s', [], ts))"
| "handle_live cfg mf (Live_bridge_chunk pcm) s = (bridge_chunk pcm s, [], [])"
| "handle_live cfg mf Live_bridge_closed s = (let (s', ts) = bridge_stream_closed s in (s', [], ts))"
| "handle_live cfg mf (Live_bridge_error e) s =
     (let (s', ts) = schedule_failure ''bridge_reader'' (''bridge reader failed: '' @ e) s in (s', [], ts))"
| "handle_live cfg mf (Live_leg_state st) s = (let (s', ts) = leg_state_observed st s in (s', [], ts))"
| "handle_live cfg mf (Live_tts i step) s = (let (s', ts) = tts_run (mf_fade mf) i step s in (s', [], ts))"
| "handle_live cfg mf Live_suspend s = (suspend_audio s, [], [])"

definition dispatch_live ::
    "settings \<Rightarrow> media_fun \<Rightarrow> string \<Rightarrow> live_event \<Rightarrow> 's live_world \<Rightarrow> 's live_world" where
  "dispatch_live cfg mf sid ev w =
     (case session_at sid w of
        None \<Rightarrow> w
      | Some s \<Rightarrow> (let (s', ops, ts) = handle_live cfg mf ev s in live_schedule ts (live_log ops (put_session s' w))))"

text \<open>The first pending transcript entry of a session is saved.\<close>

definition save_pending :: "string \<Rightarrow> 's live_world \<Rightarrow> 's live_world" where
  "save_pending sid w =
     (case session_at sid w of
        None \<Rightarrow> w
      | Some s \<Rightarrow>
          (case ds_transcripts s of
             [] \<Rightarrow> w
           | e # es \<Rightarrow> put_session (s\<lparr>ds_transcripts := es\<rparr>) (w\<lparr>sm_db := save_transcript (ds_call_id s) e (sm_db w)\<rparr>)))"

text \<open>A scheduled task runs.\<close>

definition run_live_task ::
    "'s session_store_if \<Rightarrow> end_env \<Rightarrow> live_task \<Rightarrow> 's live_world \<Rightarrow> 's live_world" where
  "run_live_task st env t w =
     (case t of Task_terminate sid final stage reason \<Rightarrow> terminate_session st env sid final stage reason w)"

definition run_task_at :: "'s session_store_if \<Rightarrow> end_env \<Rightarrow> nat \<Rightarrow> 's live_world \<Rightarrow> 's live_world" where
  "run_task_at st env i w =
     (if length (sm_tasks w) \<le> i then w
      else run_live_task st env (sm_tasks w ! i) (w\<lparr>sm_tasks := remove_nth i (sm_tasks w)\<rparr>))"

inductive live_step ::
    "settings \<Rightarrow> 's session_store_if \<Rightarrow> media_fun \<Rightarrow> 's live_world \<Rightarrow> 's live_world \<Rightarrow> bool"
    for cfg st mf where
  create: "live_step cfg st mf w (snd (create_live_session cfg st env rq w))"
| instruct: "live_step cfg st mf w (inject_live_instruction st now sid instruction w)"
| event: "live_step cfg st mf w (dispatch_live cfg mf sid ev w)"
| save: "live_step cfg st mf w (save_pending sid w)"
| stop: "live_step cfg st mf w (terminate_session st env sid final stage reason w)"
| task: "live_step cfg st mf w (run_task_at st env i w)"

definition empty_live_world :: "db \<Rightarrow> coordinator option \<Rightarrow> 's \<Rightarrow> 's live_world" where
  "empty_live_world d co s =
     \<lparr>sm_sessions = [], sm_db = d, sm_coordinator = co, sm_store = s, sm_ops = [], sm_tasks = []\<rparr>"

section \<open>A termination settles the session\<close>

lemma world_fields [simp]:
  "sm_sessions (live_log ops w) = sm_sessions w" "sm_db (live_log ops w) = sm_db w"
  "sm_tasks (live_log ops w) = sm_tasks w" "sm_ops (live_log ops w) = sm_ops w @ ops"
  "sm_coordinator (live_log ops w) = sm_coordinator w" "sm_store (live_log ops w) = sm_store w"
  "sm_sessions (live_schedule ts w) = sm_sessions w" "sm_tasks (live_schedule ts w) = sm_tasks w @ ts"
  "sm_db (live_schedule ts w) = sm_db w" "sm_ops (live_schedule ts w) = sm_ops w"
  "sm_coordinator (live_schedule ts w) = sm_coordinator w" "sm_store (live_schedule ts w) = sm_store w"
  "sm_sessions (put_session s w) = upsert ds_session_id s (sm_sessions w)" "sm_tasks (put_session s w) = sm_tasks w"
  "sm_db (put_session s w) = sm_db w" "sm_ops (put_session s w) = sm_ops w"
  "sm_coordinator (put_session s w) = sm_coordinator w" "sm_store (put_session s w) = sm_store w"
  by (simp_all add: live_log_def live_schedule_def put_session_def)

lemma release_fields [simp]:
  "sm_sessions (release_ownership st sid now w) = sm_sessions w" "sm_db (release_ownership st sid now w) = sm_db w"
  "sm_tasks (release_ownership st sid now w) = sm_tasks w" "sm_ops (release_ownership st sid now w) = sm_ops w"
  by (simp_all add: release_ownership_def split: option.splits prod.splits)

lemma release_drops_heartbeat:
  "sm_coordinator (release_ownership st sid now w) = Some co \<Longrightarrow> sid \<notin> fst ` set (co_heartbeats co)"
  by (auto simp: release_ownership_def release_session_def Let_def split: option.splits prod.splits)

lemma session_at_in: "session_at sid w = Some s \<Longrightarrow> s \<in> set (sm_sessions w) \<and> ds_session_id s = sid"
  by (auto simp: session_at_def dest: find_row_in find_row_key)

lemma session_at_unfold:
  "session_at sid (w\<lparr>sm_sessions := ss\<rparr>) = find_row ds_session_id sid ss"
  by (simp add: session_at_def)

lemma find_row_without:
  "find_row key i (filter (\<lambda>x. key x \<noteq> k) xs) = (if i = k then None else find_row key i xs)"
  by (induction xs) auto

lemma calls_save_transcript [simp]: "calls (save_transcript cid e d) = calls d"
  by (simp add: save_transcript_def append_transcript_def Let_def split: prod.splits)

lemma calls_save_transcripts [simp]: "calls (fold (save_transcript cid) es d) = calls d"
  by (induction es arbitrary: d) simp_all

lemma row_save_transcripts [simp]: "get_call_row i (fold (save_transcript cid) es d) = get_call_row i d"
  by (simp add: get_call_row_def)

lemma call_row_key: "get_call_row i d = Some c \<Longrightarrow> c_id c = i"
  by (auto simp: get_call_row_def dest: find_row_key)

lemma finalize_call_row:
  assumes "get_call_row cid d = Some c"
  shows "\<exists>c'. get_call_row cid (finalize_call sm now cid final p d) = Some c'
     \<and> (if c_status c \<in> terminal_statuses then c' = c else c_status c' = final \<and> c_completed_at c' = Some now)"
  using assms call_row_key [OF assms] by (auto simp: finalize_call_def Let_def)

lemma finalize_call_other:
  "i \<noteq> cid \<Longrightarrow> get_call_row i (finalize_call sm now cid final p d) = get_call_row i d"
  by (auto simp: finalize_call_def Let_def dest: call_row_key split: option.splits)

lemma terminate_fields:
  assumes "session_at sid w = Some s"
  shows "sm_sessions (terminate_session st env sid final stage reason w) = filter (\<lambda>x. ds_session_id x \<noteq> sid) (sm_sessions w)"
    and "sm_tasks (terminate_session st env sid final stage reason w) = sm_tasks w"
    and "sm_ops (terminate_session st env sid final stage reason w) = sm_ops w @ shutdown_ops s"
    and "sm_db (terminate_session st env sid final stage reason w)
       = finalize_call (ee_summary env) (ee_now env) (ds_call_id s) (resolved_status final s)
           (final_payload (resolved_status final s) stage reason s)
           (fold (save_transcript (ds_call_id s)) (take (ee_saved env) (ds_transcripts s)) (sm_db w))"
  using assms by (simp_all add: terminate_session_def Let_def)

lemma terminate_unknown: "session_at sid w = None \<Longrightarrow> terminate_session st env sid final stage reason w = w"
  by (simp add: terminate_session_def)

text \<open>
  C34. \<open>terminate_session\<close> settles everything a session holds, once: the session leaves the table and no
  other does; its browser is told (if its bridge is one to a browser, which takes control messages), its
  model connection and bridge are closed and its provider leg is terminated, in this order and nothing else; the worker no longer renews a lease on it; a call that is
  still open gets the final status (the given one, else the session's terminal status, else COMPLETED)
  with a completion time, and a call that is over is not touched. Terminating it again, for whatever
  reason, changes nothing.
\<close>

theorem termination_settles_session:
  fixes st :: "'s session_store_if" and env :: end_env and final :: "call_status option" and stage reason :: "string option"
  assumes "session_at sid w = Some s" and "get_call_row (ds_call_id s) (sm_db w) = Some c"
  defines "w' \<equiv> terminate_session st env sid final stage reason w"
  shows "session_at sid w' = None \<and> (\<forall>i. i \<noteq> sid \<longrightarrow> session_at i w' = session_at i w)
     \<and> sm_ops w' = sm_ops w @ (if ds_takes_control s then [Op_control sid ''call_ended''] else [])
          @ [Op_model_close sid, Op_bridge_close sid]
          @ (if truthy (ds_leg_id s) then [Op_terminate_leg (the (ds_leg_id s))] else [])
     \<and> (\<forall>co. sm_coordinator w' = Some co \<longrightarrow> sid \<notin> fst ` set (co_heartbeats co))
     \<and> (\<exists>c'. get_call_row (ds_call_id s) (sm_db w') = Some c'
          \<and> (if c_status c \<in> terminal_statuses then c' = c
             else c_completed_at c' = Some (ee_now env)
               \<and> c_status c' = (case final of Some x \<Rightarrow> x
                    | None \<Rightarrow> if ds_current_status s \<in> terminal_statuses then ds_current_status s else COMPLETED)))
     \<and> terminate_session st env2 sid final2 stage2 reason2 w' = w'"
proof -
  note fields = terminate_fields [OF assms(1), where st = st and env = env and final = final and stage = stage
      and reason = reason, folded w'_def]
  have gone: "session_at sid w' = None" by (simp add: session_at_def fields(1) find_row_without)
  have others: "\<forall>i. i \<noteq> sid \<longrightarrow> session_at i w' = session_at i w"
    by (simp add: session_at_def fields(1) find_row_without)
  have lease: "\<forall>co. sm_coordinator w' = Some co \<longrightarrow> sid \<notin> fst ` set (co_heartbeats co)"
    unfolding w'_def terminate_session_def Let_def assms(1) option.case
    by (intro allI impI) (rule release_drops_heartbeat)
  have row: "\<exists>c'. get_call_row (ds_call_id s) (sm_db w') = Some c'
      \<and> (if c_status c \<in> terminal_statuses then c' = c
         else c_completed_at c' = Some (ee_now env) \<and> c_status c' = resolved_status final s)"
    unfolding fields(4) conj_commute [of "c_completed_at _ = _"] by (rule finalize_call_row) (simp add: assms(2))
  have ops: "sm_ops w' = sm_ops w @ (if ds_takes_control s then [Op_control sid ''call_ended''] else [])
      @ [Op_model_close sid, Op_bridge_close sid]
      @ (if truthy (ds_leg_id s) then [Op_terminate_leg (the (ds_leg_id s))] else [])"
    using fields(3) session_at_in [OF assms(1)] by (simp add: shutdown_ops_def control_def)
  show ?thesis
    by (intro conjI gone others ops lease row [unfolded resolved_status_def] terminate_unknown)
qed

section \<open>Every session that is to stop ends\<close>

definition task_ok :: "live_task \<Rightarrow> bool" where
  "task_ok t \<longleftrightarrow> (\<exists>sid final stage reason. t = Task_terminate sid final stage reason \<and> final \<in> {None, Some FAILED})"

definition live_ok :: "'s live_world \<Rightarrow> bool" where
  "live_ok w \<longleftrightarrow> distinct (map ds_session_id (sm_sessions w))
     \<and> (\<forall>s\<in>set (sm_sessions w). session_ok s \<and> (ds_stop s \<longrightarrow> terminates (ds_session_id s) (sm_tasks w)))
     \<and> (\<forall>t\<in>set (sm_tasks w). task_ok t)"

lemma task_ok_intros [simp]: "task_ok (Task_terminate sid None a b)" "task_ok (Task_terminate sid (Some FAILED) a b)"
  by (auto simp: task_ok_def)

lemma schedule_failure_tasks: "schedule_failure stage e s = (s', ts) \<Longrightarrow> \<forall>t\<in>set ts. task_ok t"
  by (auto simp: schedule_failure_def split: if_splits)

lemma session_end_tasks:
  "audio_loop_exit s = (s', ts) \<Longrightarrow> \<forall>t\<in>set ts. task_ok t"
  "bridge_stream_closed s = (s', ts) \<Longrightarrow> \<forall>t\<in>set ts. task_ok t"
  "leg_state_observed x s = (s', ts) \<Longrightarrow> \<forall>t\<in>set ts. task_ok t"
  "\<forall>t\<in>set (on_tool_call name s). task_ok t"
  by (auto simp: audio_loop_exit_def bridge_stream_closed_def leg_state_observed_def on_tool_call_def Let_def split: if_splits)

lemma timeout_tasks: "check_model_response_timeout cfg now s = (s', ts) \<Longrightarrow> \<forall>t\<in>set ts. task_ok t"
  by (auto simp: check_model_response_timeout_def Let_def dest: schedule_failure_tasks
      split: if_splits option.splits prod.splits bool.splits)

lemma audio_loop_round_tasks: "audio_loop_round cfg io now s = (s', ops, ts) \<Longrightarrow> \<forall>t\<in>set ts. task_ok t"
  by (auto simp: audio_loop_round_def dest: schedule_failure_tasks timeout_tasks
      split: if_splits option.splits prod.splits)

lemma tts_run_tasks: "tts_run fade i step s = (s', ts) \<Longrightarrow> \<forall>t\<in>set ts. task_ok t"
  by (auto simp: tts_run_def Let_def dest: schedule_failure_tasks split: if_splits tts_step.splits prod.splits)

lemma on_gemini_close_facts: "on_gemini_close s = (s', ts) \<Longrightarrow> live_keeps s s' ts \<and> (\<forall>t\<in>set ts. task_ok t)"
  by (auto simp: on_gemini_close_def dest: schedule_failure_tasks schedule_failure_keeps split: if_splits)

lemma handle_live_keeps: "handle_live cfg mf ev s = (s', ops, ts) \<Longrightarrow> live_keeps s s' ts"
  by (cases ev)
     (auto split: prod.splits intro: on_text_keeps on_text_fragment_keeps on_audio_keeps on_interrupted_keeps
       audio_loop_round_keeps session_end_keeps bridge_chunk_keeps schedule_failure_keeps tts_run_keeps
       suspend_audio_keeps metrics_keep simp: on_turn_complete_def dest: on_gemini_close_facts)

lemma handle_live_tasks: "handle_live cfg mf ev s = (s', ops, ts) \<Longrightarrow> \<forall>t\<in>set ts. task_ok t"
  by (cases ev)
     (auto split: prod.splits dest: audio_loop_round_tasks session_end_tasks(1-3) schedule_failure_tasks tts_run_tasks
       on_gemini_close_facts simp: session_end_tasks(4))

lemma put_ok:
  assumes "live_ok w" "session_ok s" "ds_stop s \<Longrightarrow> terminates (ds_session_id s) (sm_tasks w)"
  shows "live_ok (put_session s w)"
  using assms by (auto simp: live_ok_def distinct_upsert dest: in_upsert)

lemma schedule_ok: "live_ok w \<Longrightarrow> \<forall>t\<in>set ts. task_ok t \<Longrightarrow> live_ok (live_schedule ts w)"
  by (auto simp: live_ok_def)

lemma live_ok_cong:
  "live_ok w \<Longrightarrow> sm_sessions w' = sm_sessions w \<Longrightarrow> sm_tasks w' = sm_tasks w \<Longrightarrow> live_ok w'"
  by (simp add: live_ok_def)

lemma dispatch_live_ok:
  assumes ok: "live_ok w"
  shows "live_ok (dispatch_live cfg mf sid ev w)"
proof (cases "session_at sid w")
  case None
  with ok show ?thesis by (simp add: dispatch_live_def)
next
  case (Some s)
  obtain s' ops ts where h: "handle_live cfg mf ev s = (s', ops, ts)" by (cases "handle_live cfg mf ev s")
  have keeps: "live_keeps s s' ts" and tasks: "\<forall>t\<in>set ts. task_ok t"
    using handle_live_keeps [OF h] handle_live_tasks [OF h] by blast+
  have s: "session_ok s" "ds_stop s \<Longrightarrow> terminates (ds_session_id s) (sm_tasks w)"
    using ok session_at_in [OF Some] by (auto simp: live_ok_def)
  have "live_ok (put_session s' (live_schedule ts w))"
    using keeps s by (intro put_ok schedule_ok ok tasks) (auto simp: live_keeps_def)
  then show ?thesis by (rule live_ok_cong) (simp_all add: dispatch_live_def Some h)
qed

lemma terminate_ok: "live_ok w \<Longrightarrow> live_ok (terminate_session st env sid final stage reason w)"
  by (cases "session_at sid w")
     (auto simp: terminate_unknown live_ok_def terminate_fields distinct_map_filter)

lemma set_remove_nth:
  "i < length xs \<Longrightarrow> x \<in> set xs \<Longrightarrow> x \<noteq> xs ! i \<Longrightarrow> x \<in> set (remove_nth i xs)"
  by (metis Un_iff id_take_nth_drop insert_iff list.simps(15) remove_nth_def set_append)

lemma remove_nth_subset: "set (remove_nth i xs) \<subseteq> set xs"
  by (auto simp: remove_nth_def dest: in_set_takeD in_set_dropD)

text \<open>After a task ran, the tasks of the sessions that are left are still there.\<close>

lemma run_task_ok:
  assumes ok: "live_ok w"
  shows "live_ok (run_task_at st env i w)"
proof (cases "length (sm_tasks w) \<le> i")
  case True
  with ok show ?thesis by (simp add: run_task_at_def)
next
  case False
  then have i: "i < length (sm_tasks w)" by simp
  obtain sid final stage reason where t: "sm_tasks w ! i = Task_terminate sid final stage reason"
    by (cases "sm_tasks w ! i")
  let ?w = "w\<lparr>sm_tasks := remove_nth i (sm_tasks w)\<rparr>"
  let ?w' = "terminate_session st env sid final stage reason ?w"
  have left: "terminates j (remove_nth i (sm_tasks w))" if "j \<noteq> sid" "terminates j (sm_tasks w)" for j
    using that set_remove_nth [OF i] t unfolding terminates_def by (metis live_task.inject)
  have tasks: "\<forall>t\<in>set (remove_nth i (sm_tasks w)). task_ok t"
    using ok remove_nth_subset by (fastforce simp: live_ok_def)
  have "live_ok ?w'"
  proof (cases "session_at sid ?w")
    case None
    then have "\<forall>s\<in>set (sm_sessions w). ds_session_id s \<noteq> sid" by (auto simp: session_at_def find_row_None)
    with ok left tasks None show ?thesis by (auto simp: terminate_unknown live_ok_def)
  next
    case (Some s)
    with ok left tasks show ?thesis by (auto simp: live_ok_def terminate_fields distinct_map_filter)
  qed
  with False t show ?thesis by (simp add: run_task_at_def run_live_task_def)
qed

lemma resolve_capabilities_cases:
  "open_media cfg env rq leg v w = (r, w2) \<Longrightarrow>
     (case r of
        Inl e \<Rightarrow> w2 \<in> {live_log [Op_disconnect (rq_phone rq)] w,
                      live_log [Op_bridge_close (live_session_id (rq_call_id rq)), Op_disconnect (rq_phone rq)] w}
      | Inr s \<Rightarrow> w2 = w \<and> (\<exists>ctl caps. s = new_live_session rq leg ctl caps v \<and> cp_audio_out caps))"
  by (auto simp: open_media_def Let_def split: sum.splits prod.splits if_splits)

lemma new_session_ok:
  "session_ok (new_live_session rq leg ctl caps v)" "\<not> ds_stop (new_live_session rq leg ctl caps v)"
  by (simp_all add: new_live_session_def session_ok_parts fresh_metrics_def)

lemma coordinate_fields [simp]:
  "sm_sessions (coordinate_session st now s w) = sm_sessions w" "sm_tasks (coordinate_session st now s w) = sm_tasks w"
  "sm_db (coordinate_session st now s w) = sm_db w" "sm_ops (coordinate_session st now s w) = sm_ops w"
  by (simp_all add: coordinate_session_def Let_def split: option.splits prod.splits)

lemma greeting_id [simp]: "ds_session_id (start_initial_greeting cfg s) = ds_session_id s"
  using start_greeting_keeps [of s cfg "[]"] unfolding live_keeps_def by blast

lemma put_put:
  "put_session (start_initial_greeting cfg s) (live_log ops (put_session s w))
     = live_log ops (put_session (start_initial_greeting cfg s) w)"
  by (simp add: put_session_def live_log_def)

lemma log_put: "live_log [b] (put_session s (live_log [a] w)) = live_log [a, b] (put_session s w)"
  by (simp add: put_session_def live_log_def)

text \<open>The session and the termination that the end of its receive loop leaves.\<close>

definition closed_session :: "live_session \<Rightarrow> live_session" where
  "closed_session s = s\<lparr>ds_current_status := FAILED, ds_last_error := Some ''Gemini websocket closed unexpectedly'',
     ds_last_failure_stage := Some ''gemini_closed'', ds_stop := True\<rparr>"

definition close_task :: "string \<Rightarrow> live_task" where
  "close_task sid = Task_terminate sid (Some FAILED) (Some ''gemini_closed'')
     (Some ''Gemini websocket closed unexpectedly'')"

lemma close_new_session:
  "on_gemini_close (new_live_session rq leg ctl caps v)
     = (closed_session (new_live_session rq leg ctl caps v), [close_task (live_session_id (rq_call_id rq))])"
  by (simp add: on_gemini_close_def schedule_failure_def new_live_session_def closed_session_def close_task_def)

lemma put_log_put:
  "ds_session_id t = ds_session_id s \<Longrightarrow>
   put_session t (live_log ops (put_session s w)) = live_log ops (put_session t w)"
  by (simp add: put_session_def live_log_def upsert_upsert)

lemma closed_id [simp]: "ds_session_id (closed_session s) = ds_session_id s"
  by (simp add: closed_session_def)

text \<open>The ways in which \<open>create_session\<close> ends.\<close>

lemma create_cases:
  assumes c: "create_live_session cfg st env rq w = (r, w')"
  obtains (refused) e where "r = Inl e" "w' = w"
  | (unconnected) e where "r = Inl e" "oe_connect env = Inl e" "w' = live_log [Op_connect (rq_phone rq)] w"
  | (hung_up) e leg ops where "r = Inl e" "oe_connect env = Inr leg" "ops \<in> {[], [Op_bridge_close (live_session_id (rq_call_id rq))]}"
      "w' = live_log ([Op_connect (rq_phone rq)] @ ops @ [Op_disconnect (rq_phone rq)]) w"
  | (leaked) e leg ctl caps v where "r = Inl e" "oe_connect env = Inr leg" "oe_model env = Model_refused e"
      "length (sm_sessions w) < st_direct_max_sessions cfg"
      "w' = live_log [Op_connect (rq_phone rq), Op_model_connect (live_session_id (rq_call_id rq))]
              (put_session (new_live_session rq leg ctl caps v) w)"
  | (lost) e leg ctl caps v where "r = Inl e" "oe_connect env = Inr leg" "oe_model env = Model_lost e"
      "length (sm_sessions w) < st_direct_max_sessions cfg"
      "w' = live_schedule [close_task (live_session_id (rq_call_id rq))]
              (live_log [Op_connect (rq_phone rq), Op_model_connect (live_session_id (rq_call_id rq))]
                (put_session (closed_session (new_live_session rq leg ctl caps v)) w))"
  | (opened) leg ctl caps v w1 where "r = Inr (live_session_id (rq_call_id rq))" "oe_connect env = Inr leg"
      "oe_model env = Model_ready" "length (sm_sessions w) < st_direct_max_sessions cfg" "cp_audio_out caps"
      "w1 = live_log [Op_connect (rq_phone rq), Op_model_connect (live_session_id (rq_call_id rq))]
              (put_session (start_initial_greeting cfg (new_live_session rq leg ctl caps v)) w)"
      "w' = coordinate_session st (oe_now env) (new_live_session rq leg ctl caps v) w1"
proof (cases "st_direct_max_sessions cfg \<le> length (sm_sessions w)")
  case True
  with c have "w' = w" "\<exists>e. r = Inl e" by (auto simp: create_live_session_def admit_session_def)
  with refused show ?thesis by blast
next
  case False
  then have open': "open_session cfg st env rq w = (r, w')" and room: "length (sm_sessions w) < st_direct_max_sessions cfg"
    using c by (simp_all add: create_live_session_def admit_session_def)
  let ?w1 = "live_log [Op_connect (rq_phone rq)] w"
  consider (early) "w' = w" "\<exists>e. r = Inl e" | (noleg) e where "r = Inl e" "oe_connect env = Inl e" "w' = ?w1"
    | (leg) leg v where "oe_connect env = Inr leg"
      "(case open_media cfg env rq leg v ?w1 of
          (Inl e, w2) \<Rightarrow> (Inl e, w2)
        | (Inr s, w2) \<Rightarrow>
            (let w3 = live_log [Op_model_connect (ds_session_id s)] (put_session s w2) in
             case oe_model env of
               Model_refused e \<Rightarrow> (Inl e, w3)
             | Model_lost e \<Rightarrow> (let (s', ts) = on_gemini_close s in (Inl e, live_schedule ts (put_session s' w3)))
             | Model_ready \<Rightarrow> (Inr (ds_session_id s),
                 coordinate_session st (oe_now env) s (put_session (start_initial_greeting cfg s) w3)))) = (r, w')"
    using open' by (auto simp: open_session_def Let_def split: sum.splits if_splits)
  then show ?thesis
  proof cases
    case early
    with refused show ?thesis by blast
  next
    case noleg
    with unconnected show ?thesis by blast
  next
    case leg
    obtain q w2 where media: "open_media cfg env rq leg v ?w1 = (q, w2)" by fastforce
    show ?thesis
    proof (cases q)
      case (Inl e)
      with leg(2) media resolve_capabilities_cases [OF media] have
        "r = Inl e" "w' \<in> {live_log [Op_disconnect (rq_phone rq)] ?w1,
          live_log [Op_bridge_close (live_session_id (rq_call_id rq)), Op_disconnect (rq_phone rq)] ?w1}" by auto
      then obtain ops where "ops \<in> {[], [Op_bridge_close (live_session_id (rq_call_id rq))]}"
        "w' = live_log ([Op_connect (rq_phone rq)] @ ops @ [Op_disconnect (rq_phone rq)]) w"
        by (fastforce simp: live_log_def)
      with \<open>r = Inl e\<close> leg(1) show ?thesis by (intro hung_up)
    next
      case (Inr s)
      with resolve_capabilities_cases [OF media] obtain ctl caps where
        s: "s = new_live_session rq leg ctl caps v" "cp_audio_out caps" "w2 = ?w1" by auto
      have sid: "ds_session_id s = live_session_id (rq_call_id rq)" by (simp add: s(1) new_live_session_def)
      show ?thesis
      proof (cases "oe_model env")
        case (Model_refused e)
        with leg(2) media Inr s sid have "r = Inl e"
          "w' = live_log [Op_model_connect (live_session_id (rq_call_id rq))] (put_session s ?w1)" by (simp_all add: Let_def)
        then show ?thesis unfolding s(1) log_put using Model_refused room leg(1) by (intro leaked)
      next
        case (Model_lost e)
        with leg(2) media Inr s sid have "r = Inl e"
          "w' = live_schedule [close_task (live_session_id (rq_call_id rq))] (put_session (closed_session s)
             (live_log [Op_model_connect (live_session_id (rq_call_id rq))] (put_session s ?w1)))"
          by (simp_all add: Let_def close_new_session)
        then show ?thesis
          unfolding put_log_put [OF closed_id] log_put s(1) using Model_lost room leg(1) by (intro lost)
      next
        case Model_ready
        with leg(2) media Inr s sid have
          "r = Inr (live_session_id (rq_call_id rq))"
          "w' = coordinate_session st (oe_now env) s (put_session (start_initial_greeting cfg s)
             (live_log [Op_model_connect (live_session_id (rq_call_id rq))] (put_session s ?w1)))" by (simp_all add: Let_def)
        then show ?thesis unfolding put_put log_put s(1) using Model_ready room s(2) leg(1) by (intro opened) auto
      qed
    qed
  qed
qed

lemma greeted_ok:
  assumes "live_ok w"
  shows "live_ok (put_session (start_initial_greeting cfg (new_live_session rq leg ctl caps v)) w)"
proof (rule put_ok [OF assms])
  let ?s = "new_live_session rq leg ctl caps v"
  have "live_keeps ?s (start_initial_greeting cfg ?s) []" by (rule start_greeting_keeps)
  then have "session_ok (start_initial_greeting cfg ?s)" "\<not> ds_stop (start_initial_greeting cfg ?s)"
    unfolding live_keeps_def using new_session_ok by (blast, metis terminates_single(2))
  then show "session_ok (start_initial_greeting cfg ?s)"
    "ds_stop (start_initial_greeting cfg ?s) \<Longrightarrow> terminates (ds_session_id (start_initial_greeting cfg ?s)) (sm_tasks w)"
    by simp_all
qed

lemma create_ok:
  assumes ok: "live_ok w"
  shows "live_ok (snd (create_live_session cfg st env rq w))"
proof -
  obtain r w' where c: "create_live_session cfg st env rq w = (r, w')" by fastforce
  from c have "live_ok w'"
  proof (cases rule: create_cases)
    case (leaked e leg ctl caps v)
    have "live_ok (put_session (new_live_session rq leg ctl caps v) w)"
      using ok new_session_ok by (intro put_ok) auto
    with leaked(5) show ?thesis by (auto elim: live_ok_cong)
  next
    case (lost e leg ctl caps v)
    let ?s = "new_live_session rq leg ctl caps v"
    have "live_keeps ?s (closed_session ?s) [close_task (live_session_id (rq_call_id rq))]"
      using on_gemini_close_facts [OF close_new_session] by blast
    then have "live_ok (put_session (closed_session ?s) (live_schedule [close_task (live_session_id (rq_call_id rq))] w))"
      using new_session_ok by (intro put_ok schedule_ok ok) (auto simp: live_keeps_def close_task_def)
    with lost(5) show ?thesis by (auto elim: live_ok_cong)
  next
    case (opened leg ctl caps v w1)
    from opened(6,7) show ?thesis
      by (auto intro: live_ok_cong [OF greeted_ok [OF ok]])
  qed (use ok in \<open>auto elim: live_ok_cong\<close>)
  with c show ?thesis by simp
qed

lemma inject_ok: "live_ok w \<Longrightarrow> live_ok (inject_live_instruction st now sid instruction w)"
proof (cases "session_at sid w")
  case None
  then show "live_ok w \<Longrightarrow> ?thesis"
    by (auto simp: inject_live_instruction_def Let_def live_ok_def split: option.splits prod.splits)
next
  case (Some s)
  assume ok: "live_ok w"
  let ?s = "s\<lparr>ds_instructions := ds_instructions s @ [instruction]\<rparr>"
  have "session_ok s" "ds_stop s \<Longrightarrow> terminates (ds_session_id s) (sm_tasks w)"
    using ok session_at_in [OF Some] by (auto simp: live_ok_def)
  then have "live_ok (put_session ?s w)" by (intro put_ok ok) (simp_all add: session_ok_parts)
  with Some show ?thesis by (simp add: inject_live_instruction_def)
qed

lemma save_ok: "live_ok w \<Longrightarrow> live_ok (save_pending sid w)"
proof (cases "session_at sid w")
  case (Some s)
  assume ok: "live_ok w"
  have s: "session_ok s" "ds_stop s \<Longrightarrow> terminates (ds_session_id s) (sm_tasks w)"
    using ok session_at_in [OF Some] by (auto simp: live_ok_def)
  show ?thesis
  proof (cases "ds_transcripts s")
    case (Cons e es)
    let ?w = "w\<lparr>sm_db := save_transcript (ds_call_id s) e (sm_db w)\<rparr>"
    have "live_ok ?w" by (rule live_ok_cong [OF ok]) simp_all
    then have "live_ok (put_session (s\<lparr>ds_transcripts := es\<rparr>) ?w)"
      using s by (intro put_ok) (simp_all add: session_ok_parts)
    with Some Cons show ?thesis by (simp add: save_pending_def)
  qed (use ok Some in \<open>simp add: save_pending_def\<close>)
qed (simp add: save_pending_def)

lemma live_step_ok: "live_step cfg st mf w w' \<Longrightarrow> live_ok w \<Longrightarrow> live_ok w'"
  by (induction rule: live_step.induct)
     (simp_all add: create_ok inject_ok dispatch_live_ok save_ok terminate_ok run_task_ok)

lemma live_run_ok: "(live_step cfg st mf)\<^sup>*\<^sup>* w w' \<Longrightarrow> live_ok w \<Longrightarrow> live_ok w'"
  by (induction rule: rtranclp_induct) (auto dest: live_step_ok)

text \<open>The scheduled tasks, one after the other.\<close>

definition run_live_tasks :: "'s session_store_if \<Rightarrow> end_env \<Rightarrow> live_task list \<Rightarrow> 's live_world \<Rightarrow> 's live_world" where
  "run_live_tasks st env ts w = fold (run_live_task st env) ts w"

lemma finalize_call_terminal:
  assumes "get_call_row i d = Some c" "c_status c \<in> terminal_statuses"
  shows "get_call_row i (finalize_call sm now cid final p d) = Some c"
proof (cases "i = cid")
  case True
  with assms show ?thesis by (simp add: finalize_call_def)
qed (simp add: finalize_call_other assms)

lemma finalize_call_some:
  "get_call_row i d = Some c \<Longrightarrow> \<exists>c'. get_call_row i (finalize_call sm now cid final p d) = Some c'"
  using finalize_call_row [of i d c sm now final p] by (cases "i = cid") (auto simp: finalize_call_other)

fun task_target :: "live_task \<Rightarrow> string" where
  "task_target (Task_terminate sid final stage reason) = sid"

lemma run_task_sessions:
  "sm_sessions (run_live_task st env t w) = filter (\<lambda>x. ds_session_id x \<noteq> task_target t) (sm_sessions w)"
proof (cases t)
  case (Task_terminate sid final stage reason)
  then show ?thesis
    by (cases "session_at sid w")
       (auto simp: run_live_task_def terminate_unknown terminate_fields session_at_def find_row_None intro!: filter_True [symmetric])
qed

lemma run_task_rows:
  assumes "get_call_row i (sm_db w) = Some c"
  shows "\<exists>c'. get_call_row i (sm_db (run_live_task st env t w)) = Some c'
     \<and> (c_status c \<in> terminal_statuses \<longrightarrow> c' = c)"
proof (cases t)
  case (Task_terminate sid final stage reason)
  then show ?thesis
  proof (cases "session_at sid w")
    case (Some s)
    then have db: "sm_db (run_live_task st env t w)
       = finalize_call (ee_summary env) (ee_now env) (ds_call_id s) (resolved_status final s)
           (final_payload (resolved_status final s) stage reason s)
           (fold (save_transcript (ds_call_id s)) (take (ee_saved env) (ds_transcripts s)) (sm_db w))"
      by (simp add: Task_terminate run_live_task_def terminate_fields)
    show ?thesis
    proof (cases "c_status c \<in> terminal_statuses")
      case True
      then show ?thesis unfolding db by (simp add: finalize_call_terminal assms)
    next
      case False
      then show ?thesis unfolding db by (simp add: finalize_call_some [OF _] assms)
    qed
  qed (simp add: run_live_task_def terminate_unknown assms)
qed

lemma run_tasks_sessions:
  "sm_sessions (run_live_tasks st env ts w) = filter (\<lambda>x. ds_session_id x \<notin> task_target ` set ts) (sm_sessions w)"
  by (induction ts arbitrary: w) (auto simp: run_live_tasks_def run_task_sessions intro!: filter_cong)

lemma run_tasks_terminal:
  "get_call_row i (sm_db w) = Some c \<Longrightarrow> c_status c \<in> terminal_statuses
     \<Longrightarrow> get_call_row i (sm_db (run_live_tasks st env ts w)) = Some c"
  by (induction ts arbitrary: w) (auto simp: run_live_tasks_def dest: run_task_rows)

lemma resolved_terminal: "final \<in> {None, Some FAILED} \<Longrightarrow> resolved_status final s \<in> terminal_statuses"
  by (auto simp: resolved_status_def terminal_statuses_def)

lemma run_task_ends_call:
  assumes "task_ok t" "session_at (task_target t) w = Some s" "get_call_row (ds_call_id s) (sm_db w) = Some c"
  shows "\<exists>c'. get_call_row (ds_call_id s) (sm_db (run_live_task st env t w)) = Some c' \<and> c_status c' \<in> terminal_statuses"
proof -
  from assms(1) obtain sid final stage reason where
    t: "t = Task_terminate sid final stage reason" and final: "final \<in> {None, Some FAILED}" by (auto simp: task_ok_def)
  let ?d = "fold (save_transcript (ds_call_id s)) (take (ee_saved env) (ds_transcripts s)) (sm_db w)"
  have row: "get_call_row (ds_call_id s) ?d = Some c" by (simp add: assms(3))
  have "sm_db (run_live_task st env t w)
      = finalize_call (ee_summary env) (ee_now env) (ds_call_id s) (resolved_status final s)
           (final_payload (resolved_status final s) stage reason s) ?d"
    using assms(2) by (simp add: t run_live_task_def terminate_fields)
  then show ?thesis using finalize_call_row [OF row] resolved_terminal [OF final] by (metis (no_types, lifting))
qed

lemma run_tasks_end_calls:
  assumes "\<forall>t\<in>set ts. task_ok t" "sid \<in> task_target ` set ts" "session_at sid w = Some s"
    and "get_call_row (ds_call_id s) (sm_db w) = Some c"
  shows "\<exists>c'. get_call_row (ds_call_id s) (sm_db (run_live_tasks st env ts w)) = Some c' \<and> c_status c' \<in> terminal_statuses"
  using assms
proof (induction ts arbitrary: w c)
  case (Cons t ts)
  have unfold: "run_live_tasks st env (t # ts) w = run_live_tasks st env ts (run_live_task st env t w)" for w
    by (simp add: run_live_tasks_def)
  show ?case
  proof (cases "task_target t = sid")
    case True
    with Cons.prems obtain c' where
      "get_call_row (ds_call_id s) (sm_db (run_live_task st env t w)) = Some c'" "c_status c' \<in> terminal_statuses"
      using run_task_ends_call [of t w s c st env] by auto
    then show ?thesis unfolding unfold by (metis run_tasks_terminal)
  next
    case False
    have "session_at sid (run_live_task st env t w) = Some s"
      using Cons.prems(3) False by (simp add: session_at_def run_task_sessions find_row_without)
    moreover obtain c' where "get_call_row (ds_call_id s) (sm_db (run_live_task st env t w)) = Some c'"
      using run_task_rows [OF Cons.prems(4)] by blast
    ultimately show ?thesis unfolding unfold using Cons.prems(1,2) False by (intro Cons.IH) auto
  qed
qed simp

lemma session_at_member:
  "distinct (map ds_session_id (sm_sessions w)) \<Longrightarrow> s \<in> set (sm_sessions w) \<Longrightarrow> session_at (ds_session_id s) w = Some s"
  unfolding session_at_def by (rule find_row_distinct)

text \<open>
  C35. Every session that is to stop ends. In every state a worker can reach, by any interleaving of
  creations, events, failures, terminations and late tasks, a session whose stop signal is set has its
  termination scheduled: once the scheduled tasks have run, no stopped session is left, a session that
  was not to stop is unchanged or gone, and the call of each stopped session, where it exists, has a
  terminal status.
\<close>

theorem stopped_sessions_end:
  fixes st :: "'s session_store_if" and env :: end_env
  assumes "(live_step cfg st mf)\<^sup>*\<^sup>* (empty_live_world d co s0) w"
  defines "w' \<equiv> run_live_tasks st env (sm_tasks w) (w\<lparr>sm_tasks := []\<rparr>)"
  shows "(\<forall>s\<in>set (sm_sessions w'). s \<in> set (sm_sessions w) \<and> \<not> ds_stop s)
     \<and> (\<forall>s\<in>set (sm_sessions w). \<forall>c. ds_stop s \<and> get_call_row (ds_call_id s) (sm_db w) = Some c \<longrightarrow>
          (\<exists>c'. get_call_row (ds_call_id s) (sm_db w') = Some c' \<and> c_status c' \<in> terminal_statuses))"
proof -
  have ok: "live_ok w" using assms(1) by (rule live_run_ok) (simp add: empty_live_world_def live_ok_def)
  have target: "ds_session_id s \<in> task_target ` set (sm_tasks w)" if "s \<in> set (sm_sessions w)" "ds_stop s" for s
    using ok that unfolding live_ok_def terminates_def by (metis image_eqI task_target.simps)
  have left: "\<forall>s\<in>set (sm_sessions w'). s \<in> set (sm_sessions w) \<and> \<not> ds_stop s"
    using target by (auto simp: w'_def run_tasks_sessions)
  have "\<exists>c'. get_call_row (ds_call_id s) (sm_db w') = Some c' \<and> c_status c' \<in> terminal_statuses"
    if "s \<in> set (sm_sessions w)" "ds_stop s" "get_call_row (ds_call_id s) (sm_db w) = Some c" for s c
    unfolding w'_def
  proof (rule run_tasks_end_calls)
    show "\<forall>t\<in>set (sm_tasks w). task_ok t" using ok by (simp add: live_ok_def)
    show "session_at (ds_session_id s) (w\<lparr>sm_tasks := []\<rparr>) = Some s"
      using ok that(1) by (intro session_at_member) (simp_all add: live_ok_def)
    show "get_call_row (ds_call_id s) (sm_db (w\<lparr>sm_tasks := []\<rparr>)) = Some c" by (simp add: that(3))
  qed (rule target [OF that(1,2)])
  with left show ?thesis by blast
qed

section \<open>Opening a session\<close>

text \<open>
  C36. What \<open>create_session\<close> leaves behind. The database is never touched. When it fails, the store and the
  coordinator are untouched too, and one of these holds. Nothing was opened; or the provider could not be reached; or
  the bridge was closed if there was one and, as the last call, the provider was asked to disconnect the phone (whether it can
  is its affair): then the sessions and the scheduled tasks are as before. Or the model could not be reached: then the
  session stays registered, and nothing is scheduled to end it. Or the model was lost before its setup was
  done: then the session is registered as failed, with its termination scheduled. When it succeeds there was room for the
  session, it is registered under the id of its call, in progress, with a way to play audio; the calls made
  are the connection of the leg and of the model, and no task is scheduled.
\<close>

theorem opening_cleans_up:
  fixes st :: "'s session_store_if"
  shows "let (r, w') = create_live_session cfg st env rq w; sid = live_session_id (rq_call_id rq);
       connect = Op_connect (rq_phone rq); hang_up = Op_disconnect (rq_phone rq)
   in sm_db w' = sm_db w
     \<and> (case r of
          Inl e \<Rightarrow>
            sm_store w' = sm_store w \<and> sm_coordinator w' = sm_coordinator w
            \<and> (if sm_ops w' = sm_ops w @ [connect, Op_model_connect sid]
               then (\<exists>s. session_at sid w' = Some s \<and> ds_call_id s = rq_call_id rq
                 \<and> oe_connect env = Inr (ds_leg_id s)
                 \<and> (if oe_model env = Model_refused e
                    then \<not> ds_stop s \<and> ds_current_status s = IN_PROGRESS \<and> sm_tasks w' = sm_tasks w
                    else oe_model env = Model_lost e \<and> ds_stop s \<and> ds_current_status s = FAILED
                      \<and> (\<exists>reason. sm_tasks w' = sm_tasks w
                           @ [Task_terminate sid (Some FAILED) (Some ''gemini_closed'') (Some reason)])))
               else sm_sessions w' = sm_sessions w \<and> sm_tasks w' = sm_tasks w
                 \<and> (if isl (oe_connect env) then sm_ops w' \<in> {sm_ops w, sm_ops w @ [connect]}
                    else sm_ops w' \<in> {sm_ops w, sm_ops w @ [connect, hang_up],
                           sm_ops w @ [connect, Op_bridge_close sid, hang_up]}))
        | Inr i \<Rightarrow>
            i = sid \<and> length (sm_sessions w) < st_direct_max_sessions cfg \<and> sm_tasks w' = sm_tasks w
            \<and> sm_ops w' = sm_ops w @ [connect, Op_model_connect sid]
            \<and> (\<exists>s. session_at sid w' = Some s \<and> ds_call_id s = rq_call_id rq \<and> ds_current_status s = IN_PROGRESS
                 \<and> \<not> ds_stop s \<and> cp_audio_out (ds_capabilities s) \<and> oe_connect env = Inr (ds_leg_id s)))"
proof -
  obtain r w' where c: "create_live_session cfg st env rq w = (r, w')" by fastforce
  from c show ?thesis
  proof (cases rule: create_cases)
    case (refused e)
    with c show ?thesis by simp
  next
    case (unconnected e)
    with c show ?thesis by simp
  next
    case (hung_up e leg ops)
    with c show ?thesis by auto
  next
    case (leaked e leg ctl caps v)
    let ?s = "new_live_session rq leg ctl caps v"
    have "session_at (live_session_id (rq_call_id rq)) w' = Some ?s"
      unfolding leaked(5) by (simp add: session_at_def new_live_session_def)
    with c leaked show ?thesis by (simp add: new_live_session_def)
  next
    case (lost e leg ctl caps v)
    let ?s = "closed_session (new_live_session rq leg ctl caps v)"
    have "session_at (live_session_id (rq_call_id rq)) w' = Some ?s"
      unfolding lost(5) by (simp add: session_at_def new_live_session_def)
    with c lost show ?thesis by (simp add: new_live_session_def closed_session_def close_task_def)
  next
    case (opened leg ctl caps v w1)
    let ?s = "new_live_session rq leg ctl caps v"
    let ?g = "start_initial_greeting cfg ?s"
    have "live_keeps ?s ?g []" by (rule start_greeting_keeps)
    then have g: "ds_call_id ?g = ds_call_id ?s" "ds_leg_id ?g = ds_leg_id ?s" "\<not> ds_stop ?g"
      using new_session_ok(2) unfolding live_keeps_def by (blast, blast, metis terminates_single(2))
    have more: "ds_current_status ?g = ds_current_status ?s" "ds_capabilities ?g = ds_capabilities ?s"
      by (auto simp: start_initial_greeting_def tts_dispatch_def Let_def split: option.splits)
    have "session_at (live_session_id (rq_call_id rq)) w' = Some ?g"
      unfolding opened(6,7) by (simp add: session_at_def new_live_session_def)
    then show ?thesis using c opened g more by (auto simp: new_live_session_def)
  qed
qed

section \<open>A worker at work\<close>

definition demo_live_settings :: settings where
  "demo_live_settings = default_settings\<lparr>st_direct_voice_strategy := ''tts_primary'', st_elevenlabs_enabled := True,
     st_elevenlabs_api_key := ''key'', st_elevenlabs_voice_id := ''voice''\<rparr>"

definition demo_open_env :: open_env where
  "demo_open_env = \<lparr>oe_now = 0, oe_connect = Inr (Some ''leg1''), 
     oe_bridge = Inr \<lparr>bk_null = False, bk_open = True, bk_control = True\<rparr>, oe_model = Model_ready\<rparr>"

definition demo_live_request :: live_request where
  "demo_live_request = \<lparr>rq_call_id = 7, rq_phone = ''+79991234567'', rq_greeting = None, rq_strategy = None\<rparr>"

definition demo_end_env :: end_env where
  "demo_end_env = \<lparr>ee_now = 5, ee_saved = 10, ee_summary = (\<lambda>es. (''short'', ''positive''))\<rparr>"

definition demo_media_fun :: media_fun where
  "demo_media_fun = \<lparr>mf_fade = (\<lambda>x. x), mf_resample = (\<lambda>d a b. d)\<rparr>"

definition demo_idle_world :: "memory_store live_world" where
  "demo_idle_world = empty_live_world (empty_db\<lparr>calls := [session_call 7 ''x'' IN_PROGRESS]\<rparr>)
     (Some (init_coordinator ''W1'')) \<lparr>ms_meta = [], ms_locks = Map.empty, ms_active = [], ms_queues = Map.empty\<rparr>"

definition demo_live_world :: "memory_store live_world" where
  "demo_live_world =
     dispatch_live demo_live_settings demo_media_fun (live_session_id 7) (Live_text ''user'' ''hello'')
       (snd (create_live_session demo_live_settings memory_sessions demo_open_env demo_live_request demo_idle_world))"

definition demo_closed_world :: "memory_store live_world" where
  "demo_closed_world = dispatch_live demo_live_settings demo_media_fun (live_session_id 7) Live_model_closed demo_live_world"

lemma demo_runs:
  "(live_step demo_live_settings memory_sessions demo_media_fun)\<^sup>*\<^sup>* demo_idle_world demo_closed_world"
  unfolding demo_closed_world_def demo_live_world_def
  by (meson live_step.create live_step.event rtranclp.rtrancl_into_rtrancl rtranclp.rtrancl_refl)

lemma demo_live_facts:
  "\<not> Option.is_none (session_at (live_session_id 7) demo_live_world)"
  "ds_call_id (the (session_at (live_session_id 7) demo_live_world)) = 7"
  "ds_leg_id (the (session_at (live_session_id 7) demo_live_world)) = Some ''leg1''"
  "ds_takes_control (the (session_at (live_session_id 7) demo_live_world))"
  "get_call_row 7 (sm_db demo_live_world) = Some (session_call 7 ''x'' IN_PROGRESS)"
  subgoal by code_simp
  subgoal by code_simp
  subgoal by code_simp
  subgoal by code_simp
  subgoal by code_simp
  done

lemma demo_end:
  "map_option c_status (get_call_row 7 (sm_db (terminate_session memory_sessions demo_end_env (live_session_id 7)
     None None None demo_live_world))) = Some COMPLETED"
  by code_simp

lemma demo_closed_facts:
  "\<not> Option.is_none (session_at (live_session_id 7) demo_closed_world)"
  "ds_stop (the (session_at (live_session_id 7) demo_closed_world))"
  "ds_call_id (the (session_at (live_session_id 7) demo_closed_world)) = 7"
  "get_call_row 7 (sm_db demo_closed_world) = Some (session_call 7 ''x'' IN_PROGRESS)"
  subgoal by code_simp
  subgoal by code_simp
  subgoal by code_simp
  subgoal by code_simp
  done

theorem termination_settles_session_witness:
  "let w = demo_live_world; w' = terminate_session memory_sessions demo_end_env (live_session_id 7) None None None w
   in session_at (live_session_id 7) w' = None
     \<and> drop (length (sm_ops w)) (sm_ops w') = [Op_control (live_session_id 7) ''call_ended'', Op_model_close (live_session_id 7),
          Op_bridge_close (live_session_id 7), Op_terminate_leg ''leg1'']
     \<and> map_option c_status (get_call_row 7 (sm_db w')) = Some COMPLETED"
proof -
  have s: "session_at (live_session_id 7) demo_live_world = Some (the (session_at (live_session_id 7) demo_live_world))"
    using demo_live_facts(1) by (cases "session_at (live_session_id 7) demo_live_world") simp_all
  show ?thesis
    using termination_settles_session [OF s, unfolded demo_live_facts(2), OF demo_live_facts(5), where st = memory_sessions
        and env = demo_end_env and final = None and stage = None and reason = None] demo_live_facts(3,4) demo_end
    by (simp add: Let_def)
qed

theorem stopped_sessions_end_witness:
  "\<exists>s\<in>set (sm_sessions demo_closed_world). ds_stop s
     \<and> (\<exists>c. get_call_row 7 (sm_db (run_live_tasks memory_sessions demo_end_env (sm_tasks demo_closed_world)
            (demo_closed_world\<lparr>sm_tasks := []\<rparr>))) = Some c \<and> c_status c \<in> terminal_statuses)"
proof -
  have "the (session_at (live_session_id 7) demo_closed_world) \<in> set (sm_sessions demo_closed_world)"
    using demo_closed_facts(1)
    by (cases "session_at (live_session_id 7) demo_closed_world") (auto dest: session_at_in)
  then show ?thesis
    using stopped_sessions_end [OF demo_runs [unfolded demo_idle_world_def], where env = demo_end_env] demo_closed_facts
    by metis
qed

text \<open>
  When the model cannot be reached, the session stays registered: its leg is not disconnected, no
  termination is scheduled, and it keeps its place among the sessions the worker may hold.
\<close>

theorem refused_model_leaks:
  "let (r, w') = create_live_session demo_live_settings memory_sessions
         (demo_open_env\<lparr>oe_model := Model_refused (OtherError ''refused'')\<rparr>) demo_live_request demo_idle_world
   in r = Inl (OtherError ''refused'') \<and> length (sm_sessions w') = 1 \<and> sm_tasks w' = []
     \<and> Op_disconnect ''+79991234567'' \<notin> set (sm_ops w')"
  by code_simp

text \<open>
  The limit is checked before the first await: of two requests that are admitted before either is
  registered, both open a session.
\<close>

theorem limit_can_be_exceeded:
  "let cfg = demo_live_settings\<lparr>st_direct_max_sessions := 1\<rparr>; open' = open_session cfg memory_sessions demo_open_env;
       w1 = snd (open' demo_live_request demo_idle_world);
       w2 = snd (open' (demo_live_request\<lparr>rq_call_id := 8\<rparr>) w1)
   in admit_session cfg demo_idle_world = Inr () \<and> length (sm_sessions w2) = 2"
  by code_simp

end
