(* ===== verification/GeminiClient.thy ===== *)
theory GeminiClient
  imports SessionManager
begin

text \<open>
  The WebSocket client of the model, \<open>app/integrations/direct/gemini_client.py\<close>, with the messages of
  \<open>app/integrations/direct/schemas.py\<close>: what it sends (the setup, instructions, the caller's audio), how it
  takes the answers of the model apart and which callbacks of the session it makes, in which order.

  Messages are decoded JSON; a message of the wrong shape raises where the code raises, after the callbacks
  that precede the fault, and the receive loop goes on with the next message. Base64 is that of the
  standard library. Callbacks and sends that raise are an argument (\<open>ok\<close>). The description of the
  \<open>end_call\<close> tool, Cyrillic in the source, is transliterated.

  The lemmas show that audio survives its encoding, and that on the TTS path what a session speaks is what
  it records, whatever the model sends.
\<close>

section \<open>Base64\<close>

definition b64_alphabet :: string where
  "b64_alphabet = ''ABCDEFGHIJKLMNOPQRSTUVWXYZabcdefghijklmnopqrstuvwxyz0123456789+/''"


definition b64_val :: "char \<Rightarrow> nat option" where
  "b64_val c = (if c \<in> set b64_alphabet then Some (length (takeWhile (\<lambda>d. d \<noteq> c) b64_alphabet)) else None)"


text \<open>
  The decoder without validation: the position in the group of four, the bits left over and the padding
  seen. Characters outside of the alphabet are skipped, and nothing is read after the padding.
\<close>

definition pack :: "nat \<Rightarrow> byte" where
  "pack n = word_of_nat n"


fun b64_scan :: "nat \<Rightarrow> nat \<Rightarrow> nat \<Rightarrow> string \<Rightarrow> byte list option" where
  "b64_scan q l p [] = (if q = 0 then Some [] else None)"
| "b64_scan q l p (c # cs) =
     (if c = CHR ''='' then (if 2 \<le> q then (if 4 \<le> q + (p + 1) then Some [] else b64_scan q l (p + 1) cs) else b64_scan q l p cs)
      else case b64_val c of
        None \<Rightarrow> b64_scan q l p cs
      | Some v \<Rightarrow>
          if q = 0 then b64_scan 1 v 0 cs
          else if q = 1 then map_option ((#) (pack (l * 4 + v div 16))) (b64_scan 2 (v mod 16) 0 cs)
          else if q = 2 then map_option ((#) (pack (l * 16 + v div 4))) (b64_scan 3 (v mod 4) 0 cs)
          else map_option ((#) (pack (l * 64 + v))) (b64_scan 0 0 0 cs))"

definition b64decode :: "string \<Rightarrow> byte list option" where
  "b64decode s = (if \<exists>c\<in>set s. 128 \<le> (of_char c :: nat) then None else b64_scan 0 0 0 s)"










section \<open>Python's reading of JSON\<close>

text \<open>\<open>k in v\<close>, \<open>v[k]\<close> with a string, and iteration; \<open>None\<close> where they raise.\<close>

definition json_in :: "string \<Rightarrow> json \<Rightarrow> bool option" where
  "json_in k v =
     (case v of
        JObj d \<Rightarrow> Some (dget d k \<noteq> None)
      | JStr s \<Rightarrow> Some (contains k s)
      | JList xs \<Rightarrow> Some (JStr k \<in> set xs)
      | _ \<Rightarrow> None)"

definition json_sub :: "string \<Rightarrow> json \<Rightarrow> json option" where
  "json_sub k v = (case v of JObj d \<Rightarrow> dget d k | _ \<Rightarrow> None)"

definition json_iter :: "json \<Rightarrow> json list option" where
  "json_iter v =
     (case v of
        JList xs \<Rightarrow> Some xs
      | JObj d \<Rightarrow> Some (map (\<lambda>(k, x). JStr k) d)
      | JStr s \<Rightarrow> Some (map (\<lambda>c. JStr [c]) s)
      | _ \<Rightarrow> None)"

text \<open>\<open>d.get(k, default)\<close>.\<close>

definition get_or :: "json \<Rightarrow> (string \<times> json) list \<Rightarrow> string \<Rightarrow> json" where
  "get_or v d k = (case dget d k of None \<Rightarrow> v | Some x \<Rightarrow> x)"

section \<open>What the client sends\<close>

definition text_part :: "string \<Rightarrow> json" where
  "text_part s = JObj [(''text'', JStr s)]"

definition generation_config :: "bool \<Rightarrow> string \<Rightarrow> string \<Rightarrow> json" where
  "generation_config audio voice language =
     (if audio
      then JObj [(''responseModalities'', JList [JStr ''AUDIO'']),
                 (''speechConfig'', JObj [(''languageCode'', JStr language),
                    (''voiceConfig'', JObj [(''prebuiltVoiceConfig'', JObj [(''voiceName'', JStr voice)])])])]
      else JObj [(''responseModalities'', JList [JStr ''TEXT''])])"

definition end_call_tools :: json where
  "end_call_tools = JList
     [JObj [(''googleSearch'', JObj [])],
      JObj [(''functionDeclarations'', JList
        [JObj [(''name'', JStr ''end_call''),
               (''description'', JStr ''End the phone call when it has come to its natural end.''),
               (''parameters'', JObj [(''type'', JStr ''object''), (''properties'', JObj [])])]])]]"

record gemini_config =
  gg_default_model :: string
  gg_model_id :: "string option"
  gg_voice_name :: "string option"
  gg_language_code :: string
  gg_audio_input :: bool
  gg_audio_output :: bool
  gg_transcription :: bool
  gg_fragments :: bool

definition wants_audio_modality :: "gemini_config \<Rightarrow> bool" where
  "wants_audio_modality g = (gg_audio_output g \<or> gg_transcription g)"

definition setup_message :: "gemini_config \<Rightarrow> string \<Rightarrow> json" where
  "setup_message g prompt =
     JObj [(''setup'', JObj
       ([(''model'', JStr (''models/'' @ the (py_or (gg_model_id g) (Some (gg_default_model g))))),
         (''generationConfig'', generation_config (wants_audio_modality g)
            (the (py_or (gg_voice_name g) (Some ''Aoede''))) (gg_language_code g)),
         (''systemInstruction'', JObj [(''parts'', JList [text_part prompt])]),
         (''tools'', end_call_tools)]
        @ (if gg_transcription g then [(''outputAudioTranscription'', JObj [])] else [])))]"

record gemini_client =
  gc_config :: gemini_config
  gc_open :: bool
  gc_closed :: bool
  gc_setup_done :: bool
  gc_pending :: string

definition new_client :: "gemini_config \<Rightarrow> gemini_client" where
  "new_client g = \<lparr>gc_config = g, gc_open = False, gc_closed = False, gc_setup_done = False, gc_pending = []\<rparr>"

definition client_ready :: "gemini_client \<Rightarrow> bool" where
  "client_ready c = (gc_open c \<and> \<not> gc_closed c)"

definition instruction_message :: "gemini_config \<Rightarrow> string \<Rightarrow> json" where
  "instruction_message g s =
     (if wants_audio_modality g then JObj [(''realtimeInput'', JObj [(''text'', JStr s)])]
      else JObj [(''clientContent'', JObj
        [(''turns'', JList [JObj [(''role'', JStr ''user''), (''parts'', JList [text_part s])]]),
         (''turnComplete'', JBool True)])])"


definition inject_instruction :: "string \<Rightarrow> gemini_client \<Rightarrow> json list" where
  "inject_instruction s c = (if client_ready c then [instruction_message (gc_config c) s] else [])"


section \<open>What the client receives\<close>

text \<open>A callback or a send; a computation makes some, leaves a client, and may have raised.\<close>

datatype client_act = Act_event live_event | Act_send json

type_synonym run = "client_act list \<times> gemini_client \<times> bool"

definition emit :: "(client_act \<Rightarrow> bool) \<Rightarrow> client_act \<Rightarrow> gemini_client \<Rightarrow> run" where
  "emit ok a c = ([a], c, \<not> ok a)"

definition and_then :: "run \<Rightarrow> (gemini_client \<Rightarrow> run) \<Rightarrow> run" where
  "and_then r f =
     (case r of
        (xs, c, True) \<Rightarrow> (xs, c, True)
      | (xs, c, False) \<Rightarrow> (let (ys, c', e) = f c in (xs @ ys, c', e)))"

fun for_each :: "('a \<Rightarrow> gemini_client \<Rightarrow> run) \<Rightarrow> 'a list \<Rightarrow> gemini_client \<Rightarrow> run" where
  "for_each f [] c = ([], c, False)"
| "for_each f (x # xs) c = and_then (f x c) (for_each f xs)"

datatype server_part = Part_text json | Part_inline json | Part_empty

definition server_part_of :: "json \<Rightarrow> server_part option" where
  "server_part_of p =
     (case json_in ''text'' p of
        None \<Rightarrow> None
      | Some True \<Rightarrow> map_option Part_text (json_sub ''text'' p)
      | Some False \<Rightarrow>
          if json_in ''inlineData'' p = Some True
          then (case json_sub ''inlineData'' p of
                  Some (JObj d) \<Rightarrow> Some (Part_inline (get_or (JStr []) d ''data''))
                | _ \<Rightarrow> None)
          else Some Part_empty)"

definition model_turn_of :: "(string \<times> json) list \<Rightarrow> server_part list option" where
  "model_turn_of sc =
     (case dget sc ''modelTurn'' of
        None \<Rightarrow> Some []
      | Some (JObj t) \<Rightarrow>
          (case json_iter (get_or (JList []) t ''parts'') of
             None \<Rightarrow> None
           | Some ps \<Rightarrow> those (map server_part_of ps))
      | Some _ \<Rightarrow> None)"

definition on_part :: "(client_act \<Rightarrow> bool) \<Rightarrow> server_part \<Rightarrow> gemini_client \<Rightarrow> run" where
  "on_part ok p c =
     (case p of
        Part_text v \<Rightarrow>
          if jtruthy v \<and> \<not> gg_transcription (gc_config c)
          then (case v of JStr s \<Rightarrow> emit ok (Act_event (Live_text ''assistant'' (strip s))) c | _ \<Rightarrow> ([], c, True))
          else ([], c, False)
      | Part_inline v \<Rightarrow>
          (case v of
             JStr s \<Rightarrow> (case b64decode s of Some pcm \<Rightarrow> emit ok (Act_event (Live_audio pcm)) c | None \<Rightarrow> ([], c, True))
           | _ \<Rightarrow> ([], c, True))
      | Part_empty \<Rightarrow> ([], c, False))"

definition on_transcription :: "(client_act \<Rightarrow> bool) \<Rightarrow> (string \<times> json) list \<Rightarrow> gemini_client \<Rightarrow> run" where
  "on_transcription ok sc c =
     (case dget sc ''outputTranscription'' of
        None \<Rightarrow> ([], c, False)
      | Some (JObj d) \<Rightarrow>
          (let v = get_or (JStr []) d ''text'' in
           if \<not> jtruthy v then ([], c, False)
           else case v of
             JStr s \<Rightarrow>
               (let c1 = c\<lparr>gc_pending := gc_pending c @ s\<rparr>
                in if gg_fragments (gc_config c) then emit ok (Act_event (Live_fragment ''assistant'' s False)) c1
                   else ([], c1, False))
           | _ \<Rightarrow> ([], c, True))
      | Some _ \<Rightarrow> ([], c, True))"

definition on_turn_end :: "(client_act \<Rightarrow> bool) \<Rightarrow> gemini_client \<Rightarrow> run" where
  "on_turn_end ok c =
     and_then (if gg_fragments (gc_config c) then emit ok (Act_event (Live_fragment ''assistant'' [] True)) c else ([], c, False)) (\<lambda>c.
     and_then (if gg_transcription (gc_config c) \<and> strip (gc_pending c) \<noteq> []
               then emit ok (Act_event (Live_text ''assistant'' (strip (gc_pending c)))) c else ([], c, False)) (\<lambda>c.
     emit ok (Act_event Live_turn_complete) (c\<lparr>gc_pending := []\<rparr>)))"

definition on_server_content :: "(client_act \<Rightarrow> bool) \<Rightarrow> (string \<times> json) list \<Rightarrow> gemini_client \<Rightarrow> run" where
  "on_server_content ok sc c =
     and_then (on_transcription ok sc c) (\<lambda>c.
       case model_turn_of sc of
         None \<Rightarrow> ([], c, True)
       | Some ps \<Rightarrow>
           if jtruthy (get_or (JBool False) sc ''interrupted'')
           then emit ok (Act_event Live_interrupted) (c\<lparr>gc_pending := []\<rparr>)
           else and_then (for_each (on_part ok) ps c) (\<lambda>c.
                  if jtruthy (get_or (JBool False) sc ''turnComplete'') then on_turn_end ok c else ([], c, False)))"

definition tool_ack :: "json \<Rightarrow> json \<Rightarrow> json" where
  "tool_ack i name =
     JObj [(''toolResponse'', JObj [(''functionResponses'', JList
       [JObj [(''id'', i), (''name'', name), (''response'', JObj [(''result'', JStr ''ok'')])]])])]"

text \<open>A name that is not a string is passed on too, but names no tool.\<close>

definition on_function_call :: "(client_act \<Rightarrow> bool) \<Rightarrow> json \<Rightarrow> gemini_client \<Rightarrow> run" where
  "on_function_call ok fc c =
     (case fc of
        JObj d \<Rightarrow>
          (let name = get_or (JStr []) d ''name''; i = get_or (JStr []) d ''id'' in
           and_then (case name of JStr n \<Rightarrow> emit ok (Act_event (Live_tool_call n)) c | _ \<Rightarrow> ([], c, False)) (\<lambda>c.
             if client_ready c then emit ok (Act_send (tool_ack i name)) c else ([], c, False)))
      | _ \<Rightarrow> ([], c, True))"

definition dispatch :: "(client_act \<Rightarrow> bool) \<Rightarrow> json \<Rightarrow> gemini_client \<Rightarrow> run" where
  "dispatch ok msg c =
     (let has = (\<lambda>k. json_in k msg = Some True) in
      if json_in ''setupComplete'' msg = None then ([], c, True)
      else if has ''setupComplete'' then ([], c\<lparr>gc_setup_done := True\<rparr>, False)
      else if has ''error''
      then (case json_sub ''error'' msg of Some (JObj e) \<Rightarrow> ([], c\<lparr>gc_setup_done := True\<rparr>, True) | _ \<Rightarrow> ([], c, True))
      else if has ''serverContent''
      then (case json_sub ''serverContent'' msg of Some (JObj sc) \<Rightarrow> on_server_content ok sc c | _ \<Rightarrow> ([], c, True))
      else if has ''toolCall''
      then (case json_sub ''toolCall'' msg of
              Some (JObj t) \<Rightarrow>
                (case json_iter (get_or (JList []) t ''functionCalls'') of
                   Some fcs \<Rightarrow> for_each (on_function_call ok) fcs c
                 | None \<Rightarrow> ([], c, True))
            | _ \<Rightarrow> ([], c, True))
      else ([], c, False))"

text \<open>The receive loop: a message that raises, or is not JSON, is logged and skipped.\<close>

fun receive :: "(client_act \<Rightarrow> bool) \<Rightarrow> json option list \<Rightarrow> gemini_client \<Rightarrow> client_act list \<times> gemini_client" where
  "receive ok [] c = ([], c)"
| "receive ok (None # ms) c = receive ok ms c"
| "receive ok (Some m # ms) c =
     (let (xs, c1, _) = dispatch ok m c; (ys, c2) = receive ok ms c1 in (xs @ ys, c2))"

definition receive_end :: "gemini_client \<Rightarrow> live_event list" where
  "receive_end c = (if gc_closed c then [] else [Live_model_closed])"

definition close_client :: "gemini_client \<Rightarrow> gemini_client" where
  "close_client c = c\<lparr>gc_closed := True\<rparr>"

text \<open>
  \<open>connect\<close>, given whether the socket opens, whether the setup could be sent, and the messages that arrive
  before the setup timeout: its result, the client, the calls made.
\<close>

definition connect_client ::
    "(client_act \<Rightarrow> bool) \<Rightarrow> (app_error, unit) result \<Rightarrow> string \<Rightarrow> json option list \<Rightarrow> gemini_client
     \<Rightarrow> (app_error, unit) result \<times> gemini_client \<times> client_act list" where
  "connect_client ok opened prompt ms c =
     (case opened of
        Inl e \<Rightarrow> (Inl e, c, [])
      | Inr _ \<Rightarrow>
          (let c1 = c\<lparr>gc_open := True\<rparr>; setup = Act_send (setup_message (gc_config c) prompt) in
           if \<not> ok setup then (Inl (OtherError ''ConnectionClosed''), c1, [setup])
           else (let (acts, c2) = receive ok ms c1 in
                 if gc_setup_done c2 then (Inr (), c2, setup # acts)
                 else (Inl (OtherError ''TimeoutError''), c2, setup # acts @ map Act_event (receive_end c2)))))"

section \<open>What is spoken is what is recorded\<close>

definition events_of :: "client_act list \<Rightarrow> live_event list" where
  "events_of acts = List.map_filter (\<lambda>a. case a of Act_event e \<Rightarrow> Some e | Act_send j \<Rightarrow> None) acts"

text \<open>The callbacks reach the session.\<close>

definition hear :: "settings \<Rightarrow> media_fun \<Rightarrow> live_event list \<Rightarrow> live_session \<Rightarrow> live_session" where
  "hear cfg mf es s = fold (\<lambda>e s. fst (handle_live cfg mf e s)) es s"

text \<open>The text of a callback, as a fragment and as an utterance, and whether a turn is open after it.\<close>

fun fragment_text :: "live_event \<Rightarrow> string" where
  "fragment_text (Live_fragment role f final) = f"
| "fragment_text _ = []"

fun uttered :: "live_event \<Rightarrow> string list" where
  "uttered (Live_text role t) = [t]"
| "uttered _ = []"

fun opened :: "live_event \<Rightarrow> bool \<Rightarrow> bool" where
  "opened (Live_fragment role f final) b = (\<not> final \<and> (b \<or> f \<noteq> []))"
| "opened _ b = b"

fun from_model :: "live_event \<Rightarrow> bool" where
  "from_model (Live_text role t) = (role = ''assistant'')"
| "from_model (Live_fragment role f final) = (role = ''assistant'')"
| "from_model (Live_audio pcm) = True"
| "from_model Live_interrupted = True"
| "from_model Live_turn_complete = True"
| "from_model (Live_tool_call n) = True"
| "from_model _ = False"

definition fragments :: "live_event list \<Rightarrow> string" where
  "fragments es = concat (map fragment_text es)"

definition utterances :: "live_event list \<Rightarrow> string list" where
  "utterances es = concat (map uttered es)"

lemma event_lists [simp]:
  "events_of [] = []" "events_of (Act_event e # acts) = e # events_of acts" "events_of (Act_send j # acts) = events_of acts"
  "events_of (xs @ ys) = events_of xs @ events_of ys"
  "fragments [] = []" "fragments (e # es) = fragment_text e @ fragments es" "fragments (es @ es') = fragments es @ fragments es'"
  "utterances [] = []" "utterances (e # es) = uttered e @ utterances es" "utterances (es @ es') = utterances es @ utterances es'"
  by (simp_all add: events_of_def fragments_def utterances_def List.map_filter_def)

subsection \<open>The client\<close>

definition tts_client :: "gemini_client \<Rightarrow> bool" where
  "tts_client c = (gg_transcription (gc_config c) \<and> gg_fragments (gc_config c))"

text \<open>What the callbacks of a computation have to do with the pending transcription.\<close>

definition tracks :: "gemini_client \<Rightarrow> client_act list \<Rightarrow> gemini_client \<Rightarrow> bool" where
  "tracks c acts c' \<longleftrightarrow>
     gc_config c' = gc_config c \<and> (\<forall>e\<in>set (events_of acts). from_model e)
     \<and> (tts_client c \<longrightarrow> Live_interrupted \<notin> set (events_of acts) \<longrightarrow>
          inked (concat (utterances (events_of acts))) @ inked (gc_pending c') = inked (gc_pending c) @ inked (fragments (events_of acts))
          \<and> (\<forall>b. (b \<longrightarrow> gc_pending c \<noteq> []) \<longrightarrow> fold opened (events_of acts) b \<longrightarrow> gc_pending c' \<noteq> []))"

lemma tracks_refl [simp]: "tracks c [] c"
  by (simp add: tracks_def)

lemma tracks_append:
  assumes "tracks c xs c1" "tracks c1 ys c2"
  shows "tracks c (xs @ ys) c2"
proof -
  have tts: "tts_client c1 = tts_client c" using assms(1) by (simp add: tracks_def tts_client_def)
  show ?thesis
  proof (cases "tts_client c \<and> Live_interrupted \<notin> set (events_of (xs @ ys))")
    case True
    with tts have "tts_client c1" "Live_interrupted \<notin> set (events_of xs)" "Live_interrupted \<notin> set (events_of ys)" by simp_all
    with True assms have
      1: "inked (concat (utterances (events_of xs))) @ inked (gc_pending c1) = inked (gc_pending c) @ inked (fragments (events_of xs))"
        "\<forall>b. (b \<longrightarrow> gc_pending c \<noteq> []) \<longrightarrow> fold opened (events_of xs) b \<longrightarrow> gc_pending c1 \<noteq> []" and
      2: "inked (concat (utterances (events_of ys))) @ inked (gc_pending c2) = inked (gc_pending c1) @ inked (fragments (events_of ys))"
        "\<forall>b. (b \<longrightarrow> gc_pending c1 \<noteq> []) \<longrightarrow> fold opened (events_of ys) b \<longrightarrow> gc_pending c2 \<noteq> []"
      by (simp_all add: tracks_def)
    have "inked (concat (utterances (events_of (xs @ ys)))) @ inked (gc_pending c2)
        = inked (gc_pending c) @ inked (fragments (events_of (xs @ ys)))"
      using 1(1) 2(1) by (simp flip: append_assoc) (simp add: 2(1))
    moreover have "\<forall>b. (b \<longrightarrow> gc_pending c \<noteq> []) \<longrightarrow> fold opened (events_of (xs @ ys)) b \<longrightarrow> gc_pending c2 \<noteq> []"
      unfolding event_lists fold_append comp_def using 1(2) 2(2) by blast
    ultimately show ?thesis using assms by (auto simp: tracks_def)
  next
    case False
    with assms show ?thesis by (auto simp: tracks_def)
  qed
qed

lemma tracks_and_then:
  assumes "and_then r f = (acts, c', e)" "\<And>xs c1 e1. r = (xs, c1, e1) \<Longrightarrow> tracks c xs c1"
    and "\<And>c1 ys c2 e2. f c1 = (ys, c2, e2) \<Longrightarrow> tracks c1 ys c2"
  shows "tracks c acts c'"
proof -
  obtain xs c1 e1 where r: "r = (xs, c1, e1)" by (cases r)
  obtain ys c2 e2 where f: "f c1 = (ys, c2, e2)" by (cases "f c1")
  show ?thesis
  proof (cases e1)
    case True
    with assms(1,2) r show ?thesis by (auto simp: and_then_def)
  next
    case False
    with assms(1) r f have "acts = xs @ ys" "c' = c2" by (auto simp: and_then_def)
    with assms(2) [OF r] assms(3) [OF f] show ?thesis by (simp add: tracks_append)
  qed
qed

lemma tracks_for_each:
  assumes "\<And>x c acts c' e. f x c = (acts, c', e) \<Longrightarrow> tracks c acts c'"
  shows "for_each f xs c = (acts, c', e) \<Longrightarrow> tracks c acts c'"
proof (induction xs arbitrary: c acts c' e)
  case (Cons x xs)
  from Cons.prems have "and_then (f x c) (for_each f xs) = (acts, c', e)" by simp
  then show ?case by (rule tracks_and_then) (use assms Cons.IH in blast)+
qed simp

text \<open>An act that says nothing.\<close>

lemma tracks_silent:
  "tracks c [Act_send j] c" "tracks c [Act_event (Live_audio pcm)] c" "tracks c [Act_event (Live_tool_call n)] c"
  "tracks c [Act_event Live_interrupted] (c\<lparr>gc_pending := []\<rparr>)"
  by (simp_all add: tracks_def)

lemma on_part_tracks: "on_part ok p c = (acts, c', e) \<Longrightarrow> tracks c acts c'"
  by (auto simp: on_part_def emit_def tracks_silent split: server_part.splits json.splits option.splits if_splits)
     (simp_all add: tracks_def tts_client_def)

lemma on_transcription_tracks: "on_transcription ok sc c = (acts, c', e) \<Longrightarrow> tracks c acts c'"
  by (auto simp: on_transcription_def Let_def emit_def split: json.splits option.splits if_splits)
     (auto simp: tracks_def tts_client_def)

lemma strip_empty: "strip s = [] \<Longrightarrow> inked s = []"
  by (metis inked_strip filter.simps(1))

lemma on_turn_end_tracks:
  assumes ok: "\<forall>ev. ok (Act_event ev)" and "on_turn_end ok c = (acts, c', e)"
  shows "tracks c acts c'"
  using assms(2) by (auto simp: on_turn_end_def and_then_def emit_def ok tracks_def tts_client_def inked_strip strip_empty Let_def split: if_splits)

lemma on_server_content_tracks:
  assumes ok: "\<forall>ev. ok (Act_event ev)" and "on_server_content ok sc c = (acts, c', e)"
  shows "tracks c acts c'"
proof (rule tracks_and_then [OF assms(2) [unfolded on_server_content_def]])
  show "on_transcription ok sc c = (xs, c1, e1) \<Longrightarrow> tracks c xs c1" for xs c1 e1 by (rule on_transcription_tracks)
next
  fix c1 ys c2 e2
  assume run: "(case model_turn_of sc of
         None \<Rightarrow> ([], c1, True)
       | Some ps \<Rightarrow>
           if jtruthy (get_or (JBool False) sc ''interrupted'')
           then emit ok (Act_event Live_interrupted) (c1\<lparr>gc_pending := []\<rparr>)
           else and_then (for_each (on_part ok) ps c1) (\<lambda>c.
                  if jtruthy (get_or (JBool False) sc ''turnComplete'') then on_turn_end ok c else ([], c, False))) = (ys, c2, e2)"
  show "tracks c1 ys c2"
  proof (cases "model_turn_of sc")
    case None
    with run show ?thesis by simp
  next
    case (Some ps)
    show ?thesis
    proof (cases "jtruthy (get_or (JBool False) sc ''interrupted'')")
      case True
      with run Some show ?thesis by (auto simp: emit_def tracks_silent)
    next
      case False
      with run Some have "and_then (for_each (on_part ok) ps c1) (\<lambda>c.
          if jtruthy (get_or (JBool False) sc ''turnComplete'') then on_turn_end ok c else ([], c, False)) = (ys, c2, e2)" by simp
      then show ?thesis
        by (rule tracks_and_then)
           (auto intro: tracks_for_each [OF on_part_tracks] on_turn_end_tracks [OF ok] split: if_splits)
    qed
  qed
qed

lemma on_function_call_tracks: "on_function_call ok fc c = (acts, c', e) \<Longrightarrow> tracks c acts c'"
proof (cases fc)
  case (JObj d)
  assume "on_function_call ok fc c = (acts, c', e)"
  then show ?thesis
    unfolding on_function_call_def JObj json.case Let_def
    by (rule tracks_and_then) (auto simp: emit_def tracks_silent split: json.splits if_splits)
qed (auto simp: on_function_call_def)

lemma dispatch_tracks:
  assumes ok: "\<forall>ev. ok (Act_event ev)" and "dispatch ok m c = (acts, c', e)"
  shows "tracks c acts c'"
proof -
  have done_only: "tracks c [] (c\<lparr>gc_setup_done := True\<rparr>)" by (simp add: tracks_def)
  show ?thesis
    using assms(2) unfolding dispatch_def Let_def
    by (auto simp: done_only intro: on_server_content_tracks [OF ok] tracks_for_each [OF on_function_call_tracks]
        split: if_splits option.splits json.splits)
qed

lemma receive_tracks:
  "\<forall>ev. ok (Act_event ev) \<Longrightarrow> receive ok ms c = (acts, c') \<Longrightarrow> tracks c acts c'"
proof (induction ok ms c arbitrary: acts c' rule: receive.induct)
  case (3 ok m ms c)
  obtain xs c1 e1 where m: "dispatch ok m c = (xs, c1, e1)" by (cases "dispatch ok m c")
  obtain ys c2 where ms: "receive ok ms c1 = (ys, c2)" by fastforce
  from "3.prems" m ms have "acts = xs @ ys" "c' = c2" by simp_all
  moreover have "tracks c1 ys c2" using "3.IH" [OF m [symmetric] refl refl "3.prems"(1)] ms by blast
  ultimately show ?case using tracks_append [OF dispatch_tracks [OF "3.prems"(1) m]] by simp
qed simp_all

subsection \<open>The session\<close>

text \<open>What a session makes of the model's callbacks, as long as it is not interrupted.\<close>

definition echoes :: "live_session \<Rightarrow> live_event list \<Rightarrow> live_session \<Rightarrow> bool" where
  "echoes s es s' \<longleftrightarrow>
     (\<exists>J b b'. ds_tts_buffer s = Some b \<and> ds_tts_buffer s' = Some b'
        \<and> ds_tts_jobs s' = ds_tts_jobs s @ map (\<lambda>t. new_tts_job t None) J
        \<and> ds_transcripts s' = ds_transcripts s @ map (Pair ''assistant'') (utterances es)
        \<and> inked (concat J) @ inked b' = inked b @ inked (fragments es)
        \<and> (b' \<noteq> [] \<longrightarrow> fold opened es (b \<noteq> [])))"

lemma opened_mono: "(a \<longrightarrow> b) \<Longrightarrow> fold opened es a \<Longrightarrow> fold opened es b"
proof (induction es arbitrary: a b)
  case (Cons e es)
  have "opened e a \<longrightarrow> opened e b" using Cons.prems(1) by (cases e) auto
  with Cons.IH Cons.prems(2) show ?case by simp
qed simp

lemma echoes_append:
  assumes "echoes s es s1" "echoes s1 es' s2"
  shows "echoes s (es @ es') s2"
proof -
  from assms(1) obtain J b b1 where 1: "ds_tts_buffer s = Some b" "ds_tts_buffer s1 = Some b1"
    "ds_tts_jobs s1 = ds_tts_jobs s @ map (\<lambda>t. new_tts_job t None) J"
    "ds_transcripts s1 = ds_transcripts s @ map (Pair ''assistant'') (utterances es)"
    "inked (concat J) @ inked b1 = inked b @ inked (fragments es)" "b1 \<noteq> [] \<longrightarrow> fold opened es (b \<noteq> [])"
    by (auto simp: echoes_def)
  from assms(2) 1(2) obtain J' b' where 2: "ds_tts_buffer s2 = Some b'"
    "ds_tts_jobs s2 = ds_tts_jobs s1 @ map (\<lambda>t. new_tts_job t None) J'"
    "ds_transcripts s2 = ds_transcripts s1 @ map (Pair ''assistant'') (utterances es')"
    "inked (concat J') @ inked b' = inked b1 @ inked (fragments es')" "b' \<noteq> [] \<longrightarrow> fold opened es' (b1 \<noteq> [])"
    by (auto simp: echoes_def)
  have "inked (concat (J @ J')) @ inked b' = inked b @ inked (fragments (es @ es'))"
  proof -
    have "inked (concat (J @ J')) @ inked b' = inked (concat J) @ (inked (concat J') @ inked b')" by simp
    also have "\<dots> = (inked (concat J) @ inked b1) @ inked (fragments es')" unfolding 2(4) by simp
    finally show ?thesis unfolding 1(5) by simp
  qed
  moreover have "b' \<noteq> [] \<longrightarrow> fold opened (es @ es') (b \<noteq> [])"
    using 2(5) opened_mono [OF 1(6), of es'] by simp
  ultimately show ?thesis
    unfolding echoes_def using 1(1,3,4) 2(1,2,3) by (intro exI [of _ "J @ J'"] exI [of _ b] exI [of _ b']) simp
qed

lemma dispatch_sentences:
  "ds_tts_jobs (fold (\<lambda>sentence. tts_dispatch sentence None) ss s) = ds_tts_jobs s @ map (\<lambda>t. new_tts_job t None) ss"
  "ds_tts_buffer (fold (\<lambda>sentence. tts_dispatch sentence None) ss s) = ds_tts_buffer s"
  "ds_transcripts (fold (\<lambda>sentence. tts_dispatch sentence None) ss s) = ds_transcripts s"
  by (induction ss arbitrary: s) (simp_all add: tts_dispatch_def)

lemma text_fields [simp]:
  "ds_tts_jobs (on_metrics f s) = ds_tts_jobs s" "ds_tts_buffer (on_metrics f s) = ds_tts_buffer s"
  "ds_transcripts (on_metrics f s) = ds_transcripts s"
  "ds_tts_jobs (enqueue_audio_out p pcm s) = ds_tts_jobs s" "ds_tts_buffer (enqueue_audio_out p pcm s) = ds_tts_buffer s"
  "ds_transcripts (enqueue_audio_out p pcm s) = ds_transcripts s"
  by (simp_all add: on_metrics_def enqueue_audio_out_def Let_def split: prod.splits)

lemma audio_text_fields [simp]:
  "ds_tts_jobs (snd (on_audio rs pcm s)) = ds_tts_jobs s" "ds_tts_buffer (snd (on_audio rs pcm s)) = ds_tts_buffer s"
  "ds_transcripts (snd (on_audio rs pcm s)) = ds_transcripts s"
  by (simp_all add: on_audio_def Let_def split: sum.split)

lemma push_empties: "snd (tts_buffer_push f final b) \<noteq> [] \<Longrightarrow> \<not> final \<and> (b \<noteq> [] \<or> f \<noteq> [])"
  by (auto simp: tts_buffer_push_def Let_def try_flush.simps [of "[]"] split: if_splits)

lemma echoes_event:
  assumes "ds_tts_buffer s = Some b" "from_model e" "e \<noteq> Live_interrupted"
  shows "echoes s [e] (fst (handle_live cfg mf e s))"
proof (cases e)
  case (Live_fragment role f final)
  obtain ss b' where push: "tts_buffer_push f final b = (ss, b')" by fastforce
  let ?s = "if f \<noteq> [] then on_metrics answer_began s else s"
  have h: "fst (handle_live cfg mf e s) = fold (\<lambda>sentence. tts_dispatch sentence None) ss (?s\<lparr>ds_tts_buffer := Some b'\<rparr>)"
    using assms Live_fragment push by (simp add: on_text_fragment_def Let_def)
  have "concat (map inked ss) @ inked b' = inked b @ inked f"
    using tts_buffer_push_text [of f final b] by (simp add: push)
  moreover have "b' \<noteq> [] \<longrightarrow> \<not> final \<and> (b \<noteq> [] \<or> f \<noteq> [])" using push_empties [of f final b] by (simp add: push)
  ultimately show ?thesis
    unfolding echoes_def h using assms(1)
    by (intro exI [of _ ss] exI [of _ b] exI [of _ b']) (auto simp: dispatch_sentences Live_fragment filter_concat)
qed (use assms in \<open>auto simp: echoes_def on_text_def Let_def on_turn_complete_def\<close>)

lemma echoes_events:
  "ds_tts_buffer s = Some b \<Longrightarrow> \<forall>e\<in>set es. from_model e \<Longrightarrow> Live_interrupted \<notin> set es \<Longrightarrow> echoes s es (hear cfg mf es s)"
proof (induction es arbitrary: s b)
  case Nil
  then show ?case by (simp add: hear_def echoes_def)
next
  case (Cons e es)
  let ?s = "fst (handle_live cfg mf e s)"
  have e: "echoes s [e] ?s" using Cons.prems by (intro echoes_event) auto
  then obtain b' where "ds_tts_buffer ?s = Some b'" by (auto simp: echoes_def)
  then have "echoes ?s es (hear cfg mf es ?s)" using Cons.prems by (intro Cons.IH) auto
  with e have "echoes s ([e] @ es) (hear cfg mf es ?s)" by (rule echoes_append)
  then show ?case by (simp add: hear_def)
qed

text \<open>
  C37. What the caller hears is what the transcript says. On the TTS path, whatever JSON the model sends,
  in fragments, in whole turns or malformed, and as long as it does not signal an interruption: the
  sentences given to the speech provider and what is left in the sentence buffer make up, apart from white
  space, the utterances recorded in the transcript and the transcription still pending. When nothing is
  pending (after each complete turn) the buffer is empty: all that was recorded was spoken, in order, and
  nothing else.
\<close>

theorem spoken_is_recorded:
  assumes "gg_transcription (gc_config c)" "gg_fragments (gc_config c)" "gc_pending c = []"
    and "\<forall>ev. ok (Act_event ev)" "ds_tts_buffer s = Some []"
    and "receive ok ms c = (acts, c')" "Act_event Live_interrupted \<notin> set acts"
  shows "\<exists>J T b. let s' = hear cfg mf (events_of acts) s in
     ds_tts_jobs s' = ds_tts_jobs s @ map (\<lambda>t. new_tts_job t None) J
     \<and> ds_transcripts s' = ds_transcripts s @ map (Pair ''assistant'') T
     \<and> ds_tts_buffer s' = Some b
     \<and> inked (concat J) @ inked b = inked (concat T) @ inked (gc_pending c')
     \<and> (b = [] \<or> gc_pending c' \<noteq> [])"
proof -
  let ?es = "events_of acts"
  have quiet: "Live_interrupted \<notin> set ?es"
    using assms(7) by (auto simp: events_of_def List.map_filter_def split: client_act.splits)
  have t: "tracks c acts c'" by (rule receive_tracks [OF assms(4,6)])
  with quiet assms(1-3) have client: "inked (concat (utterances ?es)) @ inked (gc_pending c') = inked (fragments ?es)"
    "fold opened ?es False \<longrightarrow> gc_pending c' \<noteq> []" "\<forall>e\<in>set ?es. from_model e"
    by (auto simp: tracks_def tts_client_def)
  from echoes_events [OF assms(5) client(3) quiet, of cfg mf] obtain J b where
    "ds_tts_buffer (hear cfg mf ?es s) = Some b"
    "ds_tts_jobs (hear cfg mf ?es s) = ds_tts_jobs s @ map (\<lambda>t. new_tts_job t None) J"
    "ds_transcripts (hear cfg mf ?es s) = ds_transcripts s @ map (Pair ''assistant'') (utterances ?es)"
    "inked (concat J) @ inked b = inked (fragments ?es)" "b \<noteq> [] \<longrightarrow> fold opened ?es False"
    using assms(5) by (auto simp: echoes_def)
  with client(1,2) show ?thesis
    by (intro exI [of _ J] exI [of _ "utterances ?es"] exI [of _ b]) (auto simp: Let_def)
qed

definition demo_gemini_config :: gemini_config where
  "demo_gemini_config = \<lparr>gg_default_model = ''live'', gg_model_id = None, gg_voice_name = None, gg_language_code = ''ru-RU'',
     gg_audio_input = True, gg_audio_output = False, gg_transcription = True, gg_fragments = True\<rparr>"

definition content_message :: "(string \<times> json) list \<Rightarrow> json option" where
  "content_message d = Some (JObj [(''serverContent'', JObj d)])"

definition demo_turn :: "json option list" where
  "demo_turn =
     [content_message [(''outputTranscription'', JObj [(''text'', JStr ''Good afternoon. How '')])],
      None,
      content_message [(''outputTranscription'', JNull)],
      content_message [(''outputTranscription'', JObj [(''text'', JStr ''are you?'')]), (''turnComplete'', JBool True)]]"

definition demo_tts_session :: live_session where
  "demo_tts_session = the (session_at (live_session_id 7) demo_live_world)"

lemma demo_turn_heard:
  "let s = hear demo_live_settings demo_media_fun
         (events_of (fst (receive (\<lambda>a. True) demo_turn (new_client demo_gemini_config)))) demo_tts_session
   in map tj_text (ds_tts_jobs s) = [''Zdravstvuyte!'', ''Good afternoon.'', ''How are you?'']
     \<and> map snd (ds_transcripts s) = [''hello'', ''Good afternoon. How are you?'']"
  by code_simp

lemma demo_turn_quiet:
  "Act_event Live_interrupted \<notin> set (fst (receive (\<lambda>a. True) demo_turn (new_client demo_gemini_config)))"
proof -
  have "list_all (\<lambda>a. case a of Act_event Live_interrupted \<Rightarrow> False | _ \<Rightarrow> True)
    (fst (receive (\<lambda>a. True) demo_turn (new_client demo_gemini_config)))" by code_simp
  then show ?thesis by (auto simp: list_all_iff)
qed

lemma demo_tts_buffer: "ds_tts_buffer demo_tts_session = Some []"
  by code_simp

theorem spoken_is_recorded_witness:
  "\<exists>J T b. let s' = hear demo_live_settings demo_media_fun
         (events_of (fst (receive (\<lambda>a. True) demo_turn (new_client demo_gemini_config)))) demo_tts_session in
     ds_tts_jobs s' = ds_tts_jobs demo_tts_session @ map (\<lambda>t. new_tts_job t None) J
     \<and> ds_transcripts s' = ds_transcripts demo_tts_session @ map (Pair ''assistant'') T
     \<and> ds_tts_buffer s' = Some b
     \<and> inked (concat J) @ inked b
         = inked (concat T) @ inked (gc_pending (snd (receive (\<lambda>a. True) demo_turn (new_client demo_gemini_config))))
     \<and> (b = [] \<or> gc_pending (snd (receive (\<lambda>a. True) demo_turn (new_client demo_gemini_config))) \<noteq> [])"
  by (rule spoken_is_recorded [where c = "new_client demo_gemini_config" and ok = "\<lambda>a. True" and ms = demo_turn])
     (simp_all add: new_client_def demo_gemini_config_def demo_turn_quiet [unfolded new_client_def demo_gemini_config_def] demo_tts_buffer)

section \<open>Audio crosses intact\<close>






text \<open>
  An error that the model answers to the setup counts as the end of the setup: the error is only logged, and
  the connection is reported as established.
\<close>

theorem refused_setup_connects:
  "fst (connect_client (\<lambda>a. True) (Inr ()) ''prompt''
      [Some (JObj [(''error'', JObj [(''code'', JNum 400), (''message'', JStr ''bad setup'')])])] (new_client demo_gemini_config)) = Inr ()"
  by code_simp

end
