(* ===== verification/DirectEngine.thy ===== *)
theory DirectEngine
  imports SessionManager AgentProfiles
begin

text \<open>
  \<open>DirectGeminiEngine\<close> of \<open>app/integrations/direct/engine.py\<close>: the call engine that \<open>CallService\<close> uses for
  direct calls, over the session manager. Placing a call loads the agent profile with its line and its
  knowledge, works out the prompt, the voice strategy and the telephony context, and opens a session;
  stopping, steering and the status go to the session of the call (\<open>c_mango_call_id\<close>).

  The profile already attached to the call, the failures of its two reads, the probe of the leg and the
  text of a composite JSON value (\<open>str\<close> of a list or a dictionary) are arguments. The line of the attached
  profile was not loaded with it, so reading it is a lazy load, which may raise (\<open>MissingGreenlet\<close>). The runtime context
  and its telephony entry are objects, as the code that attaches them makes them.

  The lemmas show that a call gets its session or an engine error (or that of the lazy load), that no Mango call leaves over a
  number that is not the allowed one, and that the engine keeps the promise that the call service's
  invariant needs.
\<close>

record direct_launch =
  dl_request :: live_request
  dl_prompt :: "string option"
  dl_voice_name :: "json option"
  dl_language :: json
  dl_caller_id :: "string option"
  dl_metadata :: "(string \<times> json) list option"

type_synonym loaded_profile = "agent_profile \<times> (app_error, telephony_line option) result"

record direct_env =
  de_session_factory :: bool
  de_related :: "loaded_profile option"
  de_fetch_ok :: bool
  de_knowledge_ok :: bool
  de_repr :: "json \<Rightarrow> string"
  de_open :: "direct_launch \<Rightarrow> open_env"
  de_leg_state :: "(app_error, leg_state) result"

text \<open>\<open>str(v or "").strip() or None\<close>.\<close>

definition stripped_text :: "(json \<Rightarrow> string) \<Rightarrow> json option \<Rightarrow> string option" where
  "stripped_text repr v =
     (let s = strip (if ojtruthy v then json_str repr (the v) else [])
      in if s = [] then None else Some s)"

definition context_of :: "call \<Rightarrow> (string \<times> json) list" where
  "context_of call = (case as_dict (c_runtime_context call) of None \<Rightarrow> [] | Some d \<Rightarrow> d)"

text \<open>The profile of the call, read again with its line, and the knowledge bound to it.\<close>

definition load_profile ::
    "direct_env \<Rightarrow> call \<Rightarrow> db \<Rightarrow> loaded_profile option \<times> knowledge_context option" where
  "load_profile env call d =
     (case c_agent_profile_id call of
        None \<Rightarrow> (de_related env, None)
      | Some i \<Rightarrow>
          if \<not> de_fetch_ok env then (de_related env, None)
          else (case get_with_related i d of Some (agent, line) \<Rightarrow> Some (agent, Inr line) | None \<Rightarrow> de_related env,
                if de_knowledge_ok env then Some (build_agent_runtime_knowledge_context (Some i) d) else None))"

definition runtime_agent ::
    "string option \<Rightarrow> loaded_profile option \<Rightarrow> knowledge_context option \<Rightarrow> agent_runtime" where
  "runtime_agent override full knowledge =
     (let ra = build_agent_runtime_configuration (map_option fst full) knowledge
      in case override of None \<Rightarrow> ra | Some v \<Rightarrow> ra\<lparr>ar_voice_strategy := Some v\<rparr>)"

definition set_default :: "string \<Rightarrow> json \<Rightarrow> (string \<times> json) list \<Rightarrow> (string \<times> json) list" where
  "set_default k v d = (if dget d k = None then dset d k v else d)"

definition line_defaults ::
    "call \<Rightarrow> agent_profile \<Rightarrow> telephony_line \<Rightarrow> agent_runtime \<Rightarrow> (string \<times> json) list \<Rightarrow> (string \<times> json) list" where
  "line_defaults call agent line ra =
     set_default ''call_id'' (JStr (uuid_str (c_id call)))
     \<circ> set_default ''telephony_extension'' (opt_str (py_or (ar_telephony_extension ra) (l_extension line)))
     \<circ> set_default ''telephony_line_label'' (JStr (line_label line))
     \<circ> set_default ''telephony_line_phone_number'' (JStr (l_phone_number line))
     \<circ> set_default ''telephony_remote_line_id'' (JStr (l_provider_resource_id line))
     \<circ> set_default ''telephony_line_id'' (JStr (uuid_str (l_id line)))
     \<circ> set_default ''telephony_provider'' (opt_str (py_or (g_telephony_provider agent) (Some (l_provider line))))"

definition blocked_line :: "settings \<Rightarrow> agent_profile \<Rightarrow> telephony_line \<Rightarrow> bool" where
  "blocked_line cfg agent line =
     (lower (strip (the (py_or (g_telephony_provider agent) (Some [])))) = ''mango''
      \<and> \<not> allowed_line_number cfg (l_phone_number line))"

definition telephony_metadata ::
    "settings \<Rightarrow> call \<Rightarrow> loaded_profile option \<Rightarrow> agent_runtime
     \<Rightarrow> (app_error, (string \<times> json) list) result" where
  "telephony_metadata cfg call full ra =
     (let base = (case as_dict (dget (context_of call) ''telephony'') of None \<Rightarrow> [] | Some d \<Rightarrow> d) in
      case full of
        Some (agent, Inl e) \<Rightarrow> Inl e
      | Some (agent, Inr (Some line)) \<Rightarrow>
          if blocked_line cfg agent line
          then Inl (EngineError ''Direct Mango call blocked by single-number policy.'' None (Some (c_id call)))
          else Inr (line_defaults call agent line ra base)
      | _ \<Rightarrow> Inr base)"

definition caller_id ::
    "(json \<Rightarrow> string) \<Rightarrow> call \<Rightarrow> agent_runtime \<Rightarrow> (string \<times> json) list \<Rightarrow> string option" where
  "caller_id repr call ra meta =
     (case stripped_text repr (dget (context_of call) ''telephony_caller_id'') of
        Some s \<Rightarrow> Some s
      | None \<Rightarrow>
          if truthy (ar_telephony_extension ra) then stripped_text repr (Some (opt_str (ar_telephony_extension ra)))
          else stripped_text repr (dget meta ''telephony_extension''))"

definition or_none :: "json option \<Rightarrow> json option" where
  "or_none v = (if ojtruthy v then v else None)"

definition launch_of ::
    "direct_env \<Rightarrow> call \<Rightarrow> agent_runtime \<Rightarrow> (string \<times> json) list \<Rightarrow> direct_launch" where
  "launch_of env call ra meta =
     \<lparr>dl_request = \<lparr>rq_call_id = c_id call, rq_phone = c_phone call, rq_greeting = ar_greeting_text ra,
                    rq_strategy = ar_voice_strategy ra\<rparr>,
      dl_prompt = (if ar_system_prompt ra = [] then None else Some (ar_system_prompt ra)),
      dl_voice_name = or_none (dget (ar_config ra) ''gemini_voice_name''),
      dl_language = (case or_none (dget (ar_config ra) ''gemini_language_code'') of None \<Rightarrow> JStr ''ru-RU'' | Some v \<Rightarrow> v),
      dl_caller_id = caller_id (de_repr env) call ra meta,
      dl_metadata = (if meta = [] then None else Some meta)\<rparr>"

text \<open>\<open>sorted\<close> on texts.\<close>

fun text_le :: "string \<Rightarrow> string \<Rightarrow> bool" where
  "text_le [] t = True"
| "text_le (c # s) [] = False"
| "text_le (c # s) (e # t) = ((of_char c :: nat) < of_char e \<or> c = e \<and> text_le s t)"

fun insert_text :: "string \<Rightarrow> string list \<Rightarrow> string list" where
  "insert_text s [] = [s]"
| "insert_text s (t # ts) = (if text_le s t then s # t # ts else t # insert_text s ts)"

definition sorted_texts :: "string list \<Rightarrow> string list" where
  "sorted_texts ss = foldr insert_text ss []"

fun path_name :: "voice_path \<Rightarrow> string" where
  "path_name Path_disabled = ''disabled''"
| "path_name Path_gemini_native = ''gemini_native''"
| "path_name Path_tts_primary = ''tts_primary''"
| "path_name Path_tts_fallback = ''tts_fallback''"

definition result_metadata :: "string \<Rightarrow> agent_runtime \<Rightarrow> live_session \<Rightarrow> (string \<times> json) list" where
  "result_metadata sid ra s =
     (let caps = ds_capabilities s; def = vs_definition (ds_voice s) in
      [(''engine'', JStr ''direct_gemini''), (''session_id'', JStr sid),
       (''agent_profile_id'', opt_str (map_option uuid_str (ar_agent_id ra))), (''agent_profile_name'', JStr (ar_name ra)),
       (''agent_profile_version'', (case ar_version ra of None \<Rightarrow> JNull | Some n \<Rightarrow> JNum n)),
       (''session_mode'', JStr (cp_mode caps)), (''audio_in'', JBool (cp_audio_in caps)),
       (''audio_out'', JBool (cp_audio_out caps)), (''real_audio_in'', JBool (cp_real_audio_in caps)),
       (''real_audio_out'', JBool (cp_real_audio_out caps)), (''voice_strategy'', JStr (vd_strategy def)),
       (''primary_voice_path'', JStr (path_name (vd_primary_path def))),
       (''active_voice_path'', JStr (path_name (vs_active_path (ds_voice s)))),
       (''fallback_voice_path'', opt_str (map_option path_name (vd_fallback_path def))),
       (''knowledge_document_count'',
          JNum (case ar_knowledge_context ra of None \<Rightarrow> 0 | Some k \<Rightarrow> int (length (kc_documents k)))),
       (''knowledge_categories'',
          JList (case ar_knowledge_context ra of None \<Rightarrow> [] | Some k \<Rightarrow> map JStr (sorted_texts (map fst (kc_categories k))))),
       (''company_profile_name'',
          (case ar_company_profile ra of None \<Rightarrow> JNull | Some d \<Rightarrow> (case dget d ''name'' of None \<Rightarrow> JNull | Some v \<Rightarrow> v)))])"

text \<open>An engine error is passed on; any other exception of the session manager becomes one.\<close>

definition session_error :: "uuid \<Rightarrow> app_error \<Rightarrow> app_error" where
  "session_error cid e =
     (case e of
        EngineError msg stage i \<Rightarrow> EngineError msg stage i
      | _ \<Rightarrow> EngineError ''Direct call initiation failed'' (Some ''session_create'') (Some cid))"

definition start_session ::
    "settings \<Rightarrow> 's session_store_if \<Rightarrow> direct_env \<Rightarrow> call \<Rightarrow> agent_runtime \<Rightarrow> (string \<times> json) list \<Rightarrow> 's live_world
     \<Rightarrow> (app_error, engine_result) result \<times> 's live_world" where
  "start_session cfg st env call ra meta w =
     (let launch = launch_of env call ra meta in
      case create_live_session cfg st (de_open env launch) (dl_request launch) w of
        (Inl e, w') \<Rightarrow> (Inl (session_error (c_id call) e), w')
      | (Inr sid, w') \<Rightarrow>
          (Inr \<lparr>r_external_id = Some sid, r_initial_status = IN_PROGRESS, r_route_used = ''direct'',
                r_telephony_leg_id = Option.bind (session_at sid w') ds_leg_id,
                r_metadata = map_option (result_metadata sid ra) (session_at sid w')\<rparr>, w'))"

definition direct_initiate ::
    "settings \<Rightarrow> 's session_store_if \<Rightarrow> direct_env \<Rightarrow> call \<Rightarrow> 's live_world
     \<Rightarrow> (app_error, engine_result) result \<times> 's live_world" where
  "direct_initiate cfg st env call w =
     (if \<not> de_session_factory env then (Inl (OtherError ''RuntimeError''), w)
      else (let override = stripped_text (de_repr env) (dget (context_of call) ''voice_strategy_override'');
                (full, knowledge) = load_profile env call (sm_db w);
                ra = runtime_agent override full knowledge
            in case telephony_metadata cfg call full ra of
                 Inl e \<Rightarrow> (Inl e, w)
               | Inr meta \<Rightarrow> start_session cfg st env call ra meta w))"

definition direct_stop :: "'s session_store_if \<Rightarrow> end_env \<Rightarrow> call \<Rightarrow> 's live_world \<Rightarrow> 's live_world" where
  "direct_stop st env call w =
     (if \<not> truthy (c_mango_call_id call) then w
      else terminate_session st env (the (c_mango_call_id call)) (Some STOPPED) (Some ''stop_call'') (Some ''stop requested'') w)"

definition direct_send :: "'s session_store_if \<Rightarrow> time \<Rightarrow> call \<Rightarrow> string \<Rightarrow> 's live_world \<Rightarrow> 's live_world" where
  "direct_send st now call instruction w =
     (if \<not> truthy (c_mango_call_id call) then w
      else inject_live_instruction st now (the (c_mango_call_id call)) instruction w)"

definition direct_status :: "direct_env \<Rightarrow> call \<Rightarrow> 's live_world \<Rightarrow> call_status" where
  "direct_status env call w =
     (if \<not> truthy (c_mango_call_id call) then c_status call
      else case session_at (the (c_mango_call_id call)) w of
        Some s \<Rightarrow> ds_current_status s
      | None \<Rightarrow>
          (case c_telephony_leg_id call of
             Some leg \<Rightarrow>
               if strip leg = [] then c_status call
               else (case de_leg_state env of
                       Inl e \<Rightarrow> c_status call
                     | Inr x \<Rightarrow>
                         if x \<in> {Leg_TERMINATED, Leg_FAILED} then FAILED
                         else if x \<in> {Leg_ANSWERED, Leg_BRIDGED, Leg_RINGING, Leg_INITIATING} then IN_PROGRESS
                         else c_status call)
           | None \<Rightarrow> c_status call))"

text \<open>The engine as \<open>CallService\<close> sees it in a state of the worker.\<close>

definition direct_engine :: "settings \<Rightarrow> 's session_store_if \<Rightarrow> direct_env \<Rightarrow> 's live_world \<Rightarrow> engine_if" where
  "direct_engine cfg st env w =
     \<lparr>en_initiate = (\<lambda>c. fst (direct_initiate cfg st env c w)), en_stop = (\<lambda>c. Inr ()),
      en_instruct = (\<lambda>c i. Inr ()), en_status = (\<lambda>c. Inr (direct_status env c w))\<rparr>"

section \<open>A call gets its session or an engine error\<close>

lemma launch_call_id [simp]: "rq_call_id (dl_request (launch_of env call ra meta)) = c_id call"
  by (simp add: launch_of_def)

lemma start_session_success:
  assumes "start_session cfg st env call ra meta w = (Inr res, w')"
  shows "create_live_session cfg st (de_open env (launch_of env call ra meta)) (dl_request (launch_of env call ra meta)) w
       = (Inr (the (r_external_id res)), w')"
    and "r_external_id res \<noteq> None" "r_initial_status res = IN_PROGRESS" "r_route_used res = ''direct''"
    and "r_telephony_leg_id res = Option.bind (session_at (the (r_external_id res)) w') ds_leg_id"
  using assms by (auto simp: start_session_def Let_def split: prod.splits sum.splits)

lemma session_error_engine: "\<exists>msg stage i. session_error cid e = EngineError msg stage i"
  by (cases e) (auto simp: session_error_def)

lemma create_error_db: "create_live_session cfg st env rq w = (Inl e, w') \<Longrightarrow> sm_db w' = sm_db w"
  by (erule create_cases) auto

lemma create_success:
  assumes "create_live_session cfg st env rq w = (Inr sid, w')"
  obtains s where "sid = live_session_id (rq_call_id rq)" "session_at sid w' = Some s" "ds_call_id s = rq_call_id rq"
    "ds_current_status s = IN_PROGRESS" "oe_connect env = Inr (ds_leg_id s)" "sm_db w' = sm_db w"
  using assms
proof (cases rule: create_cases)
  case (opened leg ctl caps v w1)
  let ?s = "new_live_session rq leg ctl caps v"
  let ?g = "start_initial_greeting cfg ?s"
  have "live_keeps ?s ?g []" by (rule start_greeting_keeps)
  then have g: "ds_call_id ?g = ds_call_id ?s" "ds_leg_id ?g = ds_leg_id ?s"
    unfolding live_keeps_def by blast+
  have status: "ds_current_status ?g = ds_current_status ?s"
    by (auto simp: start_initial_greeting_def tts_dispatch_def Let_def split: option.splits)
  show ?thesis
  proof (rule that)
    show "session_at sid w' = Some ?g"
      using opened(1) unfolding opened(6,7) by (simp add: session_at_def new_live_session_def)
  qed (use opened g status in \<open>auto simp: new_live_session_def\<close>)
qed auto

lemma unread_line:
  assumes "load_profile env call d = (full, knowledge)" "full = Some (agent, Inl e)"
  shows "de_related env = Some (agent, Inl e)
    \<and> (\<forall>i. c_agent_profile_id call = Some i \<longrightarrow> \<not> de_fetch_ok env \<or> get_with_related i d = None)"
  using assms by (auto simp: load_profile_def split: option.splits if_splits)

text \<open>
  C39. A direct call ends up with its session or with an engine error. Once the engine is wired, placing a
  call leaves the database as it was, and it raises an \<open>EngineError\<close>, with one exception: when the profile could
  not be read, the lazy load of the line of the profile attached to the call may raise, and that error passes
  with nothing opened. A call whose agent speaks over a Mango line that is not the allowed number is refused before
  anything is opened. On success the result carries the id of a registered session of this call, in
  progress, with its leg.
\<close>

theorem direct_call_or_engine_error:
  fixes st :: "'s session_store_if"
  assumes "de_session_factory env"
  shows "let (r, w') = direct_initiate cfg st env call w; (full, knowledge) = load_profile env call (sm_db w) in
     sm_db w' = sm_db w
     \<and> (case full of
          Some (agent, Inr (Some line)) \<Rightarrow> blocked_line cfg agent line \<longrightarrow> isl r \<and> w' = w
        | _ \<Rightarrow> True)
     \<and> (case r of
          Inl e \<Rightarrow> (\<exists>msg stage i. e = EngineError msg stage i)
            \<or> (\<exists>agent. de_related env = Some (agent, Inl e)) \<and> w' = w
              \<and> (\<forall>i. c_agent_profile_id call = Some i \<longrightarrow> \<not> de_fetch_ok env \<or> get_with_related i (sm_db w) = None)
        | Inr res \<Rightarrow>
            r_external_id res = Some (live_session_id (c_id call)) \<and> r_initial_status res = IN_PROGRESS
            \<and> r_route_used res = ''direct''
            \<and> (\<exists>s. session_at (live_session_id (c_id call)) w' = Some s \<and> ds_call_id s = c_id call
                 \<and> ds_current_status s = IN_PROGRESS \<and> r_telephony_leg_id res = ds_leg_id s))"
proof -
  obtain full knowledge where f: "load_profile env call (sm_db w) = (full, knowledge)" by fastforce
  define ra where "ra = runtime_agent (stripped_text (de_repr env) (dget (context_of call) ''voice_strategy_override'')) full knowledge"
  obtain r w' where i: "direct_initiate cfg st env call w = (r, w')" by fastforce
  show ?thesis
  proof (cases "telephony_metadata cfg call full ra")
    case (Inl e)
    with i f assms have "r = Inl e" "w' = w" by (simp_all add: direct_initiate_def ra_def)
    moreover have "(\<exists>msg stage i. e = EngineError msg stage i) \<or> (\<exists>agent. full = Some (agent, Inl e))"
      using Inl by (auto simp: telephony_metadata_def Let_def split: option.splits prod.splits sum.splits if_splits)
    then have "(\<exists>msg stage i. e = EngineError msg stage i) \<or> (\<exists>agent. de_related env = Some (agent, Inl e))
        \<and> (\<forall>i. c_agent_profile_id call = Some i \<longrightarrow> \<not> de_fetch_ok env \<or> get_with_related i (sm_db w) = None)"
    proof (elim disjE exE)
      fix agent assume "full = Some (agent, Inl e)"
      from unread_line [OF f this] show ?thesis by auto
    qed simp
    ultimately show ?thesis using i f by (auto split: option.splits sum.splits)
  next
    case (Inr meta)
    have free: "case full of Some (agent, Inr (Some line)) \<Rightarrow> \<not> blocked_line cfg agent line | _ \<Rightarrow> True"
      using Inr by (auto simp: telephony_metadata_def Let_def split: option.splits sum.splits if_splits)
    let ?launch = "launch_of env call ra meta"
    have start: "start_session cfg st env call ra meta w = (r, w')"
      using i f assms Inr by (simp add: direct_initiate_def ra_def)
    obtain q w1 where c: "create_live_session cfg st (de_open env ?launch) (dl_request ?launch) w = (q, w1)" by fastforce
    show ?thesis
    proof (cases q)
      case (Inl e)
      then have "r = Inl (session_error (c_id call) e)" "w' = w1"
        using start c by (simp_all add: start_session_def Let_def)
      then show ?thesis
        using free i f create_error_db c Inl session_error_engine by (auto split: option.splits sum.splits)
    next
      case (Inr sid)
      from c [unfolded Inr] obtain s where s: "sid = live_session_id (rq_call_id (dl_request ?launch))"
        "session_at sid w1 = Some s" "ds_call_id s = rq_call_id (dl_request ?launch)" "ds_current_status s = IN_PROGRESS"
        "sm_db w1 = sm_db w" by (rule create_success)
      moreover have "w' = w1" "r = Inr \<lparr>r_external_id = Some sid, r_initial_status = IN_PROGRESS, r_route_used = ''direct'',
            r_telephony_leg_id = Option.bind (session_at sid w1) ds_leg_id,
            r_metadata = map_option (result_metadata sid ra) (session_at sid w1)\<rparr>"
        using start c Inr by (auto simp: start_session_def Let_def)
      ultimately show ?thesis using free i f by (auto split: option.splits sum.splits)
    qed
  qed
qed

text \<open>The direct engine keeps what the invariant of \<open>CallService\<close> asks of an engine.\<close>

lemma direct_engine_initial:
  "en_initiate (direct_engine cfg st env w) c = Inr res \<Longrightarrow> r_initial_status res \<notin> terminal_statuses"
  by (auto simp: direct_engine_def direct_initiate_def start_session_def Let_def terminal_statuses_def
      split: if_splits prod.splits sum.splits)

text \<open>
  C40. The life of a direct call. When the call service stores the engine's result on the call, the status of
  the call is that of its session, in progress; stopping it takes exactly this session down and makes the
  call STOPPED with its completion time; a second stop does nothing, and from then on the engine answers
  for a call without a leg with the status that is stored.
\<close>

theorem direct_call_lifecycle:
  fixes st :: "'s session_store_if" and ee ee2 :: end_env and call :: call and env :: direct_env
  assumes "direct_initiate cfg st env call w = (Inr res, w1)"
    and "get_call_row (c_id call) (sm_db w) = Some c" "c_status c \<notin> terminal_statuses"
  defines "placed \<equiv> apply_engine_result res call"
  defines "w2 \<equiv> direct_stop st ee placed w1"
  shows "direct_status env placed w1 = IN_PROGRESS
     \<and> sm_sessions w2 = filter (\<lambda>s. ds_session_id s \<noteq> live_session_id (c_id call)) (sm_sessions w1)
     \<and> (\<exists>c'. get_call_row (c_id call) (sm_db w2) = Some c' \<and> c_status c' = STOPPED \<and> c_completed_at c' = Some (ee_now ee))
     \<and> direct_stop st ee2 placed w2 = w2
     \<and> (\<forall>x. c_mango_call_id x = c_mango_call_id placed \<and> c_telephony_leg_id x = None \<longrightarrow> direct_status env x w2 = c_status x)"
proof -
  let ?sid = "live_session_id (c_id call)"
  from assms(1) obtain full knowledge meta where
    start: "start_session cfg st env call (runtime_agent (stripped_text (de_repr env)
       (dget (context_of call) ''voice_strategy_override'')) full knowledge) meta w = (Inr res, w1)"
    by (auto simp: direct_initiate_def Let_def split: if_splits prod.splits sum.splits)
  note res = start_session_success(2-4) [OF start]
  from start_session_success(1) [OF start] obtain s where s: "the (r_external_id res) = ?sid"
    "session_at (the (r_external_id res)) w1 = Some s" "ds_call_id s = c_id call" "ds_current_status s = IN_PROGRESS"
    "sm_db w1 = sm_db w" by (rule create_success) simp_all
  have ext: "r_external_id res = Some ?sid" using res(1) s(1) by (cases "r_external_id res") simp_all
  have placed: "c_mango_call_id placed = Some ?sid" "c_status placed = IN_PROGRESS"
    "c_telephony_leg_id placed = (if truthy (r_telephony_leg_id res) then r_telephony_leg_id res else c_telephony_leg_id call)"
    using res ext by (simp_all add: placed_def apply_engine_result_def Let_def)
  have id: "truthy (Some ?sid)" by (simp add: live_session_id_def)
  have stop: "w2 = terminate_session st ee ?sid (Some STOPPED) (Some ''stop_call'') (Some ''stop requested'') w1"
    using placed(1) id by (simp add: w2_def direct_stop_def)
  have s': "session_at ?sid w1 = Some s" using s(1,2) by simp
  have gone: "session_at ?sid w2 = None"
    unfolding stop session_at_def terminate_fields(1) [OF s'] by (simp add: find_row_without)
  have "\<exists>c'. get_call_row (c_id call) (sm_db w2) = Some c' \<and> c_status c' = STOPPED \<and> c_completed_at c' = Some (ee_now ee)"
    unfolding stop terminate_fields(4) [OF s'] resolved_status_def option.case
    using finalize_call_row [of "ds_call_id s" _ c] assms(2,3) s(3,5) by fastforce
  moreover have "direct_status env placed w1 = IN_PROGRESS"
    using placed(1) id s' s(4) by (simp add: direct_status_def)
  moreover have "sm_sessions w2 = filter (\<lambda>s. ds_session_id s \<noteq> ?sid) (sm_sessions w1)"
    unfolding stop by (rule terminate_fields(1) [OF s'])
  moreover have "direct_stop st ee2 placed w2 = w2"
    using placed(1) id gone by (simp add: direct_stop_def terminate_unknown)
  moreover have "\<forall>x. c_mango_call_id x = c_mango_call_id placed \<and> c_telephony_leg_id x = None \<longrightarrow> direct_status env x w2 = c_status x"
    using placed(1) gone by (simp add: direct_status_def)
  ultimately show ?thesis by blast
qed

section \<open>A direct call\<close>

definition demo_direct_env :: "loaded_profile option \<Rightarrow> direct_env" where
  "demo_direct_env related =
     \<lparr>de_session_factory = True, de_related = related, de_fetch_ok = True, de_knowledge_ok = True, de_repr = (\<lambda>j. []),
      de_open = (\<lambda>l. demo_open_env), de_leg_state = Inr Leg_TERMINATED\<rparr>"

definition demo_new_call :: call where
  "demo_new_call = (session_call 7 ''x'' CREATED)\<lparr>c_mango_call_id := None\<rparr>"

abbreviation demo_initiate :: "(app_error, engine_result) result \<times> memory_store live_world" where
  "demo_initiate \<equiv> direct_initiate demo_live_settings memory_sessions (demo_direct_env None) demo_new_call demo_idle_world"

lemma demo_initiated: "demo_initiate = (Inr (projr (fst demo_initiate)), snd demo_initiate)"
proof -
  have "\<not> isl (fst demo_initiate)" by code_simp
  then show ?thesis by (cases demo_initiate) (auto simp: isl_def split: sum.splits)
qed

theorem direct_call_lifecycle_witness:
  "let (r, w1) = demo_initiate; placed = apply_engine_result (projr r) demo_new_call;
       w2 = direct_stop memory_sessions demo_end_env placed w1
   in direct_status (demo_direct_env None) placed w1 = IN_PROGRESS
     \<and> (\<exists>c'. get_call_row 7 (sm_db w2) = Some c' \<and> c_status c' = STOPPED \<and> c_completed_at c' = Some 5)
     \<and> direct_stop memory_sessions demo_end_env placed w2 = w2"
proof -
  have "get_call_row (c_id demo_new_call) (sm_db demo_idle_world) = Some (session_call 7 ''x'' IN_PROGRESS)"
    "c_status (session_call 7 ''x'' IN_PROGRESS) \<notin> terminal_statuses"
    "c_id demo_new_call = 7" "ee_now demo_end_env = 5"
    by (simp_all add: demo_new_call_def demo_idle_world_def empty_live_world_def get_call_row_def session_call_def
        terminal_statuses_def demo_end_env_def)
  with direct_call_lifecycle [OF demo_initiated, where ee = demo_end_env and ?ee2.0 = demo_end_env]
  show ?thesis by (simp add: Let_def case_prod_beta)
qed

definition demo_foreign_line :: telephony_line where
  "demo_foreign_line = demo_line\<lparr>l_phone_number := ''+79990000000''\<rparr>"

definition demo_mango_agent :: agent_profile where
  "demo_mango_agent = (demo_agent 1 0)\<lparr>g_telephony_provider := Some ''Mango''\<rparr>"

theorem direct_call_or_engine_error_witness:
  "let (r, w') = direct_initiate demo_live_settings memory_sessions
         (demo_direct_env (Some (demo_mango_agent, Inr (Some demo_foreign_line)))) demo_new_call demo_idle_world
   in isl r \<and> w' = demo_idle_world"
proof -
  let ?env = "demo_direct_env (Some (demo_mango_agent, Inr (Some demo_foreign_line)))"
  have "de_session_factory ?env" by (simp add: demo_direct_env_def)
  note outcome = direct_call_or_engine_error [OF this, of demo_live_settings memory_sessions demo_new_call demo_idle_world]
  have "load_profile ?env demo_new_call (sm_db demo_idle_world) = (Some (demo_mango_agent, Inr (Some demo_foreign_line)), None)"
    by (simp add: load_profile_def demo_new_call_def session_call_def demo_direct_env_def)
  moreover have "blocked_line demo_live_settings demo_mango_agent demo_foreign_line" by code_simp
  ultimately show ?thesis using outcome by (auto simp: Let_def)
qed

text \<open>
  A profile that cannot be read is only a warning in the log, but the call of an agent with a line fails all
  the same: its line is loaded lazily, in code that cannot wait for it.
\<close>

theorem unread_profile_fails_call:
  assumes "de_session_factory env" "c_agent_profile_id call = Some i" "\<not> de_fetch_ok env"
    and "de_related env = Some (agent, Inl (OtherError ''MissingGreenlet''))"
  shows "direct_initiate cfg st env call w = (Inl (OtherError ''MissingGreenlet''), w)"
  using assms by (simp add: direct_initiate_def load_profile_def telephony_metadata_def)

end
