(* ===== verification/EslClient.thy ===== *)
theory EslClient
  imports RtpCodec Calls
begin

text \<open>
  The client of the FreeSWITCH event socket, \<open>FreeSwitchEslClient\<close> of
  \<open>app/integrations/media_gateway/esl_client.py\<close>: reading frames from the stream, the handshake, commands
  and subscriptions. The reader of an open connection is the bytes that the peer still sends before it
  closes, so a wait for more bytes is not modelled, nor is the limit on the length of a line. Decoding
  UTF-8 (with replacement) is the argument \<open>dec\<close>; what the lemmas need of it is \<open>ascii_decoder\<close>.

  The lemmas show that a stream of frames is read back frame by frame whatever the bodies hold, and when
  the password is sent.
\<close>

section \<open>Frames\<close>

record esl_frame =
  ef_headers :: "string \<rightharpoonup> string"
  ef_body :: string

text \<open>\<open>readline()\<close>: up to and including the next line feed, or all that is left.\<close>

fun read_line :: "byte list \<Rightarrow> byte list \<times> byte list" where
  "read_line [] = ([], [])"
| "read_line (b # bs) = (if b = 10 then ([b], bs) else (let (line, rest) = read_line bs in (b # line, rest)))"

definition strip_line_end :: "string \<Rightarrow> string" where
  "strip_line_end s = rev (dropWhile (\<lambda>c. c = CHR 0x0D \<or> c = CHR 0x0A) (rev s))"

lemma read_line_append: "fst (read_line bs) @ snd (read_line bs) = bs"
  by (induction bs) (auto simp: case_prod_beta)

lemma read_line_shorter: "read_line bs = (line, rest) \<Longrightarrow> line \<noteq> [] \<Longrightarrow> length rest < length bs"
  using read_line_append [of bs] by (metis append_Nil fst_conv snd_conv length_append less_add_same_cancel2 length_greater_0_conv)

text \<open>The lines up to an empty one or the end of the stream.\<close>

function header_lines :: "(byte list \<Rightarrow> string) \<Rightarrow> byte list \<Rightarrow> string list \<times> byte list" where
  "header_lines dec bs =
     (let (line, rest) = read_line bs in
      if line = [] then ([], rest)
      else if strip_line_end (dec line) = [] then ([], rest)
      else (let (ls, rest') = header_lines dec rest in (strip_line_end (dec line) # ls, rest')))"
  by pat_completeness auto
termination
  by (relation "measure (\<lambda>(dec, bs). length bs)") (auto dest: read_line_shorter [OF sym])

declare header_lines.simps [simp del]

definition read_headers :: "(byte list \<Rightarrow> string) \<Rightarrow> byte list \<Rightarrow> (string \<rightharpoonup> string) \<times> byte list" where
  "read_headers dec bs = (let (ls, rest) = header_lines dec bs in (fold add_header ls Map.empty, rest))"

section \<open>The client\<close>

record esl_client =
  ec_password :: string
  ec_reader :: "byte list option"
  ec_sent :: "string list"

definition new_esl_client :: "string \<Rightarrow> esl_client" where
  "new_esl_client password = \<lparr>ec_password = password, ec_reader = None, ec_sent = []\<rparr>"

definition runtime_error :: "string \<Rightarrow> app_error" where
  "runtime_error msg = OtherError (''RuntimeError: '' @ msg)"

text \<open>The reader and the writer are opened and closed together.\<close>

definition esl_connected :: "esl_client \<Rightarrow> bool" where
  "esl_connected c \<longleftrightarrow> ec_reader c \<noteq> None"

definition esl_close :: "esl_client \<Rightarrow> esl_client" where
  "esl_close c = c\<lparr>ec_reader := None\<rparr>"

definition esl_read_frame :: "(byte list \<Rightarrow> string) \<Rightarrow> esl_client \<Rightarrow> (app_error, esl_frame) result \<times> esl_client" where
  "esl_read_frame dec c =
     (case ec_reader c of
        None \<Rightarrow> (Inl (runtime_error ''ESL not connected''), c)
      | Some bs \<Rightarrow>
          (let (headers, rest) = read_headers dec bs; done = c\<lparr>ec_reader := Some rest\<rparr> in
           if \<not> truthy (headers ''Content-Length'')
           then (Inr \<lparr>ef_headers = headers, ef_body = []\<rparr>, done)
           else case py_int (the (headers ''Content-Length'')) of
             None \<Rightarrow> (Inl (OtherError ''ValueError''), done)
           | Some n \<Rightarrow>
               if n \<le> 0 then (Inr \<lparr>ef_headers = headers, ef_body = []\<rparr>, done)
               else if int (length rest) < n
               then (Inl (OtherError ''IncompleteReadError''), c\<lparr>ec_reader := Some []\<rparr>)
               else (Inr \<lparr>ef_headers = headers, ef_body = dec (take (nat n) rest)\<rparr>,
                     c\<lparr>ec_reader := Some (drop (nat n) rest)\<rparr>)))"

definition send_raw :: "string \<Rightarrow> esl_client \<Rightarrow> (app_error, unit) result \<times> esl_client" where
  "send_raw text c =
     (if ec_reader c = None then (Inl (runtime_error ''ESL not connected''), c)
      else (Inr (), c\<lparr>ec_sent := ec_sent c @ [text]\<rparr>))"

definition two_newlines :: string where
  "two_newlines = [CHR 0x0A, CHR 0x0A]"

definition header_text :: "esl_frame \<Rightarrow> string \<Rightarrow> string" where
  "header_text f k = (case ef_headers f k of None \<Rightarrow> [] | Some v \<Rightarrow> v)"

definition authenticate :: "(byte list \<Rightarrow> string) \<Rightarrow> esl_client \<Rightarrow> (app_error, unit) result \<times> esl_client" where
  "authenticate dec c =
     (case esl_read_frame dec c of
        (Inl e, c1) \<Rightarrow> (Inl e, c1)
      | (Inr greeting, c1) \<Rightarrow>
          if ef_headers greeting ''Content-Type'' \<noteq> Some ''auth/request''
          then (Inl (runtime_error ''Unexpected ESL greeting''), c1)
          else case send_raw (''auth '' @ ec_password c1 @ two_newlines) c1 of
            (Inl e, c2) \<Rightarrow> (Inl e, c2)
          | (Inr _, c2) \<Rightarrow>
              (case esl_read_frame dec c2 of
                 (Inl e, c3) \<Rightarrow> (Inl e, c3)
               | (Inr auth_reply, c3) \<Rightarrow>
                   let reply = header_text auth_reply ''Reply-Text'' in
                   if startswith reply ''+OK'' then (Inr (), c3)
                   else (Inl (runtime_error (''ESL auth failed: '' @ reply)), c3)))"

text \<open>\<open>opened\<close> is the outcome of opening the connection: the bytes of the peer, or the failure.\<close>

definition esl_connect ::
    "(byte list \<Rightarrow> string) \<Rightarrow> (app_error, byte list) result \<Rightarrow> esl_client \<Rightarrow> (app_error, unit) result \<times> esl_client" where
  "esl_connect dec opened c =
     (case opened of
        Inl e \<Rightarrow> (Inl e, c)
      | Inr bs \<Rightarrow> authenticate dec (c\<lparr>ec_reader := Some bs\<rparr>))"

text \<open>A command and its reply: a reply that is there must begin with \<open>+OK\<close>.\<close>

definition ask :: "(byte list \<Rightarrow> string) \<Rightarrow> string \<Rightarrow> string \<Rightarrow> esl_client \<Rightarrow> (app_error, esl_frame) result \<times> esl_client" where
  "ask dec rejected text c =
     (case send_raw text c of
        (Inl e, c1) \<Rightarrow> (Inl e, c1)
      | (Inr _, c1) \<Rightarrow>
          (case esl_read_frame dec c1 of
             (Inl e, c2) \<Rightarrow> (Inl e, c2)
           | (Inr frame, c2) \<Rightarrow>
               let reply = header_text frame ''Reply-Text'' in
               if reply \<noteq> [] \<and> \<not> startswith reply ''+OK'' then (Inl (runtime_error (rejected @ reply)), c2)
               else (Inr frame, c2)))"

definition send_api :: "(byte list \<Rightarrow> string) \<Rightarrow> string \<Rightarrow> bool \<Rightarrow> esl_client \<Rightarrow> (app_error, string) result \<times> esl_client" where
  "send_api dec command background c =
     (case ask dec ''ESL command rejected: ''
             ((if background then ''bgapi'' else ''api'') @ '' '' @ command @ two_newlines) c of
        (Inl e, c1) \<Rightarrow> (Inl e, c1)
      | (Inr frame, c1) \<Rightarrow>
          (Inr (if ef_body frame \<noteq> [] then strip (ef_body frame) else strip (header_text frame ''Reply-Text'')), c1))"

definition send_bgapi_nowait :: "string \<Rightarrow> esl_client \<Rightarrow> (app_error, unit) result \<times> esl_client" where
  "send_bgapi_nowait command c = send_raw (''bgapi '' @ command @ two_newlines) c"

definition subscribe_events :: "(byte list \<Rightarrow> string) \<Rightarrow> string \<Rightarrow> esl_client \<Rightarrow> (app_error, unit) result \<times> esl_client" where
  "subscribe_events dec events c =
     (case ask dec ''ESL event subscribe rejected: '' (''event plain '' @ events @ two_newlines) c of
        (Inl e, c1) \<Rightarrow> (Inl e, c1)
      | (Inr _, c1) \<Rightarrow> (Inr (), c1))"

text \<open>The gateway's ad-hoc command: a connection of its own, closed whatever happens.\<close>

definition execute_via_ephemeral_esl ::
    "(byte list \<Rightarrow> string) \<Rightarrow> string \<Rightarrow> (app_error, byte list) result \<Rightarrow> string \<Rightarrow> bool \<Rightarrow> (app_error, string) result \<times> esl_client" where
  "execute_via_ephemeral_esl dec password opened command background =
     (case esl_connect dec opened (new_esl_client password) of
        (Inl e, c) \<Rightarrow> (Inl e, esl_close c)
      | (Inr _, c) \<Rightarrow> (let (r, c1) = send_api dec command background c in (r, esl_close c1)))"

section \<open>What the peer sends\<close>

text \<open>
  A frame on the wire: its header lines, the length of a nonempty body among them, a blank line and the
  body. Names and values are printable ASCII without spaces at their ends, names without a colon.
\<close>

definition plain_char :: "char \<Rightarrow> bool" where
  "plain_char c \<longleftrightarrow> (let n = (of_char c :: nat) in 32 \<le> n \<and> n < 127)"

definition trimmed :: "string \<Rightarrow> bool" where
  "trimmed s \<longleftrightarrow> (\<forall>c\<in>set s. plain_char c) \<and> strip s = s"

definition ascii_bytes :: "string \<Rightarrow> byte list" where
  "ascii_bytes s = map (\<lambda>c. word_of_nat (of_char c)) s"

definition ascii_decoder :: "(byte list \<Rightarrow> string) \<Rightarrow> bool" where
  "ascii_decoder dec \<longleftrightarrow> (\<forall>bs. (\<forall>b\<in>set bs. b < 128) \<longrightarrow> dec bs = map (\<lambda>b. char_of (unat b)) bs)"

type_synonym wire_frame = "(string \<times> string) list \<times> byte list"

definition header_line :: "string \<times> string \<Rightarrow> string" where
  "header_line kv = fst kv @ '': '' @ snd kv"

definition all_headers :: "wire_frame \<Rightarrow> (string \<times> string) list" where
  "all_headers f = fst f @ (if snd f = [] then [] else [(''Content-Length'', dec_nat (length (snd f)))])"

definition wire :: "wire_frame \<Rightarrow> byte list" where
  "wire f = concat (map (\<lambda>kv. ascii_bytes (header_line kv) @ [10]) (all_headers f)) @ 10 # snd f"

definition wire_ok :: "wire_frame \<Rightarrow> bool" where
  "wire_ok f \<longleftrightarrow> (\<forall>(k, v)\<in>set (fst f). trimmed k \<and> trimmed v \<and> k \<noteq> [] \<and> CHR '':'' \<notin> set k \<and> k \<noteq> ''Content-Length'')"

definition frame_of :: "(byte list \<Rightarrow> string) \<Rightarrow> wire_frame \<Rightarrow> esl_frame" where
  "frame_of dec f = \<lparr>ef_headers = fold (\<lambda>(k, v) m. m(k \<mapsto> v)) (all_headers f) Map.empty,
     ef_body = (if snd f = [] then [] else dec (snd f))\<rparr>"

text \<open>Reading \<open>n\<close> frames in a row.\<close>

fun read_frames :: "(byte list \<Rightarrow> string) \<Rightarrow> nat \<Rightarrow> esl_client \<Rightarrow> (app_error, esl_frame) result list \<times> esl_client" where
  "read_frames dec 0 c = ([], c)"
| "read_frames dec (Suc n) c =
     (let (r, c1) = esl_read_frame dec c; (rs, c2) = read_frames dec n c1 in (r # rs, c2))"

section \<open>A stream is read back\<close>

lemma read_line_upto: "10 \<notin> set xs \<Longrightarrow> read_line (xs @ 10 # rest) = (xs @ [10], rest)"
  by (induction xs) auto

lemma plain_byte:
  assumes "plain_char c"
  shows "(word_of_nat (of_char c) :: byte) < 128" "unat (word_of_nat (of_char c) :: byte) = of_char c"
    "(word_of_nat (of_char c) :: byte) \<noteq> 10"
proof -
  have small: "(of_char c :: nat) < 256" using assms by (simp add: plain_char_def Let_def)
  have "32 \<le> (of_char c :: nat)" "(of_char c :: nat) < 127" using assms by (simp_all add: plain_char_def Let_def)
  moreover show u: "unat (word_of_nat (of_char c) :: byte) = of_char c"
    using small by (simp add: unat_of_nat take_bit_eq_mod)
  ultimately show "(word_of_nat (of_char c) :: byte) < 128" "(word_of_nat (of_char c) :: byte) \<noteq> 10"
    by (auto simp: word_less_nat_alt)
qed

definition plain :: "string \<Rightarrow> bool" where
  "plain s \<longleftrightarrow> (\<forall>c\<in>set s. plain_char c)"

lemma line_feed: "char_of (10 :: nat) = CHR 0x0A"
  by code_simp

lemma decode_line:
  assumes "ascii_decoder dec" "plain s"
  shows "dec (ascii_bytes s @ [10]) = s @ [CHR 0x0A]"
proof -
  have "\<forall>b\<in>set (ascii_bytes s @ [10]). b < 128"
    using assms(2) plain_byte(1) by (auto simp: ascii_bytes_def plain_def)
  then have "dec (ascii_bytes s @ [10]) = map (\<lambda>b. char_of (unat b)) (ascii_bytes s @ [10])"
    using assms(1) by (simp add: ascii_decoder_def)
  also have "map (\<lambda>b. char_of (unat b)) (ascii_bytes s) = s"
    unfolding ascii_bytes_def map_map using assms(2) plain_byte(2) by (intro map_idI) (simp add: plain_def)
  then have "map (\<lambda>b. char_of (unat b)) (ascii_bytes s @ [10]) = s @ [CHR 0x0A]" by (simp add: line_feed)
  finally show ?thesis .
qed

lemma no_line_feed: "plain s \<Longrightarrow> 10 \<notin> set (ascii_bytes s)"
  using plain_byte(3) by (force simp: ascii_bytes_def plain_def)

lemma strip_line_end_plain: "plain s \<Longrightarrow> strip_line_end (s @ [CHR 0x0A]) = s"
proof -
  assume "plain s"
  then have "s = [] \<or> \<not> (hd (rev s) = CHR 0x0D \<or> hd (rev s) = CHR 0x0A)"
    by (cases s rule: rev_cases) (auto simp: plain_def plain_char_def)
  then have "dropWhile (\<lambda>c. c = CHR 0x0D \<or> c = CHR 0x0A) (rev s) = rev s"
    using dropWhile_hd [of "rev s" "\<lambda>c. c = CHR 0x0D \<or> c = CHR 0x0A"] by auto
  then show ?thesis by (simp add: strip_line_end_def)
qed

lemma header_lines_read:
  assumes "ascii_decoder dec" "\<forall>l\<in>set ls. plain l \<and> l \<noteq> []"
  shows "header_lines dec (concat (map (\<lambda>l. ascii_bytes l @ [10]) ls) @ 10 # rest) = (ls, rest)"
  using assms(2)
proof (induction ls)
  case Nil
  have "dec [10] = [CHR 0x0A]" using decode_line [OF assms(1), of "[]"] by (simp add: ascii_bytes_def plain_def)
  then show ?case by (subst header_lines.simps) (simp add: strip_line_end_def)
next
  case (Cons l ls)
  then have l: "plain l" "l \<noteq> []" by auto
  have "read_line (ascii_bytes l @ 10 # concat (map (\<lambda>l. ascii_bytes l @ [10]) ls) @ 10 # rest)
      = (ascii_bytes l @ [10], concat (map (\<lambda>l. ascii_bytes l @ [10]) ls) @ 10 # rest)"
    by (rule read_line_upto) (rule no_line_feed [OF l(1)])
  moreover have "strip_line_end (dec (ascii_bytes l @ [10])) = l"
    using decode_line [OF assms(1) l(1)] strip_line_end_plain [OF l(1)] by simp
  ultimately show ?case using Cons.IH Cons.prems l(2)
    by (subst header_lines.simps) simp
qed

lemma header_of_line:
  assumes "trimmed k" "trimmed v" "k \<noteq> []" "CHR '':'' \<notin> set k"
  shows "header_of (header_line (k, v)) = Some (k, v)" "plain (header_line (k, v))" "header_line (k, v) \<noteq> []"
proof -
  have colon: "\<forall>c\<in>set k. c \<noteq> CHR '':''" using assms(4) by auto
  then have "takeWhile (\<lambda>c. c \<noteq> CHR '':'') (header_line (k, v)) = k"
    "tl (dropWhile (\<lambda>c. c \<noteq> CHR '':'') (header_line (k, v))) = CHR '' '' # v"
    by (simp_all add: header_line_def takeWhile_append dropWhile_append3 dropWhile_append)
  moreover have "strip (CHR '' '' # v) = v"
    using assms(2) by (simp add: trimmed_def strip_def is_space_def)
  ultimately show "header_of (header_line (k, v)) = Some (k, v)"
    using assms(1) by (simp add: header_of_def trimmed_def) (simp add: header_line_def)
  show "plain (header_line (k, v))" using assms(1,2)
    by (auto simp: plain_def trimmed_def header_line_def plain_char_def)
  show "header_line (k, v) \<noteq> []" by (simp add: header_line_def)
qed

text \<open>Decimal numbers are read back.\<close>

lemma digit_char:
  assumes "d < 10"
  shows "(of_char (char_of (48 + d :: nat)) :: nat) = 48 + d" "char_of (48 + d :: nat) \<noteq> CHR ''_''"
    "plain_char (char_of (48 + d :: nat))" "\<not> is_space (char_of (48 + d :: nat))"
proof -
  show v: "(of_char (char_of (48 + d :: nat)) :: nat) = 48 + d" using assms by simp
  show "plain_char (char_of (48 + d :: nat))" using v assms by (simp add: plain_char_def)
  show "\<not> is_space (char_of (48 + d :: nat))" using v assms by (simp add: is_space_def Let_def)
  have "(of_char CHR ''_'' :: nat) = 95" by code_simp
  moreover have "48 + d \<noteq> 95" using assms by simp
  ultimately show "char_of (48 + d :: nat) \<noteq> CHR ''_''" using v by metis
qed

lemma scan10_snoc:
  assumes "scan10 prev acc xs = Some a" "xs \<noteq> []" "d < 10"
  shows "scan10 prev acc (xs @ [char_of (48 + d :: nat)]) = Some (a * 10 + int d)"
  using assms
proof (induction prev acc xs rule: scan10.induct)
  case (1 prev acc)
  then show ?case by simp
next
  case (2 prev acc c s)
  then show ?case
    using digit_char [OF assms(3)]
    by (cases s) (auto simp: Let_def split: if_splits)
qed

lemma scan10_dec: "scan10 True 0 (dec_nat n) = Some (int n) \<and> dec_nat n \<noteq> []
    \<and> (\<forall>c\<in>set (dec_nat n). plain_char c \<and> \<not> is_space c \<and> c \<noteq> CHR ''-'' \<and> c \<noteq> CHR ''+'')"
proof (induction n rule: dec_nat.induct)
  case (1 n)
  have sign: "char_of (48 + d :: nat) \<noteq> CHR ''-'' \<and> char_of (48 + d :: nat) \<noteq> CHR ''+''" if "d < 10" for d
  proof -
    have "(of_char CHR ''-'' :: nat) = 45" by code_simp
    moreover have "(of_char CHR ''+'' :: nat) = 43" by code_simp
    moreover have "48 + d \<noteq> 45" "48 + d \<noteq> 43" by simp_all
    ultimately show ?thesis using digit_char(1) [OF that] by metis
  qed
  show ?case
  proof (cases "n < 10")
    case True
    with digit_char [OF True] sign [OF True] show ?thesis by (simp add: dec_nat.simps [of n])
  next
    case False
    have m: "n mod 10 < 10" by simp
    from 1 [OF False] have "scan10 True 0 (dec_nat (n div 10) @ [char_of (48 + n mod 10)])
        = Some (int (n div 10) * 10 + int (n mod 10))"
      by (intro scan10_snoc) simp_all
    moreover have "int (n div 10) * 10 + int (n mod 10) = int n"
      by (metis div_mult_mod_eq of_nat_add of_nat_mult of_nat_numeral)
    ultimately show ?thesis using 1 [OF False] digit_char [OF m] sign [OF m] False
      by (auto simp: dec_nat.simps [of n])
  qed
qed

lemma py_int_dec: "py_int (dec_nat n) = Some (int n)"
proof -
  from scan10_dec [of n] have "strip (dec_nat n) = dec_nat n" by (intro strip_no_spaces) blast
  moreover from scan10_dec [of n] obtain c r where "dec_nat n = c # r" by (cases "dec_nat n") auto
  ultimately show ?thesis using scan10_dec [of n] by (simp add: py_int_def)
qed

lemma dec_trimmed: "trimmed (dec_nat n)"
  using scan10_dec [of n] by (simp add: trimmed_def strip_no_spaces)

lemma fold_headers:
  assumes "\<forall>(k, v)\<in>set hs. header_of (header_line (k, v)) = Some (k, v)"
  shows "fold add_header (map header_line hs) m = fold (\<lambda>(k, v) m. m(k \<mapsto> v)) hs m"
  using assms by (induction hs arbitrary: m) (auto simp: add_header_def)

lemma fold_other: "k \<notin> fst ` set hs \<Longrightarrow> fold (\<lambda>(k, v) m. m(k \<mapsto> v)) hs m k = m k"
  by (induction hs arbitrary: m) (auto simp: case_prod_beta)

lemma all_headers_ok:
  assumes "wire_ok f" "(k, v) \<in> set (all_headers f)"
  shows "trimmed k \<and> trimmed v \<and> k \<noteq> [] \<and> CHR '':'' \<notin> set k"
proof (cases "(k, v) \<in> set (fst f)")
  case True
  with assms(1) show ?thesis by (auto simp: wire_ok_def)
next
  case False
  with assms(2) have kv: "k = ''Content-Length''" "v = dec_nat (length (snd f))"
    by (auto simp: all_headers_def split: if_splits)
  have "trimmed ''Content-Length''" by code_simp
  with dec_trimmed [of "length (snd f)"] show ?thesis unfolding kv by simp
qed

lemma header_line_ok:
  assumes "wire_ok f" "(k, v) \<in> set (all_headers f)"
  shows "header_of (header_line (k, v)) = Some (k, v)" "plain (header_line (k, v))" "header_line (k, v) \<noteq> []"
  using all_headers_ok [OF assms] header_of_line [of k v] by blast+

lemma wire_read:
  assumes "ascii_decoder dec" "wire_ok f"
  shows "esl_read_frame dec (c\<lparr>ec_reader := Some (wire f @ rest)\<rparr>)
    = (Inr (frame_of dec f), c\<lparr>ec_reader := Some rest\<rparr>)"
proof -
  note ok = header_line_ok [OF assms(2)]
  have lines: "\<forall>l\<in>set (map header_line (all_headers f)). plain l \<and> l \<noteq> []"
    using ok(2,3) by auto
  have bytes: "wire f @ rest = concat (map (\<lambda>l. ascii_bytes l @ [10]) (map header_line (all_headers f))) @ 10 # (snd f @ rest)"
    by (simp add: wire_def comp_def)
  have "fold add_header (map header_line (all_headers f)) Map.empty = ef_headers (frame_of dec f)"
    using ok(1) by (subst fold_headers) (auto simp: frame_of_def)
  then have heads: "read_headers dec (wire f @ rest) = (ef_headers (frame_of dec f), snd f @ rest)"
    unfolding read_headers_def bytes header_lines_read [OF assms(1) lines] by simp
  have len: "ef_headers (frame_of dec f) ''Content-Length''
      = (if snd f = [] then None else Some (dec_nat (length (snd f))))"
  proof -
    have "''Content-Length'' \<notin> fst ` set (fst f)" using assms(2) by (auto simp: wire_ok_def)
    then show ?thesis by (simp add: frame_of_def all_headers_def fold_other)
  qed
  show ?thesis
  proof (cases "snd f = []")
    case True
    with heads len show ?thesis by (simp add: esl_read_frame_def frame_of_def)
  next
    case False
    then have "truthy (ef_headers (frame_of dec f) ''Content-Length'')"
      "py_int (the (ef_headers (frame_of dec f) ''Content-Length'')) = Some (int (length (snd f)))"
      "0 < int (length (snd f))"
      using len scan10_dec py_int_dec by simp_all
    then show ?thesis using heads False
      by (simp add: esl_read_frame_def Let_def) (simp add: frame_of_def)
  qed
qed

text \<open>
  C21. A stream of frames is read back frame by frame. If the peer sends frames in the wire format, each
  with printable headers and a body of arbitrary bytes whose length is announced, then reading as many
  frames gives exactly these, in order, with the decoded bodies, and leaves the bytes that follow
  untouched: a body that holds line feeds or looks like headers does not disturb the framing.
\<close>

theorem frames_read_back:
  assumes "ascii_decoder dec" "\<forall>f\<in>set fs. wire_ok f"
  shows "read_frames dec (length fs) (c\<lparr>ec_reader := Some (concat (map wire fs) @ rest)\<rparr>)
    = (map (\<lambda>f. Inr (frame_of dec f)) fs, c\<lparr>ec_reader := Some rest\<rparr>)"
  using assms(2)
proof (induction fs)
  case (Cons f fs)
  then show ?case using wire_read [OF assms(1), of f "concat (map wire fs) @ rest" c] by simp
qed simp

definition latin_decoder :: "byte list \<Rightarrow> string" where
  "latin_decoder bs = map (\<lambda>b. char_of (unat b)) bs"

theorem frames_read_back_witness:
  "read_frames latin_decoder 2 ((new_esl_client [])\<lparr>ec_reader :=
       Some (wire ([(''Content-Type'', ''text/event-plain'')], [10, 10, 88, 58]) @ wire ([(''Reply-Text'', ''+OK'')], []) @ [65])\<rparr>)
     = ([Inr (frame_of latin_decoder ([(''Content-Type'', ''text/event-plain'')], [10, 10, 88, 58])),
         Inr (frame_of latin_decoder ([(''Reply-Text'', ''+OK'')], []))], (new_esl_client [])\<lparr>ec_reader := Some [65]\<rparr>)"
proof -
  have "ascii_decoder latin_decoder" by (simp add: ascii_decoder_def latin_decoder_def)
  moreover have "wire_ok ([(''Content-Type'', ''text/event-plain'')], [10, 10, 88, 58])" by code_simp
  moreover have "wire_ok ([(''Reply-Text'', ''+OK'')], [])" by code_simp
  ultimately show ?thesis
    using frames_read_back [where dec = latin_decoder and fs = "[([(''Content-Type'', ''text/event-plain'')], [10, 10, 88, 58]),
        ([(''Reply-Text'', ''+OK'')], [])]" and rest = "[65]" and c = "new_esl_client []"] by (simp add: numeral_2_eq_2)
qed

section \<open>The handshake\<close>

text \<open>Reading never sends.\<close>

lemma read_frame_sent [simp]: "ec_sent (snd (esl_read_frame dec c)) = ec_sent c"
  "ec_password (snd (esl_read_frame dec c)) = ec_password c"
  "esl_connected (snd (esl_read_frame dec c)) = esl_connected c"
  by (auto simp: esl_read_frame_def esl_connected_def Let_def case_prod_beta split: option.splits)

text \<open>
  The password is sent to a peer that greeted and to no other, once; the connection counts as
  made exactly when the peer then answered with \<open>+OK\<close>.
\<close>

theorem password_only_after_greeting:
  assumes "esl_connect dec opened c = (r, c')"
  shows "(if \<exists>bs f c1. opened = Inr bs \<and> esl_read_frame dec (c\<lparr>ec_reader := Some bs\<rparr>) = (Inr f, c1)
            \<and> ef_headers f ''Content-Type'' = Some ''auth/request''
      then ec_sent c' = ec_sent c @ [''auth '' @ ec_password c @ two_newlines]
      else \<not> is_ok r \<and> ec_sent c' = ec_sent c)
    \<and> (is_ok r \<longrightarrow> esl_connected c')"
proof (cases opened)
  case (Inl e)
  with assms show ?thesis by (auto simp: esl_connect_def)
next
  case (Inr bs)
  obtain q c1 where q: "esl_read_frame dec (c\<lparr>ec_reader := Some bs\<rparr>) = (q, c1)" by force
  have c1: "ec_sent c1 = ec_sent c" "ec_password c1 = ec_password c" "ec_reader c1 \<noteq> None"
    using read_frame_sent [of dec "c\<lparr>ec_reader := Some bs\<rparr>"] q by (simp_all add: esl_connected_def)
  show ?thesis
  proof (cases "\<exists>f. q = Inr f \<and> ef_headers f ''Content-Type'' = Some ''auth/request''")
    case False
    with assms Inr q c1 show ?thesis
      by (auto simp: esl_connect_def authenticate_def split: sum.splits)
  next
    case True
    then obtain f where f: "q = Inr f" "ef_headers f ''Content-Type'' = Some ''auth/request''" by blast
    define c2 where "c2 = c1\<lparr>ec_sent := ec_sent c1 @ [''auth '' @ ec_password c1 @ two_newlines]\<rparr>"
    obtain a c3 where a: "esl_read_frame dec c2 = (a, c3)" by force
    have "c' = c3"
      using assms Inr q f c1(3) a
      by (auto simp: esl_connect_def authenticate_def send_raw_def c2_def Let_def split: sum.splits if_splits)
    moreover have "ec_sent c3 = ec_sent c2" using read_frame_sent(1) [of dec c2] unfolding a by simp
    moreover have "esl_connected c3"
      using read_frame_sent(3) [of dec c2] c1(3) unfolding a by (simp add: c2_def esl_connected_def)
    ultimately show ?thesis using c1 Inr q f by (auto simp: c2_def)
  qed
qed

text \<open>An ad-hoc command leaves no connection open, whatever its outcome.\<close>

theorem ephemeral_connection_closed:
  "\<not> esl_connected (snd (execute_via_ephemeral_esl dec password opened command background))"
  by (simp add: execute_via_ephemeral_esl_def esl_connected_def esl_close_def case_prod_beta split: sum.split)

section \<open>Behaviours worth knowing\<close>

text \<open>
  A peer that has closed the connection is not noticed: reading then gives an empty frame, without an
  exception, and leaves the client connected as it was, so a reader that goes on after frames of other
  kinds reads empty frames for ever.
\<close>

theorem closed_peer_unnoticed:
  assumes "ec_reader c = Some []"
  shows "esl_read_frame dec c = (Inr \<lparr>ef_headers = Map.empty, ef_body = []\<rparr>, c) \<and> esl_connected c"
  using assms
  by (simp add: esl_read_frame_def read_headers_def header_lines.simps esl_connected_def)

text \<open>A failed handshake leaves the connection open and the client \<open>connected\<close>.\<close>

theorem failed_handshake_stays_connected:
  assumes "esl_connect dec (Inr bs) c = (Inl e, c')"
  shows "esl_connected c'"
proof -
  obtain q c1 where q: "esl_read_frame dec (c\<lparr>ec_reader := Some bs\<rparr>) = (q, c1)" by force
  have c1: "ec_reader c1 \<noteq> None"
    using read_frame_sent(3) [of dec "c\<lparr>ec_reader := Some bs\<rparr>"] q by (simp add: esl_connected_def)
  define c2 where "c2 = c1\<lparr>ec_sent := ec_sent c1 @ [''auth '' @ ec_password c1 @ two_newlines]\<rparr>"
  obtain a c3 where a: "esl_read_frame dec c2 = (a, c3)" by force
  have "esl_connected c3" using read_frame_sent(3) [of dec c2] a c1 by (simp add: c2_def esl_connected_def)
  moreover have "c' = c1 \<or> c' = c3"
    using assms q c1 a
    by (auto simp: esl_connect_def authenticate_def send_raw_def c2_def Let_def split: sum.splits if_splits)
  ultimately show ?thesis using c1 by (auto simp: esl_connected_def)
qed

end
