(* ===== verification/MangoInventory.thy ===== *)
theory MangoInventory
  imports Inbound "HOL-Library.List_Lexorder" "HOL-Library.Char_ord" "HOL-Library.Product_Lexorder"
begin

text \<open>
  The inventory of Mango lines and extensions: what \<open>MangoClient\<close> of
  \<open>app/integrations/telephony/mango_client.py\<close> makes of the answers of the API, with its cache of
  extensions, and \<open>MangoTelephonyService\<close> of \<open>app/services/mango_telephony_service.py\<close>, which mirrors the
  lines in the database and lists the extensions. The HTTP exchange is an argument (\<open>http_reply\<close>), and so
  are the ids of new rows, the collation of the database and the text of lists and objects (\<open>repr\<close>).

  The lemmas show that a synchronisation makes the table mirror the provider's lines, that a failed one
  changes nothing, and that the list of extensions merges the live ones over the stored ones.
\<close>

section \<open>The answers of the API\<close>

text \<open>The outcome of an HTTP request: the transport failed, or a status with a body (decoded, raw).\<close>

datatype http_reply = Request_error string | Response int "json option" string

datatype client_error = Client_error (me_stage: string) (me_http_status: "int option")

record mango_api_config =
  mc_base_url :: string
  mc_api_key :: string
  mc_api_salt :: string

record mango_line =
  ml_provider_resource_id :: string
  ml_phone_number :: string
  ml_schema_name :: "string option"
  ml_display_name :: "string option"
  ml_extension :: "string option"
  ml_is_active :: bool
  ml_is_inbound_enabled :: bool
  ml_is_outbound_enabled :: bool
  ml_raw_payload :: payload

record mango_extension =
  mx_provider_resource_id :: string
  mx_extension :: string
  mx_display_name :: "json option"
  mx_line_provider_resource_id :: "string option"
  mx_line_phone_number :: "string option"
  mx_raw_payload :: payload

definition api_configured :: "mango_api_config \<Rightarrow> bool" where
  "api_configured mc \<longleftrightarrow> mc_api_key mc \<noteq> [] \<and> mc_api_salt mc \<noteq> []"

definition post_json :: "mango_api_config \<Rightarrow> http_reply \<Rightarrow> (client_error, json) result" where
  "post_json mc reply =
     (if \<not> api_configured mc then Inl (Client_error ''configuration'' None)
      else case reply of
        Request_error exc \<Rightarrow> Inl (Client_error ''http_request'' None)
      | Response status body raw \<Rightarrow>
          if 400 \<le> status then Inl (Client_error ''http_response'' (Some status))
          else (case body of
                  None \<Rightarrow> Inl (Client_error ''response_parse'' (Some status))
                | Some data \<Rightarrow> Inr data))"

section \<open>Records in an answer\<close>

definition dicts_in :: "json list \<Rightarrow> payload list" where
  "dicts_in xs = List.map_filter (\<lambda>x. case x of JObj d \<Rightarrow> Some d | _ \<Rightarrow> None) xs"

text \<open>The search without preferred keys: the first list, however deep, that holds an object.\<close>

fun records_in :: "json \<Rightarrow> payload list" and records_of_values :: "payload \<Rightarrow> payload list" where
  "records_in (JList xs) = dicts_in xs"
| "records_in (JObj d) = records_of_values d"
| "records_in JNull = []"
| "records_in (JBool b) = []"
| "records_in (JNum n) = []"
| "records_in (JStr s) = []"
| "records_of_values [] = []"
| "records_of_values ((k, v) # d) = (let r = records_in v in if r \<noteq> [] then r else records_of_values d)"

fun preferred_records :: "payload \<Rightarrow> string list \<Rightarrow> payload list" where
  "preferred_records d [] = records_of_values d"
| "preferred_records d (k # ks) =
     (let r = (case dget d k of None \<Rightarrow> [] | Some v \<Rightarrow> records_in v) in
      if r \<noteq> [] then r else preferred_records d ks)"

definition extract_records :: "string list \<Rightarrow> json \<Rightarrow> payload list" where
  "extract_records preferred v = (case v of JObj d \<Rightarrow> preferred_records d preferred | _ \<Rightarrow> records_in v)"

fun first_json :: "payload \<Rightarrow> string list \<Rightarrow> json option" where
  "first_json d [] = None"
| "first_json d (k # ks) =
     (case dget d k of
        None \<Rightarrow> first_json d ks
      | Some v \<Rightarrow> if v = JNull \<or> v = JStr [] then first_json d ks else Some v)"

definition first_non_empty :: "(json \<Rightarrow> string) \<Rightarrow> payload \<Rightarrow> string list \<Rightarrow> string option" where
  "first_non_empty repr d ks =
     (case first_json d ks of
        None \<Rightarrow> None
      | Some (JStr s) \<Rightarrow> if strip s = [] then None else Some (strip s)
      | Some v \<Rightarrow> Some (json_str repr v))"

definition coerce_bool :: "json option \<Rightarrow> bool \<Rightarrow> bool" where
  "coerce_bool v dflt =
     (case v of
        Some (JBool b) \<Rightarrow> b
      | Some (JNum n) \<Rightarrow> n \<noteq> 0
      | Some (JStr s) \<Rightarrow>
          (let cleaned = lower (strip s) in
           if cleaned \<in> {''1'', ''true'', ''yes'', ''enabled'', ''active''} then True
           else if cleaned \<in> {''0'', ''false'', ''no'', ''disabled'', ''inactive''} then False
           else dflt)
      | _ \<Rightarrow> dflt)"

text \<open>\<open>{**a, **b}\<close>, and a dictionary keyed by \<open>key\<close>: the place of the first, the value of the last.\<close>

definition dmerge :: "payload \<Rightarrow> payload \<Rightarrow> payload" where
  "dmerge a b = fold (\<lambda>(k, v) d. dset d k v) b a"

definition dedup :: "('a \<Rightarrow> 'k) \<Rightarrow> 'a list \<Rightarrow> 'a list" where
  "dedup key xs = fold (upsert key) xs []"

section \<open>Lines\<close>

definition parse_line :: "(json \<Rightarrow> string) \<Rightarrow> payload \<Rightarrow> mango_line option" where
  "parse_line repr record =
     (let text = first_non_empty repr record;
          resource_id = text [''id'', ''line_id'', ''incomingline_id'', ''number_id'', ''line_number_id'',
            ''lineNumberId'', ''numberId''];
          phone = text [''number'', ''phone_number'', ''line_number'', ''incomingline'', ''line'', ''callerid'']
      in if \<not> truthy phone then None
         else (let number = normalize_mango_phone phone in Some
           \<lparr>ml_provider_resource_id = (if truthy resource_id then the resource_id else number),
            ml_phone_number = number,
            ml_schema_name = text [''schema_name'', ''schema'', ''routing_schema_name''],
            ml_display_name = text [''display_name'', ''name'', ''title'', ''label'', ''line_name''],
            ml_extension = text [''extension'', ''internal_number'', ''sip_number''],
            ml_is_active = coerce_bool (dget record ''is_active'') True,
            ml_is_inbound_enabled =
              coerce_bool (first_json record [''is_inbound_enabled'', ''inbound_enabled'', ''can_receive'']) True,
            ml_is_outbound_enabled =
              coerce_bool (first_json record [''is_outbound_enabled'', ''outbound_enabled'', ''can_call_out'']) False,
            ml_raw_payload = record\<rparr>))"

definition deduplicate_lines :: "mango_line list \<Rightarrow> mango_line list" where
  "deduplicate_lines xs = dedup (\<lambda>l. (ml_provider_resource_id l, ml_phone_number l)) xs"

definition client_list_lines ::
    "settings \<Rightarrow> mango_api_config \<Rightarrow> (json \<Rightarrow> string) \<Rightarrow> http_reply \<Rightarrow> (client_error, mango_line list) result" where
  "client_list_lines cfg mc repr reply =
     (case post_json mc reply of
        Inl e \<Rightarrow> Inl e
      | Inr data \<Rightarrow>
          Inr (deduplicate_lines (filter (\<lambda>l. allowed_line_number cfg (ml_phone_number l))
            (List.map_filter (parse_line repr) (extract_records [''incominglines'', ''lines'', ''numbers''] data)))))"

section \<open>Extensions\<close>

definition text_or :: "string option \<Rightarrow> string option \<Rightarrow> string option" where
  "text_or a b = (if truthy a then a else b)"

definition parse_extension :: "(json \<Rightarrow> string) \<Rightarrow> payload \<Rightarrow> mango_extension option" where
  "parse_extension repr record =
     (let sub = (\<lambda>k. case dget record k of Some (JObj d) \<Rightarrow> d | _ \<Rightarrow> []);
          general = sub ''general''; telephony = sub ''telephony''; text = first_non_empty repr;
          ext_keys = [''extension'', ''internal_number'', ''sip_number'', ''short_number'', ''number''];
          id_keys = [''id'', ''user_id'', ''employee_id'']; name_keys = [''name'', ''full_name'', ''fio'', ''title''];
          line_keys = [''line_id'', ''outgoing_line_id'', ''line_number_id''];
          extension = text_or (text telephony ext_keys) (text record ext_keys)
      in if \<not> truthy extension then None
         else Some
           \<lparr>mx_provider_resource_id = the (text_or (text_or (text record id_keys) (text general id_keys)) extension),
            mx_extension = the extension,
            mx_display_name = map_option JStr (text_or (text general name_keys) (text record name_keys)),
            mx_line_provider_resource_id = text_or (text telephony line_keys) (text record line_keys),
            mx_line_phone_number = Some (normalize_mango_phone
              (text_or (text telephony [''outgoingline'', ''outgoing_line'', ''line_number'', ''phone_number''])
                 (text record [''line_number'', ''outgoing_line'', ''phone_number'']))),
            mx_raw_payload = record\<rparr>)"

definition parse_extensions :: "(json \<Rightarrow> string) \<Rightarrow> payload list \<Rightarrow> mango_extension list" where
  "parse_extensions repr records = List.map_filter (parse_extension repr) records"

definition extension_key :: "mango_extension \<Rightarrow> string \<times> string" where
  "extension_key x = (mx_provider_resource_id x, mx_extension x)"

definition deduplicate_extensions :: "mango_extension list \<Rightarrow> mango_extension list" where
  "deduplicate_extensions xs = dedup extension_key xs"

text \<open>The cache is shared by all clients of the process, per endpoint and key.\<close>

type_synonym extension_cache = "string \<times> string \<rightharpoonup> time \<times> mango_extension list"

definition allowed_extensions :: "settings \<Rightarrow> mango_extension list \<Rightarrow> mango_extension list" where
  "allowed_extensions cfg xs =
     filter (\<lambda>x. allowed_line_number cfg (case mx_line_phone_number x of None \<Rightarrow> [] | Some n \<Rightarrow> n)) xs"

text \<open>The cache has an answer of the last thirty seconds: then nothing is asked.\<close>

definition cache_fresh :: "mango_api_config \<Rightarrow> time \<Rightarrow> extension_cache \<Rightarrow> bool" where
  "cache_fresh mc now cache =
     (case cache (mc_base_url mc, mc_api_key mc) of None \<Rightarrow> False | Some (at, _) \<Rightarrow> now - at < seconds 30)"

definition client_list_extensions ::
    "settings \<Rightarrow> mango_api_config \<Rightarrow> (json \<Rightarrow> string) \<Rightarrow> http_reply \<Rightarrow> time \<Rightarrow> extension_cache
     \<Rightarrow> (client_error, mango_extension list) result \<times> extension_cache" where
  "client_list_extensions cfg mc repr reply now cache =
     (let key = (mc_base_url mc, mc_api_key mc); cached = cache key in
      if cache_fresh mc now cache
      then (Inr (allowed_extensions cfg (snd (the cached))), cache)
      else case post_json mc reply of
        Inl e \<Rightarrow>
          (if me_http_status e = Some 429 \<and> cached \<noteq> None
           then (Inr (allowed_extensions cfg (snd (the cached))), cache) else (Inl e, cache))
      | Inr data \<Rightarrow>
          (let xs = allowed_extensions cfg
             (parse_extensions repr (extract_records [''users'', ''employees'', ''extensions''] data))
           in (Inr (deduplicate_extensions xs), cache(key \<mapsto> (now, xs)))))"

section \<open>The service\<close>

record sync_env =
  se_now :: time
  se_new_id :: "mango_line \<Rightarrow> uuid"
  se_collation :: "string \<Rightarrow> nat"

record sync_result =
  sr_items :: "telephony_line list"
  sr_synced_count :: nat
  sr_deactivated_count :: nat
  sr_synced_at :: time

definition mango_not_configured :: app_error where
  "mango_not_configured = OtherError ''mango_not_configured''"

definition mango_sync_failed :: app_error where
  "mango_sync_failed = OtherError ''mango_sync_failed''"

definition mango_api_unavailable :: app_error where
  "mango_api_unavailable = OtherError ''mango_api_unavailable''"

text \<open>Saving a row, with the constraint on the provider and its id for the line.\<close>

definition save_line :: "telephony_line \<Rightarrow> db \<Rightarrow> (app_error, unit) result \<times> db" where
  "save_line l d =
     (if \<exists>x\<in>set (lines_tbl d). l_id x \<noteq> l_id l \<and> l_provider x = l_provider l
           \<and> l_provider_resource_id x = l_provider_resource_id l
      then (Inl (OtherError ''IntegrityError''), d)
      else (Inr (), d\<lparr>lines_tbl := upsert l_id l (lines_tbl d)\<rparr>))"

definition service_list_lines :: "settings \<Rightarrow> (string \<Rightarrow> nat) \<Rightarrow> bool option \<Rightarrow> db \<Rightarrow> telephony_line list" where
  "service_list_lines cfg collation active_only d =
     filter (\<lambda>l. allowed_line_number cfg (l_phone_number l)) (list_lines collation (Some ''mango'') active_only d)"

definition index_extensions :: "(mango_extension \<Rightarrow> string option) \<Rightarrow> mango_extension list \<Rightarrow> (string \<rightharpoonup> mango_extension)" where
  "index_extensions f xs = fold (\<lambda>x m. if truthy (f x) then m(the (f x) \<mapsto> x) else m) xs Map.empty"

definition matched_extension :: "mango_extension list \<Rightarrow> mango_line \<Rightarrow> mango_extension option" where
  "matched_extension exts r =
     (case index_extensions mx_line_provider_resource_id exts (ml_provider_resource_id r) of
        Some x \<Rightarrow> Some x
      | None \<Rightarrow> index_extensions mx_line_phone_number exts (ml_phone_number r))"

definition fresh_line :: "sync_env \<Rightarrow> mango_line \<Rightarrow> telephony_line" where
  "fresh_line env r = \<lparr>l_id = se_new_id env r, l_created_at = se_now env, l_provider = ''mango'',
     l_provider_resource_id = ml_provider_resource_id r, l_phone_number = ml_phone_number r,
     l_schema_name = None, l_display_name = None, l_extension = None, l_is_active = True,
     l_is_inbound_enabled = True, l_is_outbound_enabled = False, l_raw_payload = [], l_synced_at = None\<rparr>"

definition setdefault :: "payload \<Rightarrow> string \<Rightarrow> json \<Rightarrow> payload" where
  "setdefault d k v = (case dget d k of None \<Rightarrow> dset d k v | Some _ \<Rightarrow> d)"

definition synced_payload :: "mango_extension option \<Rightarrow> payload \<Rightarrow> payload \<Rightarrow> payload" where
  "synced_payload x previous raw =
     (case x of
        Some e \<Rightarrow> setdefault raw ''matched_extension'' (JObj (mx_raw_payload e))
      | None \<Rightarrow>
          (case dget previous ''matched_extension'' of
             Some (JObj p) \<Rightarrow> setdefault raw ''matched_extension'' (JObj p)
           | _ \<Rightarrow> raw))"

definition synced_line :: "time \<Rightarrow> mango_extension option \<Rightarrow> mango_line \<Rightarrow> telephony_line \<Rightarrow> telephony_line" where
  "synced_line now x r l =
     (let ext = (if truthy (ml_extension r) then ml_extension r
                 else case x of Some e \<Rightarrow> Some (mx_extension e) | None \<Rightarrow> l_extension l)
      in l\<lparr>l_phone_number := ml_phone_number r,
           l_schema_name := ml_schema_name r,
           l_display_name := py_or (py_or (ml_display_name r) (ml_schema_name r)) (Some (ml_phone_number r)),
           l_extension := ext,
           l_is_active := ml_is_active r,
           l_is_inbound_enabled := ml_is_inbound_enabled r,
           l_is_outbound_enabled := ml_is_outbound_enabled r \<or> x \<noteq> None \<or> truthy ext,
           l_raw_payload := synced_payload x (l_raw_payload l) (ml_raw_payload r),
           l_synced_at := Some now\<rparr>)"

text \<open>
  The object of a line, as the loops see it: the row that was loaded under this id, in its present state.
\<close>

definition loaded_line :: "telephony_line list \<Rightarrow> string \<Rightarrow> db \<Rightarrow> telephony_line option" where
  "loaded_line existing resource_id d =
     (case map_of (rev (map (\<lambda>l. (l_provider_resource_id l, l)) existing)) resource_id of
        None \<Rightarrow> None
      | Some l \<Rightarrow> find_row l_id (l_id l) (lines_tbl d))"

definition line_to_sync :: "sync_env \<Rightarrow> telephony_line list \<Rightarrow> mango_line \<Rightarrow> db \<Rightarrow> telephony_line" where
  "line_to_sync env existing r d =
     (case loaded_line existing (ml_provider_resource_id r) d of Some l \<Rightarrow> l | None \<Rightarrow> fresh_line env r)"

fun sync_remotes ::
    "sync_env \<Rightarrow> mango_extension list \<Rightarrow> telephony_line list \<Rightarrow> mango_line list \<Rightarrow> db \<Rightarrow> (app_error, unit) result \<times> db" where
  "sync_remotes env exts existing [] d = (Inr (), d)"
| "sync_remotes env exts existing (r # rs) d =
     (case save_line (synced_line (se_now env) (matched_extension exts r) r (line_to_sync env existing r d)) d of
        (Inl e, d1) \<Rightarrow> (Inl e, d1)
      | (Inr _, d1) \<Rightarrow> sync_remotes env exts existing rs d1)"

fun deactivate_stale :: "time \<Rightarrow> string set \<Rightarrow> telephony_line list \<Rightarrow> db \<Rightarrow> nat \<times> db" where
  "deactivate_stale now seen [] d = (0, d)"
| "deactivate_stale now seen (l # ls) d =
     (if l_provider_resource_id l \<notin> seen \<and> l_is_active l
      then (let (n, d1) = deactivate_stale now seen ls
              (d\<lparr>lines_tbl := upsert l_id (l\<lparr>l_is_active := False, l_synced_at := Some now\<rparr>) (lines_tbl d)\<rparr>)
            in (Suc n, d1))
      else deactivate_stale now seen ls d)"

definition sync_lines ::
    "settings \<Rightarrow> mango_api_config \<Rightarrow> sync_env \<Rightarrow> (client_error, mango_line list) result
     \<Rightarrow> (client_error, mango_extension list) result \<Rightarrow> db \<Rightarrow> (app_error, sync_result) result \<times> db" where
  "sync_lines cfg mc env lines_answer exts_answer d =
     (if \<not> api_configured mc then (Inl mango_not_configured, d)
      else case lines_answer of
        Inl _ \<Rightarrow> (Inl mango_sync_failed, d)
      | Inr remotes \<Rightarrow>
          (let existing = list_lines (se_collation env) (Some ''mango'') None d;
               exts = (case exts_answer of Inl _ \<Rightarrow> [] | Inr xs \<Rightarrow> xs)
           in if remotes = [] \<and> existing \<noteq> [] then (Inl mango_sync_failed, d)
              else case sync_remotes env exts existing remotes d of
                (Inl e, d1) \<Rightarrow> (Inl e, d1)
              | (Inr _, d1) \<Rightarrow>
                  (let (n, d2) = deactivate_stale (se_now env) (set (map ml_provider_resource_id remotes)) existing d1
                   in (Inr \<lparr>sr_items = service_list_lines cfg (se_collation env) None d2,
                           sr_synced_count = length remotes, sr_deactivated_count = n,
                           sr_synced_at = se_now env\<rparr>, d2))))"

section \<open>The list of extensions\<close>

text \<open>\<open>or\<close> on values of any type: the first truthy one, or the last.\<close>

definition jor :: "json option \<Rightarrow> json option \<Rightarrow> json option" where
  "jor a b = (if ojtruthy a then a else b)"

definition fallback_item :: "(json \<Rightarrow> string) \<Rightarrow> telephony_line \<Rightarrow> mango_extension" where
  "fallback_item repr l =
     (let x = (case dget (l_raw_payload l) ''matched_extension'' of Some (JObj d) \<Rightarrow> Some d | _ \<Rightarrow> None);
          xd = (case x of None \<Rightarrow> [] | Some d \<Rightarrow> d);
          sub = (\<lambda>k. case dget xd k of Some (JObj d) \<Rightarrow> d | _ \<Rightarrow> []);
          extension = strip (case l_extension l of None \<Rightarrow> [] | Some e \<Rightarrow> e);
          line_id = jor (dget (sub ''telephony'') ''line_id'') (dget (sub ''telephony'') ''outgoing_line_id'')
      in \<lparr>mx_provider_resource_id =
            (if x = None then extension
             else json_str repr (the (jor (jor (jor (dget xd ''id'') (dget xd ''user_id'')) (dget xd ''employee_id''))
                    (Some (JStr extension))))),
          mx_extension = extension,
          mx_display_name =
            jor (jor (jor (dget (sub ''general'') ''name'') (dget xd ''name'')) (map_option JStr (l_display_name l)))
              (map_option JStr (l_schema_name l)),
          mx_line_provider_resource_id =
            Some (if ojtruthy line_id then json_str repr (the line_id) else l_provider_resource_id l),
          mx_line_phone_number = Some (l_phone_number l),
          mx_raw_payload = [(''source'', JStr ''cached_inventory_fallback''),
            (''line_provider_resource_id'', JStr (l_provider_resource_id l)),
            (''line_phone_number'', JStr (l_phone_number l))]\<rparr>)"

fun fallback_items :: "settings \<Rightarrow> (json \<Rightarrow> string) \<Rightarrow> string set \<Rightarrow> telephony_line list \<Rightarrow> mango_extension list" where
  "fallback_items cfg repr seen [] = []"
| "fallback_items cfg repr seen (l # ls) =
     (let extension = strip (case l_extension l of None \<Rightarrow> [] | Some e \<Rightarrow> e) in
      if \<not> allowed_line_number cfg (l_phone_number l) \<or> extension = [] \<or> extension \<in> seen
      then fallback_items cfg repr seen ls
      else fallback_item repr l # fallback_items cfg repr (insert extension seen) ls)"

definition fallback_extensions_from_inventory ::
    "settings \<Rightarrow> (string \<Rightarrow> nat) \<Rightarrow> (json \<Rightarrow> string) \<Rightarrow> db \<Rightarrow> mango_extension list" where
  "fallback_extensions_from_inventory cfg collation repr d =
     deduplicate_extensions (fallback_items cfg repr {} (list_lines collation (Some ''mango'') (Some True) d))"

definition merge_extension :: "mango_extension \<Rightarrow> mango_extension \<Rightarrow> mango_extension" where
  "merge_extension live fallback =
     \<lparr>mx_provider_resource_id = (if mx_provider_resource_id live \<noteq> [] then mx_provider_resource_id live
                                else mx_provider_resource_id fallback),
      mx_extension = (if mx_extension live \<noteq> [] then mx_extension live else mx_extension fallback),
      mx_display_name = jor (mx_display_name live) (mx_display_name fallback),
      mx_line_provider_resource_id = py_or (mx_line_provider_resource_id live) (mx_line_provider_resource_id fallback),
      mx_line_phone_number = py_or (mx_line_phone_number live) (mx_line_phone_number fallback),
      mx_raw_payload = dmerge (dmerge [] (mx_raw_payload fallback)) (mx_raw_payload live)\<rparr>"

definition merge_live :: "mango_extension \<Rightarrow> mango_extension list \<Rightarrow> mango_extension list" where
  "merge_live live xs =
     upsert mx_extension
       (case find_row mx_extension (mx_extension live) xs of None \<Rightarrow> live | Some fallback \<Rightarrow> merge_extension live fallback) xs"

definition merge_extension_items :: "mango_extension list \<Rightarrow> mango_extension list \<Rightarrow> mango_extension list" where
  "merge_extension_items live stored =
     sort_key (\<lambda>x. (mx_extension x, mx_provider_resource_id x))
       (fold merge_live live (dedup mx_extension stored))"

definition service_list_extensions ::
    "settings \<Rightarrow> mango_api_config \<Rightarrow> (string \<Rightarrow> nat) \<Rightarrow> (json \<Rightarrow> string) \<Rightarrow> (client_error, mango_extension list) result
     \<Rightarrow> db \<Rightarrow> (app_error, mango_extension list \<times> string) result" where
  "service_list_extensions cfg mc collation repr answer d =
     (if \<not> api_configured mc then Inl mango_not_configured
      else (let fallback = fallback_extensions_from_inventory cfg collation repr d in
        case answer of
          Inr live \<Rightarrow>
            Inr (merge_extension_items live fallback,
                 if live \<noteq> [] then ''mango_api''
                 else if fallback \<noteq> [] then ''cached_inventory_fallback'' else ''mango_api'')
        | Inl _ \<Rightarrow>
            if fallback \<noteq> [] then Inr (fallback, ''cached_inventory_fallback'') else Inl mango_api_unavailable))"

section \<open>A synchronisation mirrors the provider\<close>

lemma set_upsert:
  assumes "distinct (map key xs)"
  shows "set (upsert key n xs) = insert n {x \<in> set xs. key x \<noteq> key n}"
  using assms by (induction xs) (auto simp: image_iff)

lemma set_list_lines [simp]:
  "set (list_lines collation (Some ''mango'') None d) = {l \<in> set (lines_tbl d). l_provider l = ''mango''}"
  by (auto simp: list_lines_def)

definition line_key :: "telephony_line \<Rightarrow> string \<times> string" where
  "line_key l = (l_provider l, l_provider_resource_id l)"

text \<open>The keys of the table: the primary one, and the provider with its id.\<close>

definition lines_unique :: "db \<Rightarrow> bool" where
  "lines_unique d \<longleftrightarrow> distinct (map l_id (lines_tbl d)) \<and> inj_on line_key (set (lines_tbl d))"

text \<open>A row that shows what the provider says of a line.\<close>

definition mirrors :: "mango_extension list \<Rightarrow> time \<Rightarrow> mango_line \<Rightarrow> telephony_line \<Rightarrow> bool" where
  "mirrors exts now r l \<longleftrightarrow> line_key l = (''mango'', ml_provider_resource_id r)
     \<and> l_phone_number l = ml_phone_number r \<and> l_is_active l = ml_is_active r
     \<and> l_is_inbound_enabled l = ml_is_inbound_enabled r \<and> l_is_outbound_enabled l
         = (ml_is_outbound_enabled r \<or> matched_extension exts r \<noteq> None \<or> truthy (l_extension l))
     \<and> l_schema_name l = ml_schema_name r
     \<and> (truthy (ml_extension r) \<longrightarrow> l_extension l = ml_extension r)
     \<and> l_synced_at l = Some now"

text \<open>The extensions that are matched against the lines: none when they could not be listed.\<close>

definition known_extensions :: "(client_error, mango_extension list) result \<Rightarrow> mango_extension list" where
  "known_extensions answer = (case answer of Inl _ \<Rightarrow> [] | Inr xs \<Rightarrow> xs)"

definition sync_progress :: "mango_extension list \<Rightarrow> sync_env \<Rightarrow> db \<Rightarrow> mango_line set \<Rightarrow> db \<Rightarrow> bool" where
  "sync_progress exts env d0 done d \<longleftrightarrow> lines_unique d \<and> d = d0\<lparr>lines_tbl := lines_tbl d\<rparr>
     \<and> (\<forall>x\<in>set (lines_tbl d). if \<exists>r\<in>done. line_key x = (''mango'', ml_provider_resource_id r)
          then \<exists>r\<in>done. mirrors exts (se_now env) r x else x \<in> set (lines_tbl d0))
     \<and> (\<forall>r\<in>done. \<exists>x\<in>set (lines_tbl d). mirrors exts (se_now env) r x)
     \<and> (\<forall>x\<in>set (lines_tbl d0). \<exists>y\<in>set (lines_tbl d). l_id y = l_id x \<and> line_key y = line_key x)
     \<and> l_id ` set (lines_tbl d) \<subseteq> l_id ` set (lines_tbl d0) \<union> se_new_id env ` done"

lemma progress_rows:
  "sync_progress exts env d0 done d \<Longrightarrow> x \<in> set (lines_tbl d) \<Longrightarrow>
   if \<exists>r\<in>done. line_key x = (''mango'', ml_provider_resource_id r)
   then \<exists>r\<in>done. mirrors exts (se_now env) r x else x \<in> set (lines_tbl d0)"
  unfolding sync_progress_def by blast

lemma progressD:
  assumes "sync_progress exts env d0 done d"
  shows "lines_unique d" "d = d0\<lparr>lines_tbl := lines_tbl d\<rparr>"
    "\<And>r. r \<in> done \<Longrightarrow> \<exists>x\<in>set (lines_tbl d). mirrors exts (se_now env) r x"
    "\<And>x. x \<in> set (lines_tbl d0) \<Longrightarrow> \<exists>y\<in>set (lines_tbl d). l_id y = l_id x \<and> line_key y = line_key x"
    "\<And>x. x \<in> set (lines_tbl d) \<Longrightarrow> l_id x \<in> l_id ` set (lines_tbl d0) \<union> se_new_id env ` done"
  using assms unfolding sync_progress_def by blast+

lemma synced_line_simps [simp]:
  "l_id (synced_line now x r l) = l_id l" "line_key (synced_line now x r l) = line_key l"
  by (simp_all add: synced_line_def Let_def line_key_def)

lemma synced_line_mirrors:
  "line_key l = (''mango'', ml_provider_resource_id r) \<Longrightarrow> mirrors exts now r (synced_line now (matched_extension exts r) r l)"
  using synced_line_simps(2) [of now "matched_extension exts r" r l] by (simp add: mirrors_def) (simp add: synced_line_def Let_def)

text \<open>Saving a row whose key belongs to no row but the one that it replaces.\<close>

lemma save_line_step:
  assumes "lines_unique d" "\<forall>x\<in>set (lines_tbl d). line_key x = line_key n \<longleftrightarrow> l_id x = l_id n"
  obtains d' where "save_line n d = (Inr (), d')" "lines_unique d'" "d' = d\<lparr>lines_tbl := lines_tbl d'\<rparr>"
    "set (lines_tbl d') = insert n {x \<in> set (lines_tbl d). line_key x \<noteq> line_key n}"
proof
  let ?d = "d\<lparr>lines_tbl := upsert l_id n (lines_tbl d)\<rparr>"
  show "save_line n d = (Inr (), ?d)" using assms(2) by (auto simp: save_line_def line_key_def)
  have table: "set (lines_tbl ?d) = insert n {x \<in> set (lines_tbl d). l_id x \<noteq> l_id n}"
    using assms(1) by (simp add: lines_unique_def set_upsert)
  also have "\<dots> = insert n {x \<in> set (lines_tbl d). line_key x \<noteq> line_key n}" using assms(2) by blast
  finally show set': "set (lines_tbl ?d) = insert n {x \<in> set (lines_tbl d). line_key x \<noteq> line_key n}" .
  have "inj_on line_key (set (lines_tbl ?d))"
    unfolding set' using assms(1) by (auto simp: lines_unique_def inj_on_def)
  then show "lines_unique ?d" using assms(1) by (simp add: lines_unique_def distinct_upsert)
  show "?d = d\<lparr>lines_tbl := lines_tbl ?d\<rparr>" by simp
qed

lemma unique_row:
  assumes "distinct (map f xs)" "x \<in> set xs" "y \<in> set xs" "f x = f y"
  shows "x = y"
  using assms by (simp add: distinct_map inj_on_def)

text \<open>The row that the loop works on: the one under this key, or a new one.\<close>

lemma line_to_sync_row:
  assumes "lines_unique d0" "sync_progress exts env d0 done d"
    and "existing = list_lines collation (Some ''mango'') None d0"
    and "\<forall>q\<in>done. ml_provider_resource_id q \<noteq> ml_provider_resource_id r"
    and "se_new_id env r \<notin> l_id ` set (lines_tbl d0) \<union> se_new_id env ` done"
  shows "line_key (line_to_sync env existing r d) = (''mango'', ml_provider_resource_id r)"
    "\<forall>x\<in>set (lines_tbl d). line_key x = (''mango'', ml_provider_resource_id r)
        \<longleftrightarrow> l_id x = l_id (line_to_sync env existing r d)"
    "l_id (line_to_sync env existing r d) \<in> l_id ` set (lines_tbl d0) \<union> {se_new_id env r}"
proof -
  let ?key = "(''mango'', ml_provider_resource_id r)"
  let ?l = "line_to_sync env existing r d"
  have old: "x \<in> set (lines_tbl d0)" if "x \<in> set (lines_tbl d)" "line_key x = ?key" for x
  proof -
    have "\<not> (\<exists>q\<in>done. line_key x = (''mango'', ml_provider_resource_id q))" using that(2) assms(4) by auto
    then show ?thesis using progress_rows [OF assms(2) that(1)] by (simp only: if_False)
  qed
  have "line_key ?l = ?key \<and> (\<forall>x\<in>set (lines_tbl d). line_key x = ?key \<longleftrightarrow> l_id x = l_id ?l)
    \<and> l_id ?l \<in> l_id ` set (lines_tbl d0) \<union> {se_new_id env r}"
  proof (cases "map_of (rev (map (\<lambda>l. (l_provider_resource_id l, l)) existing)) (ml_provider_resource_id r)")
    case None
    then have "ml_provider_resource_id r \<notin> fst ` set (map (\<lambda>l. (l_provider_resource_id l, l)) existing)"
      unfolding map_of_eq_None_iff set_rev .
    then have "ml_provider_resource_id r \<notin> l_provider_resource_id ` set existing" by (simp add: image_image)
    then have none: "line_key x \<noteq> ?key" if "x \<in> set (lines_tbl d0)" for x
      using that assms(3) by (auto simp: line_key_def image_iff)
    have l: "?l = fresh_line env r" using None by (simp add: line_to_sync_def loaded_line_def)
    have "l_id x \<noteq> se_new_id env r" if "x \<in> set (lines_tbl d)" for x
      using progressD(5) [OF assms(2) that] assms(5) by metis
    moreover have "line_key x \<noteq> ?key" if "x \<in> set (lines_tbl d)" for x using old none that by blast
    ultimately show ?thesis unfolding l by (simp add: fresh_line_def line_key_def)
  next
    case (Some l)
    then have "(ml_provider_resource_id r, l) \<in> set (map (\<lambda>l. (l_provider_resource_id l, l)) existing)"
      by (metis map_of_SomeD set_rev)
    then have l: "l \<in> set (lines_tbl d0)" "line_key l = ?key"
      using assms(3) by (auto simp: line_key_def)
    have "\<exists>y\<in>set (lines_tbl d). l_id y = l_id l \<and> line_key y = line_key l"
      by (rule progressD(4) [OF assms(2) l(1)])
    then obtain y where y: "y \<in> set (lines_tbl d)" "l_id y = l_id l" "line_key y = ?key" using l(2) by auto
    have ids: "distinct (map l_id (lines_tbl d))" and keys: "inj_on line_key (set (lines_tbl d))"
      using assms(2) by (simp_all add: sync_progress_def lines_unique_def)
    have "find_row l_id (l_id l) (lines_tbl d) = Some y"
    proof -
      obtain z where z: "find_row l_id (l_id l) (lines_tbl d) = Some z"
        using y by (metis find_row_None image_eqI option.exhaust)
      then have "z \<in> set (lines_tbl d)" "l_id z = l_id y" using y(2) by (auto dest: find_row_in find_row_key)
      with z show ?thesis using unique_row [OF ids] y(1) by metis
    qed
    then have ly: "?l = y" using Some by (simp add: line_to_sync_def loaded_line_def)
    have "line_key x = ?key \<longleftrightarrow> l_id x = l_id y" if "x \<in> set (lines_tbl d)" for x
      using that y unique_row [OF ids that y(1)] inj_onD [OF keys _ that y(1)] by metis
    then show ?thesis unfolding ly using y l(1) by (metis UnI1 image_eqI)
  qed
  then show "line_key ?l = ?key" "\<forall>x\<in>set (lines_tbl d). line_key x = ?key \<longleftrightarrow> l_id x = l_id ?l"
    "l_id ?l \<in> l_id ` set (lines_tbl d0) \<union> {se_new_id env r}" by simp_all
qed

lemma sync_progress_step:
  assumes "lines_unique d0" "sync_progress exts env d0 done d"
    and "existing = list_lines collation (Some ''mango'') None d0"
    and new: "\<forall>q\<in>done. ml_provider_resource_id q \<noteq> ml_provider_resource_id r"
    and "se_new_id env r \<notin> l_id ` set (lines_tbl d0) \<union> se_new_id env ` done"
  obtains d' where
    "save_line (synced_line (se_now env) (matched_extension exts r) r (line_to_sync env existing r d)) d = (Inr (), d')"
    "sync_progress exts env d0 (insert r done) d'"
proof -
  let ?l = "line_to_sync env existing r d"
  let ?n = "synced_line (se_now env) (matched_extension exts r) r ?l"
  note row = line_to_sync_row [OF assms]
  have key: "line_key ?n = (''mango'', ml_provider_resource_id r)" using row(1) by simp
  have m: "mirrors exts (se_now env) r ?n" by (rule synced_line_mirrors) (rule row(1))
  have "\<forall>x\<in>set (lines_tbl d). line_key x = line_key ?n \<longleftrightarrow> l_id x = l_id ?n" using row(2) key by simp
  then obtain d' where d': "save_line ?n d = (Inr (), d')" "lines_unique d'" "d' = d\<lparr>lines_tbl := lines_tbl d'\<rparr>"
    "set (lines_tbl d') = insert ?n {x \<in> set (lines_tbl d). line_key x \<noteq> line_key ?n}"
    by (rule save_line_step [OF progressD(1) [OF assms(2)]])
  have "sync_progress exts env d0 (insert r done) d'"
    unfolding sync_progress_def
  proof (intro conjI ballI)
    show "lines_unique d'" by (rule d'(2))
    show "d' = d0\<lparr>lines_tbl := lines_tbl d'\<rparr>"
      by (rule trans [OF d'(3)]) (subst progressD(2) [OF assms(2)], simp)
  next
    fix x assume x: "x \<in> set (lines_tbl d')"
    show "if \<exists>q\<in>insert r done. line_key x = (''mango'', ml_provider_resource_id q)
      then \<exists>q\<in>insert r done. mirrors exts (se_now env) q x else x \<in> set (lines_tbl d0)"
    proof (cases "x = ?n")
      case True
      with m key show ?thesis by auto
    next
      case False
      with x d'(4) have "x \<in> set (lines_tbl d)" "line_key x \<noteq> line_key ?n" by auto
      with progress_rows [OF assms(2)] key show ?thesis by (auto split: if_splits)
    qed
  next
    fix q assume q: "q \<in> insert r done"
    show "\<exists>x\<in>set (lines_tbl d'). mirrors exts (se_now env) q x"
    proof (cases "q = r")
      case True
      with m d'(4) show ?thesis by auto
    next
      case False
      with q progressD(3) [OF assms(2)] obtain x where x: "x \<in> set (lines_tbl d)" "mirrors exts (se_now env) q x" by blast
      moreover have "line_key x \<noteq> line_key ?n" using x(2) key new False q by (auto simp: mirrors_def)
      ultimately show ?thesis using d'(4) by blast
    qed
  next
    fix x assume "x \<in> set (lines_tbl d0)"
    with progressD(4) [OF assms(2)] obtain y where y: "y \<in> set (lines_tbl d)" "l_id y = l_id x" "line_key y = line_key x"
      by blast
    show "\<exists>y\<in>set (lines_tbl d'). l_id y = l_id x \<and> line_key y = line_key x"
    proof (cases "line_key y = line_key ?n")
      case True
      then have "l_id y = l_id ?n" using row(2) key y(1) by simp
      then show ?thesis using y True d'(4) by (intro bexI [of _ ?n]) auto
    qed (use y d'(4) in auto)
  next
    show "l_id ` set (lines_tbl d') \<subseteq> l_id ` set (lines_tbl d0) \<union> se_new_id env ` insert r done"
      using progressD(5) [OF assms(2)] row(3) unfolding d'(4) by auto
  qed
  with d'(1) that show ?thesis by blast
qed

lemma sync_remotes_progress:
  assumes "lines_unique d0" "existing = list_lines collation (Some ''mango'') None d0"
    and "sync_progress exts env d0 done d" "distinct (map ml_provider_resource_id rs)"
    and "\<forall>r\<in>set rs. \<forall>q\<in>done. ml_provider_resource_id q \<noteq> ml_provider_resource_id r"
    and "\<forall>r\<in>set rs. se_new_id env r \<notin> l_id ` set (lines_tbl d0)"
    and "inj_on (se_new_id env) (done \<union> set rs)"
  shows "\<exists>d'. sync_remotes env exts existing rs d = (Inr (), d') \<and> sync_progress exts env d0 (done \<union> set rs) d'"
  using assms(3-)
proof (induction rs arbitrary: "done" d)
  case (Cons r rs)
  have r: "r \<notin> done" using Cons.prems(3) by auto
  have fresh: "se_new_id env r \<notin> l_id ` set (lines_tbl d0) \<union> se_new_id env ` done"
    using Cons.prems(4,5) r by (auto simp: inj_on_def)
  have "\<forall>q\<in>done. ml_provider_resource_id q \<noteq> ml_provider_resource_id r" using Cons.prems(3) by simp
  from sync_progress_step [OF assms(1) Cons.prems(1) assms(2) this fresh]
  obtain d' where d': "save_line (synced_line (se_now env) (matched_extension exts r) r (line_to_sync env existing r d)) d
      = (Inr (), d')" "sync_progress exts env d0 (insert r done) d'" by metis
  have "\<exists>d''. sync_remotes env exts existing rs d' = (Inr (), d'') \<and> sync_progress exts env d0 (insert r done \<union> set rs) d''"
    using Cons.prems by (intro Cons.IH [OF d'(2)]) (auto simp: image_iff)
  then show ?case using d'(1) by simp
qed simp

lemma sync_progress_start: "lines_unique d \<Longrightarrow> sync_progress exts env d {} d"
  by (auto simp: sync_progress_def)

definition stale :: "string set \<Rightarrow> telephony_line \<Rightarrow> bool" where
  "stale seen l \<longleftrightarrow> l_provider_resource_id l \<notin> seen \<and> l_is_active l"

definition switched_off :: "time \<Rightarrow> telephony_line \<Rightarrow> telephony_line" where
  "switched_off now l = l\<lparr>l_is_active := False, l_synced_at := Some now\<rparr>"

lemma switched_off_simps [simp]:
  "l_id (switched_off now l) = l_id l" "line_key (switched_off now l) = line_key l"
  "l_provider (switched_off now l) = l_provider l" "\<not> l_is_active (switched_off now l)"
  by (simp_all add: switched_off_def line_key_def)

lemma deactivate_stale_table:
  assumes "deactivate_stale now seen ls d = (n, d')" "distinct (map l_id ls)"
    and "distinct (map l_id (lines_tbl d))" "\<forall>l\<in>set ls. stale seen l \<longrightarrow> l \<in> set (lines_tbl d)"
  shows "n = length (filter (stale seen) ls) \<and> d' = d\<lparr>lines_tbl := lines_tbl d'\<rparr> \<and> distinct (map l_id (lines_tbl d'))
    \<and> set (lines_tbl d') = (\<lambda>x. if x \<in> set ls \<and> stale seen x then switched_off now x else x) ` set (lines_tbl d)"
  using assms
proof (induction ls arbitrary: d n)
  case (Cons l ls)
  show ?case
  proof (cases "stale seen l")
    case False
    with Cons.prems have "deactivate_stale now seen ls d = (n, d')" by (auto simp: stale_def)
    from Cons.IH [OF this] Cons.prems False show ?thesis by (auto simp: image_iff)
  next
    case True
    define d1 where "d1 = d\<lparr>lines_tbl := upsert l_id (switched_off now l) (lines_tbl d)\<rparr>"
    obtain k where k: "deactivate_stale now seen ls d1 = (k, d')" "n = Suc k"
      using Cons.prems(1) True by (auto simp: d1_def stale_def switched_off_def split: prod.splits)
    have l: "l \<in> set (lines_tbl d)" using Cons.prems(4) True by simp
    have t1: "set (lines_tbl d1) = insert (switched_off now l) {x \<in> set (lines_tbl d). l_id x \<noteq> l_id l}"
      using Cons.prems(3) by (simp add: d1_def set_upsert)
    have d1: "distinct (map l_id (lines_tbl d1))" using Cons.prems(3) by (simp add: d1_def distinct_upsert)
    have other: "l_id x \<noteq> l_id l" if "x \<in> set ls" for x
    proof -
      have "l_id l \<notin> l_id ` set ls" using Cons.prems(2) by simp
      with that show ?thesis by (metis imageI)
    qed
    have ids: "distinct (map l_id ls)" using Cons.prems(2) by simp
    have "\<forall>x\<in>set ls. stale seen x \<longrightarrow> x \<in> set (lines_tbl d1)"
      using Cons.prems(4) other by (simp add: t1)
    note ih = Cons.IH [OF k(1) ids d1 this]
    have "d' = d\<lparr>lines_tbl := lines_tbl d'\<rparr>"
      by (rule trans [OF conjunct1 [OF conjunct2 [OF ih]]]) (simp add: d1_def)
    moreover have "(\<lambda>x. if x \<in> set ls \<and> stale seen x then switched_off now x else x) ` set (lines_tbl d1)
      = (\<lambda>x. if x \<in> set (l # ls) \<and> stale seen x then switched_off now x else x) ` set (lines_tbl d)" (is "?f ` _ = ?g ` _")
    proof -
      have "switched_off now l \<notin> set ls" using other by force
      then have "?f (switched_off now l) = ?g l" using True by simp
      moreover have "?f ` {x \<in> set (lines_tbl d). l_id x \<noteq> l_id l} = ?g ` {x \<in> set (lines_tbl d). l_id x \<noteq> l_id l}"
        by (rule image_cong) auto
      moreover have "?g ` set (lines_tbl d) = ?g ` insert l {x \<in> set (lines_tbl d). l_id x \<noteq> l_id l}"
        using l unique_row [OF Cons.prems(3) _ l] by (intro arg_cong [where f = "image ?g"]) auto
      ultimately show ?thesis unfolding t1 by (simp only: image_insert)
    qed
    ultimately show ?thesis using ih k(2) True by simp
  qed
qed auto

lemma sync_mirrors:
  assumes "api_configured mc" "lines_unique d" "distinct (map ml_provider_resource_id remotes)"
    and "remotes \<noteq> [] \<or> (\<forall>l\<in>set (lines_tbl d). l_provider l \<noteq> ''mango'')"
    and "\<forall>r\<in>set remotes. se_new_id env r \<notin> l_id ` set (lines_tbl d)" "inj_on (se_new_id env) (set remotes)"
  shows "\<exists>res d'. sync_lines cfg mc env (Inr remotes) exts_answer d = (Inr res, d')
    \<and> lines_unique d' \<and> d' = d\<lparr>lines_tbl := lines_tbl d'\<rparr>
    \<and> (\<forall>r\<in>set remotes. \<exists>l\<in>set (lines_tbl d'). mirrors (known_extensions exts_answer) (se_now env) r l)
    \<and> (\<forall>l\<in>set (lines_tbl d'). l_provider l = ''mango'' \<and> l_is_active l
         \<longrightarrow> (\<exists>r\<in>set remotes. mirrors (known_extensions exts_answer) (se_now env) r l))
    \<and> (\<forall>l\<in>set (lines_tbl d). \<exists>l'\<in>set (lines_tbl d'). l_id l' = l_id l \<and> line_key l' = line_key l)
    \<and> (\<forall>l. l_provider l \<noteq> ''mango'' \<longrightarrow> (l \<in> set (lines_tbl d') \<longleftrightarrow> l \<in> set (lines_tbl d)))
    \<and> sr_synced_count res = length remotes
    \<and> sr_deactivated_count res = card {l \<in> set (lines_tbl d). l_provider l = ''mango''
         \<and> stale (set (map ml_provider_resource_id remotes)) l}"
proof -
  define existing where "existing = list_lines (se_collation env) (Some ''mango'') None d"
  define seen where "seen = set (map ml_provider_resource_id remotes)"
  define exts where "exts = known_extensions exts_answer"
  have ex: "set existing = {l \<in> set (lines_tbl d). l_provider l = ''mango''}" by (simp add: existing_def)
  have exd: "distinct (map l_id existing)"
    using assms(2) by (auto simp: existing_def list_lines_def lines_unique_def distinct_map inj_on_def)
  have "\<exists>d'. sync_remotes env exts existing remotes d = (Inr (), d') \<and> sync_progress exts env d ({} \<union> set remotes) d'"
    by (rule sync_remotes_progress [OF assms(2) existing_def sync_progress_start [OF assms(2)] assms(3)])
      (use assms(5,6) in simp_all)
  then obtain d1 where d1: "sync_remotes env exts existing remotes d = (Inr (), d1)" "sync_progress exts env d (set remotes) d1"
    by auto
  obtain n d2 where d2: "deactivate_stale (se_now env) seen existing d1 = (n, d2)" by force
  have unseen: "\<not> (\<exists>r\<in>set remotes. line_key l = (''mango'', ml_provider_resource_id r))"
    if "l_provider_resource_id l \<notin> seen" for l using that by (auto simp: line_key_def seen_def)
  have ids: "distinct (map l_id (lines_tbl d))" using assms(2) by (simp add: lines_unique_def)
  have kept: "l \<in> set (lines_tbl d1)"
    if "l \<in> set (lines_tbl d)" "\<not> (\<exists>r\<in>set remotes. line_key l = (''mango'', ml_provider_resource_id r))" for l
  proof -
    from progressD(4) [OF d1(2) that(1)] obtain y where y: "y \<in> set (lines_tbl d1)" "l_id y = l_id l" "line_key y = line_key l"
      by blast
    with progress_rows [OF d1(2) y(1)] that(2) have "y \<in> set (lines_tbl d)" by (simp only: if_False)
    with y that(1) show ?thesis using unique_row [OF ids] by metis
  qed
  have ids1: "distinct (map l_id (lines_tbl d1))" and keys1: "inj_on line_key (set (lines_tbl d1))"
    using progressD(1) [OF d1(2)] by (simp_all add: lines_unique_def)
  have "\<forall>l\<in>set existing. stale seen l \<longrightarrow> l \<in> set (lines_tbl d1)"
    using kept unseen ex by (simp add: stale_def)
  note off = deactivate_stale_table [OF d2 exd ids1 this]
  define g where "g x = (if x \<in> set existing \<and> stale seen x then switched_off (se_now env) x else x)" for x
  have off_n: "n = length (filter (stale seen) existing)" and off_ids: "distinct (map l_id (lines_tbl d2))"
    using off by blast+
  have table: "set (lines_tbl d2) = g ` set (lines_tbl d1)"
    unfolding g_def by (rule conjunct2 [OF conjunct2 [OF conjunct2 [OF off]]])
  have g: "l_id (g x) = l_id x" "line_key (g x) = line_key x" "l_provider (g x) = l_provider x" for x
    by (simp_all add: g_def)
  have unique2: "lines_unique d2"
    using off_ids keys1 unfolding lines_unique_def table by (auto simp: inj_on_def g)
  have frame: "d2 = d\<lparr>lines_tbl := lines_tbl d2\<rparr>"
    by (rule trans [OF conjunct1 [OF conjunct2 [OF off]]]) (subst progressD(2) [OF d1(2)], simp)
  have all_there: "\<exists>l\<in>set (lines_tbl d2). mirrors exts (se_now env) r l" if "r \<in> set remotes" for r
  proof -
    from progressD(3) [OF d1(2) that] obtain x where x: "x \<in> set (lines_tbl d1)" "mirrors exts (se_now env) r x" by blast
    then have "l_provider_resource_id x \<in> seen" using that by (auto simp: mirrors_def line_key_def seen_def)
    then have "g x = x" by (simp add: g_def stale_def)
    with x table show ?thesis by force
  qed
  have only_these: "\<exists>r\<in>set remotes. mirrors exts (se_now env) r l"
    if l: "l \<in> set (lines_tbl d2)" "l_provider l = ''mango''" "l_is_active l" for l
  proof -
    obtain x where x: "x \<in> set (lines_tbl d1)" "l = g x" using l(1) table by blast
    then have same: "l = x" "\<not> (x \<in> set existing \<and> stale seen x)" using l(3) by (auto simp: g_def split: if_splits)
    show ?thesis
    proof (cases "\<exists>r\<in>set remotes. line_key x = (''mango'', ml_provider_resource_id r)")
      case True
      with progress_rows [OF d1(2) x(1)] same(1) show ?thesis by (simp only: if_True)
    next
      case False
      with progress_rows [OF d1(2) x(1)] have "x \<in> set existing" using ex l(2) same(1) by simp
      moreover have "stale seen x" using False l same(1) by (auto simp: stale_def line_key_def seen_def)
      ultimately show ?thesis using same(2) by blast
    qed
  qed
  have survive: "\<exists>l'\<in>set (lines_tbl d2). l_id l' = l_id l \<and> line_key l' = line_key l" if "l \<in> set (lines_tbl d)" for l
    using progressD(4) [OF d1(2) that] table g by (metis image_eqI)
  have others: "l \<in> set (lines_tbl d2) \<longleftrightarrow> l \<in> set (lines_tbl d)" if "l_provider l \<noteq> ''mango''" for l
  proof -
    have no: "\<not> (\<exists>r\<in>set remotes. line_key l = (''mango'', ml_provider_resource_id r))"
      using that by (simp add: line_key_def)
    have "l \<in> set (lines_tbl d2) \<longleftrightarrow> l \<in> set (lines_tbl d1)"
    proof
      assume "l \<in> set (lines_tbl d2)"
      then obtain x where x: "x \<in> set (lines_tbl d1)" "l = g x" using table by blast
      then have "x \<notin> set existing" using that g(3) ex by simp
      with x show "l \<in> set (lines_tbl d1)" by (simp add: g_def)
    next
      assume "l \<in> set (lines_tbl d1)"
      moreover have "g l = l" using that ex by (simp add: g_def)
      ultimately show "l \<in> set (lines_tbl d2)" using table by (metis image_eqI)
    qed
    also have "\<dots> \<longleftrightarrow> l \<in> set (lines_tbl d)"
      using kept [OF _ no] progress_rows [OF d1(2), of l] no by (auto split: if_splits)
    finally show ?thesis .
  qed
  have count: "n = card {l \<in> set (lines_tbl d). l_provider l = ''mango'' \<and> stale seen l}"
  proof -
    have "n = length (filter (stale seen) existing)" by (rule off_n)
    also have "\<dots> = card (set (filter (stale seen) existing))"
      using exd by (metis distinct_card distinct_filter distinct_map)
    also have "set (filter (stale seen) existing) = {l \<in> set (lines_tbl d). l_provider l = ''mango'' \<and> stale seen l}"
      using ex by auto
    finally show ?thesis .
  qed
  have "\<not> (remotes = [] \<and> existing \<noteq> [])"
  proof
    assume none: "remotes = [] \<and> existing \<noteq> []"
    then have "last existing \<in> set existing" by simp
    with ex assms(4) none show False by auto
  qed
  then have run: "sync_lines cfg mc env (Inr remotes) exts_answer d
      = (Inr \<lparr>sr_items = service_list_lines cfg (se_collation env) None d2, sr_synced_count = length remotes,
              sr_deactivated_count = n, sr_synced_at = se_now env\<rparr>, d2)"
    using assms(1) d1(1) d2
    by (simp add: sync_lines_def Let_def exts_def [unfolded known_extensions_def, symmetric] seen_def
        flip: existing_def set_map)
  show ?thesis
    unfolding exts_def [symmetric]
    by (intro exI conjI allI ballI impI, rule run, rule unique2, rule frame, erule all_there)
      (use only_these survive others count in \<open>auto simp: seen_def\<close>)
qed

definition demo_api :: mango_api_config where
  "demo_api = \<lparr>mc_base_url = ''u'', mc_api_key = ''k'', mc_api_salt = ''s''\<rparr>"

definition demo_sync_env :: sync_env where
  "demo_sync_env = \<lparr>se_now = 9, se_new_id = (\<lambda>r. 100), se_collation = length\<rparr>"

definition demo_remote :: "string \<Rightarrow> string \<Rightarrow> mango_line" where
  "demo_remote i number = \<lparr>ml_provider_resource_id = i, ml_phone_number = number, ml_schema_name = None,
     ml_display_name = None, ml_extension = None, ml_is_active = True, ml_is_inbound_enabled = True,
     ml_is_outbound_enabled = False, ml_raw_payload = []\<rparr>"

definition demo_stored :: "uuid \<Rightarrow> string \<Rightarrow> telephony_line" where
  "demo_stored i resource_id = demo_line\<lparr>l_id := i, l_provider := ''mango'', l_provider_resource_id := resource_id,
     l_is_active := True\<rparr>"

definition demo_lines_db :: db where
  "demo_lines_db = empty_db\<lparr>lines_tbl := [demo_stored 1 ''a'', demo_stored 2 ''b'']\<rparr>"

section \<open>The provider's lines are on the primary number\<close>

lemma normalize_plus:
  assumes "strip x = x" "startswith x ''+''"
  shows "normalize_mango_phone (Some x) = x"
  using assms by (cases x) (simp_all add: normalize_mango_phone_def Let_def)

lemma strip_plus_number: "\<forall>c\<in>set ds. is_digit c \<Longrightarrow> strip (CHR ''+'' # ds) = CHR ''+'' # ds"
  by (rule strip_no_spaces) (auto simp: is_digit_def is_space_def Let_def)

lemma normalize_cases:
  obtains "normalize_mango_phone x = []"
  | ds where "normalize_mango_phone x = CHR ''+'' # ds" "\<forall>c\<in>set ds. is_digit c"
  | "strip (normalize_mango_phone x) = normalize_mango_phone x" "startswith (normalize_mango_phone x) ''+''"
  | n where "x = Some n" "normalize_mango_phone x = strip n" "strip n \<noteq> []" "\<not> startswith (strip n) ''+''"
      "\<not> (length (filter is_digit (strip n)) = 11 \<and> startswith (filter is_digit (strip n)) ''8'')"
      "\<not> (length (filter is_digit (strip n)) = 11 \<and> startswith (filter is_digit (strip n)) ''7'')"
      "length (filter is_digit (strip n)) \<noteq> 10"
proof (cases "truthy x \<and> strip (the x) \<noteq> []")
  case False
  moreover have "normalize_mango_phone x = []" if "truthy x" "strip (the x) = []"
    using that by (simp add: normalize_mango_phone_def Let_def)
  ultimately show ?thesis using that(1) by (auto simp: normalize_mango_phone_def)
next
  case True
  then obtain n where n: "x = Some n" "n \<noteq> []" "strip n \<noteq> []" by (auto elim: truthyE)
  define ds where "ds = filter is_digit (strip n)"
  have digits: "\<forall>c\<in>set ds. is_digit c" by (simp add: ds_def)
  have seven: "is_digit CHR ''7''" by code_simp
  have norm: "normalize_mango_phone x = (if startswith (strip n) ''+'' then strip n
      else if length ds = 11 \<and> startswith ds ''8'' then CHR ''+'' # CHR ''7'' # drop 1 ds
      else if length ds = 11 \<and> startswith ds ''7'' then CHR ''+'' # ds
      else if length ds = 10 then CHR ''+'' # CHR ''7'' # ds else strip n)"
    using n by (simp add: normalize_mango_phone_def Let_def ds_def)
  consider "startswith (strip n) ''+''" | "\<not> startswith (strip n) ''+''" "length ds = 11 \<and> startswith ds ''8''"
    | "\<not> startswith (strip n) ''+''" "\<not> (length ds = 11 \<and> startswith ds ''8'')" "length ds = 11 \<and> startswith ds ''7''"
    | "\<not> startswith (strip n) ''+''" "\<not> (length ds = 11 \<and> startswith ds ''8'')"
      "\<not> (length ds = 11 \<and> startswith ds ''7'')" "length ds = 10"
    | "\<not> startswith (strip n) ''+''" "\<not> (length ds = 11 \<and> startswith ds ''8'')"
      "\<not> (length ds = 11 \<and> startswith ds ''7'')" "length ds \<noteq> 10" by blast
  then show ?thesis
  proof cases
    case 1
    then have "normalize_mango_phone x = strip n" using norm by simp
    with 1 that(3) show ?thesis by simp
  next
    case 2
    then have "normalize_mango_phone x = CHR ''+'' # CHR ''7'' # drop 1 ds" using norm by simp
    moreover have "\<forall>c\<in>set (CHR ''7'' # drop 1 ds). is_digit c" using digits seven by (auto dest: in_set_dropD)
    ultimately show ?thesis by (rule that(2))
  next
    case 3
    then have "normalize_mango_phone x = CHR ''+'' # ds" using norm by simp
    then show ?thesis using digits by (rule that(2))
  next
    case 4
    then have "normalize_mango_phone x = CHR ''+'' # CHR ''7'' # ds" using norm by simp
    moreover have "\<forall>c\<in>set (CHR ''7'' # ds). is_digit c" using digits seven by auto
    ultimately show ?thesis by (rule that(2))
  next
    case 5
    then have "normalize_mango_phone x = strip n" unfolding norm by (simp only: if_False)
    with 5 n that(4) show ?thesis unfolding ds_def by blast
  qed
qed

text \<open>A normalised number is normal.\<close>

lemma normalize_normalized: "normalize_mango_phone (Some (normalize_mango_phone x)) = normalize_mango_phone x"
proof (cases x rule: normalize_cases)
  case 1
  then show ?thesis by (simp add: normalize_mango_phone_def)
next
  case (2 ds)
  then show ?thesis using strip_plus_number [OF 2(2)] normalize_plus [of "CHR ''+'' # ds"] by simp
next
  case 3
  then show ?thesis by (rule normalize_plus)
next
  case (4 n)
  then have "normalize_mango_phone (Some (strip n)) = strip n"
    by (simp only: normalize_mango_phone_def Let_def truthy_simps option.sel strip_strip if_False simp_thms)
  with 4 show ?thesis by simp
qed

definition primary_number :: "settings \<Rightarrow> string" where
  "primary_number cfg =
     normalize_mango_phone (py_or (Some (mango_primary_phone_e164 cfg)) (Some (st_mango_primary_phone_number cfg)))"

lemma allowed_iff:
  "primary_number cfg \<noteq> [] \<Longrightarrow>
   allowed_line_number cfg n \<longleftrightarrow> normalize_mango_phone (Some n) = primary_number cfg"
  by (simp add: allowed_line_number_def is_allowed_mango_phone_number_def primary_number_def Let_def)

lemma dedup_keys: "distinct (map key (dedup key xs)) \<and> set (dedup key xs) \<subseteq> set xs"
proof -
  have "distinct (map key (fold (upsert key) xs acc)) \<and> set (fold (upsert key) xs acc) \<subseteq> set acc \<union> set xs"
    if "distinct (map key acc)" for acc
    using that
  proof (induction xs arbitrary: acc)
    case (Cons x xs)
    from Cons.IH [OF distinct_upsert [OF Cons.prems, of x]] set_upsert_subset [of key x acc]
    show ?case by auto
  qed simp
  from this [of "[]"] show ?thesis by (simp add: dedup_def)
qed

lemma parsed_line_normal:
  assumes "parse_line repr record = Some l"
  shows "\<exists>x. ml_phone_number l = normalize_mango_phone x"
proof -
  have "Option.bind (parse_line repr record) (\<lambda>l. Some (ml_phone_number l)) \<in> {None} \<union> Some ` range normalize_mango_phone"
    by (simp add: parse_line_def Let_def)
  with assms show ?thesis by auto
qed

lemma client_lines_on_primary:
  assumes "client_list_lines cfg mc repr reply = Inr remotes" "primary_number cfg \<noteq> []"
  shows "\<forall>r\<in>set remotes. ml_phone_number r = primary_number cfg" "distinct (map ml_provider_resource_id remotes)"
    "api_configured mc"
proof -
  let ?key = "\<lambda>l. (ml_provider_resource_id l, ml_phone_number l)"
  show "api_configured mc"
    using assms(1) by (auto simp: client_list_lines_def post_json_def split: if_splits)
  obtain records where r: "remotes = dedup ?key (filter (\<lambda>l. allowed_line_number cfg (ml_phone_number l))
      (List.map_filter (parse_line repr) records))"
    using assms(1) by (auto simp: client_list_lines_def deduplicate_lines_def split: sum.splits)
  have "ml_phone_number l = primary_number cfg" if "l \<in> set remotes" for l
  proof -
    have "l \<in> set (filter (\<lambda>l. allowed_line_number cfg (ml_phone_number l)) (List.map_filter (parse_line repr) records))"
      using that unfolding r by (rule subsetD [OF conjunct2 [OF dedup_keys]])
    then obtain rec where "parse_line repr rec = Some l" "allowed_line_number cfg (ml_phone_number l)"
      by (auto simp: map_filter_def)
    moreover from this(1) obtain x where "ml_phone_number l = normalize_mango_phone x"
      using parsed_line_normal by blast
    ultimately show ?thesis using allowed_iff [OF assms(2)] normalize_normalized by simp
  qed
  then show phones: "\<forall>r\<in>set remotes. ml_phone_number r = primary_number cfg" by blast
  have "distinct (map ?key remotes)" unfolding r by (rule conjunct1 [OF dedup_keys])
  then show "distinct (map ml_provider_resource_id remotes)"
    using phones by (auto simp: distinct_map inj_on_def)
qed

text \<open>
  C18. After a synchronisation the table mirrors the provider. Let the API answer with lines (at least one
  of the primary number, if the table has Mango lines). Then the synchronisation succeeds. Every line of
  the answer is in the table with its number, its name in the scheme, and the provider's flags for active
  and inbound; it may call out when the provider says so or when it has an extension, its own or a matched
  one. Every active Mango line of the table is in the answer and on the primary number; a Mango line that
  the provider no longer reports is kept, inactive. No row is lost or takes over another's id or key, so the agents bound to a line stay bound to
  it; the lines of other providers and all other tables are untouched; and the counts are those of the
  lines written and of the lines switched off.
\<close>

theorem sync_mirrors_provider:
  assumes "client_list_lines cfg mc repr reply = Inr remotes" "primary_number cfg \<noteq> []" "lines_unique d"
    and "remotes \<noteq> [] \<or> (\<forall>l\<in>set (lines_tbl d). l_provider l \<noteq> ''mango'')"
    and "\<forall>r\<in>set remotes. se_new_id env r \<notin> l_id ` set (lines_tbl d)" "inj_on (se_new_id env) (set remotes)"
  shows "\<exists>res d'. sync_lines cfg mc env (client_list_lines cfg mc repr reply) exts_answer d = (Inr res, d')
    \<and> lines_unique d' \<and> d' = d\<lparr>lines_tbl := lines_tbl d'\<rparr>
    \<and> (\<forall>r\<in>set remotes. \<exists>l\<in>set (lines_tbl d'). mirrors (known_extensions exts_answer) (se_now env) r l)
    \<and> (\<forall>l\<in>set (lines_tbl d'). l_provider l = ''mango'' \<and> l_is_active l
         \<longrightarrow> l_phone_number l = primary_number cfg \<and> (\<exists>r\<in>set remotes. mirrors (known_extensions exts_answer) (se_now env) r l))
    \<and> (\<forall>l\<in>set (lines_tbl d). \<exists>l'\<in>set (lines_tbl d'). l_id l' = l_id l \<and> line_key l' = line_key l)
    \<and> (\<forall>l. l_provider l \<noteq> ''mango'' \<longrightarrow> (l \<in> set (lines_tbl d') \<longleftrightarrow> l \<in> set (lines_tbl d)))
    \<and> sr_synced_count res = length remotes
    \<and> sr_deactivated_count res = card {l \<in> set (lines_tbl d). l_provider l = ''mango''
         \<and> stale (set (map ml_provider_resource_id remotes)) l}"
proof -
  note client = client_lines_on_primary [OF assms(1,2)]
  have phone: "l_phone_number l = primary_number cfg" if "r \<in> set remotes" "mirrors exts now r l" for exts now r l
    using that client(1) by (simp add: mirrors_def)
  from sync_mirrors [OF client(3) assms(3) client(2) assms(4-6), of cfg exts_answer]
  obtain res d' where m: "sync_lines cfg mc env (Inr remotes) exts_answer d = (Inr res, d')"
    "lines_unique d'" "d' = d\<lparr>lines_tbl := lines_tbl d'\<rparr>"
    "\<forall>r\<in>set remotes. \<exists>l\<in>set (lines_tbl d'). mirrors (known_extensions exts_answer) (se_now env) r l"
    "\<forall>l\<in>set (lines_tbl d'). l_provider l = ''mango'' \<and> l_is_active l
         \<longrightarrow> (\<exists>r\<in>set remotes. mirrors (known_extensions exts_answer) (se_now env) r l)"
    "\<forall>l\<in>set (lines_tbl d). \<exists>l'\<in>set (lines_tbl d'). l_id l' = l_id l \<and> line_key l' = line_key l"
    "\<forall>l. l_provider l \<noteq> ''mango'' \<longrightarrow> (l \<in> set (lines_tbl d') \<longleftrightarrow> l \<in> set (lines_tbl d))"
    "sr_synced_count res = length remotes"
    "sr_deactivated_count res = card {l \<in> set (lines_tbl d). l_provider l = ''mango''
         \<and> stale (set (map ml_provider_resource_id remotes)) l}" by (elim exE conjE) (rule that)
  have on: "\<forall>l\<in>set (lines_tbl d'). l_provider l = ''mango'' \<and> l_is_active l
         \<longrightarrow> l_phone_number l = primary_number cfg \<and> (\<exists>r\<in>set remotes. mirrors (known_extensions exts_answer) (se_now env) r l)"
    using m(5) phone by blast
  show ?thesis unfolding assms(1) by (intro exI conjI) (rule m on)+
qed

definition demo_answer :: http_reply where
  "demo_answer = Response 200 (Some (JObj [(''lines'', JList [JObj [(''id'', JStr ''a''), (''number'', JStr ''89300350609'')],
     JObj [(''id'', JStr ''c''), (''number'', JStr ''84950000000'')]])])) []"

lemma demo_answer_lines:
  "case client_list_lines default_settings demo_api (\<lambda>v. []) demo_answer of
     Inr [r] \<Rightarrow> ml_provider_resource_id r = ''a'' | _ \<Rightarrow> False"
  by code_simp

lemma demo_primary: "primary_number default_settings \<noteq> []"
  by code_simp

theorem sync_mirrors_provider_witness:
  "\<exists>res d'. sync_lines default_settings demo_api demo_sync_env
        (client_list_lines default_settings demo_api (\<lambda>v. []) demo_answer) (Inr []) demo_lines_db = (Inr res, d')
    \<and> sr_synced_count res = 1 \<and> sr_deactivated_count res = 1"
proof -
  obtain r where answer: "client_list_lines default_settings demo_api (\<lambda>v. []) demo_answer = Inr [r]"
    and r: "ml_provider_resource_id r = ''a''"
    using demo_answer_lines by (auto split: sum.splits list.splits)
  have line: "l_id (demo_stored i r) = i" "line_key (demo_stored i r) = (''mango'', r)"
    "l_provider (demo_stored i r) = ''mango''" "stale S (demo_stored i r) \<longleftrightarrow> r \<notin> S" for i r S
    by (simp_all add: demo_stored_def line_key_def stale_def)
  have tbl: "lines_tbl demo_lines_db = [demo_stored 1 ''a'', demo_stored 2 ''b'']" by (simp add: demo_lines_db_def)
  have u: "lines_unique demo_lines_db" by (simp add: lines_unique_def tbl line inj_on_def)
  have hyps: "[r] \<noteq> [] \<or> (\<forall>l\<in>set (lines_tbl demo_lines_db). l_provider l \<noteq> ''mango'')"
    "\<forall>x\<in>set [r]. se_new_id demo_sync_env x \<notin> l_id ` set (lines_tbl demo_lines_db)"
    "inj_on (se_new_id demo_sync_env) (set [r])"
    by (simp_all add: tbl line demo_sync_env_def)
  have "{l \<in> set (lines_tbl demo_lines_db). l_provider l = ''mango''
      \<and> stale (set (map ml_provider_resource_id [r])) l} = {demo_stored 2 ''b''}"
    by (auto simp: tbl line r)
  with sync_mirrors_provider [OF answer demo_primary u hyps, of "Inr []"] show ?thesis by auto
qed

section \<open>The list of extensions merges two sources\<close>

lemma merge_live_simps:
  assumes "distinct (map mx_extension xs)"
  shows "distinct (map mx_extension (merge_live l xs))"
    "mx_extension ` set (merge_live l xs) = insert (mx_extension l) (mx_extension ` set xs)"
    "find_row mx_extension (mx_extension l) (merge_live l xs)
       = Some (case find_row mx_extension (mx_extension l) xs of None \<Rightarrow> l | Some f \<Rightarrow> merge_extension l f)"
    "k \<noteq> mx_extension l \<Longrightarrow> find_row mx_extension k (merge_live l xs) = find_row mx_extension k xs"
proof -
  let ?n = "case find_row mx_extension (mx_extension l) xs of None \<Rightarrow> l | Some f \<Rightarrow> merge_extension l f"
  have key: "mx_extension ?n = mx_extension l"
    by (auto simp: merge_extension_def dest: find_row_key split: option.split)
  show "distinct (map mx_extension (merge_live l xs))"
    unfolding merge_live_def by (rule distinct_upsert) (rule assms)
  show "mx_extension ` set (merge_live l xs) = insert (mx_extension l) (mx_extension ` set xs)"
    unfolding merge_live_def keys_upsert key ..
  show "find_row mx_extension (mx_extension l) (merge_live l xs) = Some ?n"
    unfolding merge_live_def find_row_upsert key by simp
  show "find_row mx_extension k (merge_live l xs) = find_row mx_extension k xs" if "k \<noteq> mx_extension l"
    unfolding merge_live_def find_row_upsert key using that by simp
qed

lemma merge_all:
  assumes "distinct (map mx_extension xs)" "distinct (map mx_extension ls)"
  shows "distinct (map mx_extension (fold merge_live ls xs))
    \<and> mx_extension ` set (fold merge_live ls xs) = mx_extension ` set ls \<union> mx_extension ` set xs
    \<and> (\<forall>l\<in>set ls. find_row mx_extension (mx_extension l) (fold merge_live ls xs)
          = Some (case find_row mx_extension (mx_extension l) xs of None \<Rightarrow> l | Some f \<Rightarrow> merge_extension l f))
    \<and> (\<forall>k. k \<notin> mx_extension ` set ls \<longrightarrow> find_row mx_extension k (fold merge_live ls xs) = find_row mx_extension k xs)"
  using assms
proof (induction ls arbitrary: xs)
  case (Cons a ls)
  note m = merge_live_simps [OF Cons.prems(1), where l = a]
  have "distinct (map mx_extension ls)" "mx_extension a \<notin> mx_extension ` set ls" using Cons.prems(2) by auto
  note ih = Cons.IH [OF m(1) this(1)]
  have other: "mx_extension l \<noteq> mx_extension a" if "l \<in> set ls" for l
    using \<open>mx_extension a \<notin> mx_extension ` set ls\<close> that by (metis imageI)
  show ?case
  proof (intro conjI)
    show "distinct (map mx_extension (fold merge_live (a # ls) xs))" using ih by simp
    show "mx_extension ` set (fold merge_live (a # ls) xs) = mx_extension ` set (a # ls) \<union> mx_extension ` set xs"
      using ih m(2) by auto
    show "\<forall>l\<in>set (a # ls). find_row mx_extension (mx_extension l) (fold merge_live (a # ls) xs)
          = Some (case find_row mx_extension (mx_extension l) xs of None \<Rightarrow> l | Some f \<Rightarrow> merge_extension l f)"
      using ih m(3,4) other \<open>mx_extension a \<notin> mx_extension ` set ls\<close> by simp
    show "\<forall>k. k \<notin> mx_extension ` set (a # ls)
        \<longrightarrow> find_row mx_extension k (fold merge_live (a # ls) xs) = find_row mx_extension k xs"
      using ih m(4) by simp
  qed
qed simp

text \<open>
  The list of extensions: sorted, one entry per extension, those of both sources and no others; a live
  entry is merged over the stored one of the same extension, a stored one without a live counterpart is
  kept as it is.
\<close>

theorem extensions_merged:
  assumes "distinct (map mx_extension live)" "xs = merge_extension_items live stored"
  shows "sorted (map (\<lambda>x. (mx_extension x, mx_provider_resource_id x)) xs) \<and> distinct (map mx_extension xs)
    \<and> mx_extension ` set xs = mx_extension ` set live \<union> mx_extension ` set (dedup mx_extension stored)
    \<and> (\<forall>l\<in>set live. (case find_row mx_extension (mx_extension l) (dedup mx_extension stored) of
          None \<Rightarrow> l | Some f \<Rightarrow> merge_extension l f) \<in> set xs)
    \<and> (\<forall>f\<in>set (dedup mx_extension stored). mx_extension f \<notin> mx_extension ` set live \<longrightarrow> f \<in> set xs)"
proof -
  let ?s = "dedup mx_extension stored" and ?m = "fold merge_live live (dedup mx_extension stored)"
  have s: "distinct (map mx_extension ?s)" by (rule conjunct1 [OF dedup_keys])
  note m = merge_all [OF s assms(1)]
  from m have keep: "\<forall>k. k \<notin> mx_extension ` set live \<longrightarrow> find_row mx_extension k ?m = find_row mx_extension k ?s"
    and merged: "\<forall>l\<in>set live. find_row mx_extension (mx_extension l) ?m
      = Some (case find_row mx_extension (mx_extension l) ?s of None \<Rightarrow> l | Some f \<Rightarrow> merge_extension l f)"
    and dm: "distinct (map mx_extension ?m)"
    and em: "mx_extension ` set ?m = mx_extension ` set live \<union> mx_extension ` set ?s" by blast+
  have set: "set xs = set ?m" by (simp add: assms(2) merge_extension_items_def)
  have "f \<in> set ?m" if "f \<in> set ?s" "mx_extension f \<notin> mx_extension ` set live" for f
  proof -
    have mem: "mx_extension f \<in> mx_extension ` set ?s" using that(1) by (rule imageI)
    obtain g where g: "find_row mx_extension (mx_extension f) ?s = Some g"
    proof (cases "find_row mx_extension (mx_extension f) ?s")
      case None
      then have "mx_extension f \<notin> mx_extension ` set ?s" by (simp only: find_row_None not_False_eq_True)
      with mem show thesis by simp
    qed (use that in blast)
    have "g = f" by (rule unique_row [OF s find_row_in [OF g] that(1) find_row_key [OF g]])
    moreover have "find_row mx_extension (mx_extension f) ?m = Some g" using keep that(2) g by simp
    ultimately show ?thesis using find_row_in [of mx_extension "mx_extension f" ?m f] by simp
  qed
  moreover have "distinct (map mx_extension xs)"
    using dm by (auto simp: assms(2) merge_extension_items_def distinct_map inj_on_def)
  moreover have "(case find_row mx_extension (mx_extension l) ?s of None \<Rightarrow> l | Some f \<Rightarrow> merge_extension l f) \<in> set ?m"
    if "l \<in> set live" for l by (rule find_row_in) (rule merged [rule_format, OF that])
  moreover have "sorted (map (\<lambda>x. (mx_extension x, mx_provider_resource_id x)) xs)"
    by (simp add: assms(2) merge_extension_items_def)
  ultimately show ?thesis using em set by (intro conjI) auto
qed

section \<open>Behaviours worth knowing\<close>

text \<open>The first answer is stripped of duplicates after it went to the cache: the cache gives them out.\<close>

definition demo_users :: http_reply where
  "demo_users = (let u = JObj [(''id'', JStr ''u1''), (''extension'', JStr ''10''), (''line_number'', JStr ''89300350609'')]
     in Response 200 (Some (JObj [(''users'', JList [u, u])])) [])"

theorem cache_keeps_duplicates:
  "let (first, cache) = client_list_extensions default_settings demo_api (\<lambda>v. []) demo_users 0 Map.empty;
       (second, _) = client_list_extensions default_settings demo_api (\<lambda>v. []) demo_users 1 cache
   in map_option length (case first of Inr xs \<Rightarrow> Some xs | Inl _ \<Rightarrow> None) = Some 1
     \<and> map_option length (case second of Inr xs \<Rightarrow> Some xs | Inl _ \<Rightarrow> None) = Some 2"
  by code_simp

text \<open>A value of blanks under the first name hides the values under the others.\<close>

theorem blank_value_hides_next:
  "first_non_empty repr [(''id'', JStr '' ''), (''line_id'', JStr ''5'')] [''id'', ''line_id''] = None"
  by (simp add: first_non_empty_def strip_def is_space_def)

text \<open>
  Without a primary number, an answer that gives two numbers the same line id makes the synchronisation
  of a new line fail on the table's constraint.
\<close>

definition demo_two_ids :: sync_env where
  "demo_two_ids = demo_sync_env\<lparr>se_new_id := (\<lambda>r. if ml_phone_number r = ''+7'' then 100 else 101)\<rparr>"

theorem shared_line_id_fails:
  "case fst (sync_lines default_settings demo_api demo_two_ids
       (Inr [demo_remote ''x'' ''+7'', demo_remote ''x'' ''+8'']) (Inr []) empty_db) of
     Inl e \<Rightarrow> e = OtherError ''IntegrityError'' | Inr _ \<Rightarrow> False"
  by code_simp

end
