(* ===== verification/MangoTelephony.thy ===== *)
theory MangoTelephony
  imports MangoInventory
begin

text \<open>
  The Mango telephony adapter, \<open>MangoTelephonyAdapter\<close> of \<open>app/integrations/telephony/mango.py\<close>, with the
  choice of the calling extension of \<open>app/integrations/telephony/mango_runtime.py\<close> and the two helpers of
  \<open>app/integrations/telephony/mango_client.py\<close> that read an extension's targets. The adapter works on
  \<open>tel_world\<close>: the leg store, the correlation store, the clock, and a record \<open>tw_sent\<close> of every request
  it made, to the Mango API or to FreeSWITCH, those for the inventory of extensions included. The answers
  of both, the hash, the JSON text and the fresh ids are fields of \<open>tel_env\<close>. What other tasks do while an operation waits is given by the ticks of the wait.

  \<open>adapter_legs\<close> is the adapter's use of the leg store under the contract \<open>leg_state_store\<close>. The lemmas show
  which line a call can leave on, when a leg is reported as answered, that only answered legs are
  bridged, and what a failed bridge leaves.
\<close>

section \<open>State and environment\<close>

record mango_settings =
  ms_api_base_url :: string
  ms_api_key :: string
  ms_api_salt :: string
  ms_from_ext :: string
  ms_primary_phone_number :: string
  ms_sip_login :: string
  ms_sip_password :: string
  ms_sip_server :: string
  ms_answer_wait_timeout_seconds :: int
  ms_bridge_confirm_timeout_seconds :: int
  ms_whisper_confirm_timeout_seconds :: int

datatype mango_request =
    Mango_post string "(string \<times> string) list"
  | Esl_execute string bool

record tel_world =
  tw_clock :: time
  tw_legs :: leg_store
  tw_corr :: corr_store
  tw_cache :: extension_cache
  tw_sent :: "mango_request list"

text \<open>\<open>get_media_gateway()\<close>: it raises, has no \<open>execute_command\<close>, or has one that answers.\<close>

datatype gateway_if =
    No_gateway app_error
  | No_commands
  | Commands "string \<Rightarrow> bool \<Rightarrow> (app_error, string) result"

text \<open>
  One call may look up the extensions twice: \<open>tv_first_lookup\<close> and \<open>tv_second_lookup\<close> are the monotonic
  clock and the answer to the request of each, if it makes one. \<open>tv_settings\<close> are the settings that the
  client of the inventory reads.
\<close>

record tel_env =
  tv_dumps :: "payload \<Rightarrow> string"
  tv_sha256 :: "string \<Rightarrow> string"
  tv_repr :: "json \<Rightarrow> string"
  tv_post :: "string \<Rightarrow> (string \<times> string) list \<Rightarrow> http_reply"
  tv_gateway :: gateway_if
  tv_settings :: settings
  tv_first_lookup :: "time \<times> http_reply"
  tv_second_lookup :: "time \<times> http_reply"
  tv_hostname :: "string \<Rightarrow> string option"
  tv_backend_hostname :: "string option"
  tv_uuid_hex :: string

definition telephony_error :: "string \<Rightarrow> app_error" where
  "telephony_error msg = EngineError msg None None"

definition send_request :: "mango_request \<Rightarrow> tel_world \<Rightarrow> tel_world" where
  "send_request r w = w\<lparr>tw_sent := tw_sent w @ [r]\<rparr>"

section \<open>Texts and numbers\<close>

definition mango_digits :: "string \<Rightarrow> string" where
  "mango_digits value = filter is_digit (strip value)"

definition mango_ru_trunk_number :: "string \<Rightarrow> string" where
  "mango_ru_trunk_number value =
     (let digits = mango_digits value in
      if digits = [] then []
      else if length digits = 10 then ''8'' @ digits
      else if length digits = 11 \<and> startswith digits ''7'' then ''8'' @ drop 1 digits
      else digits)"

definition mango_sip_number :: "string \<Rightarrow> string" where
  "mango_sip_number value =
     (let digits = mango_digits value in
      if digits = [] then []
      else if length digits = 10 then ''7'' @ digits
      else if length digits = 11 \<and> startswith digits ''8'' then ''7'' @ drop 1 digits
      else digits)"

definition is_mango_sip_trunk_configured :: "mango_settings \<Rightarrow> bool" where
  "is_mango_sip_trunk_configured cfg \<longleftrightarrow> strip (ms_sip_login cfg) \<noteq> []
     \<and> strip (ms_sip_password cfg) \<noteq> [] \<and> strip (ms_sip_server cfg) \<noteq> []"

text \<open>
  \<open>s.upper()\<close>. The capitals of the micro sign and of y with diaeresis are not Latin-1; both are kept as
  they are, and no text that is compared with the result has either.
\<close>

definition upper_char :: "char \<Rightarrow> string" where
  "upper_char c = (let n = (of_char c :: nat) in
     if n = 223 then ''SS''
     else if 97 \<le> n \<and> n \<le> 122 \<or> 224 \<le> n \<and> n \<le> 254 \<and> n \<noteq> 247 then [char_of (n - 32)] else [c])"

definition upper :: "string \<Rightarrow> string" where
  "upper s = concat (map upper_char s)"

definition esl_reply_implies_answered :: "string \<Rightarrow> bool" where
  "esl_reply_implies_answered reply =
     (let text = strip reply in
      text \<noteq> [] \<and> (\<exists>marker\<in>set [''EVENT-NAME: CHANNEL_ANSWER'', ''ANSWER-STATE: ANSWERED'',
        ''VARIABLE_ENDPOINT_DISPOSITION: ANSWER'']. contains marker (upper text)))"

text \<open>
  \<open>s.splitlines()\<close>, but that a carriage return before a line feed ends a line of its own and that
  a final empty line is kept: the reader skips empty lines.
\<close>

definition ends_line :: "char \<Rightarrow> bool" where
  "ends_line c = (let n = (of_char c :: nat) in 10 \<le> n \<and> n \<le> 13 \<or> 28 \<le> n \<and> n \<le> 30 \<or> n = 133)"

fun reply_lines :: "string \<Rightarrow> string list" where
  "reply_lines [] = [[]]"
| "reply_lines (c # s) =
     (if ends_line c then [] # reply_lines s
      else case reply_lines s of [] \<Rightarrow> [[c]] | l # ls \<Rightarrow> (c # l) # ls)"

definition parse_esl_line :: "string \<Rightarrow> payload \<Rightarrow> payload" where
  "parse_esl_line raw d =
     (let line = strip raw in
      if line = [] \<or> CHR '':'' \<notin> set line then d
      else dset d (strip (takeWhile (\<lambda>c. c \<noteq> CHR '':'') line))
             (JStr (strip (drop 1 (dropWhile (\<lambda>c. c \<noteq> CHR '':'') line)))))"

definition parse_esl_reply_fields :: "string \<Rightarrow> payload" where
  "parse_esl_reply_fields reply = fold parse_esl_line (reply_lines reply) []"

section \<open>Reading the metadata\<close>

abbreviation py_str :: "tel_env \<Rightarrow> json \<Rightarrow> string" where
  "py_str env \<equiv> json_str (tv_repr env)"

text \<open>\<open>metadata or {}\<close>, and the first truthy of several keys.\<close>

definition meta :: "payload option \<Rightarrow> payload" where
  "meta m = (case m of None \<Rightarrow> [] | Some d \<Rightarrow> d)"

fun meta_or :: "payload \<Rightarrow> string list \<Rightarrow> json option" where
  "meta_or d [] = None"
| "meta_or d (k # ks) = (if ojtruthy (dget d k) then dget d k else meta_or d ks)"

definition meta_text :: "tel_env \<Rightarrow> payload \<Rightarrow> string list \<Rightarrow> string" where
  "meta_text env d ks = (case meta_or d ks of None \<Rightarrow> [] | Some v \<Rightarrow> py_str env v)"

definition meta_opt :: "tel_env \<Rightarrow> payload \<Rightarrow> string \<Rightarrow> string option" where
  "meta_opt env d k = map_option (py_str env) (meta_or d [k])"

definition dget_null :: "payload \<Rightarrow> string \<Rightarrow> json" where
  "dget_null d k = (case dget d k of None \<Rightarrow> JNull | Some v \<Rightarrow> v)"

section \<open>The inventory\<close>

definition mango_sign :: "mango_settings \<Rightarrow> tel_env \<Rightarrow> payload \<Rightarrow> (string \<times> string) list" where
  "mango_sign cfg env params =
     (let json_str = tv_dumps env params
      in [(''vpbx_api_key'', ms_api_key cfg),
          (''sign'', tv_sha256 env (ms_api_key cfg @ json_str @ ms_api_salt cfg)),
          (''json'', json_str)])"

text \<open>
  \<open>MangoClient.list_extensions\<close> as the adapter uses it: a request is made unless the shared cache has a
  fresh answer or the client has no keys. The client strips its keys.
\<close>

definition client_config :: "mango_settings \<Rightarrow> mango_api_config" where
  "client_config cfg =
     \<lparr>mc_base_url = strip (if ms_api_base_url cfg \<noteq> [] then ms_api_base_url cfg
        else ''https://app.mango-office.ru/vpbx''),
      mc_api_key = strip (ms_api_key cfg), mc_api_salt = strip (ms_api_salt cfg)\<rparr>"

definition inventory_request :: "mango_settings \<Rightarrow> tel_env \<Rightarrow> mango_request" where
  "inventory_request cfg env = Mango_post ''/config/users/request''
     (mango_sign (cfg\<lparr>ms_api_key := strip (ms_api_key cfg), ms_api_salt := strip (ms_api_salt cfg)\<rparr>) env [])"

definition fetch_extensions ::
    "mango_settings \<Rightarrow> tel_env \<Rightarrow> time \<times> http_reply \<Rightarrow> tel_world
     \<Rightarrow> (client_error, mango_extension list) result \<times> tel_world" where
  "fetch_extensions cfg env look w =
     (let (now, reply) = look; mc = client_config cfg;
          (answer, cache) = client_list_extensions (tv_settings env) mc (tv_repr env) reply now (tw_cache w);
          w1 = (if cache_fresh mc now (tw_cache w) \<or> \<not> api_configured mc then w
                else send_request (inventory_request cfg env) w)
      in (answer, w1\<lparr>tw_cache := cache\<rparr>))"

section \<open>The calling extension\<close>

record resolved_ext =
  re_value :: "string option"
  re_source :: string
  re_matched_line_id :: "string option"
  re_matched_line_phone_number :: "string option"
  re_candidate_count :: nat

definition plain_ext :: "string option \<Rightarrow> string \<Rightarrow> resolved_ext" where
  "plain_ext value source = \<lparr>re_value = value, re_source = source, re_matched_line_id = None,
     re_matched_line_phone_number = None, re_candidate_count = 0\<rparr>"

definition matched_ext :: "mango_extension list \<Rightarrow> string \<Rightarrow> mango_extension \<Rightarrow> resolved_ext" where
  "matched_ext exts source x = \<lparr>re_value = Some (mx_extension x), re_source = source,
     re_matched_line_id = mx_line_provider_resource_id x,
     re_matched_line_phone_number = mx_line_phone_number x, re_candidate_count = length exts\<rparr>"

definition match_extension :: "mango_extension list \<Rightarrow> string option \<Rightarrow> string option \<Rightarrow> mango_extension option" where
  "match_extension exts line_id line_phone =
     (let by_id = (if truthy line_id
                   then find (\<lambda>x. truthy (mx_line_provider_resource_id x) \<and> mx_line_provider_resource_id x = line_id) exts
                   else None);
          by_phone = (if truthy line_phone
                      then find (\<lambda>x. truthy (mx_line_phone_number x) \<and> mx_line_phone_number x = line_phone) exts
                      else None)
      in case by_id of Some x \<Rightarrow> Some x | None \<Rightarrow> by_phone)"

text \<open>The choice from a nonempty inventory.\<close>

definition choose_ext :: "mango_settings \<Rightarrow> tel_env \<Rightarrow> payload \<Rightarrow> mango_extension list \<Rightarrow> resolved_ext" where
  "choose_ext cfg env md exts =
     (let env_ext = strip (ms_from_ext cfg);
          env_match = (if env_ext \<noteq> [] then find (\<lambda>x. mx_extension x = env_ext) exts else None)
      in case env_match of
           Some x \<Rightarrow> matched_ext exts ''env'' x
         | None \<Rightarrow>
             (let line_id = strip (meta_text env md [''telephony_remote_line_id'', ''mango_remote_line_id'', ''line_number'']);
                  line_phone = strip (meta_text env md [''telephony_line_phone_number''])
              in case match_extension exts (Some line_id) (Some line_phone) of
                   Some x \<Rightarrow> matched_ext exts ''auto_discovered_by_line'' x
                 | None \<Rightarrow>
                     matched_ext exts ''auto_discovered_first_extension''
                       (hd (sort_key (\<lambda>x. (mx_extension x, mx_provider_resource_id x)) exts))))"

text \<open>What is asked for: the explicit extension, the one in the metadata, or neither.\<close>

definition given_ext :: "tel_env \<Rightarrow> string option \<Rightarrow> payload \<Rightarrow> resolved_ext option" where
  "given_ext env explicit md =
     (let direct = strip (case explicit of None \<Rightarrow> [] | Some x \<Rightarrow> x);
          from_md = strip (meta_text env md [''from_ext'', ''telephony_extension''])
      in if direct \<noteq> [] then Some (plain_ext (Some direct) ''explicit'')
         else if from_md \<noteq> [] then Some (plain_ext (Some from_md) ''metadata'')
         else None)"

definition resolve_mango_from_ext ::
    "mango_settings \<Rightarrow> tel_env \<Rightarrow> string option \<Rightarrow> payload option \<Rightarrow> tel_world \<Rightarrow> resolved_ext \<times> tel_world" where
  "resolve_mango_from_ext cfg env explicit metadata w =
     (let md = meta metadata in
      case given_ext env explicit md of
        Some x \<Rightarrow> (x, w)
      | None \<Rightarrow>
          (let (answer, w1) = fetch_extensions cfg env (tv_first_lookup env) w in
           (case answer of
              Inl e \<Rightarrow> plain_ext None ''auto_discovery_failed''
            | Inr [] \<Rightarrow>
                if strip (ms_from_ext cfg) \<noteq> []
                then plain_ext (Some (strip (ms_from_ext cfg))) ''env_no_inventory''
                else plain_ext None ''no_extensions''
            | Inr exts \<Rightarrow> choose_ext cfg env md exts, w1)))"

text \<open>Where an extension rings: its SIP targets.\<close>

definition extract_mango_extension_targets :: "tel_env \<Rightarrow> payload \<Rightarrow> (string \<times> string) list" where
  "extract_mango_extension_targets env p =
     (let numbers = (case dget p ''telephony'' of
                       Some (JObj t) \<Rightarrow> (case dget t ''numbers'' of Some (JList xs) \<Rightarrow> xs | _ \<Rightarrow> [])
                     | _ \<Rightarrow> [])
      in List.map_filter (\<lambda>item. case item of
           JObj d \<Rightarrow>
             (let number = strip (meta_text env d [''number'']);
                  protocol = lower (strip (meta_text env d [''protocol'']))
              in if number = [] then None
                 else Some (number, if protocol = [] then ''unknown'' else protocol))
         | _ \<Rightarrow> None) numbers)"

definition before :: "char \<Rightarrow> string \<Rightarrow> string" where
  "before d s = takeWhile (\<lambda>c. c \<noteq> d) s"

definition sip_host :: "string \<Rightarrow> string" where
  "sip_host target =
     (let remainder = drop 4 target;
          remainder = (if CHR ''@'' \<in> set remainder
                       then drop 1 (dropWhile (\<lambda>c. c \<noteq> CHR ''@'') remainder) else remainder)
      in lower (strip (before (CHR '':'') (before (CHR '';'') remainder))))"

definition mango_extension_targets_include_host :: "tel_env \<Rightarrow> payload \<Rightarrow> string \<Rightarrow> bool" where
  "mango_extension_targets_include_host env p host =
     (let expected = lower (strip host) in
      expected \<noteq> [] \<and> (\<exists>(target, protocol)\<in>set (extract_mango_extension_targets env p).
        protocol = ''sip''
        \<and> (if startswith (lower target) ''sip:'' then sip_host target = expected
           else lower (strip (case tv_hostname env target of None \<Rightarrow> [] | Some h \<Rightarrow> h)) = expected)))"

section \<open>Requests\<close>

text \<open>A POST to the API: the request is on record whatever comes of it.\<close>

definition mango_post ::
    "mango_settings \<Rightarrow> tel_env \<Rightarrow> string \<Rightarrow> payload \<Rightarrow> tel_world \<Rightarrow> (app_error, json) result \<times> tel_world" where
  "mango_post cfg env path params w =
     (let signed = mango_sign cfg env params in
      (case tv_post env path signed of
         Request_error exc \<Rightarrow> Inl (telephony_error (''Mango network error: '' @ exc))
       | Response status body raw \<Rightarrow>
           if 400 \<le> status
           then Inl (telephony_error (''Mango API error '' @ str_int status @ '' on '' @ path))
           else Inr (case body of Some j \<Rightarrow> j | None \<Rightarrow> JObj [(''raw'', JStr raw)]),
       send_request (Mango_post path signed) w))"

text \<open>Commands to FreeSWITCH in order, until one raises (\<open>None\<close>).\<close>

fun ask_all ::
    "(string \<Rightarrow> bool \<Rightarrow> (app_error, string) result) \<Rightarrow> string list \<Rightarrow> tel_world \<Rightarrow> string list option \<times> tel_world" where
  "ask_all execute [] w = (Some [], w)"
| "ask_all execute (c # cs) w =
     (let w1 = send_request (Esl_execute c False) w in
      case execute c False of
        Inl e \<Rightarrow> (None, w1)
      | Inr a \<Rightarrow> (let (r, w2) = ask_all execute cs w1 in (map_option (Cons a) r, w2)))"

section \<open>Legs\<close>

definition put_leg ::
    "string \<Rightarrow> leg_state \<Rightarrow> string option \<Rightarrow> string option \<Rightarrow> string option \<Rightarrow> tel_world \<Rightarrow> tel_world" where
  "put_leg leg st call_id transfer_id role w =
     w\<lparr>tw_legs := snd (set_leg_state (tw_clock w) leg st call_id transfer_id role None (tw_legs w))\<rparr>"

definition read_leg :: "string \<Rightarrow> tel_world \<Rightarrow> leg_state option" where
  "read_leg leg w = leg_state_in leg (tw_legs w)"

definition write_leg :: "string \<Rightarrow> leg_state \<Rightarrow> tel_world \<Rightarrow> tel_world" where
  "write_leg leg st w = put_leg leg st None None None w"

definition put_bridge_status :: "string \<Rightarrow> string \<Rightarrow> tel_world \<Rightarrow> tel_world" where
  "put_bridge_status key st w = w\<lparr>tw_legs := set_bridge_status key st (tw_legs w)\<rparr>"

definition put_whisper_status :: "string \<Rightarrow> string \<Rightarrow> tel_world \<Rightarrow> tel_world" where
  "put_whisper_status leg st w = w\<lparr>tw_legs := set_whisper_status leg st (tw_legs w)\<rparr>"

definition corr_map :: "string \<Rightarrow> string option \<Rightarrow> tel_world \<Rightarrow> tel_world" where
  "corr_map leg call_id w =
     w\<lparr>tw_corr := snd (upsert_mapping (tw_clock w) leg call_id (Some leg) None (tw_corr w))\<rparr>"

definition corr_report :: "string \<Rightarrow> leg_state \<Rightarrow> string \<Rightarrow> tel_world \<Rightarrow> tel_world" where
  "corr_report leg st fs_uuid w =
     w\<lparr>tw_corr := snd (set_freeswitch_state (tw_clock w) leg st (Some fs_uuid) None None (tw_corr w))\<rparr>"

text \<open>\<open>get_leg_state\<close>: the store, then the correlation (which is then stored), then \<open>FAILED\<close>.\<close>

definition mango_get_leg_state :: "string \<Rightarrow> tel_world \<Rightarrow> leg_state \<times> tel_world" where
  "mango_get_leg_state leg w =
     (case read_leg leg w of
        Some st \<Rightarrow> (st, w)
      | None \<Rightarrow>
          (case get_effective_state leg (tw_corr w) of
             Some st \<Rightarrow> (st, write_leg leg st w)
           | None \<Rightarrow> (Leg_FAILED, w)))"

definition missing_leg_error :: "app_error \<Rightarrow> bool" where
  "missing_leg_error e = (contains ''not found'' (lower (err_message e)) \<or> contains ''404'' (err_message e))"

definition terminate_leg :: "mango_settings \<Rightarrow> tel_env \<Rightarrow> string \<Rightarrow> tel_world \<Rightarrow> (app_error, unit) result \<times> tel_world" where
  "terminate_leg cfg env leg w =
     (if read_leg leg w = Some Leg_TERMINATED then (Inr (), w)
      else if is_mango_sip_trunk_configured cfg
      then (Inr (), write_leg leg Leg_TERMINATED
             (case tv_gateway env of
                Commands execute \<Rightarrow> send_request (Esl_execute (''uuid_kill '' @ leg) True) w
              | _ \<Rightarrow> w))
      else (let (r, w1) = mango_post cfg env ''/commands/hangup'' [(''call_id'', JStr leg)] w in
        case r of
          Inl e \<Rightarrow> if missing_leg_error e then (Inr (), write_leg leg Leg_TERMINATED w1) else (Inl e, w1)
        | Inr _ \<Rightarrow> (Inr (), write_leg leg Leg_TERMINATED w1)))"

section \<open>Waiting for the answer\<close>

definition over :: "leg_state option \<Rightarrow> bool" where
  "over st \<longleftrightarrow> st \<in> {Some Leg_TERMINATED, Some Leg_FAILED}"

definition answered_state_observed_via_correlation :: "string \<Rightarrow> tel_world \<Rightarrow> leg_state option" where
  "answered_state_observed_via_correlation leg w =
     (case corr_get leg (tw_corr w) of
        None \<Rightarrow> None
      | Some c \<Rightarrow>
          if over (cs_effective_state c) \<or> over (cs_freeswitch_state c) \<or> over (cs_mango_state c) then None
          else if cs_bridged_seen c then Some Leg_BRIDGED
          else if cs_answered_seen c then Some Leg_ANSWERED
          else None)"

definition wait_via_correlation :: "string \<Rightarrow> tel_world \<Rightarrow> leg_state option" where
  "wait_via_correlation leg w =
     (case answered_state_observed_via_correlation leg w of
        Some st \<Rightarrow> Some st
      | None \<Rightarrow>
          (case corr_get leg (tw_corr w) of
             None \<Rightarrow> None
           | Some c \<Rightarrow>
               if over (cs_effective_state c) then cs_effective_state c
               else (case get_effective_state leg (tw_corr w) of
                       None \<Rightarrow> None
                     | Some st \<Rightarrow>
                         if st \<in> {Leg_ANSWERED, Leg_BRIDGED, Leg_TERMINATED, Leg_FAILED} then Some st
                         else None)))"

definition probe_leg_id :: "string \<Rightarrow> tel_world \<Rightarrow> string" where
  "probe_leg_id leg w =
     (case corr_get leg (tw_corr w) of
        Some c \<Rightarrow> if truthy (cs_freeswitch_uuid c) then strip (the (cs_freeswitch_uuid c)) else leg
      | None \<Rightarrow> leg)"

text \<open>The channel variables after the channel was found to exist; \<open>endpoint_disposition\<close> is only logged.\<close>

definition probe_variables ::
    "(string \<Rightarrow> bool \<Rightarrow> (app_error, string) result) \<Rightarrow> string \<Rightarrow> string \<Rightarrow> tel_world \<Rightarrow> leg_state option \<times> tel_world" where
  "probe_variables execute leg probe w =
     (case ask_all execute (map (\<lambda>v. ''uuid_getvar '' @ probe @ '' '' @ v)
             [''answer_state'', ''channel_call_state'', ''endpoint_disposition'']) w of
        (Some [answer, call_state, _], w1) \<Rightarrow>
          if lower (strip answer) = ''answered''
          then (Some Leg_ANSWERED, corr_report leg Leg_ANSWERED probe (write_leg leg Leg_ANSWERED w1))
          else if upper (strip call_state) \<in> {''RINGING'', ''EARLY''} then (None, write_leg leg Leg_RINGING w1)
          else (None, w1)
      | (_, w1) \<Rightarrow> (None, w1))"

definition wait_via_freeswitch :: "gateway_if \<Rightarrow> string \<Rightarrow> tel_world \<Rightarrow> leg_state option \<times> tel_world" where
  "wait_via_freeswitch gw leg w =
     (case gw of
        Commands execute \<Rightarrow>
          (let probe = probe_leg_id leg w in
           case ask_all execute [''uuid_exists '' @ probe] w of
             (Some [found], w1) \<Rightarrow>
               if lower (strip found) = ''false'' then (None, w1) else probe_variables execute leg probe w1
           | (_, w1) \<Rightarrow> (None, w1))
      | _ \<Rightarrow> (None, w))"

definition wait_via_provider :: "mango_settings \<Rightarrow> gateway_if \<Rightarrow> string \<Rightarrow> tel_world \<Rightarrow> leg_state option \<times> tel_world" where
  "wait_via_provider cfg gw leg w =
     (case wait_via_correlation leg w of
        Some st \<Rightarrow> (Some st, w)
      | None \<Rightarrow> if is_mango_sip_trunk_configured cfg then wait_via_freeswitch gw leg w else (None, w))"

text \<open>One turn of a wait: the clock, what other tasks did, and the gateway's answers.\<close>

record tel_tick =
  tt_now :: time
  tt_others :: "tel_world \<Rightarrow> tel_world"
  tt_gateway :: gateway_if

definition store_tick :: "mango_settings \<Rightarrow> string \<Rightarrow> tel_tick \<Rightarrow> tel_world tick" where
  "store_tick cfg leg t =
     \<lparr>k_now = tt_now t, k_others = (\<lambda>w. (tt_others t w)\<lparr>tw_clock := tt_now t\<rparr>),
      k_poll = (\<lambda>w. case wait_via_provider cfg (tt_gateway t) leg w of
                       (Some st, w1) \<Rightarrow> (PollState st, w1)
                     | (None, w1) \<Rightarrow> (PollNothing, w1))\<rparr>"

definition await_leg ::
    "mango_settings \<Rightarrow> string \<Rightarrow> int \<Rightarrow> tel_tick list \<Rightarrow> tel_world \<Rightarrow> leg_state option waiting \<times> tel_world" where
  "await_leg cfg leg timeout ticks w =
     wait_for_leg_state read_leg write_leg leg {Leg_ANSWERED, Leg_BRIDGED} {Leg_FAILED, Leg_TERMINATED}
       (tw_clock w + seconds timeout) (map (store_tick cfg leg) ticks) w"

definition answer_timeout :: "mango_settings \<Rightarrow> int option \<Rightarrow> int" where
  "answer_timeout cfg timeout =
     (case timeout of Some n \<Rightarrow> if n \<noteq> 0 then n else ms_answer_wait_timeout_seconds cfg
      | None \<Rightarrow> ms_answer_wait_timeout_seconds cfg)"

definition wait_for_answered ::
    "mango_settings \<Rightarrow> string \<Rightarrow> int option \<Rightarrow> tel_tick list \<Rightarrow> tel_world
     \<Rightarrow> (app_error, leg_state) result waiting \<times> tel_world" where
  "wait_for_answered cfg leg timeout ticks w =
     (let t = answer_timeout cfg timeout in
      case await_leg cfg leg t ticks w of
        (Pending, w1) \<Rightarrow> (Pending, w1)
      | (Returned None, w1) \<Rightarrow>
          (Returned (Inl (telephony_error
             (''Timed out waiting for leg '' @ leg @ '' to answer after '' @ str_int t @ ''.0s''))), w1)
      | (Returned (Some st), w1) \<Rightarrow>
          if over (Some st)
          then (case answered_state_observed_via_correlation leg w1 of
                  Some st' \<Rightarrow> (Returned (Inr st'), write_leg leg st' w1)
                | None \<Rightarrow>
                    (Returned (Inl (telephony_error
                       (''Leg '' @ leg @ '' ended before answer: '' @ leg_value st))), w1))
          else (Returned (Inr st), w1))"

section \<open>Placing a call\<close>

record originate_result =
  or_leg_id :: string
  or_sip_call_id :: "string option"
  or_response :: payload

definition primary_line :: "mango_settings \<Rightarrow> string" where
  "primary_line cfg = mango_ru_trunk_number
     (if ms_primary_phone_number cfg \<noteq> [] then ms_primary_phone_number cfg
      else normalize_ru_phone (ms_primary_phone_number cfg))"

definition line_keys :: "string list" where
  "line_keys = [''telephony_line_phone_number'', ''line_phone_number'', ''mango_line_phone_number'',
     ''telephony_remote_line_id'', ''mango_remote_line_id'', ''line_number'']"

definition line_number :: "mango_settings \<Rightarrow> tel_env \<Rightarrow> payload \<Rightarrow> string" where
  "line_number cfg env md =
     (case meta_or md line_keys of
        Some v \<Rightarrow>
          (let normalized = mango_ru_trunk_number (py_str env v) in if normalized \<noteq> [] then normalized else py_str env v)
      | None \<Rightarrow> if primary_line cfg \<noteq> [] then primary_line cfg else ''0'')"

definition sip_command ::
    "mango_settings \<Rightarrow> string \<Rightarrow> string \<Rightarrow> string \<Rightarrow> string \<Rightarrow> string \<Rightarrow> string" where
  "sip_command cfg call_uid caller dial sip_user from_ext =
     ''{ignore_early_media=true,originate_timeout='' @ str_int (max 5 (ms_answer_wait_timeout_seconds cfg))
     @ '',origination_uuid='' @ call_uid
     @ '',origination_caller_id_number='' @ caller @ '',origination_caller_id_name='' @ caller
     @ '',effective_caller_id_number='' @ caller @ '',effective_caller_id_name='' @ caller
     @ '',origination_callee_id_number='' @ dial @ '',sip_from_user='' @ sip_user
     @ '',sip_from_host='' @ ms_sip_server cfg @ '',sip_cid_type=pid,mango_primary_number='' @ caller
     @ '',mango_from_extension='' @ from_ext @ ''}sofia/gateway/mango_primary/'' @ dial @ '' &park()''"

definition mango_sip_username :: "mango_settings \<Rightarrow> string" where
  "mango_sip_username cfg = lower (strip (before (CHR ''@'') (strip (ms_sip_login cfg))))"

definition mango_sip_realm :: "mango_settings \<Rightarrow> string" where
  "mango_sip_realm cfg =
     (let login = lower (strip (ms_sip_login cfg)); configured = lower (strip (ms_sip_server cfg)) in
      if configured \<noteq> [] then configured
      else if CHR ''@'' \<notin> set login then []
      else lower (strip (drop 1 (dropWhile (\<lambda>c. c \<noteq> CHR ''@'') login))))"

definition mango_sip_trunk_configured :: "mango_settings \<Rightarrow> bool" where
  "mango_sip_trunk_configured cfg \<longleftrightarrow> mango_sip_username cfg \<noteq> [] \<and> ms_sip_password cfg \<noteq> []
     \<and> mango_sip_realm cfg \<noteq> []"

definition sip_caller :: "string \<Rightarrow> string" where
  "sip_caller line = (if mango_sip_number line \<noteq> [] then mango_sip_number line else line)"

definition sip_user :: "mango_settings \<Rightarrow> string \<Rightarrow> string" where
  "sip_user cfg from_ext =
     (let u = strip (if mango_sip_username cfg \<noteq> [] then mango_sip_username cfg else from_ext)
      in if u \<noteq> [] then u else from_ext)"

definition sip_response :: "string \<Rightarrow> string \<Rightarrow> resolved_ext \<Rightarrow> string \<Rightarrow> string \<Rightarrow> string \<Rightarrow> string \<Rightarrow> payload" where
  "sip_response call_uid caller rext from_ext dial user reply =
     (let fields = parse_esl_reply_fields reply in
      [(''transport'', JStr ''freeswitch_sip''), (''gateway'', JStr ''mango_primary''),
       (''command_id'', JStr call_uid), (''line_number'', JStr caller), (''from_extension'', JStr from_ext),
       (''from_extension_source'', JStr (re_source rext)), (''dial_number'', JStr dial),
       (''sip_from_user'', JStr user), (''answered_from_esl_reply'', JBool (esl_reply_implies_answered reply)),
       (''remote_media_ip'', dget_null fields ''variable_remote_media_ip''),
       (''remote_media_port'', dget_null fields ''variable_remote_media_port''),
       (''remote_rtcp_port'', dget_null fields ''variable_rtp_remote_audio_rtcp_port''),
       (''local_media_ip'', dget_null fields ''variable_local_media_ip''),
       (''local_media_port'', dget_null fields ''variable_local_media_port''),
       (''esl_reply'', JStr reply), (''callback_uid_present'', JBool True)])"

definition err_reply :: "string \<Rightarrow> bool" where
  "err_reply reply \<longleftrightarrow> startswith (upper reply) ''-ERR''"

definition failure_cause :: "string \<Rightarrow> string" where
  "failure_cause reply = (let c = strip (drop 4 reply) in if c \<noteq> [] then c else ''originate_failed'')"

text \<open>What the stores hold once FreeSWITCH took the command.\<close>

definition sip_placed :: "tel_env \<Rightarrow> payload \<Rightarrow> string \<Rightarrow> string \<Rightarrow> tel_world \<Rightarrow> tel_world" where
  "sip_placed env md call_uid reply w =
     (let answered = esl_reply_implies_answered reply;
          w1 = corr_map call_uid (meta_opt env md ''call_id'') w;
          w2 = put_leg call_uid (if answered then Leg_ANSWERED else Leg_INITIATING)
                 (meta_opt env md ''call_id'') (meta_opt env md ''transfer_id'') (meta_opt env md ''role'') w1
      in if answered then corr_report call_uid Leg_ANSWERED call_uid w2 else w2)"

definition originate_call_via_freeswitch_sip ::
    "mango_settings \<Rightarrow> tel_env \<Rightarrow> string \<Rightarrow> string \<Rightarrow> string \<Rightarrow> payload \<Rightarrow> resolved_ext \<Rightarrow> tel_world
     \<Rightarrow> (app_error, originate_result) result \<times> tel_world" where
  "originate_call_via_freeswitch_sip cfg env phone from_ext line md rext w =
     (case tv_gateway env of
        No_gateway e \<Rightarrow> (Inl e, w)
      | No_commands \<Rightarrow>
          (Inl (telephony_error ''FreeSWITCH media gateway does not expose command execution for SIP originate.''), w)
      | Commands execute \<Rightarrow>
          (let call_uid = ''direct-'' @ tv_uuid_hex env; dial = sip_caller phone; caller = sip_caller line;
               user = sip_user cfg from_ext;
               command = ''originate '' @ sip_command cfg call_uid caller dial user from_ext;
               w1 = send_request (Esl_execute command True) w
           in case execute command True of
                Inl e \<Rightarrow> (Inl (telephony_error ''FreeSWITCH SIP originate failed''), w1)
              | Inr esl_reply \<Rightarrow>
                  (let reply = strip esl_reply in
                   if err_reply reply
                   then (Inl (telephony_error (''FreeSWITCH SIP originate failed: '' @ failure_cause reply)),
                         corr_report call_uid Leg_FAILED call_uid (write_leg call_uid Leg_FAILED w1))
                   else (Inr \<lparr>or_leg_id = call_uid, or_sip_call_id = Some call_uid,
                              or_response = sip_response call_uid caller rext from_ext dial user reply\<rparr>,
                         sip_placed env md call_uid reply w1))))"

text \<open>The callback of the API: the call gets the id that the API returns, or the command's own.\<close>

definition text_of :: "tel_env \<Rightarrow> json option \<Rightarrow> string" where
  "text_of env v = (case v of None \<Rightarrow> [] | Some j \<Rightarrow> py_str env j)"

definition callback_placed ::
    "tel_env \<Rightarrow> string \<Rightarrow> string \<Rightarrow> resolved_ext \<Rightarrow> string \<Rightarrow> payload \<Rightarrow> payload \<Rightarrow> tel_world
     \<Rightarrow> (app_error, originate_result) result \<times> tel_world" where
  "callback_placed env command_id line rext from_ext md resp w =
     (let uid = text_of env (dget resp ''uid'');
          result = strip (text_of env (dget resp ''result''));
          call_uid = (if uid = [] \<and> result = ''1000'' then command_id else uid)
      in if call_uid = [] then (Inl (telephony_error ''Mango callback API returned no uid''), w)
         else (Inr \<lparr>or_leg_id = call_uid, or_sip_call_id = None,
                    or_response = dmerge resp
                      [(''command_id'', JStr command_id), (''line_number'', JStr line),
                       (''from_extension'', JStr from_ext), (''from_extension_source'', JStr (re_source rext)),
                       (''callback_uid_present'', JBool (ojtruthy (dget resp ''uid'')))]\<rparr>,
               corr_map call_uid (meta_opt env md ''call_id'')
                 (put_leg call_uid Leg_INITIATING (meta_opt env md ''call_id'') (meta_opt env md ''transfer_id'')
                    (meta_opt env md ''role'') w)))"

definition originate_via_callback ::
    "mango_settings \<Rightarrow> tel_env \<Rightarrow> string \<Rightarrow> string \<Rightarrow> string \<Rightarrow> payload \<Rightarrow> resolved_ext \<Rightarrow> tel_world
     \<Rightarrow> (app_error, originate_result) result \<times> tel_world" where
  "originate_via_callback cfg env phone from_ext line md rext w =
     (let host = strip (case tv_backend_hostname env of None \<Rightarrow> [] | Some h \<Rightarrow> h);
          expected = (if host \<noteq> [] then host else ''84.247.184.72'');
          (answer, w0) = fetch_extensions cfg env (tv_second_lookup env) w;
          exts = (case answer of Inl _ \<Rightarrow> [] | Inr xs \<Rightarrow> xs);
          matched = find (\<lambda>x. mx_extension x = from_ext) exts;
          command_id = ''direct-'' @ tv_uuid_hex env
      in if (case matched of None \<Rightarrow> False
             | Some x \<Rightarrow> \<not> mango_extension_targets_include_host env (mx_raw_payload x) expected)
         then (Inl (telephony_error ''Primary Mango extension target is not configured for this VPS FreeSWITCH.''), w0)
         else (let (r, w1) = mango_post cfg env ''/commands/callback''
                 [(''command_id'', JStr command_id), (''from'', JObj [(''extension'', JStr from_ext)]),
                  (''to_number'', JStr phone), (''line_number'', JStr line)] w0
               in case r of
                    Inl e \<Rightarrow> (Inl e, w1)
                  | Inr (JObj resp) \<Rightarrow> callback_placed env command_id line rext from_ext md resp w1
                  | Inr _ \<Rightarrow> (Inl (OtherError ''AttributeError''), w1)))"

definition originate_call ::
    "mango_settings \<Rightarrow> tel_env \<Rightarrow> string \<Rightarrow> string option \<Rightarrow> payload option \<Rightarrow> tel_world
     \<Rightarrow> (app_error, originate_result) result \<times> tel_world" where
  "originate_call cfg env phone caller_id metadata w0 =
     (let (rext, w) = resolve_mango_from_ext cfg env (py_or caller_id (Some (ms_from_ext cfg))) metadata w0 in
      if \<not> truthy (re_value rext) then (Inl (telephony_error ''MANGO_FROM_EXT is not configured.''), w)
      else (let from_ext = the (re_value rext); md = meta metadata; line = line_number cfg env md;
                primary = primary_line cfg
            in if primary \<noteq> [] \<and> mango_digits line \<noteq> primary
               then (Inl (telephony_error ''Direct Mango originate blocked by single-number policy.''), w)
               else if is_mango_sip_trunk_configured cfg
               then originate_call_via_freeswitch_sip cfg env phone from_ext line md rext w
               else if \<not> (ms_api_key cfg \<noteq> [] \<and> ms_api_salt cfg \<noteq> [])
               then (Inl (telephony_error ''Mango SIP trunk is not configured and Mango API control-plane is disabled.''), w)
               else originate_via_callback cfg env phone from_ext line md rext w))"

section \<open>Connecting\<close>

record channel =
  ch_channel_id :: string
  ch_phone :: string
  ch_sip_call_id :: "string option"
  ch_provider_leg_id :: string
  ch_state :: leg_state
  ch_metadata :: payload

definition attach_existing_leg :: "tel_env \<Rightarrow> string \<Rightarrow> string \<Rightarrow> payload \<Rightarrow> tel_world \<Rightarrow> channel \<times> tel_world" where
  "attach_existing_leg env phone leg md w =
     (let w1 = put_leg leg Leg_ANSWERED (meta_opt env md ''call_id'') (meta_opt env md ''transfer_id'')
                 (meta_opt env md ''role'') w;
          w2 = corr_map leg (meta_opt env md ''call_id'') w1;
          w3 = corr_report leg Leg_ANSWERED leg w2
      in (\<lparr>ch_channel_id = leg, ch_phone = phone, ch_sip_call_id = None, ch_provider_leg_id = leg,
           ch_state = Leg_ANSWERED,
           ch_metadata = dmerge [(''internal_call_id'', dget_null md ''call_id''), (''existing_leg'', JBool True)] md\<rparr>, w3))"

text \<open>Up to ten looks at the correlation; \<open>others i\<close> is what happens in the pause after look \<open>i\<close>.\<close>

fun settle_leg_id :: "nat \<Rightarrow> (nat \<Rightarrow> tel_world \<Rightarrow> tel_world) \<Rightarrow> string \<Rightarrow> tel_world \<Rightarrow> string \<times> tel_world" where
  "settle_leg_id 0 others leg w = (leg, w)"
| "settle_leg_id (Suc n) others leg w =
     (let candidate = (case corr_get leg (tw_corr w) of
                         Some c \<Rightarrow> if truthy (cs_freeswitch_uuid c) then strip (the (cs_freeswitch_uuid c)) else []
                       | None \<Rightarrow> [])
      in if candidate \<noteq> [] \<and> candidate \<noteq> leg then (candidate, w)
         else settle_leg_id n others leg (others (9 - n) w))"

definition resolve_post_answer_provider_leg_id ::
    "(nat \<Rightarrow> tel_world \<Rightarrow> tel_world) \<Rightarrow> string \<Rightarrow> tel_world \<Rightarrow> string \<times> tel_world" where
  "resolve_post_answer_provider_leg_id others leg w =
     (let current = strip leg in
      if \<not> startswith current ''direct-'' then (current, w) else settle_leg_id 10 others current w)"

definition finish_connect ::
    "(nat \<Rightarrow> tel_world \<Rightarrow> tel_world) \<Rightarrow> string \<Rightarrow> originate_result \<Rightarrow> leg_state \<Rightarrow> tel_world \<Rightarrow> channel \<times> tel_world" where
  "finish_connect others phone r st w =
     (let (leg, w1) = resolve_post_answer_provider_leg_id others (or_leg_id r) w
      in (\<lparr>ch_channel_id = or_leg_id r, ch_phone = phone, ch_sip_call_id = or_sip_call_id r,
           ch_provider_leg_id = leg, ch_state = st, ch_metadata = or_response r\<rparr>, w1))"

definition mango_connect ::
    "mango_settings \<Rightarrow> tel_env \<Rightarrow> tel_tick list \<Rightarrow> (nat \<Rightarrow> tel_world \<Rightarrow> tel_world)
     \<Rightarrow> string \<Rightarrow> string option \<Rightarrow> payload option \<Rightarrow> tel_world \<Rightarrow> (app_error, channel) result waiting \<times> tel_world" where
  "mango_connect cfg env ticks others phone caller_id metadata w =
     (let md = meta metadata;
          existing = strip (meta_text env md [''existing_leg_id'', ''provider_leg_id'', ''mango_leg_id''])
      in if existing \<noteq> []
         then (let (c, w1) = attach_existing_leg env phone existing md w in (Returned (Inr c), w1))
         else case originate_call cfg env phone caller_id metadata w of
           (Inl e, w1) \<Rightarrow> (Returned (Inl e), w1)
         | (Inr r, w1) \<Rightarrow>
             if ojtruthy (dget (or_response r) ''answered_from_esl_reply'')
             then (let (c, w2) = finish_connect others phone r Leg_ANSWERED w1 in (Returned (Inr c), w2))
             else (case wait_for_answered cfg (or_leg_id r) None ticks w1 of
                     (Pending, w2) \<Rightarrow> (Pending, w2)
                   | (Returned (Inl e), w2) \<Rightarrow> (Returned (Inl e), w2)
                   | (Returned (Inr st), w2) \<Rightarrow>
                       (let (c, w3) = finish_connect others phone r st w2 in (Returned (Inr c), w3))))"

definition mango_disconnect :: "string \<Rightarrow> tel_world \<Rightarrow> (app_error, unit) result \<times> tel_world" where
  "mango_disconnect phone w = (Inl (OtherError ''NotImplementedError''), w)"

section \<open>Bridging and whispering\<close>

definition up :: "leg_state \<Rightarrow> bool" where
  "up st \<longleftrightarrow> st \<in> {Leg_ANSWERED, Leg_BRIDGED}"

definition status_tick :: "tel_tick \<Rightarrow> tel_world tick" where
  "status_tick t = \<lparr>k_now = tt_now t, k_others = (\<lambda>w. (tt_others t w)\<lparr>tw_clock := tt_now t\<rparr>),
     k_poll = Pair PollNothing\<rparr>"

definition wait_status ::
    "(string \<Rightarrow> leg_store \<Rightarrow> string option) \<Rightarrow> string \<Rightarrow> string set \<Rightarrow> string set \<Rightarrow> int \<Rightarrow> tel_tick list \<Rightarrow> tel_world
     \<Rightarrow> string option waiting \<times> tel_world" where
  "wait_status rd key accepted failed timeout ticks w =
     wait_for_status (\<lambda>k w. rd k (tw_legs w)) key accepted failed (tw_clock w + seconds timeout)
       (map status_tick ticks) w"

definition wait_for_bridge_confirmation ::
    "mango_settings \<Rightarrow> tel_tick list \<Rightarrow> string \<Rightarrow> string \<Rightarrow> tel_world \<Rightarrow> (app_error, unit) result waiting \<times> tel_world" where
  "wait_for_bridge_confirmation cfg ticks customer manager w =
     (let key = bridge_key customer manager in
      case wait_status get_bridge_status key {''bridge_confirmed''} {''bridge_failed''}
             (ms_bridge_confirm_timeout_seconds cfg) ticks w of
        (Pending, w1) \<Rightarrow> (Pending, w1)
      | (Returned status, w1) \<Rightarrow>
          if status = Some ''bridge_confirmed'' then (Returned (Inr ()), w1)
          else (let (c, w2) = mango_get_leg_state customer w1; (m, w3) = mango_get_leg_state manager w2 in
                if c = Leg_BRIDGED \<and> m = Leg_BRIDGED
                then (Returned (Inr ()), put_bridge_status key ''bridge_confirmed'' w3)
                else (Returned (Inl (telephony_error ''Bridge confirmation failed'')),
                      put_bridge_status key ''bridge_failed'' w3)))"

definition not_up :: "string \<Rightarrow> string \<Rightarrow> leg_state \<Rightarrow> app_error" where
  "not_up who leg st = telephony_error (''Cannot bridge: '' @ who @ '' leg '' @ leg @ '' in state '' @ leg_value st)"

text \<open>With both legs up: the transfer request, its confirmation, and the states.\<close>

definition transfer_legs ::
    "mango_settings \<Rightarrow> tel_env \<Rightarrow> tel_tick list \<Rightarrow> string \<Rightarrow> string \<Rightarrow> tel_world
     \<Rightarrow> (app_error, unit) result waiting \<times> tel_world" where
  "transfer_legs cfg env ticks customer manager w0 =
     (let key = bridge_key customer manager; w = put_bridge_status key ''bridge_started'' w0 in
      case mango_post cfg env ''/commands/transfer''
             [(''call_id'', JStr customer), (''to[number]'', JStr manager), (''method'', JStr ''blind'')] w of
        (Inl e, w1) \<Rightarrow>
          (let (r, w2) = terminate_leg cfg env manager (put_bridge_status key ''bridge_failed'' w1)
           in (Returned (case r of Inl e' \<Rightarrow> Inl e' | Inr _ \<Rightarrow> Inl e), w2))
      | (Inr _, w1) \<Rightarrow>
          (case wait_for_bridge_confirmation cfg ticks customer manager w1 of
             (Returned (Inr _), w2) \<Rightarrow>
               (Returned (Inr ()), put_bridge_status key ''bridge_confirmed''
                  (write_leg manager Leg_BRIDGED (write_leg customer Leg_BRIDGED w2)))
           | out \<Rightarrow> out))"

definition mango_bridge_legs ::
    "mango_settings \<Rightarrow> tel_env \<Rightarrow> tel_tick list \<Rightarrow> string \<Rightarrow> string \<Rightarrow> tel_world
     \<Rightarrow> (app_error, unit) result waiting \<times> tel_world" where
  "mango_bridge_legs cfg env ticks customer manager w0 =
     (let (c, w1) = mango_get_leg_state customer w0; (m, w2) = mango_get_leg_state manager w1 in
      if \<not> up c then (Returned (Inl (not_up ''customer'' customer c)), w2)
      else if \<not> up m then (Returned (Inl (not_up ''manager'' manager m)), w2)
      else transfer_legs cfg env ticks customer manager w2)"

definition mango_play_whisper ::
    "mango_settings \<Rightarrow> tel_env \<Rightarrow> tel_tick list \<Rightarrow> string \<Rightarrow> string \<Rightarrow> tel_world
     \<Rightarrow> (app_error, unit) result waiting \<times> tel_world" where
  "mango_play_whisper cfg env ticks leg message w0 =
     (let (st, w1) = mango_get_leg_state leg w0 in
      if st \<noteq> Leg_ANSWERED
      then (Returned (Inl (telephony_error (''Whisper requires answered manager leg, got '' @ leg_value st))),
            put_whisper_status leg ''whisper_failed'' w1)
      else case mango_post cfg env ''/commands/play''
             [(''call_id'', JStr leg), (''file'', JStr (''tts:'' @ take 500 message))]
             (put_whisper_status leg ''whisper_started'' w1) of
        (Inl e, w2) \<Rightarrow> (Returned (Inl e), put_whisper_status leg ''whisper_failed'' w2)
      | (Inr _, w2) \<Rightarrow>
          (case wait_status get_whisper_status leg {''whisper_finished''} {''whisper_failed''}
                  (ms_whisper_confirm_timeout_seconds cfg) ticks w2 of
             (Pending, w3) \<Rightarrow> (Pending, w3)
           | (Returned status, w3) \<Rightarrow>
               if status = Some ''whisper_finished'' then (Returned (Inr ()), w3)
               else (Returned (Inl (telephony_error ''Whisper confirmation timed out or failed.'')),
                     put_whisper_status leg ''whisper_failed'' w3)))"

section \<open>A concrete environment\<close>

definition demo_mango_settings :: mango_settings where
  "demo_mango_settings = \<lparr>ms_api_base_url = [], ms_api_key = ''key'', ms_api_salt = ''salt'', ms_from_ext = ''10'',
     ms_primary_phone_number = ''89300350609'', ms_sip_login = ''u@pbx'', ms_sip_password = ''p'',
     ms_sip_server = ''pbx'', ms_answer_wait_timeout_seconds = 75, ms_bridge_confirm_timeout_seconds = 12,
     ms_whisper_confirm_timeout_seconds = 15\<rparr>"

definition demo_gateway :: "string \<Rightarrow> gateway_if" where
  "demo_gateway leg = Commands (\<lambda>command background.
     Inr (if command = ''uuid_getvar '' @ leg @ '' answer_state'' then ''answered'' else ''+OK''))"

definition demo_tel_env :: "http_reply \<Rightarrow> tel_env" where
  "demo_tel_env reply = \<lparr>tv_dumps = (\<lambda>p. ''json''), tv_sha256 = (\<lambda>s. ''hash''), tv_repr = (\<lambda>v. ''repr''),
     tv_post = (\<lambda>path signed. reply), tv_gateway = demo_gateway ''direct-7'', tv_settings = default_settings,
     tv_first_lookup = (0, Response 200 (Some (JObj [])) []), tv_second_lookup = (0, Response 200 (Some (JObj [])) []),
     tv_hostname = (\<lambda>u. None), tv_backend_hostname = None, tv_uuid_hex = ''7''\<rparr>"

definition empty_tel_world :: tel_world where
  "empty_tel_world = \<lparr>tw_clock = 0, tw_legs = empty_leg_store, tw_corr = empty_corr_store, tw_cache = Map.empty, tw_sent = []\<rparr>"

definition quiet_tick :: "time \<Rightarrow> tel_tick" where
  "quiet_tick t = \<lparr>tt_now = t, tt_others = (\<lambda>w. w), tt_gateway = demo_gateway ''direct-7''\<rparr>"

section \<open>The adapter on the contract of the leg store\<close>

interpretation adapter_legs: leg_state_store read_leg write_leg
    "\<lambda>key w. (fst (mark_event_seen key (tw_legs w)), w\<lparr>tw_legs := snd (mark_event_seen key (tw_legs w))\<rparr>)"
    "\<lambda>key w. key \<in> seen_events (tw_legs w)"
proof
  show "read_leg leg (write_leg leg' st w) = (if leg = leg' then Some st else read_leg leg w)" for leg leg' st w
    using leg_state_in_set [of leg "tw_clock w" leg' st "tw_legs w"]
    by (simp add: read_leg_def write_leg_def put_leg_def record_leg_state_def)
qed (auto simp: mark_event_seen_def read_leg_def write_leg_def put_leg_def leg_state_in_def get_leg_state_def
      set_leg_state_def Let_def)

lemma read_put [simp]:
  "read_leg leg (put_leg leg' st a b c w) = (if leg = leg' then Some st else read_leg leg w)"
  by (simp add: read_leg_def put_leg_def leg_state_in_def get_leg_state_def set_leg_state_def Let_def
      snapshot_from_dict_def)

lemma read_write [simp]:
  "read_leg leg (write_leg leg' st w) = (if leg = leg' then Some st else read_leg leg w)"
  by (simp add: write_leg_def)

lemma read_frame [simp]:
  "read_leg leg (send_request x w) = read_leg leg w"
  "read_leg leg (corr_map l i w) = read_leg leg w"
  "read_leg leg (corr_report l st u w) = read_leg leg w"
  "read_leg leg (put_bridge_status k s w) = read_leg leg w"
  "read_leg leg (put_whisper_status k s w) = read_leg leg w"
  by (simp_all add: read_leg_def send_request_def corr_map_def corr_report_def put_bridge_status_def
      put_whisper_status_def set_bridge_status_def set_whisper_status_def leg_state_in_def get_leg_state_def)

lemma sent_frame [simp]:
  "tw_sent (send_request x w) = tw_sent w @ [x]"
  "tw_sent (put_leg leg st a b c w) = tw_sent w"
  "tw_sent (write_leg leg st w) = tw_sent w"
  "tw_sent (corr_map l i w) = tw_sent w"
  "tw_sent (corr_report l st u w) = tw_sent w"
  "tw_sent (put_bridge_status k s w) = tw_sent w"
  "tw_sent (put_whisper_status k s w) = tw_sent w"
  by (simp_all add: send_request_def put_leg_def write_leg_def corr_map_def corr_report_def
      put_bridge_status_def put_whisper_status_def)

definition bridge_status :: "string \<Rightarrow> string \<Rightarrow> tel_world \<Rightarrow> string option" where
  "bridge_status customer manager w = get_bridge_status (bridge_key customer manager) (tw_legs w)"

lemma bridge_status_frame [simp]:
  "bridge_status c m (put_bridge_status (bridge_key c m) s w) = Some s"
  "bridge_status c m (send_request x w) = bridge_status c m w"
  "bridge_status c m (write_leg leg st w) = bridge_status c m w"
  by (simp_all add: bridge_status_def put_bridge_status_def set_bridge_status_def get_bridge_status_def
      send_request_def write_leg_def put_leg_def set_leg_state_def Let_def)

lemma get_leg_state_frame:
  assumes "mango_get_leg_state leg w = (st, w')"
  shows "tw_sent w' = tw_sent w" "bridge_status c m w' = bridge_status c m w"
    "tw_corr w' = tw_corr w" "tw_clock w' = tw_clock w"
    "read_leg leg w' = Some st \<or> st = Leg_FAILED \<and> w' = w"
    "k \<noteq> leg \<Longrightarrow> read_leg k w' = read_leg k w"
  using assms by (auto simp: mango_get_leg_state_def write_leg_def put_leg_def bridge_status_def
      set_leg_state_def get_bridge_status_def Let_def read_leg_def leg_state_in_def get_leg_state_def
      snapshot_from_dict_def split: option.splits)

section \<open>The line of a call\<close>

lemma digits_digits [simp]: "mango_digits (filter is_digit s) = filter is_digit s"
proof -
  have "\<forall>c\<in>set (filter is_digit s). \<not> is_space c"
    by (auto simp: is_digit_def is_space_def Let_def)
  then have "strip (filter is_digit s) = filter is_digit s" by (rule strip_no_spaces)
  then show ?thesis by (simp add: mango_digits_def)
qed

lemma is_digit_8 [simp]: "is_digit CHR ''8''"
  by (simp add: is_digit_def)

lemma trunk_number_digits: "mango_digits (mango_ru_trunk_number s) = mango_ru_trunk_number s"
proof -
  define d where "d = filter is_digit (strip s)"
  have keep: "mango_digits x = x" if "\<forall>c\<in>set x. is_digit c" for x
    using digits_digits [of x] that by (simp add: filter_id_conv)
  have d: "\<forall>c\<in>set d. is_digit c" by (simp add: d_def)
  then have "\<forall>c\<in>set (drop 1 d). is_digit c" by (auto dest: in_set_dropD)
  with d keep [of d] keep [of "''8'' @ d"] keep [of "''8'' @ drop 1 d"] keep [of "[]"] show ?thesis
    by (simp add: mango_ru_trunk_number_def Let_def mango_digits_def [of s] flip: d_def)
qed

lemma sip_number_digits: "mango_digits a = mango_digits b \<Longrightarrow> mango_sip_number a = mango_sip_number b"
  by (simp add: mango_sip_number_def)

lemma sip_number_nonempty: "mango_digits a \<noteq> [] \<Longrightarrow> mango_sip_number a \<noteq> []"
  by (simp add: mango_sip_number_def Let_def)

lemma sip_caller_of_primary:
  assumes "mango_digits line = primary_line cfg" "primary_line cfg \<noteq> []"
  shows "sip_caller line = mango_sip_number (primary_line cfg)"
proof -
  have "mango_digits (primary_line cfg) = primary_line cfg"
    unfolding primary_line_def by (rule trunk_number_digits)
  with assms show ?thesis
    using sip_number_digits [of line "primary_line cfg"] sip_number_nonempty [of line]
    by (simp add: sip_caller_def)
qed

text \<open>
  The request that places a call to \<open>phone\<close> from the primary number, with the calling extension \<open>ext\<close>:
  the command to FreeSWITCH on the SIP trunk, the callback of the API without one.
\<close>

definition leaves_on_primary_line ::
    "mango_settings \<Rightarrow> tel_env \<Rightarrow> payload \<Rightarrow> string \<Rightarrow> string \<Rightarrow> mango_request \<Rightarrow> bool" where
  "leaves_on_primary_line cfg env md phone ext r \<longleftrightarrow>
     (if is_mango_sip_trunk_configured cfg
      then r = Esl_execute (''originate '' @ sip_command cfg (''direct-'' @ tv_uuid_hex env)
             (mango_sip_number (primary_line cfg)) (sip_caller phone) (sip_user cfg ext) ext) True
      else mango_digits (line_number cfg env md) = primary_line cfg
        \<and> r = Mango_post ''/commands/callback'' (mango_sign cfg env
             [(''command_id'', JStr (''direct-'' @ tv_uuid_hex env)), (''from'', JObj [(''extension'', JStr ext)]),
              (''to_number'', JStr phone), (''line_number'', JStr (line_number cfg env md))]))"

lemma post_sent:
  "mango_post cfg env path params w = (r, w') \<Longrightarrow>
   w' = send_request (Mango_post path (mango_sign cfg env params)) w"
  by (auto simp: mango_post_def Let_def)

lemma sip_originate_sent:
  assumes "originate_call_via_freeswitch_sip cfg env phone ext (line_number cfg env md) md rext w = (r, w')"
    and "mango_digits (line_number cfg env md) = primary_line cfg" "primary_line cfg \<noteq> []"
    and "is_mango_sip_trunk_configured cfg"
  shows "\<exists>xs. tw_sent w' = tw_sent w @ xs \<and> length xs \<le> 1
    \<and> (\<forall>x\<in>set xs. leaves_on_primary_line cfg env md phone ext x) \<and> (is_ok r \<longrightarrow> xs \<noteq> [])"
proof (cases "tv_gateway env")
  case (Commands execute)
  define x where "x = Esl_execute (''originate '' @ sip_command cfg (''direct-'' @ tv_uuid_hex env)
      (sip_caller (line_number cfg env md)) (sip_caller phone) (sip_user cfg ext) ext) True"
  have "tw_sent w' = tw_sent w @ [x]"
    using assms(1) Commands
    by (auto simp: originate_call_via_freeswitch_sip_def x_def sip_placed_def Let_def
        split: sum.splits if_splits)
  moreover have "leaves_on_primary_line cfg env md phone ext x"
    using sip_caller_of_primary [OF assms(2,3)] assms(4) by (simp add: leaves_on_primary_line_def x_def)
  ultimately show ?thesis by (intro exI [of _ "[x]"]) simp
qed (use assms(1) in \<open>auto simp: originate_call_via_freeswitch_sip_def\<close>)

lemma fetch_sent:
  assumes "fetch_extensions cfg env look w = (a, w')"
  shows "tw_sent w' = tw_sent w \<or> tw_sent w' = tw_sent w @ [inventory_request cfg env]"
    "tw_legs w' = tw_legs w" "tw_corr w' = tw_corr w"
  using assms by (auto simp: fetch_extensions_def send_request_def Let_def split: prod.splits if_splits)

lemma callback_sent:
  assumes "originate_via_callback cfg env phone ext (line_number cfg env md) rext_md rext w = (r, w')"
    and "rext_md = md" "mango_digits (line_number cfg env md) = primary_line cfg"
    and "\<not> is_mango_sip_trunk_configured cfg"
  shows "\<exists>inv xs. tw_sent w' = tw_sent w @ inv @ xs \<and> inv \<in> {[], [inventory_request cfg env]} \<and> length xs \<le> 1
    \<and> (\<forall>x\<in>set xs. leaves_on_primary_line cfg env md phone ext x) \<and> (is_ok r \<longrightarrow> xs \<noteq> [])"
proof -
  define params where "params = [(''command_id'', JStr (''direct-'' @ tv_uuid_hex env)),
    (''from'', JObj [(''extension'', JStr ext)]), (''to_number'', JStr phone),
    (''line_number'', JStr (line_number cfg env md))]"
  define x where "x = Mango_post ''/commands/callback'' (mango_sign cfg env params)"
  obtain a w0 where fetch: "fetch_extensions cfg env (tv_second_lookup env) w = (a, w0)" by force
  obtain b w1 where post: "mango_post cfg env ''/commands/callback'' params w0 = (b, w1)" by force
  have w1: "tw_sent w1 = tw_sent w0 @ [x]" using post_sent [OF post] by (simp add: x_def)
  have x: "leaves_on_primary_line cfg env md phone ext x"
    using assms(3,4) unfolding leaves_on_primary_line_def x_def params_def by simp
  have placed: "tw_sent (snd (callback_placed env c l re e md resp w1)) = tw_sent w1" for c l re e resp
    by (simp add: callback_placed_def Let_def)
  have "(w' = w0 \<and> \<not> is_ok r) \<or> tw_sent w' = tw_sent w1"
    using assms(1,2) fetch post placed unfolding originate_via_callback_def Let_def params_def [symmetric]
    by (auto split: if_splits sum.splits json.splits) (metis snd_conv)+
  then obtain xs where "tw_sent w' = tw_sent w0 @ xs" "xs = [] \<and> \<not> is_ok r \<or> xs = [x]"
    using w1 by auto
  moreover obtain inv where "tw_sent w0 = tw_sent w @ inv" "inv \<in> {[], [inventory_request cfg env]}"
    using fetch_sent(1) [OF fetch] by auto
  ultimately show ?thesis using x by (intro exI [of _ inv] exI [of _ xs]) auto
qed

lemma resolve_sent:
  assumes "resolve_mango_from_ext cfg env explicit metadata w = (x, w')"
  shows "\<exists>inv. tw_sent w' = tw_sent w @ inv \<and> inv \<in> {[], [inventory_request cfg env]}
    \<and> (given_ext env explicit (meta metadata) \<noteq> None \<longrightarrow> inv = [])"
    "tw_legs w' = tw_legs w" "tw_corr w' = tw_corr w"
proof -
  consider (given) y where "given_ext env explicit (meta metadata) = Some y" "w' = w"
    | (asked) a where "given_ext env explicit (meta metadata) = None"
        "fetch_extensions cfg env (tv_first_lookup env) w = (a, w')"
    using assms by (auto simp: resolve_mango_from_ext_def Let_def split: option.splits prod.splits)
  then have "(\<exists>inv. tw_sent w' = tw_sent w @ inv \<and> inv \<in> {[], [inventory_request cfg env]}
      \<and> (given_ext env explicit (meta metadata) \<noteq> None \<longrightarrow> inv = []))
    \<and> tw_legs w' = tw_legs w \<and> tw_corr w' = tw_corr w"
  proof cases
    case asked
    from fetch_sent [OF asked(2)] asked(1) show ?thesis by auto
  qed simp
  then show "\<exists>inv. tw_sent w' = tw_sent w @ inv \<and> inv \<in> {[], [inventory_request cfg env]}
      \<and> (given_ext env explicit (meta metadata) \<noteq> None \<longrightarrow> inv = [])"
    "tw_legs w' = tw_legs w" "tw_corr w' = tw_corr w" by simp_all
qed

text \<open>
  C22. A call leaves on the primary line or not at all. Let a primary number be configured. Whatever the
  metadata and the answers of FreeSWITCH and the Mango API are, \<open>originate_call\<close> makes at most one request
  that places a call, its last one; a call that was reported as placed made it. It is the \<open>originate\<close>
  command on the SIP trunk, or the callback of the API without one, with the primary number as the calling
  line, the given phone as the called one and the resolved extension as the caller's. Before it there are
  only the requests for the inventory of extensions: none on the trunk when the caller, the settings or the
  metadata name the extension, otherwise at most two. When the metadata name a line whose digits are not
  the primary's, no call is requested, and the legs and their correlation are as before.
\<close>

theorem calls_leave_on_primary_line:
  assumes "originate_call cfg env phone caller_id metadata w = (r, w')" and "primary_line cfg \<noteq> []"
  shows "\<exists>inv xs. tw_sent w' = tw_sent w @ inv @ xs
    \<and> length inv \<le> 2 \<and> set inv \<subseteq> {inventory_request cfg env}
    \<and> (is_mango_sip_trunk_configured cfg
         \<and> given_ext env (py_or caller_id (Some (ms_from_ext cfg))) (meta metadata) \<noteq> None \<longrightarrow> inv = [])
    \<and> length xs \<le> 1 \<and> (is_ok r \<longrightarrow> xs \<noteq> [])
    \<and> (\<forall>x\<in>set xs. leaves_on_primary_line cfg env (meta metadata) phone
         (the (re_value (fst (resolve_mango_from_ext cfg env (py_or caller_id (Some (ms_from_ext cfg))) metadata w)))) x)
    \<and> (mango_digits (line_number cfg env (meta metadata)) \<noteq> primary_line cfg
         \<longrightarrow> \<not> is_ok r \<and> xs = [] \<and> tw_legs w' = tw_legs w \<and> tw_corr w' = tw_corr w)"
proof -
  let ?explicit = "py_or caller_id (Some (ms_from_ext cfg))"
  let ?line = "line_number cfg env (meta metadata)"
  obtain rext w1 where res: "resolve_mango_from_ext cfg env ?explicit metadata w = (rext, w1)" by force
  obtain inv where inv: "tw_sent w1 = tw_sent w @ inv" "inv \<in> {[], [inventory_request cfg env]}"
    "given_ext env ?explicit (meta metadata) \<noteq> None \<longrightarrow> inv = []" using resolve_sent(1) [OF res] by blast
  note same = resolve_sent(2,3) [OF res]
  show ?thesis
  proof (cases "truthy (re_value rext) \<and> mango_digits ?line = primary_line cfg
      \<and> (is_mango_sip_trunk_configured cfg \<or> ms_api_key cfg \<noteq> [] \<and> ms_api_salt cfg \<noteq> [])")
    case False
    then have "\<not> is_ok r \<and> w' = w1"
      using assms res by (auto simp: originate_call_def Let_def split: if_splits)
    with inv same show ?thesis by (intro exI [of _ inv] exI [of _ "[]"]) auto
  next
    case ok: True
    show ?thesis
    proof (cases "is_mango_sip_trunk_configured cfg")
      case True
      with ok assms res have "originate_call_via_freeswitch_sip cfg env phone (the (re_value rext)) ?line
          (meta metadata) rext w1 = (r, w')" by (simp add: originate_call_def Let_def)
      from sip_originate_sent [OF this] ok assms(2) True obtain xs where "tw_sent w' = tw_sent w1 @ xs"
        "length xs \<le> 1" "\<forall>x\<in>set xs. leaves_on_primary_line cfg env (meta metadata) phone (the (re_value rext)) x"
        "is_ok r \<longrightarrow> xs \<noteq> []" by blast
      with inv ok res show ?thesis by (intro exI [of _ inv] exI [of _ xs]) auto
    next
      case False
      with ok assms res have "originate_via_callback cfg env phone (the (re_value rext)) ?line
          (meta metadata) rext w1 = (r, w')" by (auto simp: originate_call_def Let_def)
      from callback_sent [OF this refl] ok False obtain inv2 xs where "tw_sent w' = tw_sent w1 @ inv2 @ xs"
        "inv2 \<in> {[], [inventory_request cfg env]}" "length xs \<le> 1"
        "\<forall>x\<in>set xs. leaves_on_primary_line cfg env (meta metadata) phone (the (re_value rext)) x"
        "is_ok r \<longrightarrow> xs \<noteq> []" by blast
      with inv ok res False show ?thesis by (intro exI [of _ "inv @ inv2"] exI [of _ xs]) auto
    qed
  qed
qed

section \<open>The answer\<close>

lemma observed_up: "answered_state_observed_via_correlation leg w = Some st \<Longrightarrow> up st"
  by (auto simp: answered_state_observed_via_correlation_def up_def split: option.splits if_splits)

lemma demo_call_placed:
  "is_ok (fst (originate_call demo_mango_settings (demo_tel_env (Request_error ''down'')) ''+79990001122'' None None
     empty_tel_world)) \<and> primary_line demo_mango_settings \<noteq> []"
  by code_simp

theorem calls_leave_on_primary_line_witness:
  "\<exists>x. tw_sent (snd (originate_call demo_mango_settings (demo_tel_env (Request_error ''down'')) ''+79990001122'' None None
       empty_tel_world)) = [x]
     \<and> leaves_on_primary_line demo_mango_settings (demo_tel_env (Request_error ''down'')) [] ''+79990001122'' ''10'' x"
proof -
  let ?env = "demo_tel_env (Request_error ''down'')"
  let ?explicit = "py_or None (Some (ms_from_ext demo_mango_settings))"
  obtain r w' where c: "originate_call demo_mango_settings ?env ''+79990001122'' None None empty_tel_world
      = (r, w')" by force
  with demo_call_placed have ok: "is_ok r" and line: "primary_line demo_mango_settings \<noteq> []" by simp_all
  have trunk: "is_mango_sip_trunk_configured demo_mango_settings" by code_simp
  have given: "given_ext ?env ?explicit (meta None) \<noteq> None" by code_simp
  have ext: "the (re_value (fst (resolve_mango_from_ext demo_mango_settings ?env ?explicit None empty_tel_world))) = ''10''"
    by code_simp
  have nil: "tw_sent empty_tel_world = []" and md: "meta None = []" by (simp_all add: empty_tel_world_def meta_def)
  from calls_leave_on_primary_line [OF c line] ok trunk given obtain xs where xs: "tw_sent w' = xs" "length xs \<le> 1"
    "xs \<noteq> []" "\<forall>x\<in>set xs. leaves_on_primary_line demo_mango_settings ?env [] ''+79990001122'' ''10'' x"
    unfolding ext nil md by auto
  then obtain x where "xs = [x]" by (cases xs) auto
  with xs c show ?thesis by simp
qed

text \<open>
  C23. The wait for an answer is sound and ends. A leg that \<open>wait_for_answered\<close> reports is answered or
  bridged, and the leg store says so at that moment; otherwise it raises, and if it did not time out then
  the store holds the leg as failed or terminated and the correlation shows no answer that is still
  standing. When the clock advances by at least the poll interval between two turns, it is over after
  at most \<open>timeout / poll_interval + 1\<close> turns, whatever the gateway answers and other tasks do.
\<close>

theorem answer_wait_sound:
  assumes "wait_for_answered cfg leg timeout ticks w = (out, w')"
    and "ticks_from t step (map (store_tick cfg leg) ticks)" and "0 < step"
  shows "(tw_clock w + seconds (answer_timeout cfg timeout) \<le> t + step * (int (length ticks) - 1) \<and> ticks \<noteq> []
      \<longrightarrow> out \<noteq> Pending)
    \<and> (case out of
         Pending \<Rightarrow> True
       | Returned (Inr st) \<Rightarrow> st \<in> {Leg_ANSWERED, Leg_BRIDGED} \<and> read_leg leg w' = Some st
       | Returned (Inl e) \<Rightarrow>
           e = telephony_error (''Timed out waiting for leg '' @ leg @ '' to answer after ''
                 @ str_int (answer_timeout cfg timeout) @ ''.0s'')
           \<or> read_leg leg w' \<in> {Some Leg_FAILED, Some Leg_TERMINATED}
             \<and> answered_state_observed_via_correlation leg w' = None)"
proof -
  obtain r w1 where r: "await_leg cfg leg (answer_timeout cfg timeout) ticks w = (r, w1)" by force
  have stored: "(st \<in> {Leg_ANSWERED, Leg_BRIDGED} \<or> st \<in> {Leg_FAILED, Leg_TERMINATED}) \<and> read_leg leg w1 = Some st"
    if "r = Returned (Some st)" for st
    using adapter_legs.wait_returns_stored r that unfolding await_leg_def by blast
  have ends: "r \<noteq> Pending"
    if "tw_clock w + seconds (answer_timeout cfg timeout) \<le> t + step * (int (length ticks) - 1)" "ticks \<noteq> []"
    using adapter_legs.wait_ends [OF assms(2,3), of "tw_clock w + seconds (answer_timeout cfg timeout)" leg
        "{Leg_ANSWERED, Leg_BRIDGED}" "{Leg_FAILED, Leg_TERMINATED}" w] r that
    by (simp add: await_leg_def)
  show ?thesis
  proof (cases r)
    case Pending
    with ends r assms(1) show ?thesis by (auto simp: wait_for_answered_def)
  next
    case (Returned q)
    with r assms(1) stored observed_up show ?thesis
      by (auto simp: wait_for_answered_def Let_def over_def up_def
          split: option.splits if_splits)
  qed
qed

lemma demo_wait_answered:
  "fst (wait_for_answered demo_mango_settings ''direct-7'' None [quiet_tick 0, quiet_tick 400000] empty_tel_world)
     = Returned (Inr Leg_ANSWERED)"
  by code_simp

theorem answer_wait_sound_witness:
  "let (out, w') = wait_for_answered demo_mango_settings ''direct-7'' None [quiet_tick 0, quiet_tick 400000] empty_tel_world
   in out = Returned (Inr Leg_ANSWERED) \<and> read_leg ''direct-7'' w' = Some Leg_ANSWERED"
proof -
  obtain out w' where w: "wait_for_answered demo_mango_settings ''direct-7'' None [quiet_tick 0, quiet_tick 400000]
      empty_tel_world = (out, w')" by force
  have "ticks_from 0 400000 (map (store_tick demo_mango_settings ''direct-7'') [quiet_tick 0, quiet_tick 400000])"
    by (simp add: store_tick_def quiet_tick_def)
  from answer_wait_sound [OF w this] demo_wait_answered w show ?thesis by simp
qed

section \<open>Bridging\<close>

text \<open>Other tasks may make requests of their own, never take back one that was made.\<close>

definition keeps_sent :: "tel_tick list \<Rightarrow> bool" where
  "keeps_sent ticks \<longleftrightarrow> (\<forall>t\<in>set ticks. \<forall>x. \<exists>ys. tw_sent (tt_others t x) = tw_sent x @ ys)"

lemma status_tick_simps [simp]:
  "k_now (status_tick t) = tt_now t"
  "k_others (status_tick t) w = (tt_others t w)\<lparr>tw_clock := tt_now t\<rparr>"
  by (simp_all add: status_tick_def)

lemma wait_for_status_sent:
  assumes "keeps_sent ticks"
  shows "\<exists>ys. tw_sent (snd (wait_for_status f key accepted failed d (map status_tick ticks) w)) = tw_sent w @ ys"
  using assms
proof (induction ticks arbitrary: w)
  case (Cons t ts)
  then have "\<exists>ys. tw_sent (tt_others t w) = tw_sent w @ ys" by (meson keeps_sent_def list.set_intros(1))
  then obtain ys where ys: "tw_sent (tt_others t w) = tw_sent w @ ys" by blast
  have "keeps_sent ts" using Cons.prems by (auto simp: keeps_sent_def)
  from Cons.IH [OF this, of "(tt_others t w)\<lparr>tw_clock := tt_now t\<rparr>"] ys
  have "\<exists>zs. tw_sent (snd (wait_for_status f key accepted failed d (map status_tick ts)
      ((tt_others t w)\<lparr>tw_clock := tt_now t\<rparr>))) = tw_sent w @ zs" by auto
  with ys show ?case by (auto simp: Let_def split: option.split)
qed simp

lemma confirmation_cases:
  assumes "keeps_sent ticks" "wait_for_bridge_confirmation cfg ticks customer manager w = (out, w')"
  shows "(\<exists>ys. tw_sent w' = tw_sent w @ ys)
    \<and> (out = Pending \<or> out = Returned (Inr ())
       \<or> (\<exists>e. out = Returned (Inl e)) \<and> bridge_status customer manager w' = Some ''bridge_failed'')"
proof -
  obtain r w1 where r: "wait_status get_bridge_status (bridge_key customer manager) {''bridge_confirmed''}
      {''bridge_failed''} (ms_bridge_confirm_timeout_seconds cfg) ticks w = (r, w1)" by force
  have sent: "\<exists>ys. tw_sent w1 = tw_sent w @ ys"
    using wait_for_status_sent [OF assms(1)] r by (metis wait_status_def snd_conv)
  obtain c w2 where c: "mango_get_leg_state customer w1 = (c, w2)" by force
  obtain m w3 where m: "mango_get_leg_state manager w2 = (m, w3)" by force
  have "tw_sent w3 = tw_sent w1" using get_leg_state_frame(1) [OF c] get_leg_state_frame(1) [OF m] by simp
  with assms(2) r c m sent show ?thesis
    by (auto simp: wait_for_bridge_confirmation_def Let_def split: waiting.splits if_splits)
qed

lemma terminate_cases:
  assumes "terminate_leg cfg env leg w = (r, w')"
  shows "\<exists>w1 ys. tw_sent w1 = tw_sent w @ ys \<and> (\<forall>c m. bridge_status c m w1 = bridge_status c m w)
    \<and> (read_leg leg w = Some Leg_TERMINATED \<and> w' = w \<and> is_ok r \<or> w' = write_leg leg Leg_TERMINATED w1 \<and> is_ok r
       \<or> w' = w1 \<and> \<not> is_ok r \<and> \<not> is_mango_sip_trunk_configured cfg)"
proof (cases "read_leg leg w = Some Leg_TERMINATED")
  case True
  with assms have "w' = w \<and> is_ok r" by (auto simp: terminate_leg_def)
  with True show ?thesis by (intro exI [of _ w]) simp
next
  case gone: False
  show ?thesis
  proof (cases "is_mango_sip_trunk_configured cfg")
    case True
    define w1 where "w1 = (case tv_gateway env of
        Commands execute \<Rightarrow> send_request (Esl_execute (''uuid_kill '' @ leg) True) w | _ \<Rightarrow> w)"
    have "\<exists>ys. tw_sent w1 = tw_sent w @ ys" "\<forall>c m. bridge_status c m w1 = bridge_status c m w"
      by (simp_all add: w1_def split: gateway_if.split)
    moreover have "w' = write_leg leg Leg_TERMINATED w1 \<and> is_ok r"
      using assms gone True by (auto simp: terminate_leg_def w1_def)
    ultimately show ?thesis by blast
  next
    case False
    define w1 where "w1 = send_request (Mango_post ''/commands/hangup'' (mango_sign cfg env [(''call_id'', JStr leg)])) w"
    obtain a where post: "mango_post cfg env ''/commands/hangup'' [(''call_id'', JStr leg)] w = (a, w1)"
      by (simp add: mango_post_def Let_def w1_def)
    have "\<exists>ys. tw_sent w1 = tw_sent w @ ys" "\<forall>c m. bridge_status c m w1 = bridge_status c m w"
      by (simp_all add: w1_def)
    moreover have "w' = write_leg leg Leg_TERMINATED w1 \<and> is_ok r \<or> w' = w1 \<and> \<not> is_ok r"
      using assms gone False post by (auto simp: terminate_leg_def split: sum.splits if_splits)
    ultimately show ?thesis using False by blast
  qed
qed

lemma terminate_frame:
  assumes "terminate_leg cfg env leg w = (r, w')"
  shows "bridge_status c m w' = bridge_status c m w" "\<exists>ys. tw_sent w' = tw_sent w @ ys"
    "is_ok r \<Longrightarrow> read_leg leg w' = Some Leg_TERMINATED"
    "is_mango_sip_trunk_configured cfg \<Longrightarrow> is_ok r"
  using terminate_cases [OF assms] by auto

definition transfer_request :: "mango_settings \<Rightarrow> tel_env \<Rightarrow> string \<Rightarrow> string \<Rightarrow> mango_request" where
  "transfer_request cfg env customer manager = Mango_post ''/commands/transfer'' (mango_sign cfg env
     [(''call_id'', JStr customer), (''to[number]'', JStr manager), (''method'', JStr ''blind'')])"

text \<open>The API refuses the transfer request.\<close>

definition transfer_refused :: "mango_settings \<Rightarrow> tel_env \<Rightarrow> string \<Rightarrow> string \<Rightarrow> bool" where
  "transfer_refused cfg env customer manager \<longleftrightarrow> \<not> is_ok (fst (mango_post cfg env ''/commands/transfer''
     [(''call_id'', JStr customer), (''to[number]'', JStr manager), (''method'', JStr ''blind'')] empty_tel_world))"

lemma post_outcome: "fst (mango_post cfg env path params w) = fst (mango_post cfg env path params v)"
  by (simp add: mango_post_def Let_def)

lemma transfer_legs_cases:
  assumes "keeps_sent ticks" "transfer_legs cfg env ticks customer manager w = (out, w')"
  shows "(transfer_refused cfg env customer manager \<and> is_mango_sip_trunk_configured cfg
      \<longrightarrow> read_leg manager w' = Some Leg_TERMINATED)
    \<and> (\<exists>ys. tw_sent w' = tw_sent w @ transfer_request cfg env customer manager # ys)
    \<and> (case out of
         Pending \<Rightarrow> True
       | Returned (Inr _) \<Rightarrow> read_leg customer w' = Some Leg_BRIDGED \<and> read_leg manager w' = Some Leg_BRIDGED
           \<and> bridge_status customer manager w' = Some ''bridge_confirmed''
       | Returned (Inl _) \<Rightarrow> bridge_status customer manager w' = Some ''bridge_failed'')"
proof -
  let ?w = "put_bridge_status (bridge_key customer manager) ''bridge_started'' w"
  obtain a w1 where post: "mango_post cfg env ''/commands/transfer''
    [(''call_id'', JStr customer), (''to[number]'', JStr manager), (''method'', JStr ''blind'')] ?w = (a, w1)"
    by force
  have w1: "tw_sent w1 = tw_sent w @ [transfer_request cfg env customer manager]"
    using post_sent [OF post] by (simp add: transfer_request_def)
  have refused: "transfer_refused cfg env customer manager \<longleftrightarrow> \<not> is_ok a"
    using post post_outcome unfolding transfer_refused_def by (metis fst_conv)
  show ?thesis
  proof (cases a)
    case (Inl e)
    obtain r w2 where t: "terminate_leg cfg env manager
        (put_bridge_status (bridge_key customer manager) ''bridge_failed'' w1) = (r, w2)" by force
    with assms(2) post Inl have o: "out = Returned (case r of Inl e' \<Rightarrow> Inl e' | Inr _ \<Rightarrow> Inl e)" "w' = w2"
      by (simp_all add: transfer_legs_def Let_def)
    obtain ys where "tw_sent w2 = tw_sent w1 @ ys" using terminate_frame(2) [OF t] by auto
    with w1 have "tw_sent w2 = tw_sent w @ transfer_request cfg env customer manager # ys" by simp
    moreover have "bridge_status customer manager w2 = Some ''bridge_failed''"
      using terminate_frame(1) [OF t] by simp
    ultimately show ?thesis using terminate_frame(3,4) [OF t] o by (simp split: sum.split)
  next
    case (Inr v)
    obtain q w2 where q: "wait_for_bridge_confirmation cfg ticks customer manager w1 = (q, w2)" by force
    from confirmation_cases [OF assms(1) q] obtain ys where ys: "tw_sent w2 = tw_sent w1 @ ys"
      and cases: "q = Pending \<or> q = Returned (Inr ())
        \<or> (\<exists>e. q = Returned (Inl e)) \<and> bridge_status customer manager w2 = Some ''bridge_failed''" by blast
    have sent: "tw_sent w2 = tw_sent w @ transfer_request cfg env customer manager # ys" using ys w1 by simp
    have run: "q = Pending \<Longrightarrow> out = Pending \<and> w' = w2"
      "q = Returned (Inl e) \<Longrightarrow> out = Returned (Inl e) \<and> w' = w2"
      "q = Returned (Inr ()) \<Longrightarrow> out = Returned (Inr ())
        \<and> w' = put_bridge_status (bridge_key customer manager) ''bridge_confirmed''
             (write_leg manager Leg_BRIDGED (write_leg customer Leg_BRIDGED w2))" for e
      using assms(2) post Inr q by (simp_all add: transfer_legs_def Let_def)
    from cases show ?thesis
    proof (elim disjE exE conjE)
      assume "q = Pending"
      with run(1) sent refused Inr show ?thesis by simp
    next
      assume "q = Returned (Inr ())"
      with run(3) sent refused Inr show ?thesis by simp
    next
      fix e assume "q = Returned (Inl e)" "bridge_status customer manager w2 = Some ''bridge_failed''"
      with run(2) [of e] sent refused Inr show ?thesis by simp
    qed
  qed
qed

text \<open>
  C24. Only legs that are up are bridged. Unless the customer's and the manager's leg are answered or
  already bridged, \<open>bridge_legs\<close> raises without any request to the API and leaves the status of the
  bridge alone. If both are up, it makes the transfer request for this pair; when it returns, both legs
  are stored as bridged and the bridge as confirmed; when it raises, the bridge is stored as failed. If
  the API refuses the request and the legs run on the SIP trunk, the manager's leg is terminated.
\<close>

theorem only_live_legs_bridged:
  assumes "mango_bridge_legs cfg env ticks customer manager w = (out, w')" and "keeps_sent ticks"
  shows "let (c, w1) = mango_get_leg_state customer w; (m, w2) = mango_get_leg_state manager w1
    in if c \<notin> {Leg_ANSWERED, Leg_BRIDGED} \<or> m \<notin> {Leg_ANSWERED, Leg_BRIDGED}
       then (\<exists>e. out = Returned (Inl e)) \<and> tw_sent w' = tw_sent w
         \<and> bridge_status customer manager w' = bridge_status customer manager w
       else (transfer_refused cfg env customer manager \<and> is_mango_sip_trunk_configured cfg
           \<longrightarrow> read_leg manager w' = Some Leg_TERMINATED)
         \<and> (\<exists>ys. tw_sent w' = tw_sent w @ transfer_request cfg env customer manager # ys)
         \<and> (case out of
              Pending \<Rightarrow> True
            | Returned (Inr _) \<Rightarrow> read_leg customer w' = Some Leg_BRIDGED \<and> read_leg manager w' = Some Leg_BRIDGED
                \<and> bridge_status customer manager w' = Some ''bridge_confirmed''
            | Returned (Inl _) \<Rightarrow> bridge_status customer manager w' = Some ''bridge_failed'')"
proof -
  obtain c w1 where c: "mango_get_leg_state customer w = (c, w1)" by force
  obtain m w2 where m: "mango_get_leg_state manager w1 = (m, w2)" by force
  have same: "tw_sent w2 = tw_sent w" "bridge_status customer manager w2 = bridge_status customer manager w"
    using get_leg_state_frame [OF c] get_leg_state_frame [OF m] by simp_all
  show ?thesis
  proof (cases "up c \<and> up m")
    case True
    then have "transfer_legs cfg env ticks customer manager w2 = (out, w')"
      using assms(1) c m by (simp add: mango_bridge_legs_def)
    from transfer_legs_cases [OF assms(2) this] same
    have big: "(transfer_refused cfg env customer manager \<and> is_mango_sip_trunk_configured cfg
           \<longrightarrow> read_leg manager w' = Some Leg_TERMINATED)
         \<and> (\<exists>ys. tw_sent w' = tw_sent w @ transfer_request cfg env customer manager # ys)
         \<and> (case out of
              Pending \<Rightarrow> True
            | Returned (Inr _) \<Rightarrow> read_leg customer w' = Some Leg_BRIDGED \<and> read_leg manager w' = Some Leg_BRIDGED
                \<and> bridge_status customer manager w' = Some ''bridge_confirmed''
            | Returned (Inl _) \<Rightarrow> bridge_status customer manager w' = Some ''bridge_failed'')" by simp
    have both: "\<not> (c \<notin> {Leg_ANSWERED, Leg_BRIDGED} \<or> m \<notin> {Leg_ANSWERED, Leg_BRIDGED})"
      using True by (simp add: up_def)
    show ?thesis unfolding c m Let_def prod.case by (subst if_not_P [OF both]) (rule big)
  next
    case False
    then have "w' = w2 \<and> (\<exists>e. out = Returned (Inl e))"
      using assms(1) c m by (auto simp: mango_bridge_legs_def split: if_splits)
    with False same c m show ?thesis by (auto simp: up_def)
  qed
qed

definition demo_bridge_world :: tel_world where
  "demo_bridge_world = write_leg ''C'' Leg_ANSWERED (write_leg ''M'' Leg_ANSWERED empty_tel_world)"

text \<open>The API accepts the transfer; the confirmation comes, or does not.\<close>

definition confirm_tick :: "time \<Rightarrow> tel_tick" where
  "confirm_tick t = \<lparr>tt_now = t, tt_others = put_bridge_status (bridge_key ''C'' ''M'') ''bridge_confirmed'',
     tt_gateway = No_commands\<rparr>"

lemma demo_bridge:
  "fst (mango_bridge_legs demo_mango_settings (demo_tel_env (Response 200 (Some (JObj [])) [])) [confirm_tick 5]
     ''C'' ''M'' demo_bridge_world) = Returned (Inr ())"
  by code_simp

lemma demo_bridge_states:
  "fst (mango_get_leg_state ''C'' demo_bridge_world) = Leg_ANSWERED"
  "fst (mango_get_leg_state ''M'' (snd (mango_get_leg_state ''C'' demo_bridge_world))) = Leg_ANSWERED"
  subgoal by code_simp
  subgoal by code_simp
  done

theorem only_live_legs_bridged_witness:
  "let (out, w') = mango_bridge_legs demo_mango_settings (demo_tel_env (Response 200 (Some (JObj [])) []))
       [confirm_tick 5] ''C'' ''M'' demo_bridge_world
   in out = Returned (Inr ()) \<and> read_leg ''C'' w' = Some Leg_BRIDGED \<and> read_leg ''M'' w' = Some Leg_BRIDGED"
proof -
  let ?env = "demo_tel_env (Response 200 (Some (JObj [])) [])"
  obtain out w' where b: "mango_bridge_legs demo_mango_settings ?env [confirm_tick 5] ''C'' ''M'' demo_bridge_world
      = (out, w')" by force
  have "keeps_sent [confirm_tick 5]" by (simp add: keeps_sent_def confirm_tick_def)
  from only_live_legs_bridged [OF b this] demo_bridge demo_bridge_states b show ?thesis
    by (simp add: Let_def split: prod.splits)
qed

section \<open>Behaviours worth knowing\<close>

text \<open>
  A bridge that the API accepted but nobody confirmed leaves both legs up: no request ends either,
  where the adapter's interface asks that both be terminated.
\<close>

theorem unconfirmed_bridge_keeps_legs:
  "let (out, w') = mango_bridge_legs demo_mango_settings (demo_tel_env (Response 200 (Some (JObj [])) []))
       [quiet_tick 13000000] ''C'' ''M'' demo_bridge_world
   in out = Returned (Inl (telephony_error ''Bridge confirmation failed''))
     \<and> read_leg ''C'' w' = Some Leg_ANSWERED \<and> read_leg ''M'' w' = Some Leg_ANSWERED
     \<and> length (tw_sent w') = 1"
  by code_simp

text \<open>An API answer with a null uid and result 1000 yields a leg with the id \<open>None\<close>, not the command's id.\<close>

theorem null_uid_becomes_text:
  "callback_placed env command_id line rext ext md [(''uid'', JNull), (''result'', JNum 1000)] w = (r, w')
   \<Longrightarrow> map_option or_leg_id (case r of Inl _ \<Rightarrow> None | Inr x \<Rightarrow> Some x) = Some ''None''"
  by (auto simp: callback_placed_def text_of_def json_str_def Let_def)

text \<open>
  The environment's extension is handed to the choice as an explicit one, so it is never looked up in
  the inventory, though the choice has a branch that does so.
\<close>

theorem environment_extension_unchecked:
  "strip (ms_from_ext cfg) \<noteq> [] \<Longrightarrow>
   resolve_mango_from_ext cfg env (py_or None (Some (ms_from_ext cfg))) md w
     = (plain_ext (Some (strip (ms_from_ext cfg))) ''explicit'', w)"
  by (cases "ms_from_ext cfg") (simp_all add: resolve_mango_from_ext_def given_ext_def Let_def)

text \<open>
  The settings take a login with a domain as a configured trunk; the adapter also wants the server, so
  it then calls through the API.
\<close>

theorem trunk_checks_disagree:
  "let cfg = demo_mango_settings\<lparr>ms_sip_server := []\<rparr>
   in mango_sip_trunk_configured cfg \<and> \<not> is_mango_sip_trunk_configured cfg"
  by code_simp

text \<open>Ending a leg is idempotent: once it is recorded as ended, nothing more is asked and nothing changes.\<close>

theorem terminate_leg_idempotent:
  assumes "terminate_leg cfg env leg w = (Inr u, w')"
  shows "read_leg leg w' = Some Leg_TERMINATED \<and> terminate_leg cfg env' leg w' = (Inr (), w')"
  using terminate_frame(3) [OF assms] by (simp add: terminate_leg_def)

end
