(* ===== verification/AudioBridge.thy ===== *)
theory AudioBridge
  imports MediaGateway MangoTelephony
begin

text \<open>
  The audio bridges between a direct session and the telephone line: \<open>SilenceAudioBridge\<close> and
  \<open>NullAudioBridge\<close> of \<open>app/integrations/telephony/audio_bridge.py\<close>, \<open>FreeSwitchAudioBridge\<close> of
  \<open>freeswitch_bridge.py\<close> on the media gateway, and \<open>attach_audio_bridge\<close> of the Mango adapter. The state of
  a FreeSWITCH bridge is the object together with the gateway it was given. A generator \<open>audio_in\<close> is a
  check when it starts and turns while it runs. The pacing of the silence is not modelled.

  What a session relies on is the locale \<open>audio_bridge\<close>, interpreted on the three bridges. The lemmas
  show which audio a reader gets, that the bridge keeps the gateway consistent, that closing an open
  bridge releases its session, and that a hangup keeps the session from being released.
\<close>

section \<open>The contract of a bridge\<close>

datatype reader_turn = Reader_end | Reader_wait | Reader_skip | Reader_chunk "byte list"

datatype bridge_use = Use_close | Use_read | Use_write "byte list"

locale audio_bridge =
  fixes opened :: "'s \<Rightarrow> bool"
    and shut :: "'s \<Rightarrow> 's"
    and reading :: "'s \<Rightarrow> reader_turn \<times> 's"
    and writing :: "byte list \<Rightarrow> 's \<Rightarrow> 's"
  assumes shut_closes: "\<not> opened (shut s)"
    and shut_idle: "\<not> opened s \<Longrightarrow> shut s = s"
    and reading_idle: "\<not> opened s \<Longrightarrow> reading s = (Reader_end, s)"
    and writing_idle: "\<not> opened s \<Longrightarrow> writing pcm s = s"
begin

fun used :: "bridge_use \<Rightarrow> 's \<Rightarrow> 's" where
  "used Use_close s = shut s"
| "used Use_read s = snd (reading s)"
| "used (Use_write pcm) s = writing pcm s"

lemma shut_twice: "shut (shut s) = shut s"
  by (simp add: shut_closes shut_idle)

lemma idle_used: "\<not> opened s \<Longrightarrow> fold used us s = s"
proof (induction us)
  case (Cons u us)
  then have "used u s = s" by (cases u) (simp_all add: shut_idle reading_idle writing_idle)
  with Cons show ?case by simp
qed simp

lemma silent_after_shut: "fold used us (shut s) = shut s \<and> fst (reading (fold used us (shut s))) = Reader_end"
  by (simp add: idle_used shut_closes reading_idle)

end

section \<open>The bridges without a line\<close>

definition silence_chunk :: "byte list" where
  "silence_chunk = replicate 640 0"

record silence_bridge =
  sb_is_open :: bool
  sb_test_audio :: "byte list list"

definition new_silence_bridge :: silence_bridge where
  "new_silence_bridge = \<lparr>sb_is_open = False, sb_test_audio = []\<rparr>"

definition silence_open :: "silence_bridge \<Rightarrow> silence_bridge" where
  "silence_open b = b\<lparr>sb_is_open := True\<rparr>"

definition silence_close :: "silence_bridge \<Rightarrow> silence_bridge" where
  "silence_close b = (if \<not> sb_is_open b then b else b\<lparr>sb_is_open := False\<rparr>)"

definition silence_audio_in :: "silence_bridge \<Rightarrow> reader_turn \<times> silence_bridge" where
  "silence_audio_in b =
     (if \<not> sb_is_open b then (Reader_end, b)
      else case sb_test_audio b of
             chunk # rest \<Rightarrow> (Reader_chunk chunk, b\<lparr>sb_test_audio := rest\<rparr>)
           | [] \<Rightarrow> (Reader_chunk silence_chunk, b))"

definition silence_audio_out :: "byte list \<Rightarrow> silence_bridge \<Rightarrow> silence_bridge" where
  "silence_audio_out pcm b = b"

definition silence_inject_audio :: "byte list \<Rightarrow> silence_bridge \<Rightarrow> silence_bridge" where
  "silence_inject_audio pcm b = b\<lparr>sb_test_audio := sb_test_audio b @ [pcm]\<rparr>"

record null_bridge =
  nb_is_open :: bool

definition null_open :: "null_bridge \<Rightarrow> null_bridge" where
  "null_open b = b\<lparr>nb_is_open := True\<rparr>"

definition null_close :: "null_bridge \<Rightarrow> null_bridge" where
  "null_close b = b\<lparr>nb_is_open := False\<rparr>"

definition null_audio_in :: "null_bridge \<Rightarrow> reader_turn \<times> null_bridge" where
  "null_audio_in b = (Reader_end, b)"

definition null_audio_out :: "byte list \<Rightarrow> null_bridge \<Rightarrow> null_bridge" where
  "null_audio_out pcm b = b"

interpretation silence: audio_bridge sb_is_open silence_close silence_audio_in silence_audio_out
  by unfold_locales (simp_all add: silence_close_def silence_audio_in_def silence_audio_out_def)

interpretation null: audio_bridge nb_is_open null_close null_audio_in null_audio_out
  by unfold_locales (simp_all add: null_close_def null_audio_in_def null_audio_out_def)

section \<open>The bridge on the media gateway\<close>

record fs_bridge =
  fb_is_open :: bool
  fb_session_id :: "string option"
  fb_hangup_reason :: "string option"
  fb_barge_in :: bool

type_synonym fs_line = "fs_bridge \<times> gateway"

definition new_fs_bridge :: fs_bridge where
  "new_fs_bridge = \<lparr>fb_is_open = False, fb_session_id = None, fb_hangup_reason = None, fb_barge_in = False\<rparr>"

definition bridge_call_id :: "tel_env \<Rightarrow> channel \<Rightarrow> string" where
  "bridge_call_id env ch =
     (case dget_null (ch_metadata ch) ''internal_call_id'' of JNull \<Rightarrow> ch_channel_id ch | v \<Rightarrow> py_str env v)"

definition bridge_mango_leg :: "channel \<Rightarrow> string" where
  "bridge_mango_leg ch = (if ch_provider_leg_id ch \<noteq> [] then ch_provider_leg_id ch else ch_channel_id ch)"

text \<open>A provisional leg is replaced by the channel that FreeSWITCH reported for it.\<close>

definition bridge_provider_leg :: "string \<Rightarrow> corr_store \<Rightarrow> string" where
  "bridge_provider_leg leg s =
     (if startswith leg ''direct-''
      then (case corr_get leg s of
              Some c \<Rightarrow> if truthy (cs_freeswitch_uuid c) then the (cs_freeswitch_uuid c) else leg
            | None \<Rightarrow> leg)
      else leg)"

definition bridge_metadata :: "tel_env \<Rightarrow> channel \<Rightarrow> attach_metadata" where
  "bridge_metadata env ch =
     \<lparr>am_mango_leg_id = Some (bridge_mango_leg ch),
      am_answered_from_esl_reply = ojtruthy (dget (ch_metadata ch) ''answered_from_esl_reply''),
      am_remote_media_ip = meta_opt env (ch_metadata ch) ''remote_media_ip'',
      am_remote_media_port = meta_opt env (ch_metadata ch) ''remote_media_port''\<rparr>"

definition fs_bridge_open ::
    "fs_config \<Rightarrow> resampler \<Rightarrow> gateway_env \<Rightarrow> tel_env \<Rightarrow> channel \<Rightarrow> fs_line \<Rightarrow> (app_error, unit) result \<times> fs_line" where
  "fs_bridge_open cfg rs genv env ch l =
     (let (b, g) = l; leg = bridge_mango_leg ch in
      case attach_session cfg rs genv (bridge_call_id env ch) (bridge_provider_leg leg (gw_corr g))
             (bridge_metadata env ch) g of
        (Inl e, g1) \<Rightarrow> (Inl e, (b, g1))
      | (Inr sid, g1) \<Rightarrow> (Inr (), (b\<lparr>fb_session_id := Some sid, fb_is_open := True\<rparr>, g1)))"

definition fs_bridge_close :: "fs_config \<Rightarrow> fs_line \<Rightarrow> fs_line" where
  "fs_bridge_close cfg l =
     (let (b, g) = l in
      if \<not> fb_is_open b then l
      else (b\<lparr>fb_is_open := False\<rparr>,
            if truthy (fb_session_id b) then detach_session cfg (the (fb_session_id b)) g else g))"

definition attached :: "fs_bridge \<Rightarrow> bool" where
  "attached b = (fb_is_open b \<and> truthy (fb_session_id b))"

text \<open>One event of the gateway's generator, in the loop of \<open>audio_in\<close>.\<close>

definition bridge_reads :: "media_event \<Rightarrow> fs_bridge \<Rightarrow> reader_turn \<times> fs_bridge" where
  "bridge_reads evt b =
     (if me_type evt = Ev_AUDIO_IN \<and> me_pcm evt \<noteq> None \<and> me_pcm evt \<noteq> Some []
      then (Reader_chunk (the (me_pcm evt)), b)
      else if me_type evt = Ev_BARGE_IN then (Reader_skip, b\<lparr>fb_barge_in := True\<rparr>)
      else if me_type evt = Ev_HANGUP
      then (Reader_end, b\<lparr>fb_hangup_reason := me_reason evt, fb_is_open := False\<rparr>)
      else (Reader_skip, b))"

definition fs_audio_turn :: "string \<Rightarrow> fs_line \<Rightarrow> reader_turn \<times> fs_line" where
  "fs_audio_turn sid l =
     (let (b, g) = l in
      case next_event sid g of
        (Turn_end, g1) \<Rightarrow> (Reader_end, (b, g1))
      | (Turn_wait, g1) \<Rightarrow> (Reader_wait, (b, g1))
      | (Turn_yield evt final, g1) \<Rightarrow> (let (t, b1) = bridge_reads evt b in (t, (b1, g1))))"

text \<open>A reader that is started on the bridge: nothing comes from a bridge that is not open.\<close>

definition fs_audio_in :: "fs_line \<Rightarrow> reader_turn \<times> fs_line" where
  "fs_audio_in l =
     (if \<not> attached (fst l) then (Reader_end, l) else fs_audio_turn (the (fb_session_id (fst l))) l)"

definition fs_audio_out ::
    "fs_config \<Rightarrow> resampler \<Rightarrow> byte list \<Rightarrow> fs_line \<Rightarrow> (app_error, unit) result \<times> fs_line" where
  "fs_audio_out cfg rs pcm l =
     (let (b, g) = l in
      if \<not> attached b then (Inr (), l)
      else (let (r, g1) = send_audio cfg rs (the (fb_session_id b)) pcm g in (r, (b, g1))))"

definition fs_send_interrupt :: "fs_config \<Rightarrow> fs_line \<Rightarrow> fs_line" where
  "fs_send_interrupt cfg l =
     (let (b, g) = l in if \<not> attached b then l else (b, send_barge_in cfg (the (fb_session_id b)) g))"

definition fs_propagate_hangup :: "fs_config \<Rightarrow> string option \<Rightarrow> fs_line \<Rightarrow> fs_line" where
  "fs_propagate_hangup cfg reason l =
     (let (b, g) = l in if \<not> attached b then l else (b, propagate_hangup cfg (the (fb_session_id b)) reason g))"

interpretation fs: audio_bridge "\<lambda>l. fb_is_open (fst l)" "fs_bridge_close cfg" fs_audio_in
    "\<lambda>pcm l. snd (fs_audio_out cfg rs pcm l)" for cfg rs
  by unfold_locales
     (auto simp: fs_bridge_close_def fs_audio_in_def fs_audio_out_def attached_def Let_def split: prod.splits)

text \<open>Closing a bridge twice is closing it once, and a closed bridge gives its reader nothing.\<close>

lemma fs_close_twice: "fs_bridge_close cfg (fs_bridge_close cfg l) = fs_bridge_close cfg l"
  by (rule fs.shut_twice)

lemma fs_closed_reader: "fst (fs_audio_in (fs_bridge_close cfg l)) = Reader_end"
  using fs.silent_after_shut [where us = "[]"] by simp

section \<open>Attaching a bridge to a channel\<close>

text \<open>An error of its own class below \<open>EngineError\<close>, told apart here by its code in place of the message.\<close>

definition unsupported_operation :: app_error where
  "unsupported_operation = EngineError ''unsupported_operation'' None None"

definition mango_media_bridge_supported :: "settings \<Rightarrow> bool" where
  "mango_media_bridge_supported cfg =
     (st_media_gateway_enabled cfg \<and> st_media_gateway_provider cfg = ''freeswitch''
      \<and> st_media_gateway_mode cfg \<in> {''mock'', ''esl_rtp''} \<and> freeswitch_local_media_supported cfg)"

definition attach_audio_bridge ::
    "settings \<Rightarrow> fs_config \<Rightarrow> resampler \<Rightarrow> gateway_env \<Rightarrow> tel_env \<Rightarrow> channel \<Rightarrow> gateway
     \<Rightarrow> (app_error, fs_bridge) result \<times> gateway" where
  "attach_audio_bridge cfg fcfg rs genv env ch g =
     (let fs = (st_media_gateway_enabled cfg \<and> st_media_gateway_provider cfg = ''freeswitch'') in
      if fs \<and> st_media_gateway_mode cfg = ''esl_rtp'' \<and> \<not> freeswitch_local_media_supported cfg
      then (Inl (telephony_error ''FreeSWITCH esl_rtp mode expects RTP sockets to open in the backend runtime.''), g)
      else if fs \<and> st_media_gateway_mode cfg \<in> {''mock'', ''esl_rtp''}
      then (case fs_bridge_open fcfg rs genv env ch (new_fs_bridge, g) of
              (Inl e, (b, g1)) \<Rightarrow> (Inl e, g1)
            | (Inr _, (b, g1)) \<Rightarrow> (Inr b, g1))
      else if \<not> mango_media_bridge_supported cfg then (Inl unsupported_operation, g)
      else (Inl (OtherError ''RuntimeError: unreachable''), g))"

definition detach_audio_bridge :: "fs_config \<Rightarrow> fs_line \<Rightarrow> fs_line" where
  "detach_audio_bridge cfg l = fs_bridge_close cfg l"

text \<open>The last line of the operation is never reached, and a bridge is only given where it is supported.\<close>

lemma attach_session_id: "attach_session cfg rs env call leg m g = (Inr sid, g') \<Longrightarrow> sid = ge_session_id env"
  by (auto simp: attach_session_def Let_def split: if_splits sum.splits prod.splits)

lemma attach_audio_bridge_supported:
  assumes "attach_audio_bridge cfg fcfg rs genv env ch g = (Inr b, g')"
  shows "mango_media_bridge_supported cfg \<and> fb_is_open b \<and> fb_session_id b = Some (ge_session_id genv)
    \<and> fs_bridge_open fcfg rs genv env ch (new_fs_bridge, g) = (Inr (), (b, g'))"
  using assms
  by (auto simp: attach_audio_bridge_def mango_media_bridge_supported_def freeswitch_local_media_supported_def
        fs_bridge_open_def Let_def
      dest: attach_session_id split: if_splits sum.splits prod.splits)

lemma attach_audio_bridge_unsupported:
  assumes "\<not> mango_media_bridge_supported cfg"
  shows "attach_audio_bridge cfg fcfg rs genv env ch g
    = (Inl (if st_media_gateway_enabled cfg \<and> st_media_gateway_provider cfg = ''freeswitch''
               \<and> st_media_gateway_mode cfg = ''esl_rtp''
            then telephony_error ''FreeSWITCH esl_rtp mode expects RTP sockets to open in the backend runtime.''
            else unsupported_operation), g)"
  using assms
  by (auto simp: attach_audio_bridge_def mango_media_bridge_supported_def freeswitch_local_media_supported_def Let_def)

section \<open>What a reader gets\<close>

text \<open>The reader until it has to wait or ends, with the audio it gave.\<close>

definition unread :: "string \<Rightarrow> gateway \<Rightarrow> nat" where
  "unread sid g = (case gw_queues g sid of None \<Rightarrow> 0 | Some q \<Rightarrow> length q)"

lemma next_event_shorter: "next_event sid g = (Turn_yield evt final, g') \<Longrightarrow> unread sid g' < unread sid g"
  by (auto simp: next_event_def unread_def split: if_splits option.splits list.splits)

function fs_read_all :: "string \<Rightarrow> fs_line \<Rightarrow> byte list list \<times> bool \<times> fs_line" where
  "fs_read_all sid l =
     (case fs_audio_turn sid l of
        (Reader_end, l1) \<Rightarrow> ([], True, l1)
      | (Reader_wait, l1) \<Rightarrow> ([], False, l1)
      | (Reader_skip, l1) \<Rightarrow> fs_read_all sid l1
      | (Reader_chunk pcm, l1) \<Rightarrow> (let (pcms, ended, l2) = fs_read_all sid l1 in (pcm # pcms, ended, l2)))"
  by pat_completeness auto

lemma fs_audio_turn_shorter:
  assumes "(t, l') = fs_audio_turn sid l" "t = Reader_skip \<or> (\<exists>pcm. t = Reader_chunk pcm)"
  shows "unread sid (snd l') < unread sid (snd l)"
proof -
  obtain b g where l: "l = (b, g)" by (cases l)
  from assms obtain evt final g' where e: "next_event sid g = (Turn_yield evt final, g')" and "snd l' = g'"
    by (auto simp: fs_audio_turn_def l split: prod.splits events_turn.splits)
  with next_event_shorter [OF e] show ?thesis by (simp add: l)
qed

termination fs_read_all
  by (relation "measure (\<lambda>(sid, l). unread sid (snd l))") (auto dest: fs_audio_turn_shorter)

declare fs_read_all.simps [simp del]

definition audio_of :: "media_event list \<Rightarrow> byte list list" where
  "audio_of es = [the (me_pcm e). e \<leftarrow> es, me_type e = Ev_AUDIO_IN \<and> me_pcm e \<noteq> None \<and> me_pcm e \<noteq> Some []]"

abbreviation hangup_event :: "media_event \<Rightarrow> bool" where
  "hangup_event e \<equiv> me_type e = Ev_HANGUP"

abbreviation no_hangup :: "media_event \<Rightarrow> bool" where
  "no_hangup \<equiv> \<lambda>e. \<not> hangup_event e"

text \<open>
  A reader gets the non-empty audio of its session in order, up to the first hangup; the hangup ends it,
  is remembered with its reason and closes the bridge, and what was queued behind it stays unread.
\<close>

lemma fs_reader_gets_audio:
  assumes "gw_queues g sid = Some q" "sid \<notin> gw_closed g"
  shows "\<exists>b' g'. fs_read_all sid (b, g)
      = (audio_of (takeWhile no_hangup q), \<exists>e\<in>set q. hangup_event e, (b', g'))
    \<and> gw_queues g' = (gw_queues g)(sid \<mapsto> tl (dropWhile no_hangup q))
    \<and> gw_handles g' = gw_handles g \<and> fb_session_id b' = fb_session_id b
    \<and> fb_is_open b' = (fb_is_open b \<and> \<not> (\<exists>e\<in>set q. hangup_event e))
    \<and> fb_hangup_reason b' = (case dropWhile no_hangup q of [] \<Rightarrow> fb_hangup_reason b | e # _ \<Rightarrow> me_reason e)"
  using assms
proof (induction q arbitrary: b g)
  case Nil
  then show ?case
    by (subst fs_read_all.simps) (auto simp: fs_audio_turn_def next_event_def audio_of_def fun_upd_idem)
next
  case (Cons e q)
  let ?g1 = "g\<lparr>gw_queues := (gw_queues g)(sid \<mapsto> q)\<rparr>"
  obtain t b1 where r: "bridge_reads e b = (t, b1)" by fastforce
  have turn: "fs_audio_turn sid (b, g) = (t, (b1, ?g1))"
    using Cons.prems r by (simp add: fs_audio_turn_def next_event_def)
  show ?case
  proof (cases "hangup_event e")
    case True
    then have "t = Reader_end" "b1 = b\<lparr>fb_hangup_reason := me_reason e, fb_is_open := False\<rparr>"
      using r by (auto simp: bridge_reads_def split: if_splits)
    with turn True show ?thesis by (subst fs_read_all.simps) (simp add: audio_of_def)
  next
    case False
    have b1: "fb_is_open b1 = fb_is_open b" "fb_session_id b1 = fb_session_id b"
      "fb_hangup_reason b1 = fb_hangup_reason b"
      and t: "t = (case audio_of [e] of [] \<Rightarrow> Reader_skip | pcm # _ \<Rightarrow> Reader_chunk pcm)"
      using r False by (auto simp: bridge_reads_def audio_of_def split: if_splits)
    have "gw_queues ?g1 sid = Some q" "sid \<notin> gw_closed ?g1" using Cons.prems by simp_all
    from Cons.IH [OF this, of b1] obtain b' g' where
      rest: "fs_read_all sid (b1, ?g1)
          = (audio_of (takeWhile no_hangup q), \<exists>e\<in>set q. hangup_event e, (b', g'))"
      and keeps: "gw_queues g' = (gw_queues ?g1)(sid \<mapsto> tl (dropWhile no_hangup q))
        \<and> gw_handles g' = gw_handles ?g1 \<and> fb_session_id b' = fb_session_id b1
        \<and> fb_is_open b' = (fb_is_open b1 \<and> \<not> (\<exists>e\<in>set q. hangup_event e))
        \<and> fb_hangup_reason b' = (case dropWhile no_hangup q of [] \<Rightarrow> fb_hangup_reason b1 | e # _ \<Rightarrow> me_reason e)"
      by blast
    have "fs_read_all sid (b, g)
        = (audio_of (takeWhile no_hangup (e # q)), \<exists>e\<in>set (e # q). hangup_event e, (b', g'))"
      using turn rest False t by (subst fs_read_all.simps) (auto simp: audio_of_def split: list.splits if_splits)
    with keeps [unfolded b1] show ?thesis using False by (intro exI [of _ b'] exI [of _ g']) (simp del: fun_upd_apply)
  qed
qed

section \<open>The life of a session of the gateway\<close>

lemma detach_forgets:
  "let g' = detach_session cfg sid g
   in gw_handles g' sid = None \<and> gw_queues g' sid = None \<and> gw_rtp g' sid = None \<and> sid \<in> gw_closed g'
     \<and> sid \<notin> gw_watchdogs g'"
  by (simp add: detach_session_def run_hangup_command_def Let_def split: option.split)

lemma attach_registers:
  assumes "attach_session cfg rs env call leg m g = (Inr sid, g')" "fg_mode cfg = ''mock''"
  shows "gw_handles g' sid \<noteq> None \<and> gw_queues g' sid = Some []"
  using assms by (auto simp: attach_session_def register_media_session_def Let_def)

text \<open>
  Closing a bridge that is open releases its session. After a hangup that its reader saw, closing it does
  nothing: the session, its tables and its socket stay with the gateway, and no other code detaches it.
\<close>

lemma close_releases_session:
  assumes "attached b"
  shows "let (b', g') = fs_bridge_close cfg (b, g); sid = the (fb_session_id b)
    in \<not> fb_is_open b' \<and> gw_handles g' sid = None \<and> gw_queues g' sid = None \<and> gw_rtp g' sid = None
       \<and> sid \<in> gw_closed g' \<and> sid \<notin> gw_watchdogs g'"
  using assms detach_forgets [where sid = "the (fb_session_id b)"]
  by (simp add: fs_bridge_close_def attached_def Let_def)

lemma hung_up_session_kept:
  assumes "gw_queues g sid = Some q" "sid \<notin> gw_closed g" "e \<in> set q" "hangup_event e"
    and "fs_read_all sid (b, g) = (pcms, ended, l)"
  shows "ended \<and> fs_bridge_close cfg l = l \<and> gw_handles (snd (fs_bridge_close cfg l)) = gw_handles g"
  using fs_reader_gets_audio [OF assms(1,2), of b] assms(3-5) by (auto simp: fs_bridge_close_def)

text \<open>Whatever a bridge does to the gateway is a run of the gateway.\<close>

inductive bridge_step :: "fs_config \<Rightarrow> resampler \<Rightarrow> fs_line \<Rightarrow> fs_line \<Rightarrow> bool"
  for cfg :: fs_config and rs :: resampler where
  bs_open: "ge_session_id genv \<notin> dom (gw_handles (snd l)) \<union> gw_closed (snd l)
    \<Longrightarrow> \<forall>rt. ge_open_rtp genv = Inr rt \<longrightarrow> runtime_ok cfg rt
    \<Longrightarrow> bridge_step cfg rs l (snd (fs_bridge_open cfg rs genv env ch l))"
| bs_close: "bridge_step cfg rs l (fs_bridge_close cfg l)"
| bs_read: "bridge_step cfg rs l (snd (fs_audio_turn sid l))"
| bs_write: "bridge_step cfg rs l (snd (fs_audio_out cfg rs pcm l))"
| bs_interrupt: "bridge_step cfg rs l (fs_send_interrupt cfg l)"
| bs_hangup: "bridge_step cfg rs l (fs_propagate_hangup cfg reason l)"

inductive_cases bridge_stepE: "bridge_step cfg rs l l'"

lemma next_event_state: "fs_audio_turn sid (b, g) = (t, (b', g')) \<Longrightarrow> g' = snd (next_event sid g)"
  by (auto simp: fs_audio_turn_def split: prod.splits events_turn.splits)

lemma bridge_step_gateway:
  assumes "bridge_step cfg rs l l'"
  shows "snd l' = snd l \<or> gateway_step cfg rs (snd l) (snd l')"
proof -
  obtain b g where l: "l = (b, g)" by (cases l)
  show ?thesis
    using assms
  proof cases
    case (bs_open genv env ch)
    let ?r = "attach_session cfg rs genv (bridge_call_id env ch)
      (bridge_provider_leg (bridge_mango_leg ch) (gw_corr g)) (bridge_metadata env ch) g"
    have "snd l' = snd ?r"
      using bs_open(1) by (auto simp: fs_bridge_open_def l Let_def split: prod.split sum.split)
    moreover have "gateway_step cfg rs g (snd ?r)" using bs_open(2,3) by (intro gateway_step.attach) (simp_all add: l)
    ultimately show ?thesis by (simp add: l)
  next
    case (bs_read sid)
    obtain t b' g' where r: "fs_audio_turn sid (b, g) = (t, (b', g'))" by (metis prod_cases3)
    have "gateway_step cfg rs g (snd (next_event sid g))" by (rule gateway_step.consume)
    with next_event_state [OF r] r bs_read show ?thesis by (simp add: l)
  qed (auto simp: l fs_bridge_close_def fs_audio_out_def fs_send_interrupt_def fs_propagate_hangup_def
      case_prod_beta intro: gateway_step.intros)
qed

text \<open>So bridges of any number of sessions, and the channel events between, keep the gateway consistent.\<close>

lemma bridges_keep_gateway:
  assumes "(\<lambda>g g'. gateway_step cfg rs g g' \<or> (\<exists>b b'. bridge_step cfg rs (b, g) (b', g')))\<^sup>*\<^sup>* empty_gateway g"
  shows "gateway_ok cfg g"
proof -
  have "(gateway_step cfg rs)\<^sup>*\<^sup>* empty_gateway g"
    using assms
  proof (induction rule: rtranclp_induct)
    case (step g g')
    then have "g' = g \<or> gateway_step cfg rs g g'" using bridge_step_gateway by fastforce
    with step.IH show ?case by (auto intro: rtranclp.rtrancl_into_rtrancl)
  qed simp
  then show ?thesis by (rule gateway_run_ok)
qed

section \<open>A hangup on a concrete line\<close>

definition demo_channel :: channel where
  "demo_channel = \<lparr>ch_channel_id = ''direct-7'', ch_phone = ''+79000000001'', ch_sip_call_id = None,
     ch_provider_leg_id = [], ch_state = Leg_ANSWERED, ch_metadata = [(''internal_call_id'', JNull)]\<rparr>"

definition demo_fs :: fs_config where
  "demo_fs = demo_fs_config\<lparr>fg_mode := ''mock'', fg_event_queue_max := 9\<rparr>"

definition demo_line :: "bool \<Rightarrow> fs_line" where
  "demo_line reports_hangup =
     (let cfg = demo_fs;
          (b, g) = snd (fs_bridge_open cfg (\<lambda>d a b. d) (demo_gateway_env ''s'') (demo_tel_env (Request_error []))
                     demo_channel (new_fs_bridge, empty_gateway));
          g1 = inject_inbound_audio cfg ''s'' [1, 2] g
      in (b, if reports_hangup then propagate_hangup cfg ''s'' (Some ''busy'') g1 else g1))"

lemma demo_line_read: "fst (fs_read_all ''s'' (demo_line True)) = [[1, 2]]"
  by code_simp

lemma demo_hangup_leaks:
  "gw_handles (snd (fs_bridge_close demo_fs (snd (snd (fs_read_all ''s'' (demo_line True)))))) ''s'' \<noteq> None"
  "gw_handles (snd (fs_bridge_close demo_fs (snd (snd (fs_read_all ''s'' (demo_line False)))))) ''s'' = None"
  by code_simp+

lemma demo_line_leg: "gw_leg_to_session (snd (demo_line False)) ''direct-7'' = Some ''s''"
  by code_simp

end
