(* ===== verification/TelephonyRegistry.thy ===== *)
theory TelephonyRegistry
  imports AudioBridge "HOL-Library.AList"
begin

text \<open>
  The choice of a telephony provider: \<open>ProviderCapabilities\<close> of \<open>app/integrations/telephony/capabilities.py\<close>,
  the registry of \<open>registry.py\<close>, the capability declarations of \<open>mango.py\<close> and \<open>stub.py\<close>, the adapter
  \<open>StubTelephonyAdapter\<close> that makes no real calls, and the selection in \<open>get_call_engine\<close> of
  \<open>app/api/deps.py\<close>. A factory is represented by the adapter it makes; the notes of a declaration are not
  modelled. What Mango's credentials say is the argument \<open>mango_settings\<close>.

  The lemmas show that automatic selection never places production calls through the stub, that what is
  selected can place calls, which provider a preference gives, and that a stub leg is only bridged and
  ended, never lost.
\<close>

section \<open>Capabilities\<close>

record provider_capabilities =
  pc_provider_name :: string
  pc_outbound_call :: bool
  pc_audio_stream :: bool
  pc_bridge :: bool
  pc_whisper :: bool
  pc_call_recording_events :: bool
  pc_sip_trunk :: bool
  pc_real_time_events :: bool
  pc_audio_bridge :: bool
  pc_max_concurrent_calls :: "int option"

definition no_capabilities :: "string \<Rightarrow> provider_capabilities" where
  "no_capabilities name = \<lparr>pc_provider_name = name, pc_outbound_call = False, pc_audio_stream = False,
     pc_bridge = False, pc_whisper = False, pc_call_recording_events = False, pc_sip_trunk = False,
     pc_real_time_events = False, pc_audio_bridge = False, pc_max_concurrent_calls = None\<rparr>"

definition capability_table :: "provider_capabilities \<Rightarrow> (string \<times> bool) list" where
  "capability_table c =
     [(''outbound_call'', pc_outbound_call c), (''audio_stream'', pc_audio_stream c), (''bridge'', pc_bridge c),
      (''whisper'', pc_whisper c), (''call_recording_events'', pc_call_recording_events c),
      (''sip_trunk'', pc_sip_trunk c), (''real_time_events'', pc_real_time_events c),
      (''audio_bridge'', pc_audio_bridge c)]"

text \<open>A feature that is not declared, or not known, is not supported.\<close>

definition check_capability :: "string \<Rightarrow> provider_capabilities \<Rightarrow> (app_error, unit) result" where
  "check_capability feature c =
     (if map_of (capability_table c) feature \<noteq> Some True then Inl unsupported_operation else Inr ())"

definition capabilities_to_dict :: "provider_capabilities \<Rightarrow> payload" where
  "capabilities_to_dict c =
     (''provider_name'', JStr (pc_provider_name c))
     # map (\<lambda>(k, v). (''supports_'' @ k, JBool v)) (capability_table c)
     @ [(''max_concurrent_calls'', case pc_max_concurrent_calls c of None \<Rightarrow> JNull | Some n \<Rightarrow> JNum n)]"

datatype adapter = Adapter_stub | Adapter_mango

fun adapter_capabilities :: "settings \<Rightarrow> adapter \<Rightarrow> provider_capabilities" where
  "adapter_capabilities cfg Adapter_mango =
     (no_capabilities ''mango'')\<lparr>pc_outbound_call := True, pc_bridge := True, pc_whisper := True,
       pc_call_recording_events := True, pc_sip_trunk := True, pc_real_time_events := True,
       pc_audio_bridge := mango_media_bridge_supported cfg\<rparr>"
| "adapter_capabilities cfg Adapter_stub =
     (no_capabilities ''stub'')\<lparr>pc_outbound_call := True, pc_audio_stream := True, pc_bridge := True,
       pc_whisper := True, pc_audio_bridge := True\<rparr>"

section \<open>The registry\<close>

type_synonym registry = "(string \<times> adapter) list"

definition register_provider :: "string \<Rightarrow> adapter \<Rightarrow> registry \<Rightarrow> registry" where
  "register_provider name a r = AList.update name a r"

text \<open>Again a class below \<open>EngineError\<close>, told apart by its code.\<close>

definition provider_not_found :: app_error where
  "provider_not_found = EngineError ''telephony_provider_not_found'' None None"

definition get_provider :: "string \<Rightarrow> registry \<Rightarrow> (app_error, adapter) result" where
  "get_provider name r = (case map_of r name of None \<Rightarrow> Inl provider_not_found | Some a \<Rightarrow> Inr a)"

definition get_provider_capabilities ::
    "settings \<Rightarrow> string \<Rightarrow> registry \<Rightarrow> (app_error, provider_capabilities) result" where
  "get_provider_capabilities cfg name r =
     (case get_provider name r of Inl e \<Rightarrow> Inl e | Inr a \<Rightarrow> Inr (adapter_capabilities cfg a))"

definition list_providers :: "registry \<Rightarrow> string list" where
  "list_providers r = map fst r"

definition auto_select :: "settings \<Rightarrow> registry \<Rightarrow> (app_error, adapter) result" where
  "auto_select cfg r =
     (case find (\<lambda>(name, a). name \<noteq> ''stub'' \<and> pc_outbound_call (adapter_capabilities cfg a)) r of
        Some (name, a) \<Rightarrow> Inr a
      | None \<Rightarrow>
          if is_production cfg
          then Inl (EngineError ''Production mode requires a real telephony provider.'' None None)
          else get_provider ''stub'' r)"

definition resolve_provider :: "settings \<Rightarrow> string \<Rightarrow> registry \<Rightarrow> (app_error, adapter) result" where
  "resolve_provider cfg preferred r =
     (if preferred = ''auto'' then auto_select cfg r
      else if preferred = ''stub'' then get_provider ''stub'' r
      else get_provider preferred r)"

definition mango_runtime_configured :: "mango_settings \<Rightarrow> bool" where
  "mango_runtime_configured ms \<longleftrightarrow>
     (ms_api_key ms \<noteq> [] \<and> ms_api_salt ms \<noteq> []) \<or> mango_sip_trunk_configured ms"

definition build_default_registry :: "mango_settings \<Rightarrow> registry" where
  "build_default_registry ms =
     (let r = register_provider ''stub'' Adapter_stub []
      in if mango_runtime_configured ms then register_provider ''mango'' Adapter_mango r else r)"

text \<open>
  The telephony of the direct engine. Outside tests a preference for the stub gives way to a configured
  Mango, and a provider that is not registered leaves the engine out (\<open>None\<close>).
\<close>

definition direct_telephony ::
    "settings \<Rightarrow> mango_settings \<Rightarrow> string \<Rightarrow> (app_error, adapter option) result" where
  "direct_telephony cfg ms telephony_provider =
     (let testing = (st_environment cfg = ''testing'');
          preference = (if telephony_provider = ''stub'' \<and> mango_runtime_configured ms \<and> \<not> testing
                        then ''mango'' else telephony_provider)
      in case resolve_provider cfg preference (build_default_registry ms) of
           Inr a \<Rightarrow> Inr (Some a)
         | Inl e \<Rightarrow> if e = provider_not_found \<and> \<not> testing then Inr None else Inl e)"

section \<open>The stub adapter\<close>

record stub_adapter =
  sa_inject_queues :: "string \<rightharpoonup> byte list list"
  sa_leg_states :: "string \<rightharpoonup> leg_state"

definition new_stub_adapter :: stub_adapter where
  "new_stub_adapter = \<lparr>sa_inject_queues = Map.empty, sa_leg_states = Map.empty\<rparr>"

definition stub_leg :: "string \<Rightarrow> string" where
  "stub_leg phone = ''stub-leg-'' @ phone"

definition stub_channel_id :: "string \<Rightarrow> string" where
  "stub_channel_id phone = ''stub-tel-'' @ phone"

definition set_stub_leg :: "string \<Rightarrow> leg_state \<Rightarrow> stub_adapter \<Rightarrow> stub_adapter" where
  "set_stub_leg leg st s = s\<lparr>sa_leg_states := (sa_leg_states s)(leg \<mapsto> st)\<rparr>"

definition stub_connect :: "string \<Rightarrow> string option \<Rightarrow> payload option \<Rightarrow> stub_adapter \<Rightarrow> channel \<times> stub_adapter" where
  "stub_connect phone caller_id metadata s =
     (\<lparr>ch_channel_id = stub_channel_id phone, ch_phone = phone,
       ch_sip_call_id = Some (''stub-sip-'' @ phone @ ''@localhost''), ch_provider_leg_id = stub_leg phone,
       ch_state = Leg_ANSWERED,
       ch_metadata = [(''adapter'', JStr ''stub''),
                      (''caller_id'', case caller_id of None \<Rightarrow> JNull | Some c \<Rightarrow> JStr c),
                      (''runtime_metadata'', JObj (meta metadata))]\<rparr>,
      set_stub_leg (stub_leg phone) Leg_ANSWERED
        (s\<lparr>sa_inject_queues := (sa_inject_queues s)(stub_channel_id phone \<mapsto> [])\<rparr>))"

definition stub_disconnect :: "string \<Rightarrow> stub_adapter \<Rightarrow> stub_adapter" where
  "stub_disconnect phone s =
     set_stub_leg (stub_leg phone) Leg_TERMINATED
       (s\<lparr>sa_inject_queues := (sa_inject_queues s)(stub_channel_id phone := None)\<rparr>)"

definition stub_audio_turn :: "string \<Rightarrow> stub_adapter \<Rightarrow> reader_turn \<times> stub_adapter" where
  "stub_audio_turn channel_id s =
     (case sa_inject_queues s channel_id of
        None \<Rightarrow> (Reader_end, s)
      | Some [] \<Rightarrow> (Reader_chunk silence_chunk, s)
      | Some (pcm # q) \<Rightarrow> (Reader_chunk pcm, s\<lparr>sa_inject_queues := (sa_inject_queues s)(channel_id \<mapsto> q)\<rparr>))"

definition stub_originate_call :: "string \<Rightarrow> stub_adapter \<Rightarrow> originate_result \<times> stub_adapter" where
  "stub_originate_call phone s =
     (\<lparr>or_leg_id = stub_leg phone, or_sip_call_id = Some (''stub-sip-'' @ phone @ ''@localhost''),
       or_response = [(''status'', JStr ''stub_ok'')]\<rparr>, set_stub_leg (stub_leg phone) Leg_RINGING s)"

definition stub_bridge_legs :: "string \<Rightarrow> string \<Rightarrow> stub_adapter \<Rightarrow> stub_adapter" where
  "stub_bridge_legs customer manager s = set_stub_leg manager Leg_BRIDGED (set_stub_leg customer Leg_BRIDGED s)"

definition stub_terminate_leg :: "string \<Rightarrow> stub_adapter \<Rightarrow> stub_adapter" where
  "stub_terminate_leg leg s = set_stub_leg leg Leg_TERMINATED s"

definition stub_get_leg_state :: "string \<Rightarrow> stub_adapter \<Rightarrow> leg_state" where
  "stub_get_leg_state leg s = (case sa_leg_states s leg of None \<Rightarrow> Leg_TERMINATED | Some st \<Rightarrow> st)"

definition stub_inject_audio :: "string \<Rightarrow> byte list \<Rightarrow> stub_adapter \<Rightarrow> stub_adapter" where
  "stub_inject_audio channel_id pcm s =
     (case sa_inject_queues s channel_id of
        None \<Rightarrow> s
      | Some q \<Rightarrow> s\<lparr>sa_inject_queues := (sa_inject_queues s)(channel_id \<mapsto> q @ [pcm])\<rparr>)"

definition stub_attach_audio_bridge :: "channel \<Rightarrow> silence_bridge" where
  "stub_attach_audio_bridge ch = silence_open new_silence_bridge"

section \<open>What is selected\<close>

lemma default_registry:
  "build_default_registry ms =
     (if mango_runtime_configured ms then [(''stub'', Adapter_stub), (''mango'', Adapter_mango)]
      else [(''stub'', Adapter_stub)])"
  by (simp add: build_default_registry_def register_provider_def)

text \<open>Registering a name twice keeps one entry, the last.\<close>

lemma registered_last_wins:
  "map_of (register_provider n b (register_provider n a r)) = (map_of r)(n \<mapsto> b)
   \<and> (distinct (list_providers r) \<longrightarrow> distinct (list_providers (register_provider n a r)))"
  by (simp add: register_provider_def list_providers_def update_conv' distinct_update)

lemma find_result: "find P xs = Some x \<Longrightarrow> x \<in> set xs \<and> P x"
  by (auto simp: find_Some_iff)

text \<open>
  Automatic selection in production gives a registered adapter that is not the stub's and can place
  calls, or fails; elsewhere the stub is the fallback.
\<close>

lemma auto_select_never_stub_in_production:
  assumes "is_production cfg"
  shows "case auto_select cfg r of
      Inr a \<Rightarrow> (\<exists>name. name \<noteq> ''stub'' \<and> (name, a) \<in> set r) \<and> pc_outbound_call (adapter_capabilities cfg a)
    | Inl e \<Rightarrow> (\<exists>msg. e = EngineError msg None None)"
  using assms by (auto simp: auto_select_def dest!: find_result split: option.split)

lemma preference_table:
  "resolve_provider cfg preferred (build_default_registry ms) =
     (if preferred = ''auto''
      then (if mango_runtime_configured ms then Inr Adapter_mango
            else if is_production cfg
            then Inl (EngineError ''Production mode requires a real telephony provider.'' None None)
            else Inr Adapter_stub)
      else if preferred = ''stub'' then Inr Adapter_stub
      else if preferred = ''mango'' \<and> mango_runtime_configured ms then Inr Adapter_mango
      else Inl provider_not_found)"
  by (simp add: resolve_provider_def auto_select_def default_registry get_provider_def no_capabilities_def)

text \<open>
  The direct engine outside tests: Mango whenever it is configured and nothing else is asked for. The
  stub is still given in production, to a deployment that asks for it and has no Mango credentials.
\<close>

lemma direct_telephony_prefers_mango:
  assumes "mango_runtime_configured ms" "st_environment cfg \<noteq> ''testing''" "p \<in> {''auto'', ''stub'', ''mango''}"
  shows "direct_telephony cfg ms p = Inr (Some Adapter_mango)"
  using assms unfolding direct_telephony_def by (auto simp: preference_table)

lemma stub_in_production:
  assumes "is_production cfg" "\<not> mango_runtime_configured ms"
  shows "direct_telephony cfg ms ''stub'' = Inr (Some Adapter_stub)"
    and "\<exists>e. direct_telephony cfg ms ''auto'' = Inl e"
  using assms unfolding direct_telephony_def by (simp_all add: preference_table provider_not_found_def)

text \<open>What an adapter declares is what attaching a bridge does: it is refused exactly where it is not declared.\<close>

lemma declared_bridge_attaches:
  "check_capability ''audio_bridge'' (adapter_capabilities cfg Adapter_mango) = Inl unsupported_operation
   \<longleftrightarrow> \<not> mango_media_bridge_supported cfg"
  by (simp add: check_capability_def capability_table_def no_capabilities_def)

lemma unknown_feature_unsupported:
  assumes "feature \<notin> fst ` set (capability_table c)"
  shows "check_capability feature c = Inl unsupported_operation"
proof -
  from assms have "map_of (capability_table c) feature = None" by (simp add: map_of_eq_None_iff)
  then show ?thesis by (simp add: check_capability_def)
qed

section \<open>Stub legs\<close>

lemma stub_leg_state_set: "stub_get_leg_state leg (set_stub_leg leg' st s) = (if leg = leg' then st else stub_get_leg_state leg s)"
  by (simp add: stub_get_leg_state_def set_stub_leg_def)

lemma stub_call_life:
  assumes "c \<noteq> stub_leg p"
  shows "stub_get_leg_state (stub_leg p) (snd (stub_originate_call p s)) = Leg_RINGING"
    and "stub_get_leg_state (stub_leg p) (snd (stub_connect p i m s)) = Leg_ANSWERED"
    and "stub_get_leg_state (stub_leg p) (stub_bridge_legs c (stub_leg p) s) = Leg_BRIDGED"
    and "stub_get_leg_state c (stub_bridge_legs c (stub_leg p) s) = Leg_BRIDGED"
    and "stub_get_leg_state (stub_leg p) (stub_terminate_leg (stub_leg p) s) = Leg_TERMINATED"
    and "stub_get_leg_state (stub_leg p) (stub_disconnect p s) = Leg_TERMINATED"
  using assms
  by (simp_all add: stub_originate_call_def stub_connect_def stub_bridge_legs_def stub_terminate_leg_def
      stub_disconnect_def stub_leg_state_set)

text \<open>Injected audio comes out in order, silence after it, and a channel that was disconnected gives nothing.\<close>

lemma stub_audio_order:
  assumes "sa_inject_queues s c = Some q"
  shows "fst (stub_audio_turn c (stub_inject_audio c pcm s)) = Reader_chunk (hd (q @ [pcm]))"
    and "sa_inject_queues (snd (stub_audio_turn c (stub_inject_audio c pcm s))) c = Some (tl (q @ [pcm]))"
  using assms by (auto simp: stub_audio_turn_def stub_inject_audio_def split: list.split)

lemma stub_audio_ends: "fst (stub_audio_turn (stub_channel_id p) (stub_disconnect p s)) = Reader_end"
  by (simp add: stub_audio_turn_def stub_disconnect_def set_stub_leg_def)

end
