(* ===== verification/VapiEngine.thy ===== *)
theory VapiEngine
  imports Routing MangoInventory VapiEvents
begin

text \<open>
  The Vapi route: the client \<open>VapiClient\<close> of \<open>app/integrations/vapi/client.py\<close> and \<open>VapiCallEngine\<close> of
  \<open>engine.py\<close>, an engine in the sense of the call service. A client operation gives its request and what
  comes of the reply; the service behind it is the function \<open>api\<close>. The path of a request has the call's id
  verbatim. An id that is not a string, which the API does not give, counts as absent.

  The lemmas show which requests the engine makes and with what, which failures a caller sees, that
  steering is best effort and stopping idempotent, and that an answer that is not JSON is not an
  \<open>EngineError\<close> and so has no fallback.
\<close>

section \<open>The client\<close>

datatype vapi_request =
    Vapi_post string payload
  | Vapi_get string
  | Vapi_delete string

type_synonym vapi_api = "vapi_request \<Rightarrow> http_reply"

record vapi_settings =
  va_assistant_id :: string
  va_phone_number_id :: string

definition vapi_error :: "string \<Rightarrow> app_error" where
  "vapi_error msg = EngineError msg None None"

definition undecodable :: app_error where
  "undecodable = OtherError ''JSONDecodeError''"

definition raise_for_status :: "string \<Rightarrow> int \<Rightarrow> (app_error, unit) result" where
  "raise_for_status path status =
     (if 400 \<le> status then Inl (vapi_error (''Vapi API error '' @ str_int status @ '' on '' @ path)) else Inr ())"

definition network_error :: "string \<Rightarrow> string \<Rightarrow> string \<Rightarrow> app_error" where
  "network_error verb path exc = vapi_error (''Vapi network error on '' @ verb @ '' '' @ path @ '': '' @ exc)"

definition read_json :: "string \<Rightarrow> string \<Rightarrow> http_reply \<Rightarrow> (app_error, json) result" where
  "read_json verb path reply =
     (case reply of
        Request_error exc \<Rightarrow> Inl (network_error verb path exc)
      | Response status body raw \<Rightarrow>
          (case raise_for_status path status of
             Inl e \<Rightarrow> Inl e
           | Inr _ \<Rightarrow> (case body of None \<Rightarrow> Inl undecodable | Some v \<Rightarrow> Inr v)))"

definition vapi_post :: "vapi_api \<Rightarrow> string \<Rightarrow> payload \<Rightarrow> (app_error, json) result" where
  "vapi_post api path body = read_json ''POST'' path (api (Vapi_post path body))"

definition vapi_get :: "vapi_api \<Rightarrow> string \<Rightarrow> (app_error, json) result" where
  "vapi_get api path = read_json ''GET'' path (api (Vapi_get path))"

text \<open>A call that has already ended is gone: 404 counts as done.\<close>

definition vapi_delete :: "vapi_api \<Rightarrow> string \<Rightarrow> (app_error, unit) result" where
  "vapi_delete api path =
     (case api (Vapi_delete path) of
        Request_error exc \<Rightarrow> Inl (network_error ''DELETE'' path exc)
      | Response status body raw \<Rightarrow>
          if status \<in> {200, 201, 204, 404} then Inr () else raise_for_status path status)"

definition phone_call_payload :: "vapi_settings \<Rightarrow> string \<Rightarrow> payload option \<Rightarrow> payload" where
  "phone_call_payload cfg phone metadata =
     [(''assistantId'', JStr (va_assistant_id cfg)), (''phoneNumberId'', JStr (va_phone_number_id cfg)),
      (''customer'', JObj [(''number'', JStr phone)])]
     @ (case metadata of
          Some (kv # d) \<Rightarrow> [(''assistantOverrides'', JObj [(''metadata'', JObj (kv # d))])]
        | _ \<Rightarrow> [])"

definition create_phone_call ::
    "vapi_settings \<Rightarrow> vapi_api \<Rightarrow> string \<Rightarrow> payload option \<Rightarrow> (app_error, json) result" where
  "create_phone_call cfg api phone metadata = vapi_post api ''/call/phone'' (phone_call_payload cfg phone metadata)"

definition call_path :: "string \<Rightarrow> string" where
  "call_path i = ''/call/'' @ i"

definition vapi_get_call :: "vapi_api \<Rightarrow> string \<Rightarrow> (app_error, json) result" where
  "vapi_get_call api i = vapi_get api (call_path i)"

definition delete_call :: "vapi_api \<Rightarrow> string \<Rightarrow> (app_error, unit) result" where
  "delete_call api i = vapi_delete api (call_path i)"

text \<open>Only an \<open>EngineError\<close> is swallowed.\<close>

definition inject_message :: "vapi_api \<Rightarrow> string \<Rightarrow> string \<Rightarrow> (app_error, unit) result" where
  "inject_message api i msg =
     (case vapi_post api (call_path i @ ''/say'') [(''message'', JStr msg), (''endCallAfterSpoken'', JBool False)] of
        Inl (EngineError _ _ _) \<Rightarrow> Inr ()
      | Inl e \<Rightarrow> Inl e
      | Inr _ \<Rightarrow> Inr ())"

section \<open>The engine\<close>

text \<open>\<open>_VAPI_STATUS_MAP.get(key, default)\<close>: a list or an object cannot be a key.\<close>

definition mapped_vapi_status :: "json option \<Rightarrow> call_status \<Rightarrow> (app_error, call_status) result" where
  "mapped_vapi_status key otherwise =
     (case key of
        Some (JStr s) \<Rightarrow> Inr (case Option.bind (vapi_status_of s) status_map of Some st \<Rightarrow> st | None \<Rightarrow> otherwise)
      | Some (JObj _) \<Rightarrow> Inl (OtherError ''TypeError'')
      | Some (JList _) \<Rightarrow> Inl (OtherError ''TypeError'')
      | _ \<Rightarrow> Inr otherwise)"

definition id_text :: "json option \<Rightarrow> string option" where
  "id_text v = (case v of Some (JStr s) \<Rightarrow> Some s | _ \<Rightarrow> None)"

definition sip_id :: "payload \<Rightarrow> string option" where
  "sip_id d = (case dget d ''sip'' of Some (JObj s) \<Rightarrow> id_text (dget s ''callId'') | _ \<Rightarrow> None)"

definition not_an_object :: app_error where
  "not_an_object = OtherError ''AttributeError''"

definition vapi_result :: "json \<Rightarrow> (app_error, engine_result) result" where
  "vapi_result answer =
     (case answer of
        JObj d \<Rightarrow>
          (case mapped_vapi_status (case dget d ''status'' of None \<Rightarrow> Some (JStr ''queued'') | v \<Rightarrow> v) QUEUED of
             Inl e \<Rightarrow> Inl e
           | Inr st \<Rightarrow> Inr \<lparr>r_external_id = id_text (dget d ''id''), r_initial_status = st, r_route_used = ''vapi'',
                           r_telephony_leg_id = py_or (sip_id d) (id_text (dget d ''id'')),
                           r_metadata = Some [(''vapi_raw'', JObj d)]\<rparr>)
      | _ \<Rightarrow> Inl not_an_object)"

definition vapi_initiate :: "vapi_settings \<Rightarrow> vapi_api \<Rightarrow> call \<Rightarrow> (app_error, engine_result) result" where
  "vapi_initiate cfg api call =
     (case create_phone_call cfg api (c_phone call)
             (Some [(''internal_call_id'', JStr (uuid_str (c_id call)))]) of
        Inl e \<Rightarrow> Inl e
      | Inr answer \<Rightarrow> vapi_result answer)"

definition vapi_stop :: "vapi_api \<Rightarrow> call \<Rightarrow> (app_error, unit) result" where
  "vapi_stop api call =
     (if \<not> truthy (c_vapi_call_id call) then Inr () else delete_call api (the (c_vapi_call_id call)))"

definition vapi_instruct :: "vapi_api \<Rightarrow> call \<Rightarrow> string \<Rightarrow> (app_error, unit) result" where
  "vapi_instruct api call instruction =
     (if \<not> truthy (c_vapi_call_id call) then Inr ()
      else inject_message api (the (c_vapi_call_id call)) instruction)"

definition vapi_get_status :: "vapi_api \<Rightarrow> call \<Rightarrow> (app_error, call_status) result" where
  "vapi_get_status api call =
     (if \<not> truthy (c_vapi_call_id call) then Inr (c_status call)
      else case vapi_get_call api (the (c_vapi_call_id call)) of
             Inl e \<Rightarrow> Inl e
           | Inr (JObj d) \<Rightarrow> mapped_vapi_status (dget d ''status'') (c_status call)
           | Inr _ \<Rightarrow> Inl not_an_object)"

definition vapi_engine :: "vapi_settings \<Rightarrow> vapi_api \<Rightarrow> engine_if" where
  "vapi_engine cfg api =
     \<lparr>en_initiate = vapi_initiate cfg api, en_stop = vapi_stop api, en_instruct = vapi_instruct api,
      en_status = vapi_get_status api\<rparr>"

section \<open>What a caller sees\<close>

lemmas vapi_client_defs = vapi_post_def vapi_get_def vapi_delete_def read_json_def raise_for_status_def network_error_def vapi_error_def

text \<open>A reply that was not decoded is the only way to an error of the client that is not an \<open>EngineError\<close>.\<close>

lemma read_json_cases:
  "read_json verb path reply = r \<Longrightarrow>
     (\<exists>msg. r = Inl (EngineError msg None None))
   \<or> (\<exists>status raw. reply = Response status None raw \<and> status < 400 \<and> r = Inl undecodable)
   \<or> (\<exists>status v raw. reply = Response status (Some v) raw \<and> status < 400 \<and> r = Inr v)"
  by (auto simp: vapi_client_defs split: http_reply.splits option.splits if_splits)

text \<open>Every call carries its own id, by which the webhooks find it, and its number.\<close>

lemma placed_call_named:
  "vapi_initiate cfg api call = vapi_initiate cfg api' call"
  if "\<And>body. dget body ''customer'' = Some (JObj [(''number'', JStr (c_phone call))])
      \<Longrightarrow> dget body ''assistantOverrides''
            = Some (JObj [(''metadata'', JObj [(''internal_call_id'', JStr (uuid_str (c_id call)))])])
      \<Longrightarrow> api (Vapi_post ''/call/phone'' body) = api' (Vapi_post ''/call/phone'' body)"
  using that by (simp add: vapi_initiate_def create_phone_call_def vapi_post_def phone_call_payload_def)

text \<open>
  Steering never fails because of the provider or the network; stopping a call is done also when Vapi no
  longer has it, so stopping twice does no harm.
\<close>

lemma steering_best_effort:
  assumes "\<And>path body. case api (Vapi_post path body) of Response status None raw \<Rightarrow> 400 \<le> status | _ \<Rightarrow> True"
  shows "en_instruct (vapi_engine cfg api) call instruction = Inr ()"
proof -
  let ?path = "call_path (the (c_vapi_call_id call)) @ ''/say''"
  let ?body = "[(''message'', JStr instruction), (''endCallAfterSpoken'', JBool False)]"
  have "api (Vapi_post ?path ?body) = Response status None raw \<Longrightarrow> 400 \<le> status" for status raw
    using assms [of ?path ?body] by simp
  then show ?thesis
    using read_json_cases [of "''POST''" ?path "api (Vapi_post ?path ?body)" "vapi_post api ?path ?body"]
    by (force simp: vapi_engine_def vapi_instruct_def inject_message_def vapi_post_def)
qed

lemma stopping_an_ended_call:
  assumes "c_vapi_call_id call = Some i" "api (Vapi_delete (call_path i)) = Response 404 body raw"
  shows "en_stop (vapi_engine cfg api) call = Inr ()"
  using assms by (simp add: vapi_engine_def vapi_stop_def delete_call_def vapi_delete_def)

text \<open>A call that Vapi never numbered is stopped and steered without a request, and keeps its status.\<close>

lemma unnumbered_call:
  assumes "\<not> truthy (c_vapi_call_id call)"
  shows "en_stop (vapi_engine cfg api) call = Inr ()" "en_instruct (vapi_engine cfg api) call txt = Inr ()"
    "en_status (vapi_engine cfg api) call = Inr (c_status call)"
  using assms by (simp_all add: vapi_engine_def vapi_stop_def vapi_instruct_def vapi_get_status_def)

text \<open>A call that is placed has the route of its engine, and a telephony leg whenever it has an id.\<close>

lemma placed_call_route:
  assumes "en_initiate (vapi_engine cfg api) call = Inr res"
  shows "r_route_used res = ''vapi'' \<and> (truthy (r_external_id res) \<longrightarrow> truthy (r_telephony_leg_id res))"
  using assms
  by (auto simp: vapi_engine_def vapi_initiate_def vapi_result_def py_or_def split: sum.splits json.splits option.splits)

text \<open>The status of a known call is the mapped one; an unknown word leaves the call as it is.\<close>

lemma polled_status:
  assumes "c_vapi_call_id call = Some i" "i \<noteq> []"
    and "api (Vapi_get (call_path i)) = Response 200 (Some (JObj [(''status'', JStr s)])) raw"
  shows "en_status (vapi_engine cfg api) call = Inr
    (if s = ''queued'' then QUEUED else if s = ''ringing'' then RINGING else if s = ''in-progress'' then IN_PROGRESS
     else if s = ''forwarding'' then TRANSFERRING else if s = ''ended'' then COMPLETED else c_status call)"
  using assms
  by (auto simp: vapi_engine_def vapi_get_status_def vapi_get_call_def vapi_client_defs truthy_def mapped_vapi_status_def
      vapi_status_of_def)

section \<open>An answer that is not JSON\<close>

text \<open>
  A failing provider leads to the direct route; one that accepts the request and answers with something that
  is not JSON does not: the error is no \<open>EngineError\<close>, and the dispatcher passes it on.
\<close>

lemma undecodable_answer_no_fallback:
  fixes cfg' :: settings
  assumes "resolve_new cfg' ro call = Inr (vapi_engine cfg api, ''vapi'')"
    and "\<And>body. api (Vapi_post ''/call/phone'' body) = Response 201 None raw"
  shows "router_initiate cfg' ro call = Inl undecodable"
  using assms
  by (simp add: router_initiate_def router_run_def vapi_engine_def vapi_initiate_def create_phone_call_def vapi_client_defs undecodable_def)

lemma failing_provider_falls_back:
  fixes cfg' :: settings
  assumes "resolve_new cfg' ro call = Inr (vapi_engine cfg api, ''vapi'')"
    and "\<And>body. api (Vapi_post ''/call/phone'' body) = Response 503 body' raw"
    and "allows_fallback (ro_policy ro) call ''vapi'' = Some fb"
    and "en_initiate (engine_by_name ro fb) call = Inr res"
  shows "router_initiate cfg' ro call
    = Inr (mark_fallback ''vapi'' fb (''Vapi API error '' @ str_int 503 @ '' on /call/phone'') res)"
  using assms
  by (simp add: router_initiate_def router_run_def vapi_engine_def vapi_initiate_def create_phone_call_def vapi_client_defs)

end
