(* ===== verification/Spec2Isabelle.thy ===== *)
theory Spec2Isabelle
  imports Requests MangoEvents VapiEvents Coordinator MangoTransfer Inbound AgentProfiles MediaGateway GeminiClient DirectEngine EslClient
    TelephonyRegistry VapiEngine
begin

text \<open>
  A model of the backend of the call platform, the Python package \<open>app\<close>: it places and answers phone
  calls, lets an AI agent speak on them, and hands them to a human manager. Each theory models some files
  of the package, with the names of the source; its opening text says which and what its lemmas show.

  The program.

  A request creates a \<open>Call\<close> row (\<open>Calls\<close>, \<open>Database\<close>). \<open>CallService\<close> checks the request, asks a call
  engine to place the call and follows it. The engine is chosen by the router (\<open>Routing\<close>): Vapi, an
  external service (\<open>VapiEngine\<close>) whose webhooks drive the call (\<open>VapiEvents\<close>); the direct engine (\<open>DirectEngine\<close>), which
  opens a session with the Gemini Live model (\<open>GeminiClient\<close>) and a telephony leg and moves audio between
  them (\<open>SessionManager\<close>, \<open>DirectSession\<close>, \<open>VoiceStrategy\<close>, \<open>AudioShaping\<close>); or a stub. Workers share the
  ownership of sessions through a store (\<open>SessionStore\<close>, \<open>Coordinator\<close>). The telephony provider Mango
  reports legs by webhooks (\<open>MangoEvents\<close>), whose states live in two stores (\<open>LegStore\<close>, \<open>CorrStore\<close>);
  the adapter \<open>MangoTelephony\<close> places, bridges and ends legs over them, from the lines and extensions of
  \<open>MangoInventory\<close>; calls from outside are routed to agents (\<open>Inbound\<close>, \<open>AgentProfiles\<close>, \<open>Knowledge\<close>). FreeSWITCH carries
  the audio (\<open>MediaGateway\<close>, \<open>RtpCodec\<close>) and takes commands on its event socket (\<open>EslClient\<close>); a session
  reaches it through a bridge (\<open>AudioBridge\<close>), and \<open>TelephonyRegistry\<close> chooses the telephony provider. A
  transfer dials managers in turn and bridges one (\<open>Managers\<close>, \<open>Transfers\<close>, \<open>MangoTransfer\<close>). Requests pass the abuse policy and run in a unit of work (\<open>RateLimit\<close>,
  \<open>Requests\<close>).

  How the code is modelled.

  Rows and objects are records with a prefix per record (\<open>c_status\<close> is \<open>Call.status\<close>), enumerations are
  datatypes, the database is a record of row lists in insertion order. Every operation is a function from
  the state to a result and the state it leaves: an exception is \<open>Inl\<close> of an \<open>app_error\<close>, with the state as
  the exception finds it. Time is an integer of microseconds and an argument; so are generated ids.
  Calls to the outside are data: an interface is a record of functions (\<open>engine_if\<close>, \<open>transfer_engine\<close>,
  \<open>session_store_if\<close>), and a world records the calls made, in order. Text is Latin-1; Cyrillic literals of the source are
  transliterated or parameters. Logging, metrics and telemetry have no model.

  What follows each other in any order is a step relation. A step of \<open>service_step\<close>, \<open>admin_step\<close>, \<open>live_step\<close> and
  of the runs of \<open>MediaGateway\<close> and \<open>Coordinator\<close> is a whole operation, its awaits included, with whatever the
  outside answers in it; so their properties are about operations in any order, not about operations that
  overlap. Where the code checks before an await and acts after it, and that matters, the operation is
  split: a request is admitted in one step and committed in another (\<open>api_step\<close> in \<open>Requests\<close>: how far requests that
  overlap can pass the limit of calls), two sessions that are admitted together exceed the limit of sessions
  (\<open>limit_can_be_exceeded\<close>), two bindings that are checked together are both stored
  (\<open>concurrent_binds_collide\<close>). The operations on managers are single statements of the database, so their
  interleavings are all covered.

  Interfaces are locales, interpreted on the model's own definitions where these are defined: tables with
  a key (\<open>Database\<close>), the stores and their leases (\<open>LegStore\<close>, \<open>SessionStore\<close>), stages of an audio stream
  (\<open>AudioShaping\<close>) and the others that the theories declare. A property rests on the facts of the
  interpretation.

  The theories, the files under \<open>src/app\<close> they model, and what their lemmas show.

  \<^item> \<open>Prelude\<close>, \<open>PyText\<close>: JSON values, Python's truth values, tables as lists, text and UUID
    operations, with the round trip of UUIDs.
  \<^item> \<open>Calls\<close> (\<open>models/call.py\<close>, \<open>core/exceptions.py\<close>), \<open>Database\<close> (the other models, \<open>repositories\<close>),
    \<open>Phone\<close>, \<open>Settings\<close>: rows and queries; a transcript that is polled is complete.
  \<^item> \<open>CallService\<close> (\<open>services/call_service.py\<close>): every outcome of \<open>create_call\<close>, idempotent stop,
    completion times under any sequence of operations.
  \<^item> \<open>Managers\<close> (\<open>repositories/manager_repo.py\<close>), \<open>Transfers\<close> (\<open>services/transfer_service.py\<close>),
    \<open>MangoTransfer\<close> (\<open>integrations/transfer_engine/mango.py\<close>): exclusive reservation; a transfer never
    leaves a manager's leg behind, stores its result, tries managers in the order of priority and age.
  \<^item> \<open>Routing\<close> (\<open>integrations/call_engine/route_policy.py\<close> and \<open>router_engine.py\<close>): a call stays with its engine; production
    never places a call through a stub.
  \<^item> \<open>RateLimit\<close> (\<open>core/rate_limit.py\<close>), \<open>Requests\<close> (\<open>api/v1/calls.py\<close>,
    \<open>db/session.py\<close>): windows, cooldowns and caps; what a request commits, and the cap on
    calls under requests that overlap.
  \<^item> \<open>LegStore\<close>, \<open>CorrStore\<close>, \<open>MangoEvents\<close> (\<open>integrations/telephony\<close>): an event is applied once, a webhook
    never takes a call backwards, lookups by leg and channel agree, waiting ends.
  \<^item> \<open>MangoTelephony\<close> (\<open>integrations/telephony/mango.py\<close>, \<open>mango_runtime.py\<close>): a call leaves on the primary
    line, an answer that is reported is stored, only legs that are up are bridged. \<open>MangoInventory\<close>
    (\<open>integrations/telephony/mango_client.py\<close>, \<open>services/mango_telephony_service.py\<close>): a synchronisation
    mirrors the provider's lines and keeps every row.
  \<^item> \<open>VapiEvents\<close> (\<open>integrations/vapi/event_processor.py\<close>): terminal calls are left alone, a report settles a call.
    \<open>VapiEngine\<close> (\<open>integrations/vapi/client.py\<close>, \<open>engine.py\<close>): steering is best effort, stopping idempotent;
    an answer that is not JSON has no fallback.
  \<^item> \<open>SessionStore\<close>, \<open>Coordinator\<close> (\<open>integrations/direct/session_store.py\<close>, \<open>session_coordinator.py\<close>): one
    owner per session, leases, steering that reaches an owner that listens on its channel, reconciliation after a
    restart.
  \<^item> \<open>VoiceStrategy\<close>, \<open>DirectSession\<close>, \<open>SessionManager\<close>, \<open>GeminiClient\<close>, \<open>DirectEngine\<close> (\<open>integrations/direct\<close>):
    what opening a session leaves behind, a termination settles everything once, every session that is to stop
    ends, what is spoken is what is recorded, audio crosses the connection intact, a direct call gets a
    session or an engine error (or that of a lazy load).
  \<^item> \<open>AudioShaping\<close> (\<open>core/audio_utils.py\<close>), \<open>RtpCodec\<close>, \<open>MediaGateway\<close> (\<open>integrations/media_gateway\<close>): the
    shaped stream is a function of the concatenated input, codecs and RTP round trips, bounded queues. \<open>EslClient\<close>
    (\<open>integrations/media_gateway/esl_client.py\<close>): a stream of frames is read back whatever the bodies hold.
  \<^item> \<open>AudioBridge\<close> (\<open>integrations/telephony/audio_bridge.py\<close>, \<open>freeswitch_bridge.py\<close>), \<open>TelephonyRegistry\<close>
    (\<open>registry.py\<close>, \<open>capabilities.py\<close>, \<open>stub.py\<close>): a reader gets its audio up to the hangup, bridges keep the
    gateway consistent, closing an open one releases its session and one that was hung up does not;
    automatic selection gives no stub in production.
  \<^item> \<open>Inbound\<close>, \<open>AgentProfiles\<close>, \<open>Knowledge\<close> (\<open>services\<close>): numbers lead to their agents, one call per leg,
    settings updates keep the configuration valid.

  Bounds and fuel. Loops that poll (\<open>wait_for_leg_state\<close>, the watchdogs, the subscriber rounds) take the
  list of clock readings at which they wake, and end with it; the deadline is one of them, so the lists
  that reach it are the executions that return. The batches of the audio loop are those of the code (10
  instructions, 40 chunks in, 100 chunks out), queues hold 200 items as in the code. No other function has
  fuel: recursions are structural or have a termination proof.

  Not modelled. Sockets, HTTP, WebSocket and gRPC clients (only the decoded messages are), the Redis
  variants of the stores but for the ownership lease and the steering channel, encryption and live probes of provider settings, the
  prompting and parsing of summaries (Cyrillic keyword tables; an argument of the model), arithmetic in
  floating point (resampling, but for the inputs it rejects, and fades are parameters, levels are compared exactly on integers), the HTTP
  layer beyond the creation of calls, workers that only call modelled services, the bot, the admin panel,
  scripts and migrations.
\<close>

end
